(* ===== verification/Prelude.thy ===== *)
theory Prelude
  imports Complex_Main
begin

text \<open>
  Generic material shared by every component: the collections of rewrite rules, JavaScript
  library functions the code calls (\<open>Array.prototype.join\<close>, \<open>Array.prototype.sort\<close>,
  \<open>String(n)\<close>, \<open>Number(s)\<close> on decimal integers), and facts on lists, maps and sorting that
  the components reuse.
\<close>

section \<open>Collections of facts\<close>

named_theorems store_simps "effects of the event-store operations"
named_theorems proj_simps "effects of the projections"
named_theorems pay_simps "effects of the payment operations"
named_theorems auth_simps "effects of the identity operations"

section \<open>Results\<close>

text \<open>
  A fallible operation returns \<open>'e + 'a\<close>: \<open>Inl\<close> is what the code throws, \<open>Inr\<close> what it
  returns.
\<close>

type_synonym ('e, 'a) result = "'e + 'a"

definition is_ok :: "('e, 'a) result \<Rightarrow> bool" where
  "is_ok r = (case r of Inl _ \<Rightarrow> False | Inr _ \<Rightarrow> True)"

lemma is_ok_simps [simp]: "is_ok (Inr a)" "\<not> is_ok (Inl e)"
  by (simp_all add: is_ok_def)

section \<open>Strings\<close>

text \<open>\<open>xs.join(sep)\<close>.\<close>

fun join :: "string \<Rightarrow> string list \<Rightarrow> string" where
  "join sep [] = []"
| "join sep [x] = x"
| "join sep (x # y # xs) = x @ sep @ join sep (y # xs)"

lemma join_Cons: "xs \<noteq> [] \<Longrightarrow> join sep (x # xs) = x @ sep @ join sep xs"
  by (cases xs) simp_all

text \<open>Splitting a string at the first occurrence of a separator character.\<close>

lemma append_sep_inject:
  assumes "c \<notin> set a" and "c \<notin> set b"
  shows "a @ c # x = b @ c # y \<longleftrightarrow> a = b \<and> x = y"
  using assms
proof (induction a arbitrary: b)
  case Nil
  then show ?case by (cases b) auto
next
  case (Cons h t)
  then show ?case by (cases b) auto
qed

section \<open>Decimal integers\<close>

text \<open>
  \<open>String(n)\<close> of a non-negative integer, and \<open>Number(s)\<close> of a string of decimal digits. Any other
  string is \<open>None\<close>: \<open>NaN\<close>, or a number the code never writes into the field read.
\<close>

definition digit_char :: "nat \<Rightarrow> char" where
  "digit_char d = char_of (48 + d)"

definition digit_val :: "char \<Rightarrow> nat option" where
  "digit_val c = (if 48 \<le> (of_char c :: nat) \<and> of_char c \<le> (57 :: nat)
                  then Some (of_char c - 48) else None)"

fun show_nat :: "nat \<Rightarrow> string" where
  "show_nat n = (if n < 10 then [digit_char n] else show_nat (n div 10) @ [digit_char (n mod 10)])"

declare show_nat.simps [simp del]

definition read_step :: "nat option \<Rightarrow> char \<Rightarrow> nat option" where
  "read_step acc c = (case (acc, digit_val c) of (Some a, Some d) \<Rightarrow> Some (10 * a + d) | _ \<Rightarrow> None)"

definition read_nat :: "string \<Rightarrow> nat option" where
  "read_nat s = (if s = [] then Some 0 else foldl read_step (Some 0) s)"

lemma digit_val_char [simp]: "d < 10 \<Longrightarrow> digit_val (digit_char d) = Some d"
  by (simp add: digit_val_def digit_char_def of_char_of)

lemma read_step_digit [simp]: "d < 10 \<Longrightarrow> read_step (Some a) (digit_char d) = Some (10 * a + d)"
  by (simp add: read_step_def)

lemma foldl_read_show: "foldl read_step (Some 0) (show_nat n) = Some n"
proof (induction n rule: show_nat.induct)
  case (1 n)
  show ?case
  proof (cases "n < 10")
    case True
    then show ?thesis by (subst show_nat.simps) simp
  next
    case False
    then have *: "foldl read_step (Some 0) (show_nat n)
        = read_step (Some (n div 10)) (digit_char (n mod 10))"
      using "1.IH" by (subst show_nat.simps) simp
    then show ?thesis by simp
  qed
qed

lemma show_nat_nonempty [simp]: "show_nat n \<noteq> []"
  by (subst show_nat.simps) simp

lemma read_show_nat [simp]: "read_nat (show_nat n) = Some n"
  by (simp add: read_nat_def foldl_read_show)

section \<open>Sorting with a comparator\<close>

text \<open>
  \<open>xs.sort(cmp)\<close>, as insertion into the sorted prefix: an element goes before the first one that
  \<open>cmp\<close> puts after it, so it is the stable sort whenever \<open>cmp\<close> is consistent.
\<close>

fun js_insert :: "('a \<Rightarrow> 'a \<Rightarrow> int) \<Rightarrow> 'a \<Rightarrow> 'a list \<Rightarrow> 'a list" where
  "js_insert cmp x [] = [x]"
| "js_insert cmp x (y # ys) = (if cmp x y < 0 then x # y # ys else y # js_insert cmp x ys)"

definition js_sort :: "('a \<Rightarrow> 'a \<Rightarrow> int) \<Rightarrow> 'a list \<Rightarrow> 'a list" where
  "js_sort cmp xs = foldl (\<lambda>acc x. js_insert cmp x acc) [] xs"

lemma set_js_insert [simp]: "set (js_insert cmp x xs) = insert x (set xs)"
  by (induction xs) auto

lemma length_js_insert [simp]: "length (js_insert cmp x xs) = Suc (length xs)"
  by (induction xs) auto

lemma sum_js_insert: "sum_list (map f (js_insert cmp x xs)) = (f x :: int) + sum_list (map f xs)"
  by (induction xs) auto

lemma foldl_js_insert_set: "set (foldl (\<lambda>acc x. js_insert cmp x acc) acc xs) = set acc \<union> set xs"
  by (induction xs arbitrary: acc) auto

lemma set_js_sort [simp]: "set (js_sort cmp xs) = set xs"
  by (simp add: js_sort_def foldl_js_insert_set)

lemma length_foldl_js_insert:
  "length (foldl (\<lambda>acc x. js_insert cmp x acc) acc xs) = length acc + length xs"
  by (induction xs arbitrary: acc) auto

lemma length_js_sort [simp]: "length (js_sort cmp xs) = length xs"
  by (simp add: js_sort_def length_foldl_js_insert)

lemma sum_foldl_js_insert:
  "sum_list (map f (foldl (\<lambda>acc x. js_insert cmp x acc) acc xs))
     = sum_list (map f acc) + (sum_list (map f xs) :: int)"
  by (induction xs arbitrary: acc) (auto simp: sum_js_insert)

lemma sum_js_sort: "sum_list (map f (js_sort cmp xs)) = (sum_list (map f xs) :: int)"
  by (simp add: js_sort_def sum_foldl_js_insert)

text \<open>
  The comparators of the code order by a key: \<open>R\<close> holds between neighbours when \<open>cmp\<close> being
  negative implies \<open>R\<close>, and being non-negative implies the converse.
\<close>

lemma sorted_js_insert:
  assumes neg: "\<And>a b. cmp a b < 0 \<Longrightarrow> R a b"
    and nonneg: "\<And>a b. \<not> cmp a b < 0 \<Longrightarrow> R b a"
    and tr: "\<And>a b c. R a b \<Longrightarrow> R b c \<Longrightarrow> R a c"
    and "sorted_wrt R xs"
  shows "sorted_wrt R (js_insert cmp x xs)"
  using assms(4)
proof (induction xs)
  case Nil
  then show ?case by simp
next
  case (Cons y ys)
  then show ?case by (auto dest: neg nonneg intro: tr)
qed

lemma sorted_js_sort:
  assumes "\<And>a b. cmp a b < 0 \<Longrightarrow> R a b" and "\<And>a b. \<not> cmp a b < 0 \<Longrightarrow> R b a"
    and "\<And>a b c. R a b \<Longrightarrow> R b c \<Longrightarrow> R a c"
  shows "sorted_wrt R (js_sort cmp xs)"
proof -
  have "sorted_wrt R acc \<Longrightarrow> sorted_wrt R (foldl (\<lambda>acc x. js_insert cmp x acc) acc xs)" for acc
  proof (induction xs arbitrary: acc)
    case Nil
    then show ?case by simp
  next
    case (Cons x xs)
    from sorted_js_insert [of cmp R acc x] assms Cons.prems
    have "sorted_wrt R (js_insert cmp x acc)" by blast
    then show ?case using Cons.IH by simp
  qed
  then show ?thesis by (simp add: js_sort_def)
qed

section \<open>Lists\<close>

lemma foldl_snoc_map: "foldl f a (xs @ [x]) = f (foldl f a xs) x"
  by simp

lemma find_key_distinct:
  "distinct (map f xs) \<Longrightarrow> x \<in> set xs \<Longrightarrow> find (\<lambda>y. f y = f x) xs = Some x"
  by (induction xs) auto

lemma find_SomeD: "find P xs = Some x \<Longrightarrow> x \<in> set xs \<and> P x"
  by (induction xs) (auto split: if_splits)

lemma sorted_filter_sort_key:
  "sorted (map f xs) \<Longrightarrow> sort_key f (filter P xs) = filter P xs"
  by (simp add: sort_key_id_if_sorted sorted_filter)

end
