(* ===== verification/Refresh_Tokens.thy ===== *)
theory Refresh_Tokens
  imports Prelude
begin

text \<open>
  Rotating refresh tokens (\<open>apps/identity/src/auth/refresh-token.service.ts\<close>) over the table
  \<open>refresh_tokens\<close>: issue, one-time rotation with a grace window, theft response, logout, pruning. The
  hash is a parameter (SHA-256). A rotation is a plan, made from what it reads, and a write, so that
  requests can be served one at a time or interleave between the two.
\<close>

section \<open>The table\<close>

datatype rt_status = RtActive | RtRotated | RtRevoked

record rt_row =
  rt_id :: string
  rt_familyId :: string
  rt_userId :: string
  rt_tenantId :: string
  rt_hash :: string
  rt_status :: rt_status
  rt_expiresAt :: int
  rt_createdAt :: int
  rt_rotatedAt :: "int option"
  rt_revokedAt :: "int option"

text \<open>
  What a call draws: the random token, the ids, and the clock when it prunes, when it checks and when it
  writes, and the database's clock.
\<close>

record rt_env =
  re_raw :: string
  re_rowId :: string
  re_familyId :: string
  re_pruneAt :: int
  re_checkAt :: int
  re_writeAt :: int
  re_dbNow :: int

record rt_config =
  rc_jwtRefreshTtl :: int
  rc_refreshReuseGraceMs :: int

definition expiry :: "rt_config \<Rightarrow> rt_env \<Rightarrow> int" where
  "expiry cfg e = re_writeAt e + rc_jwtRefreshTtl cfg * 1000"

definition new_row :: "(string \<Rightarrow> string) \<Rightarrow> rt_config \<Rightarrow> rt_env \<Rightarrow> string \<Rightarrow> string \<Rightarrow> string \<Rightarrow> rt_row" where
  "new_row hash cfg e familyId userId tenantId =
     \<lparr>rt_id = re_rowId e, rt_familyId = familyId, rt_userId = userId, rt_tenantId = tenantId,
      rt_hash = hash (re_raw e), rt_status = RtActive, rt_expiresAt = expiry cfg e,
      rt_createdAt = re_dbNow e, rt_rotatedAt = None, rt_revokedAt = None\<rparr>"

text \<open>\<open>create\<close> under the primary key and the unique index on the hash.\<close>

definition create_row :: "rt_row \<Rightarrow> rt_row list \<Rightarrow> rt_row list option" where
  "create_row r db =
     (if rt_id r \<in> rt_id ` set db \<or> rt_hash r \<in> rt_hash ` set db then None else Some (db @ [r]))"

section \<open>Operations\<close>

definition issue ::
    "(string \<Rightarrow> string) \<Rightarrow> rt_config \<Rightarrow> rt_env \<Rightarrow> string \<Rightarrow> string \<Rightarrow> rt_row list
     \<Rightarrow> (string, string \<times> int) result \<times> rt_row list" where
  "issue hash cfg e userId tenantId db =
     (case create_row (new_row hash cfg e (re_familyId e) userId tenantId) db of
        None \<Rightarrow> (Inl ''Unique constraint failed'', db)
      | Some db' \<Rightarrow> (Inr (re_raw e, expiry cfg e), db'))"

definition prune :: "int \<Rightarrow> rt_row list \<Rightarrow> rt_row list" where
  "prune t db = filter (\<lambda>r. \<not> rt_expiresAt r < t) db"

definition graced :: "rt_config \<Rightarrow> int \<Rightarrow> rt_row \<Rightarrow> bool" where
  "graced cfg t r \<longleftrightarrow> rt_status r = RtRotated \<and>
     (case rt_rotatedAt r of None \<Rightarrow> False | Some x \<Rightarrow> t - x < rc_refreshReuseGraceMs cfg)"

text \<open>\<open>findFirst\<close> of the family's active, unexpired rows, the newest first.\<close>

definition active_successor :: "int \<Rightarrow> string \<Rightarrow> rt_row list \<Rightarrow> rt_row option" where
  "active_successor t familyId db =
     (case sort_key (\<lambda>r. - rt_createdAt r)
         (filter (\<lambda>r. rt_familyId r = familyId \<and> rt_status r = RtActive \<and> t \<le> rt_expiresAt r) db) of
        [] \<Rightarrow> None | r # _ \<Rightarrow> Some r)"

datatype rt_plan = RotateRow rt_row | RevokeFamily string | Refuse

definition rotate_plan :: "(string \<Rightarrow> string) \<Rightarrow> rt_config \<Rightarrow> rt_env \<Rightarrow> string \<Rightarrow> rt_row list \<Rightarrow> rt_plan" where
  "rotate_plan hash cfg e raw db =
     (case find (\<lambda>r. rt_hash r = hash raw) db of
        None \<Rightarrow> Refuse
      | Some row \<Rightarrow>
          if rt_status row \<noteq> RtActive
          then (case (if graced cfg (re_checkAt e) row then active_successor (re_checkAt e) (rt_familyId row) db
                      else None) of
                  Some active \<Rightarrow> RotateRow active
                | None \<Rightarrow> RevokeFamily (rt_familyId row))
          else if rt_expiresAt row < re_checkAt e then Refuse
          else RotateRow row)"

definition update_rows :: "(rt_row \<Rightarrow> bool) \<Rightarrow> (rt_row \<Rightarrow> rt_row) \<Rightarrow> rt_row list \<Rightarrow> rt_row list" where
  "update_rows P f db = map (\<lambda>r. if P r then f r else r) db"

definition mark_revoked :: "int \<Rightarrow> rt_row \<Rightarrow> rt_row" where
  "mark_revoked t r = r\<lparr>rt_status := RtRevoked, rt_revokedAt := Some t\<rparr>"

definition mark_rotated :: "int \<Rightarrow> rt_row \<Rightarrow> rt_row" where
  "mark_rotated t r = r\<lparr>rt_status := RtRotated, rt_rotatedAt := Some t\<rparr>"

datatype rotate_result = RotateOk string int string | Reuse | Invalid | RotateFailed

text \<open>\<open>rotateRow\<close>: update and create in one transaction, which fails as a whole.\<close>

definition rotateRow ::
    "(string \<Rightarrow> string) \<Rightarrow> rt_config \<Rightarrow> rt_env \<Rightarrow> rt_row \<Rightarrow> rt_row list \<Rightarrow> rotate_result \<times> rt_row list" where
  "rotateRow hash cfg e row db =
     (if rt_id row \<notin> rt_id ` set db then (RotateFailed, db)
      else (case create_row (new_row hash cfg e (rt_familyId row) (rt_userId row) (rt_tenantId row))
                  (update_rows (\<lambda>r. rt_id r = rt_id row) (mark_rotated (re_writeAt e)) db) of
              None \<Rightarrow> (RotateFailed, db)
            | Some db' \<Rightarrow> (RotateOk (re_raw e) (expiry cfg e) (rt_userId row), db')))"

fun rotate_write ::
    "(string \<Rightarrow> string) \<Rightarrow> rt_config \<Rightarrow> rt_env \<Rightarrow> rt_plan \<Rightarrow> rt_row list \<Rightarrow> rotate_result \<times> rt_row list" where
  "rotate_write hash cfg e (RotateRow row) db = rotateRow hash cfg e row db"
| "rotate_write hash cfg e (RevokeFamily f) db =
     (Reuse, update_rows (\<lambda>r. rt_familyId r = f) (mark_revoked (re_writeAt e)) db)"
| "rotate_write hash cfg e Refuse db = (Invalid, db)"

definition rotate_token ::
    "(string \<Rightarrow> string) \<Rightarrow> rt_config \<Rightarrow> rt_env \<Rightarrow> string \<Rightarrow> rt_row list \<Rightarrow> rotate_result \<times> rt_row list" where
  "rotate_token hash cfg e raw db =
     (let db1 = prune (re_pruneAt e) db in rotate_write hash cfg e (rotate_plan hash cfg e raw db1) db1)"

definition revoke :: "(string \<Rightarrow> string) \<Rightarrow> int \<Rightarrow> string \<Rightarrow> rt_row list \<Rightarrow> rt_row list" where
  "revoke hash t raw db = update_rows (\<lambda>r. rt_hash r = hash raw) (mark_revoked t) db"

section \<open>Requests served one at a time\<close>

text \<open>
  Reachable tables, with the family ids drawn so far: a login draws a family id never drawn before.
\<close>

inductive rt_reach :: "(string \<Rightarrow> string) \<Rightarrow> rt_config \<Rightarrow> rt_row list \<times> string set \<Rightarrow> rt_row list \<times> string set \<Rightarrow> bool"
  for hash cfg st where
  rt_refl: "rt_reach hash cfg st st"
| rt_issue: "rt_reach hash cfg st (db, used) \<Longrightarrow> re_familyId e \<notin> used \<Longrightarrow>
    issue hash cfg e userId tenantId db = (res, db') \<Longrightarrow> rt_reach hash cfg st (db', insert (re_familyId e) used)"
| rt_rotate: "rt_reach hash cfg st (db, used) \<Longrightarrow> rotate_token hash cfg e raw db = (res, db') \<Longrightarrow>
    rt_reach hash cfg st (db', used)"
| rt_revoke: "rt_reach hash cfg st (db, used) \<Longrightarrow> rt_reach hash cfg st (revoke hash t raw db, used)"

definition actives :: "string \<Rightarrow> rt_row list \<Rightarrow> rt_row list" where
  "actives f db = filter (\<lambda>r. rt_familyId r = f \<and> rt_status r = RtActive) db"

definition rt_inv :: "rt_row list \<times> string set \<Rightarrow> bool" where
  "rt_inv st \<longleftrightarrow> distinct (map rt_id (fst st)) \<and> distinct (map rt_hash (fst st))
     \<and> rt_familyId ` set (fst st) \<subseteq> snd st \<and> (\<forall>f. length (actives f (fst st)) \<le> 1)"

lemma update_rows_simps [auth_simps]:
  "(\<And>r. g (f r) = g r) \<Longrightarrow> map g (update_rows P f db) = map g db"
  by (induction db) (auto simp: update_rows_def)

lemma mark_simps [simp]:
  "rt_id (mark_rotated t r) = rt_id r" "rt_hash (mark_rotated t r) = rt_hash r"
  "rt_familyId (mark_rotated t r) = rt_familyId r" "rt_status (mark_rotated t r) = RtRotated"
  "rt_id (mark_revoked t r) = rt_id r" "rt_hash (mark_revoked t r) = rt_hash r"
  "rt_familyId (mark_revoked t r) = rt_familyId r" "rt_status (mark_revoked t r) = RtRevoked"
  by (simp_all add: mark_rotated_def mark_revoked_def)

lemma image_update_rows: "(\<And>r. g (f r) = g r) \<Longrightarrow> g ` set (update_rows P f db) = g ` set db"
  by (metis update_rows_simps set_map)

text \<open>Deactivating rows: updates to a status other than active only shorten the lists of active rows.\<close>

lemma actives_deactivate:
  assumes "\<And>r. rt_familyId (h r) = rt_familyId r" and "\<And>r. rt_status (h r) \<noteq> RtActive"
  shows "actives f (update_rows P h db) = filter (\<lambda>r. \<not> P r) (actives f db)"
  by (induction db) (auto simp: actives_def update_rows_def assms)

lemma actives_append: "actives f (db @ [r]) =
    actives f db @ (if rt_familyId r = f \<and> rt_status r = RtActive then [r] else [])"
  by (simp add: actives_def)

lemma actives_prune: "actives f (prune t db) = prune t (actives f db)"
  by (simp add: actives_def prune_def conj_commute conj_left_commute)

lemma prune_Nil [simp]: "prune t [] = []"
  by (simp add: prune_def)

lemma rt_inv_empty [simp]: "rt_inv ([], used)"
  by (simp add: rt_inv_def actives_def)

lemma prune_inv: "rt_inv (db, used) \<Longrightarrow> rt_inv (prune t db, used)"
  unfolding rt_inv_def
  by (auto simp: prune_def distinct_map_filter actives_prune [unfolded prune_def]
      intro: order_trans [OF length_filter_le])

lemma deactivate_inv:
  assumes "rt_inv (db, used)" and "\<And>r. rt_familyId (h r) = rt_familyId r" and "\<And>r. rt_status (h r) \<noteq> RtActive"
    and "\<And>r. rt_id (h r) = rt_id r" and "\<And>r. rt_hash (h r) = rt_hash r"
  shows "rt_inv (update_rows P h db, used)"
  using assms unfolding rt_inv_def
  by (auto simp: update_rows_simps image_update_rows actives_deactivate
      intro: order_trans [OF length_filter_le])

lemma plan_row_active:
  assumes "rotate_plan hash cfg e raw db = RotateRow row"
  shows "row \<in> set db \<and> rt_status row = RtActive"
proof -
  have "row \<in> set db \<and> rt_status row = RtActive" if "active_successor t f db = Some row" for t f
  proof -
    let ?live = "filter (\<lambda>r. rt_familyId r = f \<and> rt_status r = RtActive \<and> t \<le> rt_expiresAt r) db"
    from that obtain rs where eq: "sort_key (\<lambda>r. - rt_createdAt r) ?live = row # rs"
      by (auto simp: active_successor_def split: list.splits)
    have "row \<in> set (sort_key (\<lambda>r. - rt_createdAt r) ?live)" by (subst eq) simp
    then show ?thesis by simp
  qed
  with assms show ?thesis
    by (auto simp: rotate_plan_def split: option.splits if_splits dest: find_SomeD)
qed

lemma create_row_Some:
  assumes "create_row r db = Some db'"
  shows "db' = db @ [r]" and "rt_id r \<notin> rt_id ` set db" and "rt_hash r \<notin> rt_hash ` set db"
  using assms by (auto simp: create_row_def split: if_splits)

text \<open>Rotating an active row moves the family's one active place to the new row.\<close>

lemma rotateRow_actives:
  assumes "rt_inv (db, used)" and "row \<in> set db" and "rt_status row = RtActive"
    and "rotateRow hash cfg e row db = (RotateOk a b c, db')"
  shows "actives f db' = (if f = rt_familyId row
      then [new_row hash cfg e (rt_familyId row) (rt_userId row) (rt_tenantId row)] else actives f db)"
proof -
  let ?upd = "update_rows (\<lambda>r. rt_id r = rt_id row) (mark_rotated (re_writeAt e)) db"
  let ?new = "new_row hash cfg e (rt_familyId row) (rt_userId row) (rt_tenantId row)"
  have db': "db' = ?upd @ [?new]"
    using assms(4) by (auto simp: rotateRow_def split: if_splits option.splits dest: create_row_Some(1))
  have mem: "row \<in> set (actives (rt_familyId row) db)" using assms(2,3) by (simp add: actives_def)
  have "length (actives (rt_familyId row) db) \<le> 1" using assms(1) by (simp add: rt_inv_def)
  with mem have one: "actives (rt_familyId row) db = [row]"
    by (cases "actives (rt_familyId row) db") auto
  have "r = row" if "r \<in> set db" "rt_id r = rt_id row" for r
    using assms(1,2) that by (auto simp: rt_inv_def distinct_map inj_on_def)
  then have other: "filter (\<lambda>r. rt_id r \<noteq> rt_id row) (actives f db) = actives f db" if "f \<noteq> rt_familyId row"
    using that by (intro filter_True) (auto simp: actives_def)
  show ?thesis
    using one other by (auto simp: db' actives_append actives_deactivate new_row_def)
qed

lemma rotateRow_inv:
  assumes "rt_inv (db, used)" and "row \<in> set db" and "rt_status row = RtActive"
    and "rotateRow hash cfg e row db = (res, db')"
  shows "rt_inv (db', used)"
proof (cases res)
  case (RotateOk a b c)
  let ?upd = "update_rows (\<lambda>r. rt_id r = rt_id row) (mark_rotated (re_writeAt e)) db"
  let ?new = "new_row hash cfg e (rt_familyId row) (rt_userId row) (rt_tenantId row)"
  from assms(4) RotateOk have cr: "create_row ?new ?upd = Some db'"
    by (auto simp: rotateRow_def split: if_splits option.splits)
  have "length (actives f db') \<le> 1" for f
    using rotateRow_actives [OF assms(1-3) assms(4) [unfolded RotateOk], of f] assms(1)
    by (simp add: rt_inv_def)
  moreover have "rt_familyId ?new \<in> used"
    using assms(1,2) by (auto simp: rt_inv_def new_row_def)
  ultimately show ?thesis
    using deactivate_inv [OF assms(1), of "mark_rotated (re_writeAt e)" "\<lambda>r. rt_id r = rt_id row"]
      create_row_Some [OF cr] by (auto simp: rt_inv_def)
qed (use assms in \<open>auto simp: rotateRow_def split: if_splits option.splits\<close>)

lemma rotate_inv:
  assumes "rt_inv (db, used)" and "rotate_token hash cfg e raw db = (res, db')"
  shows "rt_inv (db', used)"
proof -
  let ?db1 = "prune (re_pruneAt e) db"
  note inv = prune_inv [OF assms(1), of "re_pruneAt e"]
  show ?thesis
  proof (cases "rotate_plan hash cfg e raw ?db1")
    case (RotateRow row)
    with assms(2) have "rotateRow hash cfg e row ?db1 = (res, db')" by (simp add: rotate_token_def Let_def)
    with rotateRow_inv [OF inv] plan_row_active [OF RotateRow] show ?thesis by blast
  next
    case (RevokeFamily f)
    with assms(2) deactivate_inv [OF inv, of "mark_revoked (re_writeAt e)"] show ?thesis
      by (auto simp: rotate_token_def Let_def)
  qed (use assms(2) inv in \<open>auto simp: rotate_token_def Let_def\<close>)
qed

lemma issue_inv:
  assumes "rt_inv (db, used)" and "re_familyId e \<notin> used" and "issue hash cfg e u t db = (res, db')"
  shows "rt_inv (db', insert (re_familyId e) used)"
proof (cases "create_row (new_row hash cfg e (re_familyId e) u t) db")
  case None
  with assms show ?thesis by (auto simp: issue_def rt_inv_def)
next
  case (Some x)
  have "actives (re_familyId e) db = []"
    using assms(1,2) by (auto simp: actives_def rt_inv_def filter_empty_conv)
  with assms(1) have "length (actives f (db @ [new_row hash cfg e (re_familyId e) u t])) \<le> 1" for f
    by (cases "re_familyId e = f") (auto simp: rt_inv_def actives_append new_row_def)
  moreover have "db' = db @ [new_row hash cfg e (re_familyId e) u t]"
    using Some assms(3) create_row_Some(1) [OF Some] by (simp add: issue_def)
  moreover have "rt_familyId ` set db \<subseteq> insert (re_familyId e) used" using assms(1) by (auto simp: rt_inv_def)
  moreover have "rt_familyId (new_row hash cfg e (re_familyId e) u t) = re_familyId e" by (simp add: new_row_def)
  ultimately show ?thesis
    using assms(1) create_row_Some(2,3) [OF Some] by (simp add: rt_inv_def)
qed

lemma reach_rt_inv: "rt_reach hash cfg st st' \<Longrightarrow> rt_inv st \<Longrightarrow> rt_inv st'"
proof (induction rule: rt_reach.induct)
  case (rt_revoke db used t raw)
  then show ?case
    unfolding revoke_def by (intro deactivate_inv) simp_all
qed (auto intro: issue_inv rotate_inv)


text \<open>
  C26: A session has at most one live refresh token. In every table that logins, rotations, reuses,
  logouts and prunings served one after the other can reach from an empty one, each family has at most
  one active row, ids and hashes are unique, and no token string can name two rows.
\<close>

theorem one_active_token_per_family:
  assumes "rt_reach hash cfg ([], {}) (db, used)"
  shows "length (filter (\<lambda>r. rt_familyId r = f \<and> rt_status r = RtActive) db) \<le> 1
    \<and> distinct (map rt_id db) \<and> distinct (map rt_hash db)"
  using reach_rt_inv [OF assms rt_inv_empty] by (simp add: rt_inv_def actives_def)

section \<open>The theft response\<close>

definition dead :: "string \<Rightarrow> rt_row list \<times> string set \<Rightarrow> bool" where
  "dead f st \<longleftrightarrow> f \<in> snd st \<and> actives f (fst st) = []"

lemma plan_row_family:
  assumes "rotate_plan hash cfg e raw db = RotateRow row" and "find (\<lambda>r. rt_hash r = hash raw) db = Some r"
  shows "rt_familyId row = rt_familyId r"
proof -
  have "rt_familyId row = f" if "active_successor t f db = Some row" for t f
  proof -
    let ?live = "filter (\<lambda>r. rt_familyId r = f \<and> rt_status r = RtActive \<and> t \<le> rt_expiresAt r) db"
    from that obtain rs where eq: "sort_key (\<lambda>r. - rt_createdAt r) ?live = row # rs"
      by (auto simp: active_successor_def split: list.splits)
    have "row \<in> set (sort_key (\<lambda>r. - rt_createdAt r) ?live)" by (subst eq) simp
    then show ?thesis by simp
  qed
  with assms show ?thesis by (auto simp: rotate_plan_def split: option.splits if_splits)
qed

lemma rotate_dead:
  assumes "rt_inv (db, used)" and "dead f (db, used)" and "rotate_token hash cfg e raw db = (res, db')"
  shows "dead f (db', used)"
proof -
  let ?db1 = "prune (re_pruneAt e) db"
  note inv = prune_inv [OF assms(1), of "re_pruneAt e"]
  have d1: "actives f ?db1 = []" and f: "f \<in> used"
    using assms(2) by (simp_all add: dead_def actives_prune)
  show ?thesis
  proof (cases "rotate_plan hash cfg e raw ?db1")
    case (RotateRow row)
    note row = plan_row_active [OF RotateRow]
    then have "rt_familyId row \<noteq> f" using d1 by (auto simp: actives_def filter_empty_conv)
    moreover have res: "rotateRow hash cfg e row ?db1 = (res, db')"
      using assms(3) RotateRow by (simp add: rotate_token_def Let_def)
    ultimately show ?thesis
      using rotateRow_actives [OF inv, of row hash cfg e _ _ _ db' f] row d1 f
      by (cases res) (auto simp: dead_def rotateRow_def split: if_splits option.splits)
  next
    case (RevokeFamily g)
    with assms(3) d1 f show ?thesis by (auto simp: rotate_token_def Let_def dead_def actives_deactivate)
  qed (use assms(3) d1 f in \<open>auto simp: rotate_token_def Let_def dead_def\<close>)
qed

lemma dead_stays:
  "rt_reach hash cfg st st' \<Longrightarrow> rt_inv st \<Longrightarrow> dead f st \<Longrightarrow> dead f st'"
proof (induction rule: rt_reach.induct)
  case (rt_issue db used e u t res db')
  then show ?case
    by (auto simp: dead_def issue_def actives_append new_row_def dest!: create_row_Some(1) split: option.splits)
next
  case (rt_rotate db used e raw res db')
  then show ?case using reach_rt_inv rotate_dead by blast
next
  case (rt_revoke db used t raw)
  then show ?case by (simp add: dead_def revoke_def actives_deactivate)
qed simp

lemma dead_refused:
  assumes "dead f (db, used)" and "find (\<lambda>r. rt_hash r = hash raw) (prune (re_pruneAt e) db) = Some r"
    and "rt_familyId r = f" and "rotate_token hash cfg e raw db = (res, db')"
  shows "res \<in> {Reuse, Invalid}"
proof -
  let ?db1 = "prune (re_pruneAt e) db"
  show ?thesis
  proof (cases "rotate_plan hash cfg e raw ?db1")
    case (RotateRow row)
    from plan_row_active [OF RotateRow] plan_row_family [OF RotateRow assms(2)] assms(1,3)
    have False by (auto simp: dead_def actives_def filter_empty_conv prune_def)
    then show ?thesis ..
  qed (use assms(4) in \<open>auto simp: rotate_token_def Let_def\<close>)
qed


section \<open>Interleaved requests\<close>

definition sample_rt_env :: "string \<Rightarrow> int \<Rightarrow> rt_env" where
  "sample_rt_env i t = \<lparr>re_raw = ''raw-'' @ i, re_rowId = ''row-'' @ i, re_familyId = ''fam-'' @ i, re_pruneAt = t,
     re_checkAt = t, re_writeAt = t, re_dbNow = t\<rparr>"

definition sample_rt_config :: rt_config where
  "sample_rt_config = \<lparr>rc_jwtRefreshTtl = 3600, rc_refreshReuseGraceMs = 10000\<rparr>"

definition session_db :: "rt_row list" where
  "session_db = snd (issue id sample_rt_config (sample_rt_env ''1'' 0) ''u1'' ''berlin'' [])"

lemmas rt_sample_defs = session_db_def sample_rt_env_def sample_rt_config_def issue_def create_row_def new_row_def
  expiry_def

lemma session_reach: "rt_reach id sample_rt_config ([], {}) (session_db, {''fam-1''})"
proof -
  have "rt_reach id sample_rt_config ([], {}) (session_db, insert (re_familyId (sample_rt_env ''1'' 0)) {})"
  proof (rule rt_issue [OF rt_refl])
    show "issue id sample_rt_config (sample_rt_env ''1'' 0) ''u1'' ''berlin'' [] =
        (fst (issue id sample_rt_config (sample_rt_env ''1'' 0) ''u1'' ''berlin'' []), session_db)"
      by (simp add: session_db_def)
  qed simp
  then show ?thesis by (simp add: sample_rt_env_def)
qed

lemma rotateRow_ok:
  assumes "rt_id row \<in> rt_id ` set db" and "re_rowId e \<notin> rt_id ` set db" and "hash (re_raw e) \<notin> rt_hash ` set db"
  shows "rotateRow hash cfg e row db = (RotateOk (re_raw e) (expiry cfg e) (rt_userId row),
    update_rows (\<lambda>r. rt_id r = rt_id row) (mark_rotated (re_writeAt e)) db
      @ [new_row hash cfg e (rt_familyId row) (rt_userId row) (rt_tenantId row)])"
  using assms by (simp add: rotateRow_def create_row_def image_update_rows) (simp add: new_row_def)

lemma new_row_simps:
  "rt_id (new_row hash cfg e f u t) = re_rowId e" "rt_hash (new_row hash cfg e f u t) = hash (re_raw e)"
  "rt_familyId (new_row hash cfg e f u t) = f" "rt_status (new_row hash cfg e f u t) = RtActive"
  by (simp_all add: new_row_def)

text \<open>
  C28: Rotations that interleave fork the session. In any reachable table, two requests that present the
  same active, unexpired token and both read it before either writes are both answered with a new token,
  although rotation is meant to be one-time, and leave two active rows in the family; and a rotation that
  read the token before a theft response revoked its family puts an active token back into it. Neither
  write checks the status that was read.
\<close>

theorem interleaved_rotations_fork:
  assumes "rt_reach hash cfg ([], {}) (db, used)" and "find (\<lambda>r. rt_hash r = hash raw) db = Some row"
    and "rt_status row = RtActive" and "re_checkAt e1 \<le> rt_expiresAt row" and "re_checkAt e2 \<le> rt_expiresAt row"
    and "re_rowId e1 \<notin> rt_id ` set db" and "re_rowId e2 \<notin> insert (re_rowId e1) (rt_id ` set db)"
    and "hash (re_raw e1) \<notin> rt_hash ` set db" and "hash (re_raw e2) \<notin> insert (hash (re_raw e1)) (rt_hash ` set db)"
  shows "\<exists>db1 db2 db3.
      rotate_write hash cfg e1 (rotate_plan hash cfg e1 raw db) db = (RotateOk (re_raw e1) (expiry cfg e1) (rt_userId row), db1)
    \<and> rotate_write hash cfg e2 (rotate_plan hash cfg e2 raw db) db1 = (RotateOk (re_raw e2) (expiry cfg e2) (rt_userId row), db2)
    \<and> map rt_hash (actives (rt_familyId row) db2) = [hash (re_raw e1), hash (re_raw e2)]
    \<and> rotate_write hash cfg e2 (rotate_plan hash cfg e2 raw db)
          (snd (rotate_write hash cfg e1 (RevokeFamily (rt_familyId row)) db))
        = (RotateOk (re_raw e2) (expiry cfg e2) (rt_userId row), db3)
    \<and> map rt_hash (actives (rt_familyId row) db3) = [hash (re_raw e2)]"
proof -
  let ?f = "rt_familyId row"
  let ?new = "\<lambda>e. new_row hash cfg e ?f (rt_userId row) (rt_tenantId row)"
  let ?rot = "\<lambda>e. update_rows (\<lambda>r. rt_id r = rt_id row) (mark_rotated (re_writeAt e))"
  let ?rev = "update_rows (\<lambda>r. rt_familyId r = ?f) (mark_revoked (re_writeAt e1)) db"
  have inv: "rt_inv (db, used)" using reach_rt_inv [OF assms(1)] by simp
  have mem: "row \<in> set db" using assms(2) by (auto dest: find_SomeD)
  then have rid: "rt_id row \<in> rt_id ` set db" "re_rowId e1 \<noteq> rt_id row" using assms(6) by auto
  have plan: "rotate_plan hash cfg e1 raw db = RotateRow row" "rotate_plan hash cfg e2 raw db = RotateRow row"
    using assms(2-5) by (simp_all add: rotate_plan_def)
  have one: "rotateRow hash cfg e1 row db = (RotateOk (re_raw e1) (expiry cfg e1) (rt_userId row), ?rot e1 db @ [?new e1])"
    using rid(1) assms(6,8) by (rule rotateRow_ok)
  have act1: "actives ?f (?rot e1 db @ [?new e1]) = [?new e1]"
    using rotateRow_actives [OF inv mem assms(3) one, of ?f] by simp
  have two: "rotateRow hash cfg e2 row (?rot e1 db @ [?new e1])
      = (RotateOk (re_raw e2) (expiry cfg e2) (rt_userId row), ?rot e2 (?rot e1 db @ [?new e1]) @ [?new e2])"
    using rid(1) assms(7,9) by (intro rotateRow_ok) (simp_all add: image_update_rows new_row_simps)
  have act2: "actives ?f (?rot e2 (?rot e1 db @ [?new e1]) @ [?new e2]) = [?new e1, ?new e2]"
    using rid(2) by (simp add: actives_append [of _ "?rot e2 _"] actives_deactivate act1 new_row_simps)
  have three: "rotateRow hash cfg e2 row ?rev = (RotateOk (re_raw e2) (expiry cfg e2) (rt_userId row), ?rot e2 ?rev @ [?new e2])"
    using rid(1) assms(7,9) by (intro rotateRow_ok) (simp_all add: image_update_rows)
  have act3: "actives ?f (?rot e2 ?rev @ [?new e2]) = [?new e2]"
    by (simp add: actives_append actives_deactivate new_row_simps) (simp add: actives_def)
  show ?thesis using one two act2 three act3 by (simp add: plan new_row_simps)
qed

theorem interleaved_rotations_fork_witness:
  "\<exists>db1 db2. rotate_write id sample_rt_config (sample_rt_env ''2'' 1)
        (rotate_plan id sample_rt_config (sample_rt_env ''2'' 1) ''raw-1'' session_db) session_db
      = (RotateOk ''raw-2'' 3600001 ''u1'', db1)
    \<and> rotate_write id sample_rt_config (sample_rt_env ''3'' 1)
        (rotate_plan id sample_rt_config (sample_rt_env ''3'' 1) ''raw-1'' session_db) db1
      = (RotateOk ''raw-3'' 3600001 ''u1'', db2)
    \<and> map rt_hash (actives ''fam-1'' db2) = [''raw-2'', ''raw-3'']"
proof -
  have "find (\<lambda>r. rt_hash r = id ''raw-1'') session_db = Some (hd session_db)" by (simp add: rt_sample_defs)
  note fork = interleaved_rotations_fork [OF session_reach this, of "sample_rt_env ''2'' 1" "sample_rt_env ''3'' 1"]
  have row: "rt_familyId (hd session_db) = ''fam-1''" "rt_userId (hd session_db) = ''u1''"
    "re_raw (sample_rt_env ''2'' 1) = ''raw-2''" "re_raw (sample_rt_env ''3'' 1) = ''raw-3''"
    "expiry sample_rt_config (sample_rt_env ''2'' 1) = 3600001" "expiry sample_rt_config (sample_rt_env ''3'' 1) = 3600001"
    "id ''raw-2'' = ''raw-2''" "id ''raw-3'' = ''raw-3''"
    by (simp_all add: rt_sample_defs)
  have "rt_status (hd session_db) = RtActive" "re_checkAt (sample_rt_env ''2'' 1) \<le> rt_expiresAt (hd session_db)"
    "re_checkAt (sample_rt_env ''3'' 1) \<le> rt_expiresAt (hd session_db)"
    "re_rowId (sample_rt_env ''2'' 1) \<notin> rt_id ` set session_db"
    "re_rowId (sample_rt_env ''3'' 1) \<notin> insert (re_rowId (sample_rt_env ''2'' 1)) (rt_id ` set session_db)"
    "id (re_raw (sample_rt_env ''2'' 1)) \<notin> rt_hash ` set session_db"
    "id (re_raw (sample_rt_env ''3'' 1)) \<notin> insert (id (re_raw (sample_rt_env ''2'' 1))) (rt_hash ` set session_db)"
    by (simp_all add: rt_sample_defs)
  from fork [OF this, unfolded row] show ?thesis by (elim exE conjE) (intro exI conjI; assumption)
qed

theorem one_active_token_per_family_witness:
  "length (filter (\<lambda>r. rt_familyId r = ''fam-1'' \<and> rt_status r = RtActive) session_db) \<le> 1"
  using one_active_token_per_family [OF session_reach] by blast

text \<open>A token rotated at time 1 and presented again at time 20001, after the grace window.\<close>

definition rotated_db :: "rt_row list" where
  "rotated_db = snd (rotate_token id sample_rt_config (sample_rt_env ''2'' 1) ''raw-1'' session_db)"


end
