(* ===== verification/Config.thy ===== *)
theory Config
  imports Prelude
begin

text \<open>
  The configuration of the services (\<open>packages/shared/src/config.ts\<close>, \<open>redis.ts\<close>): the environment
  is a function from names to values, an absent variable is \<open>None\<close>, and what the code throws is the
  message. A numeric setting is \<open>Number(s)\<close>, \<open>None\<close> when the string is not a decimal numeral.
\<close>

section \<open>Splitting\<close>

text \<open>\<open>s.split(c)\<close> for a one-character separator: never empty, and \<open>[s]\<close> when \<open>c\<close> does not occur.\<close>

fun split_char :: "char \<Rightarrow> string \<Rightarrow> string list" where
  "split_char c [] = [[]]"
| "split_char c (x # xs) =
     (if x = c then [] # split_char c xs
      else (case split_char c xs of [] \<Rightarrow> [[x]] | y # ys \<Rightarrow> (x # y) # ys))"

lemma split_char_nonempty [simp]: "split_char c s \<noteq> []"
  by (cases s) (auto split: list.splits)

lemma split_char_none: "c \<notin> set s \<Longrightarrow> split_char c s = [s]"
  by (induction s) auto

lemma split_char_append: "c \<notin> set s \<Longrightarrow> split_char c (s @ c # r) = s # split_char c r"
  by (induction s) auto

text \<open>Splitting undoes joining when the separator occurs in no part.\<close>

lemma split_join:
  "ps \<noteq> [] \<Longrightarrow> \<forall>p \<in> set ps. c \<notin> set p \<Longrightarrow> split_char c (join [c] ps) = ps"
proof (induction ps)
  case (Cons p ps)
  then show ?case
    by (cases "ps = []") (simp_all add: join_Cons split_char_append split_char_none)
qed simp

lemma join_split: "join [c] (split_char c s) = s"
proof (induction s)
  case (Cons x xs)
  then show ?case
    by (cases "split_char c xs") (auto simp: join_Cons, cases "tl (split_char c xs)", auto simp: join_Cons)
qed simp

section \<open>Settings\<close>

type_synonym env = "string \<Rightarrow> string option"

record redis_node =
  rn_host :: string
  rn_port :: "nat option"

record app_config =
  databaseUrl :: string
  appDatabaseUrl :: string
  kafkaBrokers :: "string list"
  schemaRegistryUrl :: string
  paymentsUrl :: string
  defaultTenantId :: string
  mongoUri :: string
  redisClusterNodes :: "redis_node list"
  temporalAddress :: string
  sagaSlaSeconds :: "nat option"
  paymentConfirmTimeoutSeconds :: "nat option"
  jwtIssuer :: string
  jwtAudience :: string
  jwtAccessTtl :: "nat option"
  jwtRefreshTtl :: "nat option"
  refreshReuseGraceMs :: "nat option"
  rtCookieName :: string
  rtCookieSecure :: bool
  rtCookiePath :: string
  signingKeyKek :: "string option"
  jwtJwksUrl :: string
  dispatchOfferTimeoutSeconds :: "nat option"
  dispatchMaxOffers :: "nat option"
  dispatchDeliveryTimeoutSeconds :: "nat option"
  tenantCatalogTtlMs :: "nat option"

definition DEFAULT_TENANT_ID :: string where "DEFAULT_TENANT_ID = ''berlin''"

definition DEFAULT_REDIS_NODES :: string where
  "DEFAULT_REDIS_NODES = ''127.0.0.1:7100,127.0.0.1:7101,127.0.0.1:7102,127.0.0.1:7103,127.0.0.1:7104,127.0.0.1:7105''"

text \<open>\<open>env.X ?? d\<close>, and \<open>Number(env.X ?? d)\<close>.\<close>

definition env_or :: "env \<Rightarrow> string \<Rightarrow> string \<Rightarrow> string" where
  "env_or env k d = (case env k of Some v \<Rightarrow> v | None \<Rightarrow> d)"

definition env_num :: "env \<Rightarrow> string \<Rightarrow> nat \<Rightarrow> nat option" where
  "env_num env k d = (case env k of Some v \<Rightarrow> read_nat v | None \<Rightarrow> Some d)"

text \<open>A falsy setting is an absent or an empty one.\<close>

definition env_falsy :: "env \<Rightarrow> string \<Rightarrow> bool" where
  "env_falsy env k \<longleftrightarrow> env k = None \<or> env k = Some []"

definition requireAppDatabaseUrl :: "env \<Rightarrow> (string, string) result" where
  "requireAppDatabaseUrl env =
     (case env ''APP_DATABASE_URL'' of
        None \<Rightarrow> Inl ''APP_DATABASE_URL is required''
      | Some url \<Rightarrow> if url = [] then Inl ''APP_DATABASE_URL is required'' else Inr url)"

definition parse_redis_node :: "string \<Rightarrow> redis_node" where
  "parse_redis_node hp = (case split_char CHR '':'' hp of
     [] \<Rightarrow> \<lparr>rn_host = [], rn_port = None\<rparr>
   | [h] \<Rightarrow> \<lparr>rn_host = h, rn_port = None\<rparr>
   | h # p # _ \<Rightarrow> \<lparr>rn_host = h, rn_port = read_nat p\<rparr>)"

definition loadConfig :: "env \<Rightarrow> (string, app_config) result" where
  "loadConfig env =
     (if env_falsy env ''DATABASE_URL'' then Inl ''DATABASE_URL is required''
      else Inr \<lparr>
        databaseUrl = the (env ''DATABASE_URL''),
        appDatabaseUrl = env_or env ''APP_DATABASE_URL'' (the (env ''DATABASE_URL'')),
        kafkaBrokers = split_char CHR '','' (env_or env ''KAFKA_BROKERS'' ''localhost:9092''),
        schemaRegistryUrl = env_or env ''SCHEMA_REGISTRY_URL'' ''http://localhost:18081'',
        paymentsUrl = env_or env ''PAYMENTS_URL'' ''http://localhost:3004'',
        defaultTenantId = env_or env ''DEFAULT_TENANT_ID'' DEFAULT_TENANT_ID,
        mongoUri = env_or env ''MONGO_URI'' ''mongodb://localhost:27017/flashbite_read'',
        redisClusterNodes = map parse_redis_node
          (split_char CHR '','' (env_or env ''REDIS_CLUSTER_NODES'' DEFAULT_REDIS_NODES)),
        temporalAddress = env_or env ''TEMPORAL_ADDRESS'' ''localhost:7233'',
        sagaSlaSeconds = env_num env ''SAGA_SLA_SECONDS'' 300,
        paymentConfirmTimeoutSeconds = env_num env ''PAYMENT_CONFIRM_TIMEOUT_SECONDS'' 120,
        jwtIssuer = env_or env ''JWT_ISSUER'' ''flashbite-identity'',
        jwtAudience = env_or env ''JWT_AUDIENCE'' ''flashbite'',
        jwtAccessTtl = env_num env ''JWT_ACCESS_TTL'' 900,
        jwtRefreshTtl = env_num env ''JWT_REFRESH_TTL'' 2592000,
        refreshReuseGraceMs = env_num env ''REFRESH_REUSE_GRACE_MS'' 10000,
        rtCookieName = env_or env ''RT_COOKIE_NAME'' ''fb_rt'',
        rtCookieSecure = (env_or env ''RT_COOKIE_SECURE'' ''false'' = ''true''),
        rtCookiePath = env_or env ''RT_COOKIE_PATH'' ''/api/identity/auth'',
        signingKeyKek = env ''SIGNING_KEY_KEK'',
        jwtJwksUrl = env_or env ''JWT_JWKS_URL'' ''http://localhost:3003/.well-known/jwks.json'',
        dispatchOfferTimeoutSeconds = env_num env ''DISPATCH_OFFER_TIMEOUT_SECONDS'' 30,
        dispatchMaxOffers = env_num env ''DISPATCH_MAX_OFFERS'' 5,
        dispatchDeliveryTimeoutSeconds = env_num env ''DISPATCH_DELIVERY_TIMEOUT_SECONDS'' 900,
        tenantCatalogTtlMs = env_num env ''TENANT_CATALOG_TTL_MS'' 60000\<rparr>)"

text \<open>
  \<open>createRedisCluster\<close>'s address map: the announced address \<open>0.0.0.0:port\<close> of each node is read as
  the loopback one. A later node with the same port replaces the entry.
\<close>

definition port_string :: "nat option \<Rightarrow> string" where
  "port_string p = (case p of Some n \<Rightarrow> show_nat n | None \<Rightarrow> ''NaN'')"

definition announced :: "nat option \<Rightarrow> string" where
  "announced p = ''0.0.0.0:'' @ port_string p"

definition natMap :: "redis_node list \<Rightarrow> (string \<rightharpoonup> redis_node)" where
  "natMap nodes = foldl (\<lambda>m n. m(announced (rn_port n)
     \<mapsto> \<lparr>rn_host = ''127.0.0.1'', rn_port = rn_port n\<rparr>)) Map.empty nodes"

section \<open>What the settings guarantee\<close>

lemma requireAppDatabaseUrl_ok:
  "requireAppDatabaseUrl env = Inr url \<longleftrightarrow> env ''APP_DATABASE_URL'' = Some url \<and> url \<noteq> []"
  by (auto simp: requireAppDatabaseUrl_def split: option.splits)

lemma loadConfig_ok: "is_ok (loadConfig env) \<longleftrightarrow> \<not> env_falsy env ''DATABASE_URL''"
  by (simp add: loadConfig_def)

text \<open>
  The two readers differ on a missing restricted URL: \<open>loadConfig\<close> falls back to the superuser's,
  \<open>requireAppDatabaseUrl\<close> refuses.
\<close>

lemma config_fallback_vs_refusal:
  assumes "env ''APP_DATABASE_URL'' = None" and "loadConfig env = Inr cfg"
  shows "appDatabaseUrl cfg = databaseUrl cfg" and "\<not> is_ok (requireAppDatabaseUrl env)"
  using assms by (auto simp: loadConfig_def requireAppDatabaseUrl_def env_or_def split: if_splits)

text \<open>A Redis node written \<open>host:port\<close> is read back as that host and port.\<close>

lemma parse_redis_node_ok:
  assumes "CHR '':'' \<notin> set h"
  shows "parse_redis_node (h @ CHR '':'' # show_nat p) = \<lparr>rn_host = h, rn_port = Some p\<rparr>"
proof -
  have digits: "CHR '':'' \<notin> set (show_nat n)" for n
  proof (induction n rule: show_nat.induct)
    case (1 n)
    have "CHR '':'' \<noteq> digit_char d" if "d < 10" for d
    proof
      assume "CHR '':'' = digit_char d"
      then have "digit_val (digit_char d) = digit_val CHR '':''" by simp
      moreover have "digit_val CHR '':'' = None" by (simp add: digit_val_def)
      ultimately show False using that by simp
    qed
    then show ?case using 1 by (subst show_nat.simps) auto
  qed
  show ?thesis
    by (simp add: parse_redis_node_def split_char_append [OF assms] split_char_none [OF digits])
qed

lemma natMap_snoc:
  "natMap (ns @ [n]) = (natMap ns)(announced (rn_port n)
     \<mapsto> \<lparr>rn_host = ''127.0.0.1'', rn_port = rn_port n\<rparr>)"
  by (simp add: natMap_def)

lemma natMap_loopback:
  "natMap nodes k = Some v \<Longrightarrow> rn_host v = ''127.0.0.1'' \<and> k = announced (rn_port v)
     \<and> (\<exists>n \<in> set nodes. rn_port n = rn_port v)"
proof (induction nodes rule: rev_induct)
  case Nil
  then show ?case by (simp add: natMap_def)
next
  case (snoc n ns)
  then show ?case
    by (cases "k = announced (rn_port n)") (auto simp: natMap_snoc)
qed

end
