(* ===== verification/Cookies.thy ===== *)
theory Cookies
  imports Config
begin

text \<open>
  The refresh-token cookie (\<open>apps/identity/src/auth/cookie.ts\<close>): reading one named cookie out of a
  \<open>Cookie\<close> header and writing \<open>Set-Cookie\<close>, with \<open>encodeURIComponent\<close> and \<open>decodeURIComponent\<close> of the
  standard library. Characters are those up to U+00FF, which is what HTTP headers carry.
\<close>

section \<open>Percent encoding\<close>

definition unreserved :: "char \<Rightarrow> bool" where
  "unreserved c \<longleftrightarrow> (let n = of_char c :: nat in
     65 \<le> n \<and> n \<le> 90 \<or> 97 \<le> n \<and> n \<le> 122 \<or> 48 \<le> n \<and> n \<le> 57) \<or> c \<in> set ''-_.!~*()'' \<or> of_char c = (39 :: nat)"

definition hex_char :: "nat \<Rightarrow> char" where
  "hex_char d = (if d < 10 then char_of (48 + d) else char_of (55 + d))"

definition hex_val :: "char \<Rightarrow> nat option" where
  "hex_val c = (let n = of_char c :: nat in
     if 48 \<le> n \<and> n \<le> 57 then Some (n - 48)
     else if 65 \<le> n \<and> n \<le> 70 then Some (n - 55)
     else if 97 \<le> n \<and> n \<le> 102 then Some (n - 87) else None)"

definition percent :: "nat \<Rightarrow> string" where
  "percent b = [CHR ''%'', hex_char (b div 16), hex_char (b mod 16)]"

text \<open>The UTF-8 bytes of a character up to U+00FF.\<close>

definition encode_char :: "char \<Rightarrow> string" where
  "encode_char c = (if unreserved c then [c] else (let n = of_char c :: nat in
     if n < 128 then percent n else percent (192 + n div 64) @ percent (128 + n mod 64)))"

definition encodeURIComponent :: "string \<Rightarrow> string" where
  "encodeURIComponent s = concat (map encode_char s)"

definition hex_byte :: "char \<Rightarrow> char \<Rightarrow> nat option" where
  "hex_byte a b = (case (hex_val a, hex_val b) of (Some x, Some y) \<Rightarrow> Some (16 * x + y) | _ \<Rightarrow> None)"

text \<open>\<open>None\<close> is the \<open>URIError\<close> of a malformed escape (or an escaped character beyond U+00FF).\<close>

fun decodeURIComponent :: "string \<Rightarrow> string option" where
  "decodeURIComponent [] = Some []"
| "decodeURIComponent (c # cs) =
     (if c \<noteq> CHR ''%'' then map_option ((#) c) (decodeURIComponent cs)
      else (case cs of
        a # b # rest \<Rightarrow>
          (case hex_byte a b of
             None \<Rightarrow> None
           | Some n \<Rightarrow>
               if n < 128 then map_option ((#) (char_of n)) (decodeURIComponent rest)
               else (case rest of
                 p # x # y # rest2 \<Rightarrow>
                   (case hex_byte x y of
                      None \<Rightarrow> None
                    | Some m \<Rightarrow>
                        if p = CHR ''%'' \<and> (n = 194 \<or> n = 195) \<and> 128 \<le> m \<and> m < 192
                        then map_option ((#) (char_of (64 * (n - 192) + (m - 128)))) (decodeURIComponent rest2)
                        else None)
               | _ \<Rightarrow> None))
      | _ \<Rightarrow> None))"

section \<open>Cookies\<close>

definition js_space :: "char \<Rightarrow> bool" where
  "js_space c \<longleftrightarrow> (let n = of_char c :: nat in 9 \<le> n \<and> n \<le> 13 \<or> n = 32 \<or> n = 160)"

definition trim :: "string \<Rightarrow> string" where
  "trim s = rev (dropWhile js_space (rev (dropWhile js_space s)))"

text \<open>The part before and the part after the first occurrence of a character.\<close>

fun split_first :: "char \<Rightarrow> string \<Rightarrow> (string \<times> string) option" where
  "split_first c [] = None"
| "split_first c (x # xs) = (if x = c then Some ([], xs) else map_option (\<lambda>(a, b). (x # a, b)) (split_first c xs))"

text \<open>The loop over the parts of the header: \<open>Inl\<close> is the \<open>URIError\<close> thrown, \<open>Inr None\<close> undefined.\<close>

fun find_cookie :: "string \<Rightarrow> string list \<Rightarrow> (string, string option) result" where
  "find_cookie name [] = Inr None"
| "find_cookie name (part # parts) =
     (case split_first CHR ''='' part of
        None \<Rightarrow> find_cookie name parts
      | Some (k, v) \<Rightarrow>
          if trim k = name
          then (case decodeURIComponent (trim v) of
                  None \<Rightarrow> Inl ''URIError: URI malformed''
                | Some x \<Rightarrow> Inr (Some x))
          else find_cookie name parts)"

definition parseCookie :: "string option \<Rightarrow> string \<Rightarrow> (string, string option) result" where
  "parseCookie header name =
     (case header of
        None \<Rightarrow> Inr None
      | Some h \<Rightarrow> if h = [] then Inr None else find_cookie name (split_char CHR '';'' h))"

record cookie_opts =
  ck_maxAgeSeconds :: nat
  ck_secure :: bool
  ck_path :: string

definition cookie_pair :: "string \<Rightarrow> string \<Rightarrow> string" where
  "cookie_pair name v = name @ ''='' @ encodeURIComponent v"

definition buildSetCookie :: "string \<Rightarrow> string \<Rightarrow> cookie_opts \<Rightarrow> string" where
  "buildSetCookie name v opts = join ''; ''
     ([cookie_pair name v, ''Max-Age='' @ show_nat (ck_maxAgeSeconds opts), ''Path='' @ ck_path opts,
       ''HttpOnly'', ''SameSite=Strict''] @ (if ck_secure opts then [''Secure''] else []))"

definition clearSetCookie :: "string \<Rightarrow> string \<Rightarrow> string" where
  "clearSetCookie name path = name @ ''=; Max-Age=0; Path='' @ path @ ''; HttpOnly; SameSite=Strict''"

section \<open>Reading back what was set\<close>

lemma hex_roundtrip [simp]: "d < 16 \<Longrightarrow> hex_val (hex_char d) = Some d"
  by (auto simp: hex_val_def hex_char_def of_char_of Let_def)

lemma hex_byte_percent [simp]: "b < 256 \<Longrightarrow> hex_byte (hex_char (b div 16)) (hex_char (b mod 16)) = Some b"
  by (simp add: hex_byte_def less_mult_imp_div_less)

lemma not_percent: "unreserved c \<Longrightarrow> c \<noteq> CHR ''%''"
  by (auto simp: unreserved_def Let_def)

lemma latin1_split:
  fixes m :: nat
  assumes "128 \<le> m" and "m < 256"
  shows "m div 64 = 2 \<and> 128 + m mod 64 = m \<or> m div 64 = 3 \<and> 192 + m mod 64 = m"
proof -
  have "m div 64 < 4" using assms(2) by (simp add: less_mult_imp_div_less)
  moreover have "2 \<le> m div 64" using div_le_mono [OF assms(1), of 64] by simp
  ultimately have "m div 64 = 2 \<or> m div 64 = 3" by linarith
  then show ?thesis using mult_div_mod_eq [of 64 m] by (elim disjE) simp_all
qed

lemma decode_encode_char: "decodeURIComponent (encode_char c @ s) = map_option ((#) c) (decodeURIComponent s)"
proof (cases "unreserved c")
  case True
  then show ?thesis using not_percent by (auto simp: encode_char_def)
next
  case False
  let ?n = "of_char c :: nat"
  have n: "?n < 256" by simp
  show ?thesis
  proof (cases "?n < 128")
    case True
    with False show ?thesis by (simp add: encode_char_def percent_def Let_def)
  next
    case big: False
    have lead: "hex_byte (hex_char 12) (hex_char 2) = Some 194" "hex_byte (hex_char 12) (hex_char 3) = Some 195"
      by (simp_all add: hex_byte_def)
    have trail: "hex_byte (hex_char ((128 + ?n mod 64) div 16)) (hex_char ((128 + ?n mod 64) mod 16))
        = Some (128 + ?n mod 64)"
      by (rule hex_byte_percent) linarith
    have enc: "encode_char c = percent (192 + ?n div 64) @ percent (128 + ?n mod 64)"
      using False big by (simp add: encode_char_def Let_def)
    consider "?n div 64 = 2" "128 + ?n mod 64 = ?n" | "?n div 64 = 3" "192 + ?n mod 64 = ?n"
    proof -
      have "?n div 64 = 2 \<and> 128 + ?n mod 64 = ?n \<or> ?n div 64 = 3 \<and> 192 + ?n mod 64 = ?n"
        by (rule latin1_split) (use big n in simp_all)
      then show ?thesis using that by blast
    qed
    then show ?thesis
    proof cases
      case 1
      from 1(2) have "char_of (128 + ?n mod 64) = c" by (simp only: char_of_char)
      with 1(1) show ?thesis by (simp add: enc percent_def lead trail)
    next
      case 2
      from 2(2) have "char_of (192 + ?n mod 64) = c" by (simp only: char_of_char)
      with 2(1) show ?thesis by (simp add: enc percent_def lead trail)
    qed
  qed
qed

lemma decode_encode: "decodeURIComponent (encodeURIComponent s) = Some s"
proof -
  have "decodeURIComponent (encodeURIComponent s @ t) = map_option ((@) s) (decodeURIComponent t)" for t
    by (induction s) (simp_all add: encodeURIComponent_def decode_encode_char option.map_comp comp_def option.map_ident)
  from this [of "[]"] show ?thesis by simp
qed


definition cookie_name_ok :: "string \<Rightarrow> bool" where
  "cookie_name_ok n \<longleftrightarrow> list_all (\<lambda>c. \<not> js_space c \<and> c \<noteq> CHR '';'' \<and> c \<noteq> CHR ''='') n"

definition token_char :: "char \<Rightarrow> bool" where
  "token_char c \<longleftrightarrow> \<not> js_space c \<and> c \<noteq> CHR '';'' \<and> c \<noteq> CHR ''=''"

lemma unreserved_token: "unreserved c \<Longrightarrow> token_char c"
  by (auto simp: unreserved_def token_char_def js_space_def Let_def)

lemma hex_token: "d < 16 \<Longrightarrow> token_char (hex_char d)"
  by (intro unreserved_token) (auto simp: unreserved_def hex_char_def of_char_of Let_def)

lemma percent_token: "b < 256 \<Longrightarrow> c \<in> set (percent b) \<Longrightarrow> token_char c"
  by (auto simp: percent_def hex_token less_mult_imp_div_less) (simp add: token_char_def js_space_def)

lemma encode_token: "c \<in> set (encodeURIComponent s) \<Longrightarrow> token_char c"
proof -
  have "token_char c" if "c \<in> set (encode_char x)" for x
  proof -
    have n: "(of_char x :: nat) < 256" by simp
    then have "192 + (of_char x :: nat) div 64 < 256" "128 + (of_char x :: nat) mod 64 < 256" by linarith+
    with that n show ?thesis
      using percent_token [of "of_char x" c] percent_token [of "192 + of_char x div 64" c]
        percent_token [of "128 + of_char x mod 64" c]
      by (auto simp: encode_char_def Let_def unreserved_token split: if_splits)
  qed
  then show "c \<in> set (encodeURIComponent s) \<Longrightarrow> token_char c" by (auto simp: encodeURIComponent_def)
qed

lemma trim_token: "\<forall>c \<in> set s. token_char c \<Longrightarrow> trim s = s"
proof -
  have "dropWhile js_space s = s" if "\<forall>c \<in> set s. token_char c" for s
    using that by (cases s) (auto simp: token_char_def)
  then show "\<forall>c \<in> set s. token_char c \<Longrightarrow> trim s = s" by (simp add: trim_def)
qed

lemma trim_space: "trim (CHR '' '' # s) = trim s"
  by (simp add: trim_def js_space_def)

lemma split_first_append: "c \<notin> set a \<Longrightarrow> split_first c (a @ c # b) = Some (a, b)"
  by (induction a) auto

lemma split_first_pair:
  assumes "cookie_name_ok n"
  shows "split_first CHR ''='' (cookie_pair n v) = Some (n, encodeURIComponent v)"
    and "split_first CHR ''='' (CHR '' '' # cookie_pair n v) = Some (CHR '' '' # n, encodeURIComponent v)"
proof -
  have "CHR ''='' \<notin> set n" using assms by (auto simp: cookie_name_ok_def list_all_iff)
  then show "split_first CHR ''='' (cookie_pair n v) = Some (n, encodeURIComponent v)"
    and "split_first CHR ''='' (CHR '' '' # cookie_pair n v) = Some (CHR '' '' # n, encodeURIComponent v)"
    by (simp_all add: cookie_pair_def split_first_append)
qed

lemma trim_name: "cookie_name_ok n \<Longrightarrow> trim n = n" "cookie_name_ok n \<Longrightarrow> trim (CHR '' '' # n) = n"
  by (simp_all add: trim_space trim_token cookie_name_ok_def list_all_iff token_char_def)

lemma trim_encoded: "trim (encodeURIComponent v) = encodeURIComponent v"
  by (rule trim_token) (simp add: encode_token)

lemma find_cookie_step:
  assumes "cookie_name_ok n"
  shows "find_cookie name (cookie_pair n v # ps) = (if n = name then Inr (Some v) else find_cookie name ps)"
    and "find_cookie name ((CHR '' '' # cookie_pair n v) # ps) =
      (if n = name then Inr (Some v) else find_cookie name ps)"
  using assms by (simp_all add: split_first_pair trim_name trim_encoded decode_encode)

lemma find_cookie_pairs:
  "\<forall>(n, v) \<in> set cs. cookie_name_ok n \<Longrightarrow>
   find_cookie name (map (\<lambda>(n, v). CHR '' '' # cookie_pair n v) cs) = Inr (map_of cs name)"
  by (induction cs) (auto simp: find_cookie_step simp del: find_cookie.simps(2))

lemma split_header:
  assumes "\<forall>p \<in> set ps. CHR '';'' \<notin> set p"
  shows "split_char CHR '';'' (join ''; '' (p # ps)) =
    (if CHR '';'' \<in> set p then split_char CHR '';'' (join ''; '' (p # ps)) else p # map ((#) CHR '' '') ps)"
  using assms
proof (induction ps arbitrary: p)
  case Nil
  then show ?case by (simp add: split_char_none)
next
  case (Cons q ps)
  then have "split_char CHR '';'' (join ''; '' (q # ps)) = q # map ((#) CHR '' '') ps"
    using Cons.IH [of q] by simp
  then show ?case by (simp add: split_char_append)
qed

text \<open>
  Cookies are read back as they were set. From a header of any cookies, named without spaces,
  semicolons and equal signs and with any values, \<open>parseCookie\<close> returns the value of the first cookie of
  the name asked for, decoded to what \<open>buildSetCookie\<close> was given, and undefined when there is none.
\<close>

theorem cookie_roundtrip:
  assumes "\<forall>(n, v) \<in> set cs. cookie_name_ok n"
  shows "parseCookie (Some (join ''; '' (map (\<lambda>(n, v). cookie_pair n v) cs))) name = Inr (map_of cs name)"
proof (cases cs)
  case Nil
  then show ?thesis by (simp add: parseCookie_def)
next
  case (Cons c cs')
  obtain n v where c: "c = (n, v)" by force
  have clean: "CHR '';'' \<notin> set (cookie_pair n v)" if "cookie_name_ok n" for n v
  proof -
    have "CHR '';'' \<notin> set n" using that by (auto simp: cookie_name_ok_def list_all_iff)
    moreover have "CHR '';'' \<notin> set (encodeURIComponent v)" using encode_token by (auto simp: token_char_def)
    ultimately show ?thesis by (simp add: cookie_pair_def)
  qed
  let ?ps = "map (\<lambda>(n, v). cookie_pair n v) cs'"
  have "\<forall>p \<in> set ?ps. CHR '';'' \<notin> set p" using clean assms Cons by auto
  from split_header [OF this, of "cookie_pair n v"] clean [of n v] assms Cons c
  have "split_char CHR '';'' (join ''; '' (map (\<lambda>(n, v). cookie_pair n v) cs)) =
      cookie_pair n v # map (\<lambda>(n, v). CHR '' '' # cookie_pair n v) cs'"
    by (simp add: comp_def case_prod_beta)
  moreover have "join ''; '' (map (\<lambda>(n, v). cookie_pair n v) cs) \<noteq> []"
    by (cases cs') (auto simp: Cons c cookie_pair_def)
  moreover have "find_cookie name (cookie_pair n v # map (\<lambda>(n, v). CHR '' '' # cookie_pair n v) cs')
      = Inr (map_of cs name)"
    using find_cookie_pairs [of cs' name] assms
    by (simp add: Cons c find_cookie_step del: find_cookie.simps(2))
  ultimately show ?thesis by (simp add: parseCookie_def)
qed

theorem cookie_roundtrip_witness:
  "parseCookie (Some (join ''; '' (map (\<lambda>(n, v). cookie_pair n v)
     [(''a'', ''x;y=%''), (''fb_rt_admin'', ''t0k3n'')]))) ''fb_rt_admin'' = Inr (Some ''t0k3n'')"
  using cookie_roundtrip [of "[(''a'', ''x;y=%''), (''fb_rt_admin'', ''t0k3n'')]" "''fb_rt_admin''"]
  by (simp add: cookie_name_ok_def js_space_def)

end
