(* ===== verification/Contracts.thy ===== *)
theory Contracts
  imports Prelude
begin

text \<open>
  The shared vocabulary of \<open>packages/contracts/src/index.ts\<close>: the event envelope, payloads, event
  types, topics, statuses, read-model views, key helpers and role names.

  A payload is cast from \<open>unknown\<close> at every use, so it is one record of optional fields: reading a
  field the JSON object lacks gives \<open>undefined\<close>, here \<open>None\<close>. The constants of an enumeration-like
  object become a datatype, with a constructor for the strings outside it where the code can meet
  one. A timestamp string is the instant its ISO-8601 rendering denotes (milliseconds), or a string
  that is no date. Amounts and counts are integers, as the request validation demands.
\<close>

section \<open>Timestamps\<close>

datatype datestr = ISO int | NotDate string

text \<open>\<open>Date.parse\<close>: \<open>None\<close> is \<open>NaN\<close>.\<close>

fun date_parse :: "datestr \<Rightarrow> int option" where
  "date_parse (ISO t) = Some t"
| "date_parse (NotDate _) = None"

section \<open>Events and payloads\<close>

record order_item =
  sku :: string
  qty :: int
  price :: int

record payload =
  pl_orderId :: "string option"
  pl_customerId :: "string option"
  pl_items :: "order_item list option"
  pl_totalAmount :: "int option"
  pl_reason :: "string option"
  pl_driverId :: "string option"
  pl_lng :: "real option"
  pl_lat :: "real option"

definition no_payload :: payload where
  "no_payload = \<lparr>pl_orderId = None, pl_customerId = None, pl_items = None, pl_totalAmount = None,
     pl_reason = None, pl_driverId = None, pl_lng = None, pl_lat = None\<rparr>"

definition order_placed_payload :: "string \<Rightarrow> string \<Rightarrow> order_item list \<Rightarrow> int \<Rightarrow> payload" where
  "order_placed_payload oid cid its tot = no_payload
     \<lparr>pl_orderId := Some oid, pl_customerId := Some cid, pl_items := Some its, pl_totalAmount := Some tot\<rparr>"

definition order_id_payload :: "string \<Rightarrow> payload" where
  "order_id_payload oid = no_payload\<lparr>pl_orderId := Some oid\<rparr>"

definition reason_payload :: "string \<Rightarrow> string \<Rightarrow> payload" where
  "reason_payload oid r = no_payload\<lparr>pl_orderId := Some oid, pl_reason := Some r\<rparr>"

definition driver_payload :: "string \<Rightarrow> string \<Rightarrow> payload" where
  "driver_payload oid d = no_payload\<lparr>pl_orderId := Some oid, pl_driverId := Some d\<rparr>"

definition telemetry_payload :: "string \<Rightarrow> string option \<Rightarrow> real \<Rightarrow> real \<Rightarrow> payload" where
  "telemetry_payload d oid lng lat = no_payload
     \<lparr>pl_driverId := Some d, pl_orderId := oid, pl_lng := Some lng, pl_lat := Some lat\<rparr>"

lemmas payload_defs = no_payload_def order_placed_payload_def order_id_payload_def
  reason_payload_def driver_payload_def telemetry_payload_def

datatype event_type =
    OrderPlaced | OrderAccepted | OrderCancelled
  | DriverTelemetryStreamed
  | DriverOffered | DispatchAccepted | OrderPickedUp | OrderDelivered | DispatchFailed
  | UnknownEvent string

fun event_type_name :: "event_type \<Rightarrow> string" where
  "event_type_name OrderPlaced = ''OrderPlaced''"
| "event_type_name OrderAccepted = ''OrderAccepted''"
| "event_type_name OrderCancelled = ''OrderCancelled''"
| "event_type_name DriverTelemetryStreamed = ''DriverTelemetryStreamed''"
| "event_type_name DriverOffered = ''DriverOffered''"
| "event_type_name DispatchAccepted = ''DispatchAccepted''"
| "event_type_name OrderPickedUp = ''OrderPickedUp''"
| "event_type_name OrderDelivered = ''OrderDelivered''"
| "event_type_name DispatchFailed = ''DispatchFailed''"
| "event_type_name (UnknownEvent s) = s"

definition known_event_types :: "event_type list" where
  "known_event_types = [OrderPlaced, OrderAccepted, OrderCancelled, DriverTelemetryStreamed,
     DriverOffered, DispatchAccepted, OrderPickedUp, OrderDelivered, DispatchFailed]"

text \<open>The event type a string denotes.\<close>

definition event_type_of :: "string \<Rightarrow> event_type" where
  "event_type_of s = (case find (\<lambda>t. event_type_name t = s) known_event_types of
     Some t \<Rightarrow> t | None \<Rightarrow> UnknownEvent s)"

text \<open>An event type is proper when it is not a known name in disguise.\<close>

definition proper_event_type :: "event_type \<Rightarrow> bool" where
  "proper_event_type t \<longleftrightarrow> event_type_of (event_type_name t) = t"

lemma distinct_event_type_names: "distinct (map event_type_name known_event_types)"
  by code_simp

lemma known_event_type_proper:
  "t \<in> set known_event_types \<Longrightarrow> event_type_of (event_type_name t) = t"
  by (simp add: event_type_of_def find_key_distinct [OF distinct_event_type_names])

record envelope =
  e_tenantId :: string
  e_eventId :: string
  e_eventType :: event_type
  e_version :: nat
  e_occurredAt :: datestr
  e_correlationId :: string
  e_payload :: payload

section \<open>Statuses and reasons\<close>

datatype aggregate_type = ORDER | DISPATCH

datatype order_status = PLACED | ACCEPTED | CANCELLED

datatype dispatch_status = OFFERED | DISPATCHED | PICKED_UP | DELIVERED | FAILED

datatype payment_status = PAY_AUTHORIZED | PAY_CAPTURED | PAY_VOIDED | PAY_DECLINED

datatype payment_outcome = Authorized | Declined | Captured | Voided

datatype saga_result =
    R_ACCEPTED | R_CANCELLED_SLA | R_CANCELLED_DECLINED | R_CANCELLED_PAYMENT_FAILED
  | R_CANCELLED_PAYMENT_TIMEOUT | R_DELIVERED | R_DISPATCH_FAILED

definition SLA_BREACH :: string where "SLA_BREACH = ''SLA_BREACH''"
definition DECLINED :: string where "DECLINED = ''DECLINED''"
definition PAYMENT_FAILED :: string where "PAYMENT_FAILED = ''PAYMENT_FAILED''"
definition PAYMENT_TIMEOUT :: string where "PAYMENT_TIMEOUT = ''PAYMENT_TIMEOUT''"
definition NO_DRIVERS_AVAILABLE :: string where "NO_DRIVERS_AVAILABLE = ''NO_DRIVERS_AVAILABLE''"
definition DELIVERY_TIMEOUT :: string where "DELIVERY_TIMEOUT = ''DELIVERY_TIMEOUT''"

lemmas reason_defs = SLA_BREACH_def DECLINED_def PAYMENT_FAILED_def PAYMENT_TIMEOUT_def
  NO_DRIVERS_AVAILABLE_def DELIVERY_TIMEOUT_def

section \<open>Topics, subjects and consumers\<close>

datatype topic = ORDER_EVENTS | TELEMETRY_STREAMS | DISPATCH_EVENTS

fun topic_name :: "topic \<Rightarrow> string" where
  "topic_name ORDER_EVENTS = ''order-events''"
| "topic_name TELEMETRY_STREAMS = ''telemetry-streams''"
| "topic_name DISPATCH_EVENTS = ''dispatch-events''"

datatype consumer_group =
  CG_PROJECTION | CG_SAGA | CG_READ_API_SSE | CG_TELEMETRY | CG_DISPATCH_PROJECTION

fun consumer_group_name :: "consumer_group \<Rightarrow> string" where
  "consumer_group_name CG_PROJECTION = ''projection-worker''"
| "consumer_group_name CG_SAGA = ''saga-worker''"
| "consumer_group_name CG_READ_API_SSE = ''read-api-sse''"
| "consumer_group_name CG_TELEMETRY = ''telemetry-worker''"
| "consumer_group_name CG_DISPATCH_PROJECTION = ''dispatch-projection''"

record subject_entry =
  sub_eventType :: event_type
  sub_topic :: topic
  sub_recordName :: string
  sub_avsc :: string

definition SUBJECTS :: "subject_entry list" where
  "SUBJECTS =
    [\<lparr>sub_eventType = OrderPlaced, sub_topic = ORDER_EVENTS, sub_recordName = ''OrderPlaced'', sub_avsc = ''order-placed.avsc''\<rparr>,
     \<lparr>sub_eventType = OrderAccepted, sub_topic = ORDER_EVENTS, sub_recordName = ''OrderAccepted'', sub_avsc = ''order-accepted.avsc''\<rparr>,
     \<lparr>sub_eventType = OrderCancelled, sub_topic = ORDER_EVENTS, sub_recordName = ''OrderCancelled'', sub_avsc = ''order-cancelled.avsc''\<rparr>,
     \<lparr>sub_eventType = DriverTelemetryStreamed, sub_topic = TELEMETRY_STREAMS, sub_recordName = ''DriverTelemetry'', sub_avsc = ''driver-telemetry.avsc''\<rparr>,
     \<lparr>sub_eventType = DriverOffered, sub_topic = DISPATCH_EVENTS, sub_recordName = ''DriverOffered'', sub_avsc = ''driver-offered.avsc''\<rparr>,
     \<lparr>sub_eventType = DispatchAccepted, sub_topic = DISPATCH_EVENTS, sub_recordName = ''DispatchAccepted'', sub_avsc = ''dispatch-accepted.avsc''\<rparr>,
     \<lparr>sub_eventType = OrderPickedUp, sub_topic = DISPATCH_EVENTS, sub_recordName = ''OrderPickedUp'', sub_avsc = ''order-picked-up.avsc''\<rparr>,
     \<lparr>sub_eventType = OrderDelivered, sub_topic = DISPATCH_EVENTS, sub_recordName = ''OrderDelivered'', sub_avsc = ''order-delivered.avsc''\<rparr>,
     \<lparr>sub_eventType = DispatchFailed, sub_topic = DISPATCH_EVENTS, sub_recordName = ''DispatchFailed'', sub_avsc = ''dispatch-failed.avsc''\<rparr>]"

definition AVRO_NAMESPACE :: string where "AVRO_NAMESPACE = ''com.flashbite.events''"

definition subjectFor :: "topic \<Rightarrow> string \<Rightarrow> string" where
  "subjectFor t r = topic_name t @ ''-'' @ AVRO_NAMESPACE @ ''.'' @ r"

section \<open>Keys\<close>

definition tenantKey :: "string \<Rightarrow> string list \<Rightarrow> string" where
  "tenantKey t parts = join '':'' ((''tenant:{'' @ t @ ''}'') # parts)"

definition driverGeoKey :: "string \<Rightarrow> string" where
  "driverGeoKey t = tenantKey t [''drivers'', ''geo'']"

definition driverOnlineKey :: "string \<Rightarrow> string" where
  "driverOnlineKey t = tenantKey t [''drivers'', ''online'']"

definition driverBusyKey :: "string \<Rightarrow> string" where
  "driverBusyKey t = tenantKey t [''drivers'', ''busy'']"

definition dispatchAggregateId :: "string \<Rightarrow> string" where
  "dispatchAggregateId oid = ''dispatch:'' @ oid"

text \<open>A key written \<open>${a}:${b}\<close>.\<close>

definition colon_key :: "string \<Rightarrow> string \<Rightarrow> string" where
  "colon_key a b = a @ '':'' @ b"

lemma colon_key_inject:
  "CHR '':'' \<notin> set a \<Longrightarrow> CHR '':'' \<notin> set a' \<Longrightarrow> colon_key a b = colon_key a' b' \<longleftrightarrow> a = a' \<and> b = b'"
  by (simp add: colon_key_def append_sep_inject)

lemma colon_key_inject2 [simp]: "colon_key a b = colon_key a b' \<longleftrightarrow> b = b'"
  by (simp add: colon_key_def)

lemma tenantKey_nonempty: "parts \<noteq> [] \<Longrightarrow>
  tenantKey t parts = ''tenant:{'' @ t @ CHR ''}'' # '':'' @ join '':'' parts"
  by (simp add: tenantKey_def join_Cons)

section \<open>Read-model views\<close>

record order_view =
  ov_tenantId :: string
  ov_orderId :: "string option"
  ov_customerId :: "string option"
  ov_items :: "order_item list option"
  ov_totalAmount :: "int option"
  ov_status :: order_status
  ov_version :: nat
  ov_updatedAt :: datestr
  ov_cancelReason :: "string option"

record dispatch_view =
  dv_tenantId :: string
  dv_orderId :: "string option"
  dv_status :: dispatch_status
  dv_driverId :: "string option"
  dv_offeredDriverId :: "string option"
  dv_reason :: "string option"
  dv_version :: nat
  dv_updatedAt :: datestr
  dv_offerExpiresAt :: "datestr option"

record tenant_view =
  tv_slug :: string
  tv_displayName :: string
  tv_lng :: real
  tv_lat :: real
  tv_status :: string
  tv_brandColor :: "string option"

record nearby_driver =
  nd_driverId :: string
  nd_distanceKm :: real
  nd_lng :: real
  nd_lat :: real

section \<open>Roles\<close>

definition ROLE_CUSTOMER :: string where "ROLE_CUSTOMER = ''customer''"
definition ROLE_MERCHANT :: string where "ROLE_MERCHANT = ''merchant''"
definition ROLE_DRIVER :: string where "ROLE_DRIVER = ''driver''"
definition ROLE_ADMIN :: string where "ROLE_ADMIN = ''admin''"
definition ROLE_OPERATOR :: string where "ROLE_OPERATOR = ''operator''"

lemmas role_defs = ROLE_CUSTOMER_def ROLE_MERCHANT_def ROLE_DRIVER_def ROLE_ADMIN_def ROLE_OPERATOR_def

section \<open>Progress orders on the statuses\<close>

text \<open>
  The statuses of an aggregate are ordered by how far its life cycle has come; the state machines
  are shown monotone in these orders.
\<close>

fun order_rank :: "order_status \<Rightarrow> nat" where
  "order_rank PLACED = 0"
| "order_rank ACCEPTED = 1"
| "order_rank CANCELLED = 2"

lemma order_rank_inject [simp]: "order_rank a = order_rank b \<longleftrightarrow> a = b"
  by (cases a; cases b) auto

instantiation order_status :: linorder
begin

definition less_eq_order_status :: "order_status \<Rightarrow> order_status \<Rightarrow> bool" where
  "less_eq_order_status a b \<longleftrightarrow> order_rank a \<le> order_rank b"

definition less_order_status :: "order_status \<Rightarrow> order_status \<Rightarrow> bool" where
  "less_order_status a b \<longleftrightarrow> order_rank a < order_rank b"

instance
  by standard (auto simp: less_eq_order_status_def less_order_status_def)

end

fun dispatch_rank :: "dispatch_status \<Rightarrow> nat" where
  "dispatch_rank OFFERED = 0"
| "dispatch_rank DISPATCHED = 1"
| "dispatch_rank PICKED_UP = 2"
| "dispatch_rank DELIVERED = 3"
| "dispatch_rank FAILED = 4"

lemma dispatch_rank_inject [simp]: "dispatch_rank a = dispatch_rank b \<longleftrightarrow> a = b"
  by (cases a; cases b) auto

instantiation dispatch_status :: linorder
begin

definition less_eq_dispatch_status :: "dispatch_status \<Rightarrow> dispatch_status \<Rightarrow> bool" where
  "less_eq_dispatch_status a b \<longleftrightarrow> dispatch_rank a \<le> dispatch_rank b"

definition less_dispatch_status :: "dispatch_status \<Rightarrow> dispatch_status \<Rightarrow> bool" where
  "less_dispatch_status a b \<longleftrightarrow> dispatch_rank a < dispatch_rank b"

instance
  by standard (auto simp: less_eq_dispatch_status_def less_dispatch_status_def)

end

lemmas status_order_defs = less_eq_order_status_def less_order_status_def
  less_eq_dispatch_status_def less_dispatch_status_def

end
