(* ===== verification/Event_Store.thy ===== *)
theory Event_Store
  imports Contracts
begin

text \<open>
  The write plane's storage: the observability context and \<open>buildEnvelope\<close>
  (\<open>obs-context.ts\<close>, \<open>envelope.ts\<close>), the tenant-scoped transaction under row-level security
  (\<open>tenant-transaction.ts\<close> and the policies of the migration), and \<open>loadAggregate\<close> /
  \<open>appendWithExpectedVersion\<close> (\<open>aggregate-store.ts\<close>) over the tables \<open>event_store\<close> and
  \<open>outbox\<close>, which are lists of rows in insertion order.

  What a call draws from its environment (random UUIDs, the clocks of the process and of the
  database) is a record of the values drawn.
\<close>

section \<open>Observability context and envelopes\<close>

record obs_context =
  oc_correlationId :: string
  oc_tenantId :: "string option"
  oc_eventId :: "string option"

text \<open>\<open>obsLogFields\<close>: the fields of the context in scope, without the absent or empty ones.\<close>

definition obs_field :: "string \<Rightarrow> string option \<Rightarrow> (string \<times> string) list" where
  "obs_field k v = (case v of None \<Rightarrow> [] | Some s \<Rightarrow> if s = [] then [] else [(k, s)])"

definition obsLogFields :: "obs_context option \<Rightarrow> (string \<times> string) list" where
  "obsLogFields ctx = (case ctx of
     None \<Rightarrow> []
   | Some c \<Rightarrow> (''correlationId'', oc_correlationId c)
       # obs_field ''tenantId'' (oc_tenantId c) @ obs_field ''eventId'' (oc_eventId c))"

record draws =
  su_eventId :: string
  su_correlationId :: string
  su_now :: int
  su_dbNow :: int

definition nullish :: "'a option \<Rightarrow> 'a \<Rightarrow> 'a" where
  "nullish a b = (case a of Some x \<Rightarrow> x | None \<Rightarrow> b)"

lemma nullish_simps [simp]: "nullish (Some x) b = x" "nullish None b = b"
  by (simp_all add: nullish_def)

definition buildEnvelope ::
    "obs_context option \<Rightarrow> draws \<Rightarrow> string \<Rightarrow> event_type \<Rightarrow> nat \<Rightarrow> payload
     \<Rightarrow> string option \<Rightarrow> datestr option \<Rightarrow> string option \<Rightarrow> envelope" where
  "buildEnvelope obs su tenantId eventType version payload eventId occurredAt correlationId =
     \<lparr>e_tenantId = tenantId,
      e_eventId = nullish eventId (su_eventId su),
      e_eventType = eventType,
      e_version = version,
      e_occurredAt = nullish occurredAt (ISO (su_now su)),
      e_correlationId = nullish correlationId
        (nullish (map_option oc_correlationId obs) (su_correlationId su)),
      e_payload = payload\<rparr>"

section \<open>Tables, roles and row-level security\<close>

record event_row =
  ev_id :: string
  ev_tenantId :: string
  ev_aggregateType :: aggregate_type
  ev_aggregateId :: string
  ev_version :: nat
  ev_eventType :: event_type
  ev_payload :: payload
  ev_occurredAt :: int

datatype outbox_status = PENDING | SENT

record outbox_row =
  ob_id :: string
  ob_tenantId :: string
  ob_topic :: topic
  ob_partitionKey :: string
  ob_eventType :: event_type
  ob_payload :: envelope
  ob_status :: outbox_status
  ob_createdAt :: int

record pg_state =
  pg_events :: "event_row list"
  pg_outbox :: "outbox_row list"

definition empty_pg :: pg_state where
  "empty_pg = \<lparr>pg_events = [], pg_outbox = []\<rparr>"

text \<open>
  The superuser bypasses the policies; the restricted role sees and writes a row only when the
  row's tenant is the transaction-local setting \<open>app.tenant_id\<close>, and nothing when it is unset.
\<close>

datatype db_role = AppRole | SuperUser

definition rls_admits :: "db_role \<Rightarrow> string option \<Rightarrow> string \<Rightarrow> bool" where
  "rls_admits role guc tenant \<longleftrightarrow> role = SuperUser \<or> guc = Some tenant"

datatype db_error = UniqueViolation | RlsViolation

definition insert_event ::
    "db_role \<Rightarrow> string option \<Rightarrow> event_row \<Rightarrow> pg_state \<Rightarrow> (db_error, pg_state) result" where
  "insert_event role guc row pg =
     (if \<not> rls_admits role guc (ev_tenantId row) then Inl RlsViolation
      else if (\<exists>r \<in> set (pg_events pg). ev_id r = ev_id row
                \<or> ev_tenantId r = ev_tenantId row \<and> ev_aggregateId r = ev_aggregateId row
                  \<and> ev_version r = ev_version row)
      then Inl UniqueViolation
      else Inr (pg\<lparr>pg_events := pg_events pg @ [row]\<rparr>))"

definition insert_outbox ::
    "db_role \<Rightarrow> string option \<Rightarrow> outbox_row \<Rightarrow> pg_state \<Rightarrow> (db_error, pg_state) result" where
  "insert_outbox role guc row pg =
     (if \<not> rls_admits role guc (ob_tenantId row) then Inl RlsViolation
      else if (\<exists>r \<in> set (pg_outbox pg). ob_id r = ob_id row) then Inl UniqueViolation
      else Inr (pg\<lparr>pg_outbox := pg_outbox pg @ [row]\<rparr>))"

text \<open>
  \<open>withTenantTransaction\<close>: the body runs with the setting equal to the tenant; an error rolls the
  state back.
\<close>

definition withTenantTransaction ::
    "string \<Rightarrow> (string option \<Rightarrow> pg_state \<Rightarrow> ('e, 'a \<times> pg_state) result) \<Rightarrow> pg_state
     \<Rightarrow> ('e, 'a) result \<times> pg_state" where
  "withTenantTransaction tenantId body pg =
     (case body (Some tenantId) pg of
        Inl e \<Rightarrow> (Inl e, pg)
      | Inr (a, pg') \<Rightarrow> (Inr a, pg'))"

section \<open>Loading and appending\<close>

record fold_event =
  fe_eventType :: event_type
  fe_payload :: payload
  fe_version :: nat

definition fold_event_of :: "event_row \<Rightarrow> fold_event" where
  "fold_event_of r = \<lparr>fe_eventType = ev_eventType r, fe_payload = ev_payload r, fe_version = ev_version r\<rparr>"

definition find_events :: "db_role \<Rightarrow> string option \<Rightarrow> string \<Rightarrow> string \<Rightarrow> pg_state \<Rightarrow> event_row list" where
  "find_events role guc tenantId aggregateId pg =
     sort_key ev_version
       (filter (\<lambda>r. rls_admits role guc (ev_tenantId r) \<and> ev_tenantId r = tenantId
                    \<and> ev_aggregateId r = aggregateId) (pg_events pg))"

definition loadAggregate ::
    "db_role \<Rightarrow> string \<Rightarrow> string \<Rightarrow> ('s \<Rightarrow> fold_event \<Rightarrow> 's) \<Rightarrow> 's \<Rightarrow> pg_state \<Rightarrow> 's \<times> nat" where
  "loadAggregate role tenantId aggregateId fld initial pg =
     foldl (\<lambda>(state, version) r. (fld state (fold_event_of r), ev_version r)) (initial, 0)
       (find_events role (Some tenantId) tenantId aggregateId pg)"

record append_args =
  aa_tenantId :: string
  aa_aggregateType :: aggregate_type
  aa_aggregateId :: string
  aa_expectedVersion :: nat
  aa_eventType :: event_type
  aa_payload :: payload
  aa_topic :: "topic option"
  aa_correlationId :: "string option"

datatype store_error = ConcurrencyError string nat | DatabaseError db_error

definition append_envelope :: "obs_context option \<Rightarrow> draws \<Rightarrow> append_args \<Rightarrow> envelope" where
  "append_envelope obs su args = buildEnvelope obs su (aa_tenantId args) (aa_eventType args)
     (aa_expectedVersion args + 1) (aa_payload args) None None (aa_correlationId args)"

definition append_event_row :: "obs_context option \<Rightarrow> draws \<Rightarrow> append_args \<Rightarrow> event_row" where
  "append_event_row obs su args =
     \<lparr>ev_id = e_eventId (append_envelope obs su args), ev_tenantId = aa_tenantId args,
      ev_aggregateType = aa_aggregateType args, ev_aggregateId = aa_aggregateId args,
      ev_version = aa_expectedVersion args + 1, ev_eventType = aa_eventType args,
      ev_payload = aa_payload args, ev_occurredAt = su_dbNow su\<rparr>"

definition append_outbox_row :: "obs_context option \<Rightarrow> draws \<Rightarrow> append_args \<Rightarrow> outbox_row" where
  "append_outbox_row obs su args =
     \<lparr>ob_id = e_eventId (append_envelope obs su args), ob_tenantId = aa_tenantId args,
      ob_topic = nullish (aa_topic args) ORDER_EVENTS,
      ob_partitionKey = colon_key (aa_tenantId args) (aa_aggregateId args),
      ob_eventType = aa_eventType args, ob_payload = append_envelope obs su args,
      ob_status = PENDING, ob_createdAt = su_dbNow su\<rparr>"

definition appendWithExpectedVersion ::
    "db_role \<Rightarrow> obs_context option \<Rightarrow> draws \<Rightarrow> append_args \<Rightarrow> pg_state
     \<Rightarrow> (store_error, envelope) result \<times> pg_state" where
  "appendWithExpectedVersion role obs su args pg =
     (case withTenantTransaction (aa_tenantId args)
         (\<lambda>guc tx. case insert_event role guc (append_event_row obs su args) tx of
            Inl e \<Rightarrow> Inl e
          | Inr tx' \<Rightarrow>
             (case insert_outbox role guc (append_outbox_row obs su args) tx' of
                Inl e \<Rightarrow> Inl e
              | Inr tx'' \<Rightarrow> Inr (append_envelope obs su args, tx''))) pg of
        (Inr env, pg') \<Rightarrow> (Inr env, pg')
      | (Inl UniqueViolation, pg') \<Rightarrow>
          (Inl (ConcurrencyError (aa_aggregateId args) (aa_expectedVersion args + 1)), pg')
      | (Inl RlsViolation, pg') \<Rightarrow> (Inl (DatabaseError RlsViolation), pg'))"

section \<open>Streams and the store's invariant\<close>

definition stream :: "pg_state \<Rightarrow> string \<Rightarrow> string \<Rightarrow> event_row list" where
  "stream pg t a = filter (\<lambda>r. ev_tenantId r = t \<and> ev_aggregateId r = a) (pg_events pg)"

text \<open>The outbox row that goes with an event row.\<close>

definition outbox_matches :: "event_row \<Rightarrow> outbox_row \<Rightarrow> bool" where
  "outbox_matches r b \<longleftrightarrow> ob_id b = ev_id r \<and> ob_tenantId b = ev_tenantId r
     \<and> ob_partitionKey b = colon_key (ev_tenantId r) (ev_aggregateId r)
     \<and> ob_eventType b = ev_eventType r
     \<and> e_eventId (ob_payload b) = ev_id r \<and> e_tenantId (ob_payload b) = ev_tenantId r
     \<and> e_eventType (ob_payload b) = ev_eventType r \<and> e_version (ob_payload b) = ev_version r
     \<and> e_payload (ob_payload b) = ev_payload r"

definition contiguous :: "pg_state \<Rightarrow> bool" where
  "contiguous pg \<longleftrightarrow> (\<forall>t a. map ev_version (stream pg t a) = [1..<Suc (length (stream pg t a))])"

definition store_inv :: "pg_state \<Rightarrow> bool" where
  "store_inv pg \<longleftrightarrow> contiguous pg \<and> list_all2 outbox_matches (pg_events pg) (pg_outbox pg)
     \<and> distinct (map ev_id (pg_events pg))"

lemma store_inv_empty [simp]: "store_inv empty_pg"
  by (simp add: store_inv_def contiguous_def stream_def empty_pg_def)

lemma stream_contiguous: "store_inv pg \<Longrightarrow> map ev_version (stream pg t a) = [1..<Suc (length (stream pg t a))]"
  by (simp add: store_inv_def contiguous_def)

lemma stream_versions: "store_inv pg \<Longrightarrow> ev_version ` set (stream pg t a) = {1..length (stream pg t a)}"
  by (metis stream_contiguous atLeastLessThanSuc_atLeastAtMost set_map set_upt)

lemma mem_stream: "r \<in> set (stream pg t a) \<longleftrightarrow> r \<in> set (pg_events pg) \<and> ev_tenantId r = t \<and> ev_aggregateId r = a"
  by (auto simp: stream_def)

lemma version_taken_iff:
  assumes "store_inv pg"
  shows "(\<exists>r \<in> set (pg_events pg). ev_tenantId r = t \<and> ev_aggregateId r = a \<and> ev_version r = v)
         \<longleftrightarrow> 1 \<le> v \<and> v \<le> length (stream pg t a)"
proof -
  have "(\<exists>r \<in> set (pg_events pg). ev_tenantId r = t \<and> ev_aggregateId r = a \<and> ev_version r = v)
        \<longleftrightarrow> v \<in> ev_version ` set (stream pg t a)"
    by (auto simp: mem_stream)
  then show ?thesis by (simp add: stream_versions [OF assms])
qed

lemma find_events_stream:
  assumes "store_inv pg"
  shows "find_events role (Some t) t a pg = stream pg t a"
proof -
  have "filter (\<lambda>r. rls_admits role (Some t) (ev_tenantId r) \<and> ev_tenantId r = t \<and> ev_aggregateId r = a)
          (pg_events pg) = stream pg t a"
    unfolding stream_def by (rule filter_cong) (auto simp: rls_admits_def)
  moreover have "sorted (map ev_version (stream pg t a))"
    by (simp add: stream_contiguous [OF assms] del: upt_Suc)
  ultimately show ?thesis by (simp add: find_events_def sort_key_id_if_sorted)
qed

definition fold_stream :: "('s \<Rightarrow> fold_event \<Rightarrow> 's) \<Rightarrow> 's \<Rightarrow> event_row list \<Rightarrow> 's" where
  "fold_stream fld initial rs = foldl (\<lambda>s r. fld s (fold_event_of r)) initial rs"

lemma fold_stream_simps [simp]:
  "fold_stream fld initial [] = initial"
  "fold_stream fld initial (rs @ [r]) = fld (fold_stream fld initial rs) (fold_event_of r)"
  by (simp_all add: fold_stream_def)

lemma load_fold_pair:
  "foldl (\<lambda>(state, version) r. (fld state (fold_event_of r), ev_version r)) (s, v) rs
     = (fold_stream fld s rs, if rs = [] then v else ev_version (last rs))"
  by (induction rs arbitrary: s v) (auto simp: fold_stream_def)

lemma last_stream_version:
  assumes "store_inv pg" and "stream pg t a \<noteq> []"
  shows "ev_version (last (stream pg t a)) = length (stream pg t a)"
proof -
  have "ev_version (last (stream pg t a)) = last [1..<Suc (length (stream pg t a))]"
    using assms by (simp add: last_map [symmetric] stream_contiguous del: upt_Suc)
  also have "\<dots> = length (stream pg t a)"
    using assms(2) by (cases "stream pg t a") auto
  finally show ?thesis .
qed

text \<open>Loading folds the whole stream and returns its length as the version.\<close>

lemma loadAggregate_eq:
  assumes "store_inv pg"
  shows "loadAggregate role t a fld initial pg
           = (fold_stream fld initial (stream pg t a), length (stream pg t a))"
  using last_stream_version [OF assms]
  by (simp add: loadAggregate_def find_events_stream [OF assms] load_fold_pair)

section \<open>What an append does\<close>

lemma append_row_simps [store_simps]:
  "ev_id (append_event_row obs su args) = su_eventId su"
  "ev_tenantId (append_event_row obs su args) = aa_tenantId args"
  "ev_aggregateType (append_event_row obs su args) = aa_aggregateType args"
  "ev_aggregateId (append_event_row obs su args) = aa_aggregateId args"
  "ev_version (append_event_row obs su args) = Suc (aa_expectedVersion args)"
  "ev_eventType (append_event_row obs su args) = aa_eventType args"
  "ev_payload (append_event_row obs su args) = aa_payload args"
  "ob_id (append_outbox_row obs su args) = su_eventId su"
  "ob_tenantId (append_outbox_row obs su args) = aa_tenantId args"
  by (simp_all add: append_event_row_def append_outbox_row_def append_envelope_def buildEnvelope_def)

lemma append_rows_match [simp]:
  "outbox_matches (append_event_row obs su args) (append_outbox_row obs su args)"
  by (simp add: outbox_matches_def append_event_row_def append_outbox_row_def append_envelope_def
      buildEnvelope_def)

definition id_taken :: "string \<Rightarrow> pg_state \<Rightarrow> bool" where
  "id_taken i pg \<longleftrightarrow> (\<exists>r \<in> set (pg_events pg). ev_id r = i)"

lemma outbox_id_taken:
  assumes "list_all2 outbox_matches es obs"
  shows "(\<exists>b \<in> set obs. ob_id b = i) \<longleftrightarrow> (\<exists>r \<in> set es. ev_id r = i)"
  using assms by (induction rule: list_all2_induct) (auto simp: outbox_matches_def)

text \<open>
  The whole behaviour of an append over a store that satisfies the invariant: it conflicts when the
  id or the version is taken, and otherwise adds exactly one event row and its outbox row.
\<close>

lemma append_eq:
  assumes inv: "store_inv pg"
  shows "appendWithExpectedVersion role obs su args pg =
    (if id_taken (su_eventId su) pg
        \<or> aa_expectedVersion args < length (stream pg (aa_tenantId args) (aa_aggregateId args))
     then (Inl (ConcurrencyError (aa_aggregateId args) (Suc (aa_expectedVersion args))), pg)
     else (Inr (append_envelope obs su args),
           pg\<lparr>pg_events := pg_events pg @ [append_event_row obs su args],
              pg_outbox := pg_outbox pg @ [append_outbox_row obs su args]\<rparr>))"
proof -
  let ?k = "aa_tenantId args" and ?a = "aa_aggregateId args"
  have rls: "rls_admits role (Some ?k) ?k" by (simp add: rls_admits_def)
  have taken: "(\<exists>r \<in> set (pg_events pg). ev_id r = su_eventId su
        \<or> ev_tenantId r = ?k \<and> ev_aggregateId r = ?a \<and> ev_version r = Suc (aa_expectedVersion args))
      \<longleftrightarrow> id_taken (su_eventId su) pg \<or> aa_expectedVersion args < length (stream pg ?k ?a)"
    using version_taken_iff [OF inv, of ?k ?a "Suc (aa_expectedVersion args)"]
    by (auto simp: id_taken_def)
  have ob: "(\<exists>b \<in> set (pg_outbox pg). ob_id b = su_eventId su) \<longleftrightarrow> id_taken (su_eventId su) pg"
    using inv by (simp add: store_inv_def id_taken_def outbox_id_taken)
  show ?thesis
    using rls taken ob
    by (auto simp: appendWithExpectedVersion_def withTenantTransaction_def insert_event_def
        insert_outbox_def store_simps)
qed

lemma stream_snoc:
  "stream (pg\<lparr>pg_events := pg_events pg @ [r], pg_outbox := bs\<rparr>) t a
     = (if ev_tenantId r = t \<and> ev_aggregateId r = a then stream pg t a @ [r] else stream pg t a)"
  by (simp add: stream_def)

text \<open>
  The contract of a successful append by a writer whose expected version is not ahead of the
  stream: the version was current, the invariant is kept, the writer's stream grows by its event
  and no other stream changes.
\<close>

lemma append_success:
  assumes inv: "store_inv pg"
    and ver: "aa_expectedVersion args \<le> length (stream pg (aa_tenantId args) (aa_aggregateId args))"
    and app: "appendWithExpectedVersion role obs su args pg = (Inr env, pg')"
  shows "aa_expectedVersion args = length (stream pg (aa_tenantId args) (aa_aggregateId args))"
    and "store_inv pg'"
    and "stream pg' t a = (if t = aa_tenantId args \<and> a = aa_aggregateId args
           then stream pg t a @ [append_event_row obs su args] else stream pg t a)"
    and "pg_events pg' = pg_events pg @ [append_event_row obs su args]"
    and "env = append_envelope obs su args"
proof -
  let ?k = "aa_tenantId args" and ?a = "aa_aggregateId args" and ?r = "append_event_row obs su args"
  from app have free: "\<not> id_taken (su_eventId su) pg"
    and cur: "\<not> aa_expectedVersion args < length (stream pg ?k ?a)"
    and env: "env = append_envelope obs su args"
    and pg': "pg' = pg\<lparr>pg_events := pg_events pg @ [?r],
                        pg_outbox := pg_outbox pg @ [append_outbox_row obs su args]\<rparr>"
    by (auto simp: append_eq [OF inv] split: if_splits)
  from cur ver show eq: "aa_expectedVersion args = length (stream pg ?k ?a)" by simp
  show st: "stream pg' t a = (if t = ?k \<and> a = ?a then stream pg t a @ [?r] else stream pg t a)" for t a
    by (auto simp: pg' stream_snoc store_simps)
  show "pg_events pg' = pg_events pg @ [?r]" by (simp add: pg')
  show "env = append_envelope obs su args" by (rule env)
  have "contiguous pg'"
    using stream_contiguous [OF inv] eq by (auto simp: contiguous_def st store_simps Suc_le_eq)
  moreover have "list_all2 outbox_matches (pg_events pg') (pg_outbox pg')"
    using inv by (simp add: pg' store_inv_def list_all2_appendI)
  moreover have "distinct (map ev_id (pg_events pg'))"
    using inv free by (auto simp: pg' store_inv_def id_taken_def store_simps)
  ultimately show "store_inv pg'" by (simp add: store_inv_def)
qed

lemma append_failure:
  "store_inv pg \<Longrightarrow> appendWithExpectedVersion role obs su args pg = (Inl e, pg') \<Longrightarrow>
   pg' = pg \<and> e = ConcurrencyError (aa_aggregateId args) (Suc (aa_expectedVersion args))"
  by (simp add: append_eq split: if_splits)

text \<open>A fresh writer at the current version always succeeds.\<close>

lemma append_progress:
  assumes "store_inv pg" and "\<not> id_taken (su_eventId su) pg"
    and "aa_expectedVersion args = length (stream pg (aa_tenantId args) (aa_aggregateId args))"
  shows "\<exists>pg'. appendWithExpectedVersion role obs su args pg = (Inr (append_envelope obs su args), pg')"
  using assms by (simp add: append_eq)

section \<open>Properties of the store\<close>

text \<open>What is left of the tables when only one tenant's rows are kept, and without them.\<close>

definition tenant_part :: "string \<Rightarrow> pg_state \<Rightarrow> pg_state" where
  "tenant_part t pg = \<lparr>pg_events = filter (\<lambda>r. ev_tenantId r = t) (pg_events pg),
     pg_outbox = filter (\<lambda>r. ob_tenantId r = t) (pg_outbox pg)\<rparr>"

definition others_part :: "string \<Rightarrow> pg_state \<Rightarrow> pg_state" where
  "others_part t pg = \<lparr>pg_events = filter (\<lambda>r. ev_tenantId r \<noteq> t) (pg_events pg),
     pg_outbox = filter (\<lambda>r. ob_tenantId r \<noteq> t) (pg_outbox pg)\<rparr>"

lemma find_events_tenant_part:
  "find_events role (Some t) t a (tenant_part t pg) = find_events role (Some t) t a pg"
  by (simp add: find_events_def tenant_part_def)
    (rule arg_cong [where f = "sort_key ev_version"], rule filter_cong, auto)

lemma append_adds:
  assumes "appendWithExpectedVersion role obs su args pg = (r, pg')"
  shows "pg' = pg \<or> pg' = pg\<lparr>pg_events := pg_events pg @ [append_event_row obs su args],
     pg_outbox := pg_outbox pg @ [append_outbox_row obs su args]\<rparr>"
  using assms
  by (auto simp: appendWithExpectedVersion_def withTenantTransaction_def insert_event_def
      insert_outbox_def split: if_splits)

text \<open>
  C10: Tenant isolation of the event store. Loading an aggregate of a tenant depends on that tenant's
  rows only; an append in a tenant's name leaves every row of every other tenant as it was; and the
  row-level policy of the restricted role alone refuses a row of another tenant, whatever the code
  around it does.
\<close>

theorem event_store_tenant_isolation:
  "loadAggregate role t a fld initial pg = loadAggregate role t a fld initial (tenant_part t pg)
   \<and> others_part (aa_tenantId args) (snd (appendWithExpectedVersion role obs su args pg))
       = others_part (aa_tenantId args) pg
   \<and> (guc = Some (ev_tenantId row) \<or> insert_event AppRole guc row pg = Inl RlsViolation)
   \<and> (guc = Some (ob_tenantId orow) \<or> insert_outbox AppRole guc orow pg = Inl RlsViolation)"
proof -
  have "others_part (aa_tenantId args) (snd (appendWithExpectedVersion role obs su args pg))
       = others_part (aa_tenantId args) pg"
    using append_adds [of role obs su args pg]
    by (cases "appendWithExpectedVersion role obs su args pg") (auto simp: others_part_def store_simps)
  then show ?thesis
    by (simp add: loadAggregate_def find_events_tenant_part insert_event_def insert_outbox_def
        rls_admits_def)
qed

text \<open>
  Loading after appending. When an append at the loaded version succeeds, the next load of the
  aggregate returns the folded state advanced by exactly that event, at the next version, and the
  load of every other aggregate is unchanged; the outbox has grown by the matching pending row.
\<close>

theorem load_after_append:
  assumes "store_inv pg"
    and "loadAggregate role t a fld initial pg = (s, v)"
    and "aa_tenantId args = t" and "aa_aggregateId args = a" and "aa_expectedVersion args = v"
    and "appendWithExpectedVersion role obs su args pg = (Inr env, pg')"
  shows "loadAggregate role' t a fld initial pg' =
      (fld s \<lparr>fe_eventType = aa_eventType args, fe_payload = aa_payload args, fe_version = Suc v\<rparr>, Suc v)
    \<and> (\<forall>t' a'. (t', a') \<noteq> (t, a) \<longrightarrow>
        loadAggregate role' t' a' fld initial pg' = loadAggregate role' t' a' fld initial pg)
    \<and> (\<exists>b. pg_outbox pg' = pg_outbox pg @ [b] \<and> ob_status b = PENDING \<and> ob_payload b = env
        \<and> outbox_matches (last (pg_events pg')) b)"
proof -
  from assms have v: "v = length (stream pg t a)" and s: "s = fold_stream fld initial (stream pg t a)"
    by (auto simp: loadAggregate_eq)
  have ver: "aa_expectedVersion args \<le> length (stream pg (aa_tenantId args) (aa_aggregateId args))"
    using assms v by simp
  note ok = append_success [OF assms(1) ver assms(6)]
  have "pg' = pg\<lparr>pg_events := pg_events pg @ [append_event_row obs su args],
     pg_outbox := pg_outbox pg @ [append_outbox_row obs su args]\<rparr>"
    using append_adds [OF assms(6)] ok(4) by auto
  then have "\<exists>b. pg_outbox pg' = pg_outbox pg @ [b] \<and> ob_status b = PENDING \<and> ob_payload b = env
        \<and> outbox_matches (last (pg_events pg')) b"
    using ok(5) by (intro exI [of _ "append_outbox_row obs su args"]) (simp, simp add: append_outbox_row_def)
  with assms(3,4,5) v s show ?thesis
    by (auto simp: loadAggregate_eq [OF ok(2)] loadAggregate_eq [OF assms(1)] ok(3) fold_event_of_def
        store_simps)
qed

definition sample_draws :: "string \<Rightarrow> draws" where
  "sample_draws i = \<lparr>su_eventId = i, su_correlationId = ''corr'', su_now = 1000, su_dbNow = 1001\<rparr>"

definition sample_append :: append_args where
  "sample_append = \<lparr>aa_tenantId = ''berlin'', aa_aggregateType = ORDER, aa_aggregateId = ''o1'',
     aa_expectedVersion = 0, aa_eventType = OrderPlaced,
     aa_payload = order_placed_payload ''o1'' ''c1'' [\<lparr>sku = ''s'', qty = 1, price = 5\<rparr>] 5,
     aa_topic = None, aa_correlationId = None\<rparr>"

definition sample_pg :: pg_state where
  "sample_pg = \<lparr>pg_events = [append_event_row None (sample_draws ''e1'') sample_append],
     pg_outbox = [append_outbox_row None (sample_draws ''e1'') sample_append]\<rparr>"

lemma sample_append_ok:
  "appendWithExpectedVersion AppRole None (sample_draws ''e1'') sample_append empty_pg
     = (Inr (append_envelope None (sample_draws ''e1'') sample_append), sample_pg)"
  by (simp add: append_eq sample_append_def sample_pg_def sample_draws_def id_taken_def stream_def)
    (simp add: empty_pg_def)

theorem load_after_append_witness:
  "loadAggregate AppRole ''berlin'' ''o1'' (\<lambda>n e. n + fe_version e) 0 sample_pg = (1, 1)"
  using load_after_append [where fld = "\<lambda>n e. n + fe_version e" and initial = 0 and t = "''berlin''"
      and a = "''o1''" and s = 0 and v = 0 and role = AppRole and role' = AppRole, OF _ _ _ _ _ sample_append_ok]
  by (simp add: sample_append_def loadAggregate_eq stream_def) (simp add: empty_pg_def)

end
