(* ===== verification/Tenant_Context.thy ===== *)
theory Tenant_Context
  imports Event_Store Config
begin

text \<open>
  The request pipeline every public service runs before a controller
  (\<open>packages/tenant-context/src\<close>): \<open>CorrelationMiddleware\<close>, \<open>AuthMiddleware\<close> with
  \<open>TokenVerifier\<close>, \<open>RolesGuard\<close> and \<open>TenantGuard\<close>, and the cached tenant catalog the last one asks
  (\<open>packages/shared/src/tenant-catalog.ts\<close>). The JWT library is the parameter \<open>jwtVerify\<close>.
\<close>

section \<open>HTTP errors and JSON values\<close>

datatype http_error =
    BadRequest string | Unauthorized string | Forbidden string | NotFound string
  | Conflict string | ServiceUnavailable string | InternalError string

fun http_status :: "http_error \<Rightarrow> nat" where
  "http_status (BadRequest _) = 400"
| "http_status (Unauthorized _) = 401"
| "http_status (Forbidden _) = 403"
| "http_status (NotFound _) = 404"
| "http_status (Conflict _) = 409"
| "http_status (ServiceUnavailable _) = 503"
| "http_status (InternalError _) = 500"

text \<open>What \<open>JSON.parse\<close> yields; an integral number is \<open>JInt\<close>. An absent property is \<open>None\<close>.\<close>

datatype json =
  JNull | JBool bool | JInt int | JFrac real | JStr string | JArr "json list" | JObj "(string \<times> json) list"

definition jget :: "string \<Rightarrow> json \<Rightarrow> json option" where
  "jget k j = (case j of JObj kvs \<Rightarrow> map_of (rev kvs) k | _ \<Rightarrow> None)"

definition jstr :: "json option \<Rightarrow> string option" where
  "jstr j = (case j of Some (JStr s) \<Rightarrow> Some s | _ \<Rightarrow> None)"

definition jint :: "json option \<Rightarrow> int option" where
  "jint j = (case j of Some (JInt n) \<Rightarrow> Some n | _ \<Rightarrow> None)"

section \<open>Correlation\<close>

datatype header_value = NoHeader | OneValue string | ManyValues "string list"

text \<open>\<open>(Array.isArray(inbound) ? inbound[0] : inbound) || newCorrelationId()\<close>.\<close>

definition inbound_id :: "header_value \<Rightarrow> string option" where
  "inbound_id h = (case h of NoHeader \<Rightarrow> None | OneValue s \<Rightarrow> Some s
     | ManyValues [] \<Rightarrow> None | ManyValues (s # _) \<Rightarrow> Some s)"

text \<open>The context in which the rest of the request runs, and the response header set.\<close>

definition correlation_use :: "header_value \<Rightarrow> string \<Rightarrow> obs_context \<times> string" where
  "correlation_use inbound fresh =
     (let cid = (case inbound_id inbound of Some s \<Rightarrow> if s = [] then fresh else s | None \<Rightarrow> fresh)
      in (\<lparr>oc_correlationId = cid, oc_tenantId = None, oc_eventId = None\<rparr>, cid))"

section \<open>Authentication\<close>

record auth_context =
  ac_tenantId :: string
  ac_role :: string
  ac_sub :: string

record jwt_options =
  jo_issuer :: string
  jo_audience :: string
  jo_algorithms :: "string list"

text \<open>
  \<open>jwtVerify(token, keys, options)\<close>: \<open>None\<close> when it rejects, the payload when it accepts.
\<close>

type_synonym jwt_verify = "string \<Rightarrow> jwt_options \<Rightarrow> json option"

definition verify :: "jwt_verify \<Rightarrow> string \<Rightarrow> string \<Rightarrow> string \<Rightarrow> (string, auth_context) result" where
  "verify jwtVerify issuer audience token =
     (case jwtVerify token \<lparr>jo_issuer = issuer, jo_audience = audience, jo_algorithms = [''RS256'']\<rparr> of
        None \<Rightarrow> Inl ''rejected''
      | Some p \<Rightarrow>
         (case (jstr (jget ''tenantId'' p), jstr (jget ''role'' p), jstr (jget ''sub'' p)) of
            (Some t, Some r, Some s) \<Rightarrow> Inr \<lparr>ac_tenantId = t, ac_role = r, ac_sub = s\<rparr>
          | _ \<Rightarrow> Inl ''token missing required claims''))"

definition bearer_token :: "string option \<Rightarrow> string option" where
  "bearer_token h = (case h of None \<Rightarrow> None
     | Some s \<Rightarrow> if take 7 s = ''Bearer '' then Some (drop 7 s) else None)"

text \<open>
  \<open>AuthMiddleware.use\<close>: the error handed to \<open>next\<close>, or the authentication context in which \<open>next\<close>
  runs together with the observability context, whose tenant it sets.
\<close>

definition auth_use ::
    "(string \<Rightarrow> (string, auth_context) result) \<Rightarrow> string option \<Rightarrow> obs_context option
     \<Rightarrow> (http_error, auth_context \<times> obs_context option) result" where
  "auth_use verifier header obs =
     (case bearer_token header of
        None \<Rightarrow> Inl (Unauthorized ''Missing bearer token'')
      | Some token \<Rightarrow>
          if token = [] then Inl (Unauthorized ''Missing bearer token'')
          else (case verifier token of
             Inl _ \<Rightarrow> Inl (Unauthorized ''Invalid token'')
           | Inr ctx \<Rightarrow> Inr (ctx, map_option (\<lambda>c. c\<lparr>oc_tenantId := Some (ac_tenantId ctx)\<rparr>) obs)))"

text \<open>\<open>getAuthContext\<close> and its readers throw outside a scope.\<close>

definition getAuthContext :: "auth_context option \<Rightarrow> (string, auth_context) result" where
  "getAuthContext scope = (case scope of Some c \<Rightarrow> Inr c | None \<Rightarrow> Inl ''No auth context in scope'')"

section \<open>Guards\<close>

definition roles_guard :: "string list option \<Rightarrow> auth_context option \<Rightarrow> (http_error, bool) result" where
  "roles_guard required scope =
     (case required of
        None \<Rightarrow> Inr True
      | Some [] \<Rightarrow> Inr True
      | Some rs \<Rightarrow>
         (case getAuthContext scope of
            Inl e \<Rightarrow> Inl (InternalError e)
          | Inr c \<Rightarrow> if ac_role c \<in> set rs then Inr True else Inl (Forbidden ''Insufficient role'')))"

record catalog =
  tc_cache :: "tenant_view list option"
  tc_loadedAt :: int

definition empty_catalog :: catalog where
  "empty_catalog = \<lparr>tc_cache = None, tc_loadedAt = 0\<rparr>"

text \<open>
  What a catalog read meets: the clock when the freshness is checked, the rows of \<open>findMany\<close> or its
  failure, the clock after it.
\<close>

record catalog_io =
  ci_now :: int
  ci_rows :: "tenant_view list option"
  ci_after :: int

definition ensureFresh ::
    "int \<Rightarrow> catalog_io \<Rightarrow> catalog \<Rightarrow> (string, tenant_view list) result \<times> catalog" where
  "ensureFresh ttlMs io c =
     (case tc_cache c of
        Some ts \<Rightarrow>
          if ci_now io - tc_loadedAt c < ttlMs then (Inr ts, c)
          else (case ci_rows io of
             Some rows \<Rightarrow> (Inr rows, \<lparr>tc_cache = Some rows, tc_loadedAt = ci_after io\<rparr>)
           | None \<Rightarrow> (Inr ts, c))
      | None \<Rightarrow>
          (case ci_rows io of
             Some rows \<Rightarrow> (Inr rows, \<lparr>tc_cache = Some rows, tc_loadedAt = ci_after io\<rparr>)
           | None \<Rightarrow> (Inl ''database unavailable'', c)))"

definition catalog_list ::
    "int \<Rightarrow> bool \<Rightarrow> catalog_io \<Rightarrow> catalog \<Rightarrow> (string, tenant_view list) result \<times> catalog" where
  "catalog_list ttlMs activeOnly io c =
     (case ensureFresh ttlMs io c of
        (Inl e, c') \<Rightarrow> (Inl e, c')
      | (Inr ts, c') \<Rightarrow> (Inr (if activeOnly then filter (\<lambda>t. tv_status t = ''active'') ts else ts), c'))"

definition catalog_get ::
    "int \<Rightarrow> string \<Rightarrow> catalog_io \<Rightarrow> catalog \<Rightarrow> (string, tenant_view option) result \<times> catalog" where
  "catalog_get ttlMs slug io c =
     (case ensureFresh ttlMs io c of
        (Inl e, c') \<Rightarrow> (Inl e, c')
      | (Inr ts, c') \<Rightarrow> (Inr (find (\<lambda>t. tv_slug t = slug) ts), c'))"

definition catalog_isActive ::
    "int \<Rightarrow> string \<Rightarrow> catalog_io \<Rightarrow> catalog \<Rightarrow> (string, bool) result \<times> catalog" where
  "catalog_isActive ttlMs slug io c =
     (case catalog_get ttlMs slug io c of
        (Inl e, c') \<Rightarrow> (Inl e, c')
      | (Inr t, c') \<Rightarrow> (Inr (case t of None \<Rightarrow> False | Some v \<Rightarrow> tv_status v = ''active''), c'))"

definition catalog_refresh ::
    "int \<Rightarrow> catalog_io \<Rightarrow> catalog \<Rightarrow> (string, unit) result \<times> catalog" where
  "catalog_refresh ttlMs io c =
     (case ensureFresh ttlMs io (c\<lparr>tc_cache := None\<rparr>) of
        (Inl e, c') \<Rightarrow> (Inl e, c')
      | (Inr _, c') \<Rightarrow> (Inr (), c'))"

definition tenant_guard ::
    "int \<Rightarrow> auth_context option \<Rightarrow> catalog_io \<Rightarrow> catalog \<Rightarrow> (http_error, bool) result \<times> catalog" where
  "tenant_guard ttlMs scope io c =
     (case getAuthContext scope of
        Inl _ \<Rightarrow> (Inr True, c)
      | Inr auth \<Rightarrow>
          if ac_role auth = ROLE_OPERATOR then (Inr True, c)
          else (case catalog_isActive ttlMs (ac_tenantId auth) io c of
             (Inl _, c') \<Rightarrow> (Inl (ServiceUnavailable ''tenant catalog unavailable''), c')
           | (Inr True, c') \<Rightarrow> (Inr True, c')
           | (Inr False, c') \<Rightarrow> (Inl (Forbidden ''Unknown or inactive tenant''), c')))"

section \<open>The pipeline\<close>

record request =
  rq_correlation :: header_value
  rq_authorization :: "string option"

text \<open>
  The order in which write-api's module wires it: correlation, authentication, the roles guard, the
  tenant guard, then the controller's handler, which acts on the service's state. (read-api runs its
  guards the other way round; \<open>Gateway\<close> has both.)
\<close>

definition pipeline ::
    "(string \<Rightarrow> (string, auth_context) result) \<Rightarrow> int \<Rightarrow> string list option \<Rightarrow> request \<Rightarrow> string
     \<Rightarrow> catalog_io \<Rightarrow> catalog \<Rightarrow> (auth_context \<Rightarrow> obs_context option \<Rightarrow> 'w \<Rightarrow> (http_error, 'a) result \<times> 'w)
     \<Rightarrow> 'w \<Rightarrow> (http_error, 'a) result \<times> catalog \<times> 'w" where
  "pipeline verifier ttlMs required rq fresh io cat handler w =
     (case auth_use verifier (rq_authorization rq) (Some (fst (correlation_use (rq_correlation rq) fresh))) of
        Inl e \<Rightarrow> (Inl e, cat, w)
      | Inr (ctx, obs) \<Rightarrow>
         (case roles_guard required (Some ctx) of
            Inl e \<Rightarrow> (Inl e, cat, w)
          | Inr _ \<Rightarrow>
             (case tenant_guard ttlMs (Some ctx) io cat of
                (Inl e, cat') \<Rightarrow> (Inl e, cat', w)
              | (Inr _, cat') \<Rightarrow>
                 (case handler ctx obs w of (r, w') \<Rightarrow> (r, cat', w')))))"

section \<open>Access control\<close>

definition bearer_header :: "string \<Rightarrow> string" where
  "bearer_header token = ''Bearer '' @ token"

lemma bearer_token_Some: "bearer_token h = Some t \<longleftrightarrow> h = Some (bearer_header t)"
proof -
  have "s = ''Bearer '' @ drop 7 s" if "take 7 s = ''Bearer ''" for s :: string
    using append_take_drop_id [of 7 s] that by metis
  then show ?thesis by (auto simp: bearer_token_def bearer_header_def split: option.splits)
qed

definition role_admitted :: "string list option \<Rightarrow> string \<Rightarrow> bool" where
  "role_admitted required r \<longleftrightarrow> (case required of None \<Rightarrow> True | Some rs \<Rightarrow> rs = [] \<or> r \<in> set rs)"

lemma roles_guard_eq:
  "roles_guard required (Some c) =
     (if role_admitted required (ac_role c) then Inr True else Inl (Forbidden ''Insufficient role''))"
  by (auto simp: roles_guard_def role_admitted_def getAuthContext_def split: option.splits list.splits)

definition tenant_active :: "tenant_view list \<Rightarrow> string \<Rightarrow> bool" where
  "tenant_active ts slug \<longleftrightarrow> (case find (\<lambda>t. tv_slug t = slug) ts of
     None \<Rightarrow> False | Some v \<Rightarrow> tv_status v = ''active'')"

lemma tenant_guard_eq:
  "tenant_guard ttlMs (Some ctx) io c =
     (if ac_role ctx = ROLE_OPERATOR then (Inr True, c)
      else (case ensureFresh ttlMs io c of
        (Inl _, c') \<Rightarrow> (Inl (ServiceUnavailable ''tenant catalog unavailable''), c')
      | (Inr ts, c') \<Rightarrow> ((if tenant_active ts (ac_tenantId ctx) then Inr True
                        else Inl (Forbidden ''Unknown or inactive tenant'')), c')))"
  by (auto simp: tenant_guard_def getAuthContext_def catalog_isActive_def catalog_get_def
      tenant_active_def split: prod.splits sum.splits option.splits)

text \<open>The conditions under which a request reaches its handler as \<open>ctx\<close>.\<close>

definition admitted ::
    "(string \<Rightarrow> (string, auth_context) result) \<Rightarrow> int \<Rightarrow> string list option \<Rightarrow> request
     \<Rightarrow> catalog_io \<Rightarrow> catalog \<Rightarrow> auth_context \<Rightarrow> bool" where
  "admitted verifier ttlMs required rq io cat ctx \<longleftrightarrow>
     (\<exists>token. rq_authorization rq = Some (bearer_header token) \<and> token \<noteq> [] \<and> verifier token = Inr ctx)
     \<and> role_admitted required (ac_role ctx)
     \<and> (ac_role ctx = ROLE_OPERATOR
        \<or> (\<exists>ts c'. ensureFresh ttlMs io cat = (Inr ts, c') \<and> tenant_active ts (ac_tenantId ctx)))"

lemma auth_use_ok:
  "auth_use verifier h obs = Inr (ctx, obs') \<longleftrightarrow>
     (\<exists>token. h = Some (bearer_header token) \<and> token \<noteq> [] \<and> verifier token = Inr ctx)
     \<and> obs' = map_option (\<lambda>c. c\<lparr>oc_tenantId := Some (ac_tenantId ctx)\<rparr>) obs"
proof (cases "bearer_token h")
  case None
  then have "h \<noteq> Some (bearer_header token)" for token using bearer_token_Some [of h token] by simp
  with None show ?thesis by (simp add: auth_use_def)
next
  case (Some t)
  then have h: "h = Some (bearer_header t)" by (simp add: bearer_token_Some)
  have "bearer_header t = bearer_header token \<longleftrightarrow> t = token" for token
    by (simp add: bearer_header_def)
  with Some h show ?thesis by (auto simp: auth_use_def split: sum.splits)
qed

lemma auth_use_error:
  "auth_use verifier h obs = Inl e \<Longrightarrow> http_status e = 401"
  by (auto simp: auth_use_def split: option.splits sum.splits if_splits)

lemma pipeline_admitted:
  assumes "admitted verifier ttlMs required rq io cat ctx"
  shows "\<exists>cat'. pipeline verifier ttlMs required rq fresh io cat handler w =
     (let hw = handler ctx (Some ((fst (correlation_use (rq_correlation rq) fresh))
            \<lparr>oc_tenantId := Some (ac_tenantId ctx)\<rparr>)) w
      in (fst hw, cat', snd hw))"
proof -
  obtain obs where auth: "auth_use verifier (rq_authorization rq)
      (Some (fst (correlation_use (rq_correlation rq) fresh))) = Inr (ctx, obs)"
    and obs: "obs = Some ((fst (correlation_use (rq_correlation rq) fresh))
            \<lparr>oc_tenantId := Some (ac_tenantId ctx)\<rparr>)"
    using assms by (auto simp: admitted_def auth_use_ok)
  obtain cat' where "tenant_guard ttlMs (Some ctx) io cat = (Inr True, cat')"
    using assms unfolding admitted_def
    by (cases "ac_role ctx = ROLE_OPERATOR") (auto simp: tenant_guard_eq)
  then show ?thesis using assms auth obs
    by (auto simp: pipeline_def roles_guard_eq admitted_def split: prod.splits)
qed

lemma pipeline_denied:
  assumes "\<nexists>ctx. admitted verifier ttlMs required rq io cat ctx"
  shows "\<exists>e cat'. pipeline verifier ttlMs required rq fresh io cat handler w = (Inl e, cat', w)
           \<and> http_status e \<in> {401, 403, 503}"
proof (cases "auth_use verifier (rq_authorization rq)
      (Some (fst (correlation_use (rq_correlation rq) fresh)))")
  case (Inl e)
  then show ?thesis using auth_use_error by (fastforce simp: pipeline_def)
next
  case (Inr p)
  obtain ctx obs where p: "p = (ctx, obs)" by (cases p)
  with Inr assms have "\<not> role_admitted required (ac_role ctx) \<or>
      (ac_role ctx \<noteq> ROLE_OPERATOR \<and>
       (\<forall>ts c'. ensureFresh ttlMs io cat = (Inr ts, c') \<longrightarrow> \<not> tenant_active ts (ac_tenantId ctx)))"
    by (auto simp: admitted_def auth_use_ok)
  with Inr p show ?thesis
    by (cases "ensureFresh ttlMs io cat"; cases "fst (ensureFresh ttlMs io cat)")
      (auto simp: pipeline_def roles_guard_eq tenant_guard_eq)
qed

text \<open>
  Fail-closed access control. A request either is admitted - it carries a bearer token the
  verifier accepts, its role is one the route names, and it is the operator's or its tenant is an
  active one of the catalog - and then the handler runs in the verified context; or it ends in a
  401, 403 or 503 and the handler's state is untouched.
\<close>

theorem pipeline_fail_closed:
  "(\<exists>ctx obs cat'. admitted verifier ttlMs required rq io cat ctx \<and>
      pipeline verifier ttlMs required rq fresh io cat handler w
        = (fst (handler ctx obs w), cat', snd (handler ctx obs w)))
   \<or> (\<exists>e cat'. pipeline verifier ttlMs required rq fresh io cat handler w = (Inl e, cat', w)
      \<and> http_status e \<in> {401, 403, 503} \<and> (\<nexists>ctx. admitted verifier ttlMs required rq io cat ctx))"
proof (cases "\<exists>ctx. admitted verifier ttlMs required rq io cat ctx")
  case True
  then obtain ctx where "admitted verifier ttlMs required rq io cat ctx" ..
  with pipeline_admitted [OF this, of fresh handler w] show ?thesis
    by (metis (no_types, lifting))
next
  case False
  with pipeline_denied [OF this, of fresh handler w] show ?thesis by blast
qed

section \<open>The catalog's promises\<close>

datatype catalog_op = CRead catalog_io | CRefresh catalog_io

fun op_io :: "catalog_op \<Rightarrow> catalog_io" where
  "op_io (CRead io) = io"
| "op_io (CRefresh io) = io"

fun catalog_step :: "int \<Rightarrow> catalog \<Rightarrow> catalog_op \<Rightarrow> catalog" where
  "catalog_step ttlMs c (CRead io) = snd (ensureFresh ttlMs io c)"
| "catalog_step ttlMs c (CRefresh io) = snd (catalog_refresh ttlMs io c)"

definition catalog_run :: "int \<Rightarrow> catalog_op list \<Rightarrow> catalog" where
  "catalog_run ttlMs ops = foldl (catalog_step ttlMs) empty_catalog ops"

lemma catalog_run_snoc: "catalog_run ttlMs (ops @ [p]) = catalog_step ttlMs (catalog_run ttlMs ops) p"
  by (simp add: catalog_run_def)

lemma refresh_state:
  "snd (catalog_refresh ttlMs io c) = (case ci_rows io of
     Some rows \<Rightarrow> \<lparr>tc_cache = Some rows, tc_loadedAt = ci_after io\<rparr> | None \<Rightarrow> c\<lparr>tc_cache := None\<rparr>)"
  by (auto simp: catalog_refresh_def ensureFresh_def split: option.splits)

text \<open>Whatever is cached was read from the database by an earlier operation.\<close>

lemma catalog_provenance:
  "tc_cache (catalog_run ttlMs ops) = Some ts \<Longrightarrow>
   \<exists>p \<in> set ops. ci_rows (op_io p) = Some ts \<and> tc_loadedAt (catalog_run ttlMs ops) = ci_after (op_io p)"
proof (induction ops arbitrary: ts rule: rev_induct)
  case Nil
  then show ?case by (simp add: catalog_run_def empty_catalog_def)
next
  case (snoc p ops)
  then show ?case
    by (cases p) (auto simp: catalog_run_snoc refresh_state ensureFresh_def split: option.splits if_splits)
qed

lemma warm_read_ok:
  "tc_cache c \<noteq> None \<Longrightarrow> is_ok (fst (ensureFresh ttlMs io c)) \<and> tc_cache (snd (ensureFresh ttlMs io c)) \<noteq> None"
  by (auto simp: ensureFresh_def split: option.splits)

text \<open>
  C12: Bounded staleness of the tenant catalog. Whatever reads and refreshes came before, the answer of
  a read is a snapshot the database really returned; and when the database answers, it is this
  read's own snapshot or one loaded less than the TTL ago.
\<close>

theorem catalog_bounded_staleness:
  assumes "ensureFresh ttlMs io (catalog_run ttlMs ops) = (Inr ts, c')"
  shows "ci_rows io = Some ts \<or>
    (\<exists>p \<in> set ops. ci_rows (op_io p) = Some ts \<and>
       (ci_rows io \<noteq> None \<longrightarrow> ci_now io - ci_after (op_io p) < ttlMs))"
proof (cases "tc_cache (catalog_run ttlMs ops)")
  case None
  with assms show ?thesis by (auto simp: ensureFresh_def split: option.splits)
next
  case (Some old)
  from catalog_provenance [OF Some] assms Some show ?thesis
    by (fastforce simp: ensureFresh_def split: option.splits if_splits)
qed

definition witness_rows :: "tenant_view list" where
  "witness_rows = [\<lparr>tv_slug = ''berlin'', tv_displayName = ''Berlin'', tv_lng = 13, tv_lat = 52,
     tv_status = ''active'', tv_brandColor = None\<rparr>]"

theorem catalog_bounded_staleness_witness:
  "ci_rows \<lparr>ci_now = 150, ci_rows = Some [], ci_after = 150\<rparr> = Some witness_rows \<or>
    (\<exists>p \<in> set [CRead \<lparr>ci_now = 90, ci_rows = Some witness_rows, ci_after = 100\<rparr>].
       ci_rows (op_io p) = Some witness_rows \<and>
       (ci_rows \<lparr>ci_now = 150, ci_rows = Some [], ci_after = 150\<rparr> \<noteq> None
        \<longrightarrow> ci_now \<lparr>ci_now = 150, ci_rows = Some [], ci_after = 150\<rparr> - ci_after (op_io p) < 60))"
  by (rule catalog_bounded_staleness
        [of 60 "\<lparr>ci_now = 150, ci_rows = Some [], ci_after = 150\<rparr>"
            "[CRead \<lparr>ci_now = 90, ci_rows = Some witness_rows, ci_after = 100\<rparr>]" witness_rows
            "\<lparr>tc_cache = Some witness_rows, tc_loadedAt = 100\<rparr>"])
    (simp add: catalog_run_def ensureFresh_def empty_catalog_def)

text \<open>
  Once warm, reads never fail, whatever the database does; but a refresh that meets an unreachable
  database throws the last good snapshot away, and the next read fails with it.
\<close>

lemma catalog_refresh_forgets:
  assumes "ci_rows io = None" and "ci_rows io' = None"
  shows "\<not> is_ok (fst (ensureFresh ttlMs io' (catalog_step ttlMs c (CRefresh io))))"
  using assms by (simp add: refresh_state ensureFresh_def)

text \<open>
  The catalog serves stale data over a database outage. Once a read has succeeded, every later
  read succeeds while no refresh intervenes, whether or not the database is reachable; after a
  refresh during an outage, reads fail until the database is back.
\<close>

theorem catalog_outage:
  "(tc_cache c \<noteq> None \<longrightarrow> is_ok (fst (ensureFresh ttlMs io
      (foldl (catalog_step ttlMs) c (map CRead ios)))))
   \<and> (list_all (\<lambda>i. ci_rows i = None) (down # ios) \<longrightarrow>
      \<not> is_ok (fst (ensureFresh ttlMs down
        (foldl (catalog_step ttlMs) (catalog_step ttlMs c (CRefresh down)) (map CRead ios)))))"
proof -
  have warm: "tc_cache c \<noteq> None \<Longrightarrow> tc_cache (foldl (catalog_step ttlMs) c (map CRead ios)) \<noteq> None"
    for c ios
  proof (induction ios arbitrary: c)
    case (Cons i ios)
    from warm_read_ok [OF Cons.prems] Cons.IH show ?case by simp
  qed simp
  have cold: "tc_cache c = None \<Longrightarrow> list_all (\<lambda>i. ci_rows i = None) ios \<Longrightarrow>
      tc_cache (foldl (catalog_step ttlMs) c (map CRead ios)) = None" for c ios
    by (induction ios arbitrary: c) (auto simp: ensureFresh_def)
  have "is_ok (fst (ensureFresh ttlMs io (foldl (catalog_step ttlMs) c (map CRead ios))))"
    if "tc_cache c \<noteq> None" using warm_read_ok [OF warm [OF that]] by blast
  moreover have "\<not> is_ok (fst (ensureFresh ttlMs down
        (foldl (catalog_step ttlMs) (catalog_step ttlMs c (CRefresh down)) (map CRead ios))))"
    if dn: "list_all (\<lambda>i. ci_rows i = None) (down # ios)"
  proof -
    have "tc_cache (catalog_step ttlMs c (CRefresh down)) = None" using dn by (simp add: refresh_state)
    from cold [OF this] dn show ?thesis by (simp add: ensureFresh_def)
  qed
  ultimately show ?thesis by blast
qed

theorem catalog_outage_witness:
  "is_ok (fst (ensureFresh 60 \<lparr>ci_now = 500, ci_rows = None, ci_after = 500\<rparr>
      (foldl (catalog_step 60) \<lparr>tc_cache = Some witness_rows, tc_loadedAt = 100\<rparr> (map CRead []))))
   \<and> \<not> is_ok (fst (ensureFresh 60 \<lparr>ci_now = 500, ci_rows = None, ci_after = 500\<rparr>
        (foldl (catalog_step 60) (catalog_step 60 \<lparr>tc_cache = Some witness_rows, tc_loadedAt = 100\<rparr>
           (CRefresh \<lparr>ci_now = 500, ci_rows = None, ci_after = 500\<rparr>)) (map CRead []))))"
  using catalog_outage [of "\<lparr>tc_cache = Some witness_rows, tc_loadedAt = 100\<rparr>" 60
      "\<lparr>ci_now = 500, ci_rows = None, ci_after = 500\<rparr>" "[]"
      "\<lparr>ci_now = 500, ci_rows = None, ci_after = 500\<rparr>"]
  by simp

end
