(* ===== verification/Signing_Keys.thy ===== *)
theory Signing_Keys
  imports Tenant_Context
begin

text \<open>
  The signing keys of the identity service: the private key sealed at rest (\<open>key-cipher.ts\<close>), the key
  service with its load, generation, migration and rotation (\<open>key.service.ts\<close>) and the signing of
  access tokens (\<open>token.service.ts\<close>). AES-GCM, base64 and the JOSE library are parameters.
\<close>

section \<open>Sealing\<close>

text \<open>
  Node's \<open>Buffer\<close> and \<open>crypto\<close>: base64 both ways, the length of a buffer, AES-256-GCM with key and nonce
  giving ciphertext and tag, and its inverse, which throws (\<open>None\<close>) when the tag does not verify.
\<close>

record 'b cipher =
  cph_b64 :: "'b \<Rightarrow> string"
  cph_unb64 :: "string \<Rightarrow> 'b"
  cph_length :: "'b \<Rightarrow> nat"
  cph_encrypt :: "'b \<Rightarrow> 'b \<Rightarrow> string \<Rightarrow> 'b \<times> 'b"
  cph_decrypt :: "'b \<Rightarrow> 'b \<Rightarrow> 'b \<Rightarrow> 'b \<Rightarrow> string option"

definition SEAL_PREFIX :: string where "SEAL_PREFIX = ''gcm.v1:''"
definition KEK_BYTES :: nat where "KEK_BYTES = 32"

definition isSealed :: "string \<Rightarrow> bool" where
  "isSealed stored \<longleftrightarrow> take (length SEAL_PREFIX) stored = SEAL_PREFIX"

definition decodeKek :: "'b cipher \<Rightarrow> string \<Rightarrow> (string, 'b) result" where
  "decodeKek C kekBase64 =
     (let kek = cph_unb64 C kekBase64 in
      if cph_length C kek \<noteq> KEK_BYTES
      then Inl (''SIGNING_KEY_KEK must be 32 bytes base64-encoded (got '' @ show_nat (cph_length C kek) @ '')'')
      else Inr kek)"

definition sealPrivateJwk :: "'b cipher \<Rightarrow> 'b \<Rightarrow> string \<Rightarrow> string \<Rightarrow> (string, string) result" where
  "sealPrivateJwk C iv plaintext kekBase64 =
     (case decodeKek C kekBase64 of
        Inl e \<Rightarrow> Inl e
      | Inr kek \<Rightarrow>
          (case cph_encrypt C kek iv plaintext of
             (ct, tag) \<Rightarrow> Inr (SEAL_PREFIX @ join '':'' [cph_b64 C iv, cph_b64 C ct, cph_b64 C tag])))"

text \<open>\<open>[, iv, ct, tag] = stored.split(":")\<close>: an absent or empty part is malformed.\<close>

definition openPrivateJwk :: "'b cipher \<Rightarrow> string \<Rightarrow> string option \<Rightarrow> (string, string) result" where
  "openPrivateJwk C stored kekBase64 =
     (if \<not> isSealed stored then Inr stored
      else (case kekBase64 of
         None \<Rightarrow> Inl ''SIGNING_KEY_KEK is required to decrypt the stored signing key''
       | Some k \<Rightarrow>
           if k = [] then Inl ''SIGNING_KEY_KEK is required to decrypt the stored signing key''
           else (case split_char CHR '':'' stored of
              _ # iv # ct # tag # _ \<Rightarrow>
                if iv = [] \<or> ct = [] \<or> tag = [] then Inl ''Malformed sealed signing key''
                else (case decodeKek C k of
                   Inl e \<Rightarrow> Inl e
                 | Inr kek \<Rightarrow>
                     (case cph_decrypt C kek (cph_unb64 C iv) (cph_unb64 C ct) (cph_unb64 C tag) of
                        None \<Rightarrow> Inl ''Unsupported state or unable to authenticate data''
                      | Some p \<Rightarrow> Inr p))
            | _ \<Rightarrow> Inl ''Malformed sealed signing key'')))"

text \<open>
  What the code relies on: base64 is a code without colons, empty for empty buffers only; decryption
  undoes encryption; neither the ciphertext of a non-empty text nor a tag is empty.
\<close>

definition cipher_lawful :: "'b cipher \<Rightarrow> bool" where
  "cipher_lawful C \<longleftrightarrow>
     (\<forall>b. cph_unb64 C (cph_b64 C b) = b \<and> CHR '':'' \<notin> set (cph_b64 C b)
        \<and> (cph_b64 C b = [] \<longrightarrow> cph_length C b = 0)) \<and>
     (\<forall>kek iv p ct tag. cph_encrypt C kek iv p = (ct, tag) \<and> p \<noteq> [] \<longrightarrow>
        cph_decrypt C kek iv ct tag = Some p \<and> 0 < cph_length C ct \<and> 0 < cph_length C tag)"

lemma seal_opens:
  assumes "cipher_lawful C" and "0 < cph_length C iv" and "p \<noteq> []" and "kek \<noteq> []"
    and "sealPrivateJwk C iv p kek = Inr s"
  shows "isSealed s" and "openPrivateJwk C s (Some kek) = Inr p"
proof -
  from assms(5) obtain k ct tag where k: "decodeKek C kek = Inr k" and enc: "cph_encrypt C k iv p = (ct, tag)"
    and s: "s = SEAL_PREFIX @ join '':'' [cph_b64 C iv, cph_b64 C ct, cph_b64 C tag]"
    by (auto simp: sealPrivateJwk_def split: sum.splits prod.splits)
  have ne: "cph_b64 C iv \<noteq> []" "cph_b64 C ct \<noteq> []" "cph_b64 C tag \<noteq> []"
    and nc: "CHR '':'' \<notin> set (cph_b64 C iv)" "CHR '':'' \<notin> set (cph_b64 C ct)" "CHR '':'' \<notin> set (cph_b64 C tag)"
    and dec: "cph_decrypt C k iv ct tag = Some p" and unb: "cph_unb64 C (cph_b64 C b) = b" for b
    using assms(1-3) enc unfolding cipher_lawful_def by fastforce+
  have sealed: "isSealed s" by (simp add: isSealed_def s SEAL_PREFIX_def)
  have "split_char CHR '':'' s = [''gcm.v1'', cph_b64 C iv, cph_b64 C ct, cph_b64 C tag]"
    using split_join [where c = "CHR '':''" and ps = "[''gcm.v1'', cph_b64 C iv, cph_b64 C ct, cph_b64 C tag]"] nc
    by (simp add: s SEAL_PREFIX_def)
  then show "isSealed s" and "openPrivateJwk C s (Some kek) = Inr p"
    using sealed assms(4) ne k dec by (simp_all add: openPrivateJwk_def unb)
qed

text \<open>
  A sealed private key can be opened with its key-encryption key and only with one: sealing gives
  a string recognised as sealed, opening it with the same key gives the plaintext back, and opening it
  without a key is an error, never the plaintext.
\<close>

theorem sealed_key_roundtrip:
  assumes "cipher_lawful C" and "0 < cph_length C iv" and "p \<noteq> []" and "kek \<noteq> []"
    and "sealPrivateJwk C iv p kek = Inr s"
  shows "isSealed s \<and> openPrivateJwk C s (Some kek) = Inr p
    \<and> openPrivateJwk C s None = Inl ''SIGNING_KEY_KEK is required to decrypt the stored signing key''"
  using seal_opens [OF assms] by (simp add: openPrivateJwk_def)

section \<open>The key table and the key service\<close>

datatype key_status = KeyCurrent | KeyPrevious | KeyRetired

record key_row =
  sk_kid :: string
  sk_publicJwk :: string
  sk_privateJwk :: string
  sk_status :: key_status
  sk_createdAt :: int

record 'k key_service =
  ks_currentKid :: string
  ks_currentKey :: 'k
  ks_publicJwks :: "(string \<times> string) list"

text \<open>A generated pair with its thumbprint, the nonces drawn, and the database's clock.\<close>

record 'b key_env =
  kv_kid :: string
  kv_pub :: string
  kv_priv :: string
  kv_iv :: 'b
  kv_migrationIv :: "string \<Rightarrow> 'b"
  kv_now :: int

text \<open>The service's settings: the key-encryption key and whether it runs in production.\<close>

record key_settings =
  kc_kek :: "string option"
  kc_production :: bool

definition has_kek :: "key_settings \<Rightarrow> bool" where
  "has_kek st \<longleftrightarrow> kc_kek st \<noteq> None \<and> kc_kek st \<noteq> Some []"

definition generate ::
    "'b cipher \<Rightarrow> key_settings \<Rightarrow> 'b key_env \<Rightarrow> key_row list \<Rightarrow> (string, key_row) result \<times> key_row list" where
  "generate C st e db =
     (case (if has_kek st then sealPrivateJwk C (kv_iv e) (kv_priv e) (the (kc_kek st)) else Inr (kv_priv e)) of
        Inl err \<Rightarrow> (Inl err, db)
      | Inr priv \<Rightarrow>
          if kv_kid e \<in> sk_kid ` set db then (Inl ''Unique constraint failed'', db)
          else (let r = \<lparr>sk_kid = kv_kid e, sk_publicJwk = kv_pub e, sk_privateJwk = priv,
                         sk_status = KeyCurrent, sk_createdAt = kv_now e\<rparr>
                in (Inr r, db @ [r])))"

definition published :: "key_row list \<Rightarrow> key_row list" where
  "published db = sort_key (\<lambda>r. - sk_createdAt r) (filter (\<lambda>r. sk_status r \<in> {KeyCurrent, KeyPrevious}) db)"

text \<open>\<open>migrateLegacyPlaintext\<close>: the rows read are re-sealed one by one, an error ends it.\<close>

fun migrateLegacyPlaintext ::
    "'b cipher \<Rightarrow> key_settings \<Rightarrow> 'b key_env \<Rightarrow> key_row list \<Rightarrow> key_row list
     \<Rightarrow> (string, unit) result \<times> key_row list" where
  "migrateLegacyPlaintext C st e [] db = (Inr (), db)"
| "migrateLegacyPlaintext C st e (r # rs) db =
     (if \<not> has_kek st then (Inr (), db)
      else if isSealed (sk_privateJwk r) then migrateLegacyPlaintext C st e rs db
      else (case sealPrivateJwk C (kv_migrationIv e (sk_kid r)) (sk_privateJwk r) (the (kc_kek st)) of
         Inl err \<Rightarrow> (Inl err, db)
       | Inr s \<Rightarrow> migrateLegacyPlaintext C st e rs
           (map (\<lambda>x. if sk_kid x = sk_kid r then x\<lparr>sk_privateJwk := s\<rparr> else x) db)))"

definition find_current :: "key_row list \<Rightarrow> key_row option" where
  "find_current db = find (\<lambda>r. sk_status r = KeyCurrent) db"

text \<open>\<open>importJWK(JSON.parse(openPrivateJwk(...)))\<close>.\<close>

definition import_key ::
    "'b cipher \<Rightarrow> (string \<Rightarrow> 'k option) \<Rightarrow> key_settings \<Rightarrow> string \<Rightarrow> (string, 'k) result" where
  "import_key C importJWK st stored =
     (case openPrivateJwk C stored (kc_kek st) of
        Inl e \<Rightarrow> Inl e
      | Inr p \<Rightarrow> (case importJWK p of None \<Rightarrow> Inl ''invalid JWK'' | Some k \<Rightarrow> Inr k))"

definition load_current ::
    "'b cipher \<Rightarrow> (string \<Rightarrow> 'k option) \<Rightarrow> key_settings \<Rightarrow> 'b key_env \<Rightarrow> key_row \<Rightarrow> key_row list
     \<Rightarrow> (string, 'k key_service) result \<times> key_row list" where
  "load_current C importJWK st e current db =
     (case import_key C importJWK st (sk_privateJwk current) of
        Inl err \<Rightarrow> (Inl err, db)
      | Inr k \<Rightarrow>
          (case migrateLegacyPlaintext C st e (published db) db of
             (Inl err, db') \<Rightarrow> (Inl err, db')
           | (Inr _, db') \<Rightarrow>
               (Inr \<lparr>ks_currentKid = sk_kid current, ks_currentKey = k,
                     ks_publicJwks = map (\<lambda>r. (sk_kid r, sk_publicJwk r)) (published db)\<rparr>, db')))"

definition load_keys ::
    "'b cipher \<Rightarrow> (string \<Rightarrow> 'k option) \<Rightarrow> key_settings \<Rightarrow> 'b key_env \<Rightarrow> key_row list
     \<Rightarrow> (string, 'k key_service) result \<times> key_row list" where
  "load_keys C importJWK st e db =
     (if \<not> has_kek st \<and> kc_production st
      then (Inl ''SIGNING_KEY_KEK is required in production to encrypt the signing key at rest'', db)
      else (case find_current db of
         Some current \<Rightarrow> load_current C importJWK st e current db
       | None \<Rightarrow>
           (case generate C st e db of
              (Inl err, db') \<Rightarrow> (Inl err, db')
            | (Inr current, db') \<Rightarrow> load_current C importJWK st e current db')))"

definition set_status :: "key_status \<Rightarrow> key_status \<Rightarrow> key_row list \<Rightarrow> key_row list" where
  "set_status a b db = map (\<lambda>r. if sk_status r = a then r\<lparr>sk_status := b\<rparr> else r) db"

definition rotate_keys ::
    "'b cipher \<Rightarrow> (string \<Rightarrow> 'k option) \<Rightarrow> key_settings \<Rightarrow> 'b key_env \<Rightarrow> key_row list
     \<Rightarrow> (string, 'k key_service) result \<times> key_row list" where
  "rotate_keys C importJWK st e db =
     (case generate C st e (set_status KeyCurrent KeyPrevious (set_status KeyPrevious KeyRetired db)) of
        (Inl err, db') \<Rightarrow> (Inl err, db')
      | (Inr _, db') \<Rightarrow> load_keys C importJWK st e db')"

section \<open>Access tokens\<close>

record token_config =
  tk_issuer :: string
  tk_audience :: string
  tk_accessTtl :: int

text \<open>\<open>new SignJWT(...)...sign(key)\<close>: \<open>jwtSign key alg kid payload\<close> is the compact token.\<close>

definition access_payload :: "token_config \<Rightarrow> int \<Rightarrow> auth_context \<Rightarrow> json" where
  "access_payload cfg now c = JObj
     [(''tenantId'', JStr (ac_tenantId c)), (''role'', JStr (ac_role c)), (''sub'', JStr (ac_sub c)),
      (''iss'', JStr (tk_issuer cfg)), (''aud'', JStr (tk_audience cfg)),
      (''iat'', JInt (now div 1000)), (''exp'', JInt (now div 1000 + tk_accessTtl cfg))]"

definition sign_token ::
    "('k \<Rightarrow> string \<Rightarrow> string \<Rightarrow> json \<Rightarrow> string) \<Rightarrow> token_config \<Rightarrow> 'k key_service option \<Rightarrow> int \<Rightarrow> auth_context
     \<Rightarrow> (string, string) result" where
  "sign_token jwtSign cfg svc now c =
     (case svc of
        None \<Rightarrow> Inl ''KeyService not initialized''
      | Some s \<Rightarrow> Inr (jwtSign (ks_currentKey s) ''RS256'' (ks_currentKid s) (access_payload cfg now c)))"


section \<open>Rotation keeps issued tokens valid\<close>

definition keys_inv :: "key_row list \<Rightarrow> bool" where
  "keys_inv db \<longleftrightarrow> distinct (map sk_kid db)
     \<and> length (filter (\<lambda>r. sk_status r = KeyCurrent) db) \<le> 1
     \<and> length (filter (\<lambda>r. sk_status r = KeyPrevious) db) \<le> 1"

text \<open>What the migration changes: private keys only.\<close>

definition same_public :: "key_row list \<Rightarrow> key_row list \<Rightarrow> bool" where
  "same_public db db' \<longleftrightarrow> map (\<lambda>r. r\<lparr>sk_privateJwk := []\<rparr>) db = map (\<lambda>r. r\<lparr>sk_privateJwk := []\<rparr>) db'"

lemma same_public_map:
  assumes "same_public db db'" and "\<And>r s. f (r\<lparr>sk_privateJwk := s\<rparr>) = f r"
  shows "map f db = map f db'"
proof -
  have "map f db = map f (map (\<lambda>r. r\<lparr>sk_privateJwk := []\<rparr>) db)" by (simp add: assms(2))
  also have "\<dots> = map f (map (\<lambda>r. r\<lparr>sk_privateJwk := []\<rparr>) db')" using assms(1) by (simp add: same_public_def)
  finally show ?thesis by (simp add: assms(2))
qed

lemma same_public_trans: "same_public a b \<Longrightarrow> same_public b c \<Longrightarrow> same_public a c"
  by (simp add: same_public_def)

lemma same_public_reseal:
  "same_public db (map (\<lambda>x. if sk_kid x = kid then x\<lparr>sk_privateJwk := s\<rparr> else x) db)"
  by (simp add: same_public_def)

lemma migrate_same: "migrateLegacyPlaintext C st e rs db = (res, db') \<Longrightarrow> same_public db db'"
proof (induction rs arbitrary: db)
  case Nil
  then show ?case by (simp add: same_public_def)
next
  case (Cons r rs)
  from Cons.prems consider "db' = db" | "migrateLegacyPlaintext C st e rs db = (res, db')"
    | s where "migrateLegacyPlaintext C st e rs
        (map (\<lambda>x. if sk_kid x = sk_kid r then x\<lparr>sk_privateJwk := s\<rparr> else x) db) = (res, db')"
    by (auto split: if_splits sum.splits)
  then show ?case
  proof cases
    case 1
    then show ?thesis by (simp add: same_public_def)
  next
    case 2
    then show ?thesis by (rule Cons.IH)
  next
    case 3
    then show ?thesis by (rule same_public_trans [OF same_public_reseal Cons.IH])
  qed
qed

lemma same_public_count:
  assumes "same_public db db'" and "\<And>r s. P (r\<lparr>sk_privateJwk := s\<rparr>) = P r"
  shows "length (filter P db) = length (filter P db')"
proof -
  have "length (filter P xs) = length (filter id (map P xs))" for xs by (induction xs) auto
  then show ?thesis using same_public_map [of db db' P] assms by metis
qed

lemma keys_inv_same:
  assumes "same_public db db'"
  shows "keys_inv db \<longleftrightarrow> keys_inv db'"
proof -
  have "map sk_kid db = map sk_kid db'" by (rule same_public_map [OF assms]) simp
  moreover have "length (filter (\<lambda>r. sk_status r = s) db) = length (filter (\<lambda>r. sk_status r = s) db')" for s
    by (rule same_public_count [OF assms]) simp
  ultimately show ?thesis by (simp add: keys_inv_def)
qed

lemma generate_Inr:
  assumes "generate C st e db = (Inr r, db')"
  shows "db' = db @ [r]" and "sk_kid r = kv_kid e" and "sk_status r = KeyCurrent" and "sk_publicJwk r = kv_pub e"
    and "kv_kid e \<notin> sk_kid ` set db"
  using assms by (auto simp: generate_def Let_def split: sum.splits if_splits)

lemma load_current_Inr:
  assumes "load_current C imp st e current db = (Inr svc, db')"
  shows "same_public db db'" and "ks_currentKid svc = sk_kid current"
    and "ks_publicJwks svc = map (\<lambda>r. (sk_kid r, sk_publicJwk r)) (published db)"
    and "import_key C imp st (sk_privateJwk current) = Inr (ks_currentKey svc)"
  using assms migrate_same [of C st e "published db" db _ db']
  by (auto simp: load_current_def split: sum.splits prod.splits)

lemma distinct_published: "keys_inv db \<Longrightarrow> distinct (map sk_kid (published db))"
  by (auto simp: keys_inv_def published_def distinct_map intro: inj_on_subset)

lemma set_published: "set (published db) = {r \<in> set db. sk_status r = KeyCurrent \<or> sk_status r = KeyPrevious}"
  by (auto simp: published_def)

lemma one_current:
  assumes "keys_inv db" and "r \<in> set db" and "sk_status r = KeyCurrent"
  shows "filter (\<lambda>r. sk_status r = KeyCurrent) db = [r]" and "find_current db = Some r"
proof -
  have "r \<in> set (filter (\<lambda>r. sk_status r = KeyCurrent) db)" using assms(2,3) by simp
  moreover have "length (filter (\<lambda>r. sk_status r = KeyCurrent) db) \<le> 1" using assms(1) by (simp add: keys_inv_def)
  ultimately show one: "filter (\<lambda>r. sk_status r = KeyCurrent) db = [r]"
    by (cases "filter (\<lambda>r. sk_status r = KeyCurrent) db") auto
  have "find P xs = (case filter P xs of [] \<Rightarrow> None | y # _ \<Rightarrow> Some y)" for P :: "key_row \<Rightarrow> bool" and xs
    by (induction xs) auto
  then show "find_current db = Some r" by (simp add: find_current_def one)
qed

definition demote :: "key_row list \<Rightarrow> key_row list" where
  "demote db = set_status KeyCurrent KeyPrevious (set_status KeyPrevious KeyRetired db)"

lemma demote_kids: "map sk_kid (demote db) = map sk_kid db"
  by (induction db) (auto simp: demote_def set_status_def)

lemma demote_counts:
  "filter (\<lambda>r. sk_status r = KeyCurrent) (demote db) = []"
  "length (filter (\<lambda>r. sk_status r = KeyPrevious) (demote db)) = length (filter (\<lambda>r. sk_status r = KeyCurrent) db)"
  by (induction db) (auto simp: demote_def set_status_def)

lemma demote_previous:
  "map sk_kid (filter (\<lambda>r. sk_status r = KeyPrevious) (demote db)) = map sk_kid (filter (\<lambda>r. sk_status r = KeyCurrent) db)"
  by (induction db) (auto simp: demote_def set_status_def)

lemma demote_current: "r \<in> set db \<Longrightarrow> sk_status r = KeyCurrent \<Longrightarrow> r\<lparr>sk_status := KeyPrevious\<rparr> \<in> set (demote db)"
  by (force simp: demote_def set_status_def)

lemma keys_inv_generate:
  assumes "keys_inv db" and "filter (\<lambda>r. sk_status r = KeyCurrent) db = []" and "generate C st e db = (Inr r, db')"
  shows "keys_inv db'"
  using assms(1,2) generate_Inr [OF assms(3)] by (simp add: keys_inv_def)

lemma keys_inv_demote: "keys_inv db \<Longrightarrow> keys_inv (demote db)"
  by (simp add: keys_inv_def demote_kids demote_counts)

lemma find_current_None: "find_current db = None \<longleftrightarrow> filter (\<lambda>r. sk_status r = KeyCurrent) db = []"
  by (auto simp: find_current_def find_None_iff filter_empty_conv)

lemma find_current_Some: "find_current db = Some r \<Longrightarrow> r \<in> set db \<and> sk_status r = KeyCurrent"
  unfolding find_current_def by (drule find_SomeD) simp

text \<open>A successful load signs with the one current key of its table, which it publishes.\<close>

lemma load_keys_Inr:
  assumes "keys_inv db" and "load_keys C imp st e db = (Inr svc, db')"
  shows "keys_inv db' \<and> (\<exists>r \<in> set db'. sk_status r = KeyCurrent \<and> sk_kid r = ks_currentKid svc
      \<and> (sk_kid r, sk_publicJwk r) \<in> set (ks_publicJwks svc)) \<and> distinct (map fst (ks_publicJwks svc))"
proof -
  have loaded: "keys_inv db' \<and> (\<exists>r \<in> set db'. sk_status r = KeyCurrent \<and> sk_kid r = ks_currentKid svc
      \<and> (sk_kid r, sk_publicJwk r) \<in> set (ks_publicJwks svc)) \<and> distinct (map fst (ks_publicJwks svc))"
    if inv: "keys_inv db1" and cur: "current \<in> set db1" "sk_status current = KeyCurrent"
      and ld: "load_current C imp st e current db1 = (Inr svc, db')" for db1 current
  proof -
    note l = load_current_Inr [OF ld]
    have "(sk_kid current, sk_publicJwk current, sk_status current)
        \<in> set (map (\<lambda>r. (sk_kid r, sk_publicJwk r, sk_status r)) db1)" using cur by auto
    then have "(sk_kid current, sk_publicJwk current, sk_status current)
        \<in> set (map (\<lambda>r. (sk_kid r, sk_publicJwk r, sk_status r)) db')"
      by (subst same_public_map [OF l(1), symmetric]) simp_all
    then obtain r where "r \<in> set db'" "sk_kid r = sk_kid current" "sk_publicJwk r = sk_publicJwk current"
        "sk_status r = KeyCurrent" using cur(2) by auto
    moreover have "(sk_kid current, sk_publicJwk current) \<in> set (ks_publicJwks svc)"
      using cur by (auto simp: l(3) set_published)
    moreover have "distinct (map fst (ks_publicJwks svc))"
      using distinct_published [OF inv] by (simp add: l(3) comp_def)
    ultimately show ?thesis using keys_inv_same [OF l(1)] inv l(2) by auto
  qed
  show ?thesis
  proof (cases "find_current db")
    case (Some current)
    with assms(2) have "load_current C imp st e current db = (Inr svc, db')"
      by (auto simp: load_keys_def split: if_splits)
    with loaded [OF assms(1)] find_current_Some [OF Some] show ?thesis by blast
  next
    case None
    obtain current db1 where gen: "generate C st e db = (Inr current, db1)"
      and ld: "load_current C imp st e current db1 = (Inr svc, db')"
      using assms(2) None by (auto simp: load_keys_def split: if_splits sum.splits prod.splits)
    have "keys_inv db1" using keys_inv_generate [OF assms(1) _ gen] None by (simp add: find_current_None)
    with loaded [OF _ _ _ ld] generate_Inr [OF gen] show ?thesis by simp
  qed
qed

lemma rotate_keys_Inr:
  assumes "keys_inv db" and "rotate_keys C imp st e db = (Inr svc, db')"
  shows "keys_inv db'" and "ks_currentKid svc = kv_kid e"
    and "r \<in> set db \<Longrightarrow> sk_status r = KeyCurrent \<Longrightarrow> (sk_kid r, sk_publicJwk r) \<in> set (ks_publicJwks svc)"
    and "fst ` set (ks_publicJwks svc) = insert (kv_kid e) (sk_kid ` {r \<in> set db. sk_status r = KeyCurrent})"
    and "distinct (map fst (ks_publicJwks svc))"
proof -
  obtain new db1 where gen: "generate C st e (demote db) = (Inr new, db1)"
    and ld: "load_keys C imp st e db1 = (Inr svc, db')"
    using assms(2) by (auto simp: rotate_keys_def demote_def split: sum.splits prod.splits)
  note g = generate_Inr [OF gen]
  have inv1: "keys_inv db1"
    by (rule keys_inv_generate [OF keys_inv_demote [OF assms(1)] demote_counts(1) gen])
  show "keys_inv db'" and "distinct (map fst (ks_publicJwks svc))" using load_keys_Inr [OF inv1 ld] by blast+
  have new: "new \<in> set db1" "sk_status new = KeyCurrent" using g by simp_all
  from ld one_current(2) [OF inv1 new] have lc: "load_current C imp st e new db1 = (Inr svc, db')"
    by (auto simp: load_keys_def split: if_splits)
  note l = load_current_Inr [OF lc]
  show "ks_currentKid svc = kv_kid e" using l(2) g(2) by simp
  show "(sk_kid r, sk_publicJwk r) \<in> set (ks_publicJwks svc)" if "r \<in> set db" "sk_status r = KeyCurrent"
  proof -
    have "r\<lparr>sk_status := KeyPrevious\<rparr> \<in> set (published db1)"
      using demote_current [OF that] g(1) by (simp add: set_published)
    then have "(\<lambda>r. (sk_kid r, sk_publicJwk r)) (r\<lparr>sk_status := KeyPrevious\<rparr>)
        \<in> set (map (\<lambda>r. (sk_kid r, sk_publicJwk r)) (published db1))"
      unfolding set_map by (rule imageI)
    then show ?thesis by (simp add: l(3))
  qed
  have "{r \<in> set db1. sk_status r = KeyCurrent \<or> sk_status r = KeyPrevious}
      = insert new {r \<in> set (demote db). sk_status r = KeyPrevious}"
    using demote_counts(1) [of db] g(1,3) by (auto simp: filter_empty_conv)
  moreover have "sk_kid ` {r \<in> set (demote db). sk_status r = KeyPrevious} = sk_kid ` {r \<in> set db. sk_status r = KeyCurrent}"
    using arg_cong [OF demote_previous [of db], of set] by (simp add: image_Collect)
  ultimately show "fst ` set (ks_publicJwks svc) = insert (kv_kid e) (sk_kid ` {r \<in> set db. sk_status r = KeyCurrent})"
    using g(2) by (auto simp: l(3) set_published image_image)
qed


text \<open>
  What is relied on of the JOSE library: against a published key set that contains the public half of
  the signing key under its id, a token is accepted with its payload while it has not expired, if
  issuer, audience and algorithm are as asked.
\<close>

definition accepts_token ::
    "((string \<times> string) list \<Rightarrow> jwt_verify) \<Rightarrow> ('k \<Rightarrow> string \<Rightarrow> string \<Rightarrow> json \<Rightarrow> string) \<Rightarrow> (string \<Rightarrow> 'k \<Rightarrow> bool)
     \<Rightarrow> token_config \<Rightarrow> int \<Rightarrow> auth_context \<Rightarrow> int \<Rightarrow> bool" where
  "accepts_token jv jwtSign pair cfg now c t \<longleftrightarrow>
     (\<forall>pubs kid pub key opts. (kid, pub) \<in> set pubs \<and> distinct (map fst pubs) \<and> pair pub key
        \<and> jo_issuer opts = tk_issuer cfg \<and> jo_audience opts = tk_audience cfg
        \<and> ''RS256'' \<in> set (jo_algorithms opts) \<and> t < now div 1000 + tk_accessTtl cfg \<longrightarrow>
        jv pubs (jwtSign key ''RS256'' kid (access_payload cfg now c)) opts = Some (access_payload cfg now c))"

lemma verify_accepted:
  assumes "accepts_token jv jwtSign pair cfg now c t" and "(kid, pub) \<in> set pubs" and "distinct (map fst pubs)"
    and "pair pub key" and "t < now div 1000 + tk_accessTtl cfg"
  shows "verify (jv pubs) (tk_issuer cfg) (tk_audience cfg) (jwtSign key ''RS256'' kid (access_payload cfg now c)) = Inr c"
proof -
  have "jv pubs (jwtSign key ''RS256'' kid (access_payload cfg now c))
      \<lparr>jo_issuer = tk_issuer cfg, jo_audience = tk_audience cfg, jo_algorithms = [''RS256'']\<rparr>
      = Some (access_payload cfg now c)"
    using assms unfolding accepts_token_def by simp
  then show ?thesis by (simp add: verify_def access_payload_def jget_def jstr_def)
qed

text \<open>
  C29: Rotating the signing key does not invalidate issued tokens. A token signed by a service that
  loaded its keys verifies, as the very principal it was issued to, against the key set that service
  publishes and, until it expires, against the key set published after a rotation, which holds
  exactly the new key and the one it replaced; the table keeps at most one current and one previous
  key.
\<close>

theorem tokens_survive_rotation:
  assumes "keys_inv db0" and "load_keys C imp st e db0 = (Inr svc, db)"
    and "rotate_keys C imp st e' db = (Inr svc', db')"
    and "sign_token jwtSign cfg (Some svc) now c = Inr token"
    and "\<forall>pub. (ks_currentKid svc, pub) \<in> set (ks_publicJwks svc) \<longrightarrow> pair pub (ks_currentKey svc)"
    and "accepts_token jv jwtSign pair cfg now c t" and "t < now div 1000 + tk_accessTtl cfg"
  shows "verify (jv (ks_publicJwks svc)) (tk_issuer cfg) (tk_audience cfg) token = Inr c
    \<and> verify (jv (ks_publicJwks svc')) (tk_issuer cfg) (tk_audience cfg) token = Inr c
    \<and> fst ` set (ks_publicJwks svc') = {kv_kid e', ks_currentKid svc} \<and> keys_inv db'"
proof -
  from load_keys_Inr [OF assms(1,2)] obtain r where inv: "keys_inv db" and r: "r \<in> set db" "sk_status r = KeyCurrent"
    and kid: "sk_kid r = ks_currentKid svc" and pub: "(sk_kid r, sk_publicJwk r) \<in> set (ks_publicJwks svc)"
    and dist: "distinct (map fst (ks_publicJwks svc))" by blast
  have pr: "pair (sk_publicJwk r) (ks_currentKey svc)" using assms(5) pub kid by simp
  have tok: "token = jwtSign (ks_currentKey svc) ''RS256'' (sk_kid r) (access_payload cfg now c)"
    using assms(4) kid by (simp add: sign_token_def)
  note rot = rotate_keys_Inr [OF inv assms(3)]
  have "{x \<in> set db. sk_status x = KeyCurrent} = {r}"
    using one_current(1) [OF inv r] by (metis set_filter empty_set list.simps(15))
  with rot(4) kid have "fst ` set (ks_publicJwks svc') = {kv_kid e', ks_currentKid svc}" by simp
  moreover have "verify (jv (ks_publicJwks svc)) (tk_issuer cfg) (tk_audience cfg) token = Inr c"
    unfolding tok by (rule verify_accepted [OF assms(6) pub dist pr assms(7)])
  moreover have "verify (jv (ks_publicJwks svc')) (tk_issuer cfg) (tk_audience cfg) token = Inr c"
    unfolding tok by (rule verify_accepted [OF assms(6) rot(3) [OF r] rot(5) pr assms(7)])
  ultimately show ?thesis using rot(1) by blast
qed

section \<open>A concrete cipher and key set\<close>

text \<open>A toy cipher on byte strings, with tags and armour enough to satisfy the laws.\<close>

definition armour :: "string \<Rightarrow> string" where
  "armour s = concat (map (\<lambda>c. if c = CHR '':'' then ''zc'' else if c = CHR ''z'' then ''zz'' else [c]) s)"

fun unarmour :: "string \<Rightarrow> string" where
  "unarmour [] = []"
| "unarmour [c] = [c]"
| "unarmour (c # d # s) =
     (if c = CHR ''z'' then (if d = CHR ''c'' then CHR '':'' else d) # unarmour s else c # unarmour (d # s))"

lemma unarmour_other: "c \<noteq> CHR ''z'' \<Longrightarrow> unarmour (c # s) = c # unarmour s"
  by (cases s) simp_all

lemma armour_Cons: "armour (c # s) =
    (if c = CHR '':'' then ''zc'' else if c = CHR ''z'' then ''zz'' else [c]) @ armour s"
  by (simp add: armour_def)

lemma unarmour_armour: "unarmour (armour s) = s"
  by (induction s) (auto simp: armour_Cons unarmour_other, simp add: armour_def)

definition toy_cipher :: "string cipher" where
  "toy_cipher = \<lparr>cph_b64 = armour, cph_unb64 = unarmour, cph_length = length,
     cph_encrypt = (\<lambda>k iv p. (CHR ''#'' # p, ''tag'')),
     cph_decrypt = (\<lambda>k iv ct tag. if tag = ''tag'' then Some (tl ct) else None)\<rparr>"

lemma toy_cipher_lawful: "cipher_lawful toy_cipher"
proof -
  have "CHR '':'' \<notin> set (armour b)" "armour b = [] \<longrightarrow> b = []" for b
    by (induction b) (auto simp: armour_Cons, simp add: armour_def)
  then show ?thesis by (auto simp: cipher_lawful_def toy_cipher_def unarmour_armour)
qed

definition toy_kek :: string where "toy_kek = replicate 32 CHR ''k''"

theorem sealed_key_roundtrip_witness:
  "\<exists>s. sealPrivateJwk toy_cipher ''iv'' ''private'' toy_kek = Inr s \<and> openPrivateJwk toy_cipher s (Some toy_kek) = Inr ''private''"
proof -
  have "unarmour toy_kek = toy_kek" by (simp add: toy_kek_def numeral_eq_Suc)
  then obtain s where s: "sealPrivateJwk toy_cipher ''iv'' ''private'' toy_kek = Inr s"
    by (simp add: sealPrivateJwk_def decodeKek_def toy_cipher_def KEK_BYTES_def) (simp add: toy_kek_def)
  have "0 < cph_length toy_cipher ''iv''" "toy_kek \<noteq> []" by (simp_all add: toy_cipher_def toy_kek_def)
  from sealed_key_roundtrip [OF toy_cipher_lawful this(1) _ this(2) s] s show ?thesis by simp
qed

definition dev_keys :: key_settings where "dev_keys = \<lparr>kc_kek = None, kc_production = False\<rparr>"

definition sample_key_env :: "string \<Rightarrow> string key_env" where
  "sample_key_env kid = \<lparr>kv_kid = kid, kv_pub = ''pub-'' @ kid, kv_priv = kid, kv_iv = ''iv'',
     kv_migrationIv = (\<lambda>_. ''iv''), kv_now = int (length kid)\<rparr>"

definition sample_token_config :: token_config where
  "sample_token_config = \<lparr>tk_issuer = ''iss'', tk_audience = ''aud'', tk_accessTtl = 900\<rparr>"

definition sample_user :: auth_context where
  "sample_user = \<lparr>ac_tenantId = ''berlin'', ac_role = ROLE_MERCHANT, ac_sub = ''u1''\<rparr>"

text \<open>A library that knows the sample payload, and tokens that are their key ids.\<close>

definition sample_jv :: "(string \<times> string) list \<Rightarrow> jwt_verify" where
  "sample_jv pubs token opts =
     (if token \<in> fst ` set pubs \<and> jo_issuer opts = ''iss'' \<and> jo_audience opts = ''aud''
      then Some (access_payload sample_token_config 0 sample_user) else None)"

definition sample_sign :: "string \<Rightarrow> string \<Rightarrow> string \<Rightarrow> json \<Rightarrow> string" where
  "sample_sign key alg kid payload = kid"

theorem tokens_survive_rotation_witness:
  "let (r, db) = load_keys toy_cipher Some dev_keys (sample_key_env ''a'') [];
       (r', db') = rotate_keys toy_cipher Some dev_keys (sample_key_env ''bb'') db
   in (case r' of Inr svc' \<Rightarrow> verify (sample_jv (ks_publicJwks svc')) ''iss'' ''aud'' ''a'' = Inr sample_user
       | Inl _ \<Rightarrow> False)"
proof -
  have ld: "load_keys toy_cipher Some dev_keys (sample_key_env ''a'') [] =
      (Inr \<lparr>ks_currentKid = ''a'', ks_currentKey = ''a'', ks_publicJwks = [(''a'', ''pub-a'')]\<rparr>,
       [\<lparr>sk_kid = ''a'', sk_publicJwk = ''pub-a'', sk_privateJwk = ''a'', sk_status = KeyCurrent, sk_createdAt = 1\<rparr>])"
    (is "_ = (Inr ?svc, ?db)") by code_simp
  have rot: "rotate_keys toy_cipher Some dev_keys (sample_key_env ''bb'') ?db =
      (Inr \<lparr>ks_currentKid = ''bb'', ks_currentKey = ''bb'', ks_publicJwks = [(''bb'', ''pub-bb''), (''a'', ''pub-a'')]\<rparr>,
       [\<lparr>sk_kid = ''a'', sk_publicJwk = ''pub-a'', sk_privateJwk = ''a'', sk_status = KeyPrevious, sk_createdAt = 1\<rparr>,
        \<lparr>sk_kid = ''bb'', sk_publicJwk = ''pub-bb'', sk_privateJwk = ''bb'', sk_status = KeyCurrent, sk_createdAt = 2\<rparr>])"
    (is "_ = (Inr ?svc', _)") by code_simp
  have acc: "accepts_token sample_jv sample_sign (\<lambda>pub key. pub = ''pub-'' @ key) sample_token_config 0 sample_user 0"
    by (auto simp: accepts_token_def sample_jv_def sample_sign_def sample_token_config_def image_iff intro: rev_bexI)
  have "keys_inv []" by (simp add: keys_inv_def)
  from tokens_survive_rotation [OF this ld rot, of sample_sign sample_token_config 0 sample_user "''a''", OF _ _ acc]
  have "verify (sample_jv (ks_publicJwks ?svc')) ''iss'' ''aud'' ''a'' = Inr sample_user"
    by (simp add: sign_token_def sample_sign_def) (simp add: sample_token_config_def)
  then show ?thesis by (simp add: ld rot)
qed

end
