(* ===== verification/Identity.thy ===== *)
theory Identity
  imports Refresh_Tokens Cookies Signing_Keys
begin

text \<open>
  The identity service: login, refresh and logout (\<open>auth.service.ts\<close>, \<open>auth.controller.ts\<close>) over the
  users and the refresh-token table, with the cookies they set, and the seeding of accounts
  (\<open>seed.ts\<close>, \<open>seed-shared.ts\<close>, \<open>seed-drivers.ts\<close>). Argon2 and the e-mail validator are parameters.
\<close>

section \<open>The service\<close>

record user =
  us_id :: string
  us_tenantId :: string
  us_email :: string
  us_passwordHash :: string
  us_role :: string

record identity =
  id_users :: "user list"
  id_tokens :: "rt_row list"

text \<open>
  What a request uses beside the tables: the hash of refresh tokens, \<open>argon2.verify\<close> (\<open>None\<close> when it
  throws), the token service with its time to live, and what it draws.
\<close>

record id_env =
  ie_hash :: "string \<Rightarrow> string"
  ie_argon2 :: "string \<Rightarrow> string \<Rightarrow> bool option"
  ie_sign :: "auth_context \<Rightarrow> (string, string) result"
  ie_ttl :: int
  ie_rt :: rt_env
  ie_rtConfig :: rt_config

record login_result =
  lr_accessToken :: string
  lr_expiresIn :: int

definition DUMMY_HASH :: string where
  "DUMMY_HASH = ''$argon2id$v=19$m=65536,t=3,p=4$0000000000000000$0000000000000000000000000000000000000000000''"

definition find_email :: "string \<Rightarrow> user list \<Rightarrow> user option" where
  "find_email email us = find (\<lambda>u. us_email u = email) us"

definition find_user :: "string \<Rightarrow> user list \<Rightarrow> user option" where
  "find_user i us = find (\<lambda>u. us_id u = i) us"

definition principal :: "user \<Rightarrow> auth_context" where
  "principal u = \<lparr>ac_tenantId = us_tenantId u, ac_role = us_role u, ac_sub = us_id u\<rparr>"

definition access :: "id_env \<Rightarrow> user \<Rightarrow> (http_error, login_result) result" where
  "access e u =
     (case ie_sign e (principal u) of
        Inl err \<Rightarrow> Inl (InternalError err)
      | Inr t \<Rightarrow> Inr \<lparr>lr_accessToken = t, lr_expiresIn = ie_ttl e\<rparr>)"

definition password_ok :: "id_env \<Rightarrow> user option \<Rightarrow> string \<Rightarrow> bool" where
  "password_ok e u password =
     (case ie_argon2 e (case u of None \<Rightarrow> DUMMY_HASH | Some x \<Rightarrow> us_passwordHash x) password of
        None \<Rightarrow> False | Some b \<Rightarrow> b)"

definition login ::
    "id_env \<Rightarrow> string \<Rightarrow> string \<Rightarrow> identity \<Rightarrow> (http_error, login_result \<times> string) result \<times> identity" where
  "login e email password st =
     (let found = find_email email (id_users st); ok = password_ok e found password in
      case found of
        None \<Rightarrow> (Inl (Unauthorized ''Invalid email or password''), st)
      | Some u \<Rightarrow>
          if \<not> ok then (Inl (Unauthorized ''Invalid email or password''), st)
          else (case access e u of
            Inl err \<Rightarrow> (Inl err, st)
          | Inr acc \<Rightarrow>
              (case issue (ie_hash e) (ie_rtConfig e) (ie_rt e) (us_id u) (us_tenantId u) (id_tokens st) of
                 (Inl err, db) \<Rightarrow> (Inl (InternalError err), st\<lparr>id_tokens := db\<rparr>)
               | (Inr (raw, _), db) \<Rightarrow> (Inr (acc, raw), st\<lparr>id_tokens := db\<rparr>))))"

definition refresh ::
    "id_env \<Rightarrow> string \<Rightarrow> identity \<Rightarrow> (http_error, login_result \<times> string) result \<times> identity" where
  "refresh e rawToken st =
     (case rotate_token (ie_hash e) (ie_rtConfig e) (ie_rt e) rawToken (id_tokens st) of
        (RotateOk raw _ userId, db) \<Rightarrow>
          (case find_user userId (id_users st) of
             None \<Rightarrow> (Inl (Unauthorized ''Invalid refresh token''), st\<lparr>id_tokens := db\<rparr>)
           | Some u \<Rightarrow>
               (case access e u of
                  Inl err \<Rightarrow> (Inl err, st\<lparr>id_tokens := db\<rparr>)
                | Inr acc \<Rightarrow> (Inr (acc, raw), st\<lparr>id_tokens := db\<rparr>)))
      | (RotateFailed, db) \<Rightarrow> (Inl (InternalError ''prisma''), st\<lparr>id_tokens := db\<rparr>)
      | (_, db) \<Rightarrow> (Inl (Unauthorized ''Invalid refresh token''), st\<lparr>id_tokens := db\<rparr>))"

definition logout :: "id_env \<Rightarrow> string \<Rightarrow> identity \<Rightarrow> identity" where
  "logout e rawToken st =
     st\<lparr>id_tokens := revoke (ie_hash e) (re_writeAt (ie_rt e)) rawToken (id_tokens st)\<rparr>"

section \<open>The controller\<close>

record cookie_config =
  cc_name :: string
  cc_path :: string
  cc_secure :: bool
  cc_refreshTtl :: nat

definition lower :: "char \<Rightarrow> char" where
  "lower c = (let n = of_char c :: nat in if 65 \<le> n \<and> n \<le> 90 then char_of (n + 32) else c)"

definition app_char :: "char \<Rightarrow> bool" where
  "app_char c \<longleftrightarrow> (let n = of_char c :: nat in 97 \<le> n \<and> n \<le> 122 \<or> 48 \<le> n \<and> n \<le> 57) \<or> c = CHR ''-''"

text \<open>\<open>raw[0]\<close> of an empty array is undefined, on which \<open>toLowerCase\<close> would throw; Node never gives one.\<close>

definition app_suffix :: "header_value \<Rightarrow> string" where
  "app_suffix h = take 24 (filter app_char (map lower (nullish (inbound_id h) [])))"

definition cookieName :: "cookie_config \<Rightarrow> header_value \<Rightarrow> string" where
  "cookieName cfg h = (let app = app_suffix h in
     if app = [] then cc_name cfg else cc_name cfg @ ''_'' @ app)"

definition setRt :: "cookie_config \<Rightarrow> string \<Rightarrow> string \<Rightarrow> string" where
  "setRt cfg name raw = buildSetCookie name raw
     \<lparr>ck_maxAgeSeconds = cc_refreshTtl cfg, ck_secure = cc_secure cfg, ck_path = cc_path cfg\<rparr>"

definition clearRt :: "cookie_config \<Rightarrow> string \<Rightarrow> string" where
  "clearRt cfg name = clearSetCookie name (cc_path cfg)"

record auth_request =
  ar_app :: header_value
  ar_cookie :: "string option"
  ar_body :: json

definition login_dto :: "(string \<Rightarrow> bool) \<Rightarrow> json \<Rightarrow> (string \<times> string) option" where
  "login_dto isEmail body =
     (case (jstr (jget ''email'' body), jstr (jget ''password'' body)) of
        (Some m, Some p) \<Rightarrow> if isEmail m \<and> p \<noteq> [] then Some (m, p) else None
      | _ \<Rightarrow> None)"

text \<open>The answer with the \<open>Set-Cookie\<close> header, if any.\<close>

type_synonym 'a auth_reply = "(http_error, 'a) result \<times> string option"

definition post_login ::
    "(string \<Rightarrow> bool) \<Rightarrow> cookie_config \<Rightarrow> id_env \<Rightarrow> auth_request \<Rightarrow> identity \<Rightarrow> login_result auth_reply \<times> identity" where
  "post_login isEmail cfg e rq st =
     (case login_dto isEmail (ar_body rq) of
        None \<Rightarrow> ((Inl (BadRequest ''validation''), None), st)
      | Some (email, password) \<Rightarrow>
          (case login e email password st of
             (Inl err, st') \<Rightarrow> ((Inl err, None), st')
           | (Inr (acc, raw), st') \<Rightarrow> ((Inr acc, Some (setRt cfg (cookieName cfg (ar_app rq)) raw)), st')))"

definition post_refresh ::
    "cookie_config \<Rightarrow> id_env \<Rightarrow> auth_request \<Rightarrow> identity \<Rightarrow> login_result auth_reply \<times> identity" where
  "post_refresh cfg e rq st =
     (let name = cookieName cfg (ar_app rq) in
      case parseCookie (ar_cookie rq) name of
        Inl err \<Rightarrow> ((Inl (InternalError err), None), st)
      | Inr found \<Rightarrow>
          if found = None \<or> found = Some [] then ((Inl (Unauthorized ''No refresh token''), Some (clearRt cfg name)), st)
          else (case refresh e (the found) st of
            (Inr (acc, raw), st') \<Rightarrow> ((Inr acc, Some (setRt cfg name raw)), st')
          | (Inl err, st') \<Rightarrow> ((Inl err, Some (clearRt cfg name)), st')))"

definition post_logout ::
    "cookie_config \<Rightarrow> id_env \<Rightarrow> auth_request \<Rightarrow> identity \<Rightarrow> unit auth_reply \<times> identity" where
  "post_logout cfg e rq st =
     (let name = cookieName cfg (ar_app rq) in
      case parseCookie (ar_cookie rq) name of
        Inl err \<Rightarrow> ((Inl (InternalError err), None), st)
      | Inr found \<Rightarrow>
          ((Inr (), Some (clearRt cfg name)),
           if found = None \<or> found = Some [] then st else logout e (the found) st))"

section \<open>Seeding\<close>

definition SEED_ROLES :: "string list" where "SEED_ROLES = [ROLE_CUSTOMER, ROLE_MERCHANT, ROLE_ADMIN]"

definition DRIVER_IDS :: "string list" where "DRIVER_IDS = [''drv-1'', ''drv-2'', ''drv-3'', ''drv-4'']"

definition tenantSlugs :: "tenant_view list \<Rightarrow> string list" where
  "tenantSlugs ts = map tv_slug (filter (\<lambda>t. tv_status t = ''active'') ts)"

definition driverUserId :: "string \<Rightarrow> string \<Rightarrow> string" where
  "driverUserId tenantId driverId = (if tenantId = ''berlin'' then driverId else driverId @ ''-'' @ tenantId)"

text \<open>
  \<open>user.upsert\<close> by e-mail: an update of tenant, role and hash, or a create under the primary key
  (\<open>None\<close> when the id is taken).
\<close>

definition upsert_user :: "user \<Rightarrow> user list \<Rightarrow> user list option" where
  "upsert_user u us =
     (if \<exists>x \<in> set us. us_email x = us_email u
      then Some (map (\<lambda>x. if us_email x = us_email u
        then x\<lparr>us_tenantId := us_tenantId u, us_role := us_role u, us_passwordHash := us_passwordHash u\<rparr> else x) us)
      else if us_id u \<in> us_id ` set us then None else Some (us @ [u]))"

fun upsert_all :: "user list \<Rightarrow> user list \<Rightarrow> user list option" where
  "upsert_all [] us = Some us"
| "upsert_all (u # rest) us = (case upsert_user u us of None \<Rightarrow> None | Some us' \<Rightarrow> upsert_all rest us')"

definition driver_rows :: "string \<Rightarrow> string list \<Rightarrow> user list" where
  "driver_rows h slugs = concat (map (\<lambda>t. map (\<lambda>d.
     \<lparr>us_id = driverUserId t d, us_tenantId = t, us_email = d @ ''@'' @ t @ ''.test'', us_passwordHash = h,
      us_role = ROLE_DRIVER\<rparr>) DRIVER_IDS) slugs)"

definition seedDrivers :: "string \<Rightarrow> string list \<Rightarrow> user list \<Rightarrow> user list option" where
  "seedDrivers h slugs us = upsert_all (driver_rows h slugs) us"

text \<open>The accounts of the full seed in order; \<open>fresh\<close> gives the ids the client draws.\<close>

definition account_rows :: "(string \<Rightarrow> string) \<Rightarrow> string \<Rightarrow> string list \<Rightarrow> user list" where
  "account_rows fresh h slugs = concat (map (\<lambda>t. map (\<lambda>r.
     \<lparr>us_id = fresh (r @ ''@'' @ t @ ''.test''), us_tenantId = t, us_email = r @ ''@'' @ t @ ''.test'',
      us_passwordHash = h, us_role = r\<rparr>) SEED_ROLES) slugs)"

definition operator_row :: "(string \<Rightarrow> string) \<Rightarrow> string \<Rightarrow> user" where
  "operator_row fresh h = \<lparr>us_id = fresh ''operator@flashbite.test'', us_tenantId = ''platform'',
     us_email = ''operator@flashbite.test'', us_passwordHash = h, us_role = ROLE_OPERATOR\<rparr>"

definition seed_users :: "(string \<Rightarrow> string) \<Rightarrow> string \<Rightarrow> tenant_view list \<Rightarrow> user list \<Rightarrow> user list option" where
  "seed_users fresh h ts us =
     upsert_all (account_rows fresh h (tenantSlugs ts) @ driver_rows h (tenantSlugs ts) @ [operator_row fresh h]) us"

definition SEED_TENANTS :: "tenant_view list" where
  "SEED_TENANTS =
     [\<lparr>tv_slug = ''berlin'', tv_displayName = ''Berlin'', tv_lng = 13405 / 1000, tv_lat = 5252 / 100,
       tv_status = ''active'', tv_brandColor = Some ''#06c167''\<rparr>,
      \<lparr>tv_slug = ''tokyo'', tv_displayName = ''Tokyo'', tv_lng = 1397 / 10, tv_lat = 3568 / 100,
       tv_status = ''active'', tv_brandColor = Some ''#7c3aed''\<rparr>]"

definition upsert_tenant :: "tenant_view \<Rightarrow> tenant_view list \<Rightarrow> tenant_view list" where
  "upsert_tenant t ts = (if tv_slug t \<in> tv_slug ` set ts
     then map (\<lambda>x. if tv_slug x = tv_slug t then t else x) ts else ts @ [t])"

definition seed_tenants :: "tenant_view list \<Rightarrow> tenant_view list" where
  "seed_tenants ts = foldl (\<lambda>ts t. upsert_tenant t ts) ts SEED_TENANTS"

section \<open>Login and refresh\<close>

lemma login_effect:
  assumes "post_login isEmail cfg e rq st = ((r, cookie), st')"
  shows "case r of
      Inr acc \<Rightarrow> (\<exists>email password u. login_dto isEmail (ar_body rq) = Some (email, password)
          \<and> find_email email (id_users st) = Some u \<and> ie_argon2 e (us_passwordHash u) password = Some True
          \<and> ie_sign e (principal u) = Inr (lr_accessToken acc)
          \<and> cookie = Some (setRt cfg (cookieName cfg (ar_app rq)) (re_raw (ie_rt e)))
          \<and> id_tokens st' = id_tokens st @
              [new_row (ie_hash e) (ie_rtConfig e) (ie_rt e) (re_familyId (ie_rt e)) (us_id u) (us_tenantId u)])
    | Inl err \<Rightarrow> cookie = None \<and> st' = st \<and>
        (err = Unauthorized ''Invalid email or password'' \<or> http_status err \<in> {400, 500})"
proof (cases "login_dto isEmail (ar_body rq)")
  case None
  with assms show ?thesis by (auto simp: post_login_def)
next
  case (Some mp)
  obtain email password where mp: "mp = (email, password)" by force
  show ?thesis
  proof (cases "find_email email (id_users st)")
    case None
    with assms Some mp show ?thesis by (auto simp: post_login_def login_def)
  next
    case found: (Some u)
    show ?thesis
    proof (cases "password_ok e (Some u) password")
      case False
      with assms Some mp found show ?thesis by (auto simp: post_login_def login_def)
    next
      case True
      then have "ie_argon2 e (us_passwordHash u) password = Some True"
        by (auto simp: password_ok_def split: option.splits)
      then show ?thesis
        using assms Some mp found True
        by (auto simp: post_login_def login_def access_def issue_def dest: create_row_Some(1)
            split: sum.splits option.splits)
    qed
  qed
qed


lemma refresh_effect:
  assumes "post_refresh cfg e rq st = ((r, cookie), st')"
  shows "case r of
      Inr acc \<Rightarrow> (\<exists>token raw expires u.
          parseCookie (ar_cookie rq) (cookieName cfg (ar_app rq)) = Inr (Some token)
          \<and> rotate_token (ie_hash e) (ie_rtConfig e) (ie_rt e) token (id_tokens st)
              = (RotateOk raw expires (us_id u), id_tokens st')
          \<and> u \<in> set (id_users st) \<and> ie_sign e (principal u) = Inr (lr_accessToken acc)
          \<and> cookie = Some (setRt cfg (cookieName cfg (ar_app rq)) raw))
    | Inl err \<Rightarrow> cookie = Some (clearRt cfg (cookieName cfg (ar_app rq))) \<or> http_status err = 500"
proof -
  let ?name = "cookieName cfg (ar_app rq)"
  show ?thesis
  proof (cases "parseCookie (ar_cookie rq) ?name")
    case (Inl err)
    with assms show ?thesis by (auto simp: post_refresh_def Let_def)
  next
    case (Inr found)
    show ?thesis
    proof (cases "found = None \<or> found = Some []")
      case True
      with assms Inr show ?thesis by (auto simp: post_refresh_def Let_def)
    next
      case False
      then obtain token where token: "found = Some token" "token \<noteq> []" by auto
      obtain res db where rot: "rotate_token (ie_hash e) (ie_rtConfig e) (ie_rt e) token (id_tokens st) = (res, db)"
        by force
      show ?thesis
      proof (cases res)
        case (RotateOk raw expires i)
        show ?thesis
        proof (cases "find_user i (id_users st)")
          case None
          with assms Inr token rot RotateOk show ?thesis
            by (auto simp: post_refresh_def Let_def refresh_def)
        next
          case (Some u)
          then have "u \<in> set (id_users st)" "us_id u = i" unfolding find_user_def by (auto dest: find_SomeD)
          with assms Inr token rot RotateOk Some show ?thesis
            by (auto simp: post_refresh_def Let_def refresh_def access_def split: sum.splits)
        qed
      qed (use assms Inr token rot in \<open>auto simp: post_refresh_def Let_def refresh_def\<close>)
    qed
  qed
qed

text \<open>
  Refreshing re-reads the account. When the refresh endpoint answers with an access token, the
  cookie named for the calling app held a token whose session rotated to the token now set in that
  cookie, and the access token is signed for the tenant and role the account has now, not for those
  of the login; on every refusal the cookie is cleared, unless it was malformed.
\<close>

theorem refresh_rereads_account:
  "case post_refresh cfg e rq st of ((r, cookie), st') \<Rightarrow> (case r of
      Inr acc \<Rightarrow> (\<exists>token raw expires u.
          parseCookie (ar_cookie rq) (cookieName cfg (ar_app rq)) = Inr (Some token)
          \<and> rotate_token (ie_hash e) (ie_rtConfig e) (ie_rt e) token (id_tokens st)
              = (RotateOk raw expires (us_id u), id_tokens st')
          \<and> u \<in> set (id_users st) \<and> ie_sign e (principal u) = Inr (lr_accessToken acc)
          \<and> cookie = Some (setRt cfg (cookieName cfg (ar_app rq)) raw))
    | Inl err \<Rightarrow> cookie = Some (clearRt cfg (cookieName cfg (ar_app rq))) \<or> http_status err = 500)"
proof -
  obtain r cookie st' where run: "post_refresh cfg e rq st = ((r, cookie), st')" by (metis prod.exhaust)
  from refresh_effect [OF run] show ?thesis by (simp only: run prod.case)
qed

end
