(* ===== verification/Web_Session.thy ===== *)
theory Web_Session
  imports Identity
begin

text \<open>
  The browser's session (\<open>packages/web-shared/src/store/auth-store.ts\<close>) and the authenticated request
  of \<open>api/client.ts\<close>: the access token held in memory, the claims read from it for display, login,
  logout, the bootstrap from the refresh cookie, one silent refresh and one retry after a 401, and the
  single flight that all refreshers share. The network with everything behind it is a function.
\<close>

section \<open>Requests\<close>

record http_request =
  hq_method :: string
  hq_url :: string
  hq_headers :: "(string \<times> string) list"
  hq_credentials :: bool
  hq_body :: "json option"

text \<open>A response without a body that \<open>res.json()\<close> can read has no body here.\<close>

record http_response =
  hs_status :: nat
  hs_body :: "json option"

definition hs_ok :: "http_response \<Rightarrow> bool" where
  "hs_ok r \<longleftrightarrow> 200 \<le> hs_status r \<and> hs_status r < 300"

text \<open>\<open>fetch\<close>: the answer, or \<open>None\<close> when the promise rejects (network error, abort, timeout).\<close>

type_synonym 'w server = "http_request \<Rightarrow> 'w \<Rightarrow> http_response option \<times> 'w"

datatype client_error = NetworkFailure | BadJson | Failed string | UnauthorizedError

definition POST_JSON :: "string \<Rightarrow> json \<Rightarrow> http_request" where
  "POST_JSON url body = \<lparr>hq_method = ''POST'', hq_url = url, hq_headers = [(''Content-Type'', ''application/json'')],
     hq_credentials = False, hq_body = Some body\<rparr>"

definition POST_EMPTY :: "string \<Rightarrow> http_request" where
  "POST_EMPTY url = \<lparr>hq_method = ''POST'', hq_url = url, hq_headers = [], hq_credentials = False, hq_body = None\<rparr>"

definition GET_REQ :: "string \<Rightarrow> http_request" where
  "GET_REQ url = \<lparr>hq_method = ''GET'', hq_url = url, hq_headers = [], hq_credentials = False, hq_body = None\<rparr>"

section \<open>Claims\<close>

text \<open>
  \<open>String(v)\<close>; how a fraction prints is the argument \<open>num\<close>, and integers are below the size at which
  JavaScript prints an exponent.
\<close>

definition show_int :: "int \<Rightarrow> string" where
  "show_int n = (if n < 0 then CHR ''-'' # show_nat (nat (- n)) else show_nat (nat n))"

fun js_string :: "(real \<Rightarrow> string) \<Rightarrow> json \<Rightarrow> string" where
  "js_string num JNull = ''null''"
| "js_string num (JBool b) = (if b then ''true'' else ''false'')"
| "js_string num (JInt n) = show_int n"
| "js_string num (JFrac x) = num x"
| "js_string num (JStr s) = s"
| "js_string num (JArr js) = join '','' (map (\<lambda>j. case j of JNull \<Rightarrow> [] | _ \<Rightarrow> js_string num j) js)"
| "js_string num (JObj kvs) = ''[object Object]''"

record auth_claims =
  cl_sub :: string
  cl_tenantId :: string
  cl_role :: string

definition no_claims :: auth_claims where
  "no_claims = \<lparr>cl_sub = [], cl_tenantId = [], cl_role = []\<rparr>"

text \<open>
  The build-time name of the app, \<open>JSON.parse\<close> of the UTF-8 text of base64 bytes (\<open>None\<close> when it
  throws), and the printing of fractions.
\<close>

record web_config =
  wc_fbApp :: "string option"
  wc_parse64 :: "string \<Rightarrow> json option"
  wc_num :: "real \<Rightarrow> string"

definition fbAppHeader :: "web_config \<Rightarrow> (string \<times> string) list" where
  "fbAppHeader cfg = (case wc_fbApp cfg of
     None \<Rightarrow> [] | Some a \<Rightarrow> if a = [] then [] else [(''X-FB-App'', a)])"

definition url64_char :: "char \<Rightarrow> char" where
  "url64_char c = (if c = CHR ''-'' then CHR ''+'' else if c = CHR ''_'' then CHR ''/'' else c)"

definition claim_of :: "web_config \<Rightarrow> string \<Rightarrow> json \<Rightarrow> string" where
  "claim_of cfg k j = (case jget k j of
     None \<Rightarrow> [] | Some JNull \<Rightarrow> [] | Some v \<Rightarrow> js_string (wc_num cfg) v)"

definition decodeClaims :: "web_config \<Rightarrow> string \<Rightarrow> auth_claims" where
  "decodeClaims cfg token =
     (let payload = (case split_char CHR ''.'' token of _ # p # _ \<Rightarrow> p | _ \<Rightarrow> []) in
      case wc_parse64 cfg (map url64_char payload) of
        None \<Rightarrow> no_claims
      | Some JNull \<Rightarrow> no_claims
      | Some j \<Rightarrow> \<lparr>cl_sub = claim_of cfg ''sub'' j, cl_tenantId = claim_of cfg ''tenantId'' j,
                    cl_role = claim_of cfg ''role'' j\<rparr>)"

section \<open>The store\<close>

record 'w browser =
  br_token :: "string option"
  br_claims :: "auth_claims option"
  br_booting :: bool
  br_bootstrapped :: bool
  br_net :: 'w

definition setToken :: "web_config \<Rightarrow> string \<Rightarrow> 'w browser \<Rightarrow> 'w browser" where
  "setToken cfg token b = b\<lparr>br_token := Some token, br_claims := Some (decodeClaims cfg token)\<rparr>"

definition auth_post :: "web_config \<Rightarrow> string \<Rightarrow> (string \<times> string) list \<Rightarrow> json option \<Rightarrow> http_request" where
  "auth_post cfg action hs body = \<lparr>hq_method = ''POST'', hq_url = ''/api/identity/auth/'' @ action,
     hq_headers = hs @ fbAppHeader cfg, hq_credentials = True, hq_body = body\<rparr>"

definition refresh_request :: "web_config \<Rightarrow> http_request" where
  "refresh_request cfg = auth_post cfg ''refresh'' [] None"

definition logout_request :: "web_config \<Rightarrow> http_request" where
  "logout_request cfg = auth_post cfg ''logout'' [] None"

definition login_request :: "web_config \<Rightarrow> string \<Rightarrow> string \<Rightarrow> http_request" where
  "login_request cfg email password = auth_post cfg ''login'' [(''Content-Type'', ''application/json'')]
     (Some (JObj [(''email'', JStr email), (''password'', JStr password)]))"

text \<open>
  Storing the \<open>accessToken\<close> of a body: destructuring \<open>null\<close> throws; an absent token is stored as
  undefined, with empty claims. A token that is no string counts as absent.
\<close>

definition store_token :: "web_config \<Rightarrow> json option \<Rightarrow> 'w browser \<Rightarrow> 'w browser option" where
  "store_token cfg body b =
     (case body of
        None \<Rightarrow> None
      | Some JNull \<Rightarrow> None
      | Some j \<Rightarrow> (case jstr (jget ''accessToken'' j) of
           Some t \<Rightarrow> Some (setToken cfg t b)
         | None \<Rightarrow> Some (b\<lparr>br_token := None, br_claims := Some no_claims\<rparr>)))"

definition web_login ::
    "web_config \<Rightarrow> 'w server \<Rightarrow> string \<Rightarrow> string \<Rightarrow> 'w browser \<Rightarrow> (client_error, unit) result \<times> 'w browser" where
  "web_login cfg srv email password b =
     (case srv (login_request cfg email password) (br_net b) of
        (None, w) \<Rightarrow> (Inl NetworkFailure, b\<lparr>br_net := w\<rparr>)
      | (Some res, w) \<Rightarrow>
          if \<not> hs_ok res then (Inl (Failed ''Invalid email or password''), b\<lparr>br_net := w\<rparr>)
          else (case store_token cfg (hs_body res) (b\<lparr>br_net := w\<rparr>) of
             None \<Rightarrow> (Inl BadJson, b\<lparr>br_net := w\<rparr>)
           | Some b' \<Rightarrow> (Inr (), b')))"

text \<open>The server's part is best effort; the state is cleared whatever it answers.\<close>

definition web_logout :: "web_config \<Rightarrow> 'w server \<Rightarrow> 'w browser \<Rightarrow> 'w browser" where
  "web_logout cfg srv b =
     (case srv (logout_request cfg) (br_net b) of
        (_, w) \<Rightarrow> b\<lparr>br_token := None, br_claims := None, br_net := w\<rparr>)"

definition doRefresh :: "web_config \<Rightarrow> 'w server \<Rightarrow> 'w browser \<Rightarrow> bool \<times> 'w browser" where
  "doRefresh cfg srv b =
     (case srv (refresh_request cfg) (br_net b) of
        (None, w) \<Rightarrow> (False, b\<lparr>br_net := w\<rparr>)
      | (Some res, w) \<Rightarrow>
          if \<not> hs_ok res then (False, b\<lparr>br_net := w\<rparr>)
          else (case store_token cfg (hs_body res) (b\<lparr>br_net := w\<rparr>) of
             None \<Rightarrow> (False, b\<lparr>br_net := w\<rparr>)
           | Some b' \<Rightarrow> (True, b')))"

definition bootstrap :: "web_config \<Rightarrow> 'w server \<Rightarrow> 'w browser \<Rightarrow> 'w browser" where
  "bootstrap cfg srv b =
     (if br_bootstrapped b then b
      else (snd (doRefresh cfg srv (b\<lparr>br_bootstrapped := True\<rparr>)))\<lparr>br_booting := False\<rparr>)"

section \<open>Authenticated requests\<close>

definition authHeader :: "'w browser \<Rightarrow> (string \<times> string) list" where
  "authHeader b = (case br_token b of
     None \<Rightarrow> [] | Some t \<Rightarrow> if t = [] then [] else [(''Authorization'', ''Bearer '' @ t)])"

definition with_auth :: "'w browser \<Rightarrow> http_request \<Rightarrow> http_request" where
  "with_auth b rq = rq\<lparr>hq_headers := authHeader b @ hq_headers rq\<rparr>"

definition end_session ::
    "web_config \<Rightarrow> 'w server \<Rightarrow> 'w browser \<Rightarrow> (client_error, http_response) result \<times> 'w browser" where
  "end_session cfg srv b = (Inl UnauthorizedError, web_logout cfg srv b)"

definition authedFetch ::
    "web_config \<Rightarrow> 'w server \<Rightarrow> http_request \<Rightarrow> 'w browser \<Rightarrow> (client_error, http_response) result \<times> 'w browser" where
  "authedFetch cfg srv rq b =
     (case srv (with_auth b rq) (br_net b) of
        (None, w) \<Rightarrow> (Inl NetworkFailure, b\<lparr>br_net := w\<rparr>)
      | (Some res, w) \<Rightarrow>
          if hs_status res \<noteq> 401 then (Inr res, b\<lparr>br_net := w\<rparr>)
          else (case doRefresh cfg srv (b\<lparr>br_net := w\<rparr>) of
             (False, b1) \<Rightarrow> end_session cfg srv b1
           | (True, b1) \<Rightarrow>
               (case srv (with_auth b1 rq) (br_net b1) of
                  (None, w') \<Rightarrow> (Inl NetworkFailure, b1\<lparr>br_net := w'\<rparr>)
                | (Some res', w') \<Rightarrow>
                    if hs_status res' \<noteq> 401 then (Inr res', b1\<lparr>br_net := w'\<rparr>)
                    else end_session cfg srv (b1\<lparr>br_net := w'\<rparr>))))"

text \<open>A server that keeps a log of the requests it has seen.\<close>

definition logged :: "'w server \<Rightarrow> (http_request list \<times> 'w) server" where
  "logged srv rq st = (case srv rq (snd st) of (r, w) \<Rightarrow> (r, (fst st @ [rq], w)))"

lemma logged_simp: "logged srv rq (seen, w) = (fst (srv rq w), (seen @ [rq], snd (srv rq w)))"
  by (simp add: logged_def split: prod.splits)

lemma doRefresh_logged:
  assumes "doRefresh cfg (logged srv) b = (ok, b')"
  shows "fst (br_net b') = fst (br_net b) @ [refresh_request cfg]"
    and "\<not> ok \<Longrightarrow> br_token b' = br_token b \<and> br_claims b' = br_claims b"
  using assms unfolding doRefresh_def
  by (cases "br_net b"; auto simp: logged_simp store_token_def setToken_def
      split: option.splits if_splits json.splits prod.splits)+

lemma web_logout_logged:
  "fst (br_net (web_logout cfg (logged srv) b)) = fst (br_net b) @ [logout_request cfg]"
  "br_token (web_logout cfg (logged srv) b) = None" "br_claims (web_logout cfg (logged srv) b) = None"
  by (cases "br_net b"; simp add: web_logout_def logged_simp)+

lemma with_auth_net [simp]: "with_auth (b\<lparr>br_net := w\<rparr>) rq = with_auth b rq"
  by (simp add: with_auth_def authHeader_def)

lemma with_auth_shape: "\<exists>hs. with_auth b rq = rq\<lparr>hq_headers := hs @ hq_headers rq\<rparr>"
  by (auto simp: with_auth_def)

text \<open>
  A request is sent at most twice and refreshes at most once. Whatever the network does,
  \<open>authedFetch\<close> sends the request once with the current token, and only after a 401 one refresh and,
  when that gave a token, the request once more with it. It returns only answers that are no 401; when
  it reports the session as over, token and claims are gone and the server was told; and when it
  reports a network failure nobody was logged out.
\<close>

theorem authed_fetch_contract:
  "case authedFetch cfg (logged srv) rq b of (r, b') \<Rightarrow>
     (\<exists>sent. fst (br_net b') = fst (br_net b) @ with_auth b rq # sent
       \<and> (case r of
            Inr res \<Rightarrow> hs_status res \<noteq> 401 \<and> sent \<in> {[], [refresh_request cfg, with_auth b' rq]}
          | Inl NetworkFailure \<Rightarrow> sent \<in> {[], [refresh_request cfg, with_auth b' rq]}
          | Inl UnauthorizedError \<Rightarrow> br_token b' = None \<and> br_claims b' = None
              \<and> (sent = [refresh_request cfg, logout_request cfg]
                 \<or> (\<exists>hs. sent = [refresh_request cfg, rq\<lparr>hq_headers := hs @ hq_headers rq\<rparr>, logout_request cfg]))
          | Inl _ \<Rightarrow> False))"
proof -
  obtain seen w where net: "br_net b = (seen, w)" by (rule prod.exhaust)
  let ?q = "with_auth b rq"
  let ?b = "b\<lparr>br_net := (seen @ [?q], snd (srv ?q w))\<rparr>"
  obtain ok b1 where refreshed: "doRefresh cfg (logged srv) ?b = (ok, b1)" by (rule prod.exhaust)
  obtain w1 where net1: "br_net b1 = (seen @ [?q, refresh_request cfg], w1)"
    using doRefresh_logged(1) [OF refreshed] by (cases "br_net b1") simp
  show ?thesis
  proof (cases "fst (srv ?q w)")
    case None
    then show ?thesis by (simp add: authedFetch_def net logged_simp)
  next
    case (Some res)
    show ?thesis
    proof (cases "hs_status res = 401")
      case False
      then show ?thesis using Some by (simp add: authedFetch_def net logged_simp)
    next
      case True
      show ?thesis
        using Some True refreshed net1 web_logout_logged [of cfg srv]
        by (cases ok; cases "fst (srv (with_auth b1 rq) w1)")
           (auto simp: authedFetch_def net logged_simp end_session_def with_auth_shape)
    qed
  qed
qed

section \<open>One refresh in flight\<close>

text \<open>
  The refreshers of one page and the server: the refresh cookie in the jar, the refresh under way (not
  yet sent, sent with the cookie's value, or served with its answer on the way back), the callers
  waiting for it, the answers given so far, and the server's table of refresh tokens.
\<close>

datatype flight = Idle | Sent "string option" | Served rotate_result

record session =
  ss_cookie :: "string option"
  ss_flight :: flight
  ss_waiting :: "nat list"
  ss_answers :: "(nat \<times> bool) list"
  ss_db :: "rt_row list"

text \<open>\<open>if (!refreshing) refreshing = doRefresh().finally(...); return refreshing\<close>, called by caller \<open>i\<close>.\<close>

definition refreshAuthSession :: "nat \<Rightarrow> session \<Rightarrow> session" where
  "refreshAuthSession i s =
     (let s' = (if ss_flight s = Idle then s\<lparr>ss_flight := Sent (ss_cookie s)\<rparr> else s)
      in s'\<lparr>ss_waiting := ss_waiting s' @ [i]\<rparr>)"

definition serve_refresh :: "(string \<Rightarrow> string) \<Rightarrow> rt_config \<Rightarrow> rt_env \<Rightarrow> string option \<Rightarrow> session \<Rightarrow> session" where
  "serve_refresh hash cfg e sent s =
     (case sent of
        None \<Rightarrow> s\<lparr>ss_flight := Served Invalid\<rparr>
      | Some raw \<Rightarrow>
          if raw = [] then s\<lparr>ss_flight := Served Invalid\<rparr>
          else (case rotate_token hash cfg e raw (ss_db s) of
             (r, db) \<Rightarrow> s\<lparr>ss_flight := Served r, ss_db := db\<rparr>))"

text \<open>
  The answer arrives: the cookie is replaced, or cleared when the refresh was refused - also when the
  account is gone although the token rotated -, and every waiting caller gets the one answer.
\<close>

definition settle :: "bool \<Rightarrow> session \<Rightarrow> session" where
  "settle ok s = s\<lparr>ss_flight := Idle, ss_waiting := [],
     ss_answers := ss_answers s @ map (\<lambda>i. (i, ok)) (ss_waiting s)\<rparr>"

definition deliver_refresh :: "bool \<Rightarrow> rotate_result \<Rightarrow> session \<Rightarrow> session" where
  "deliver_refresh account r s =
     (case r of
        RotateOk raw _ _ \<Rightarrow>
          if account then settle True (s\<lparr>ss_cookie := Some raw\<rparr>) else settle False (s\<lparr>ss_cookie := None\<rparr>)
      | _ \<Rightarrow> settle False (s\<lparr>ss_cookie := None\<rparr>))"

text \<open>The token the browser will present next, and what other sessions may do to the table.\<close>

definition live_raw :: "session \<Rightarrow> string option" where
  "live_raw s = (case ss_flight s of
     Idle \<Rightarrow> ss_cookie s | Sent c \<Rightarrow> c | Served (RotateOk raw _ _) \<Rightarrow> Some raw | Served _ \<Rightarrow> None)"

definition undisturbed :: "(string \<Rightarrow> string) \<Rightarrow> session \<Rightarrow> rt_row list \<Rightarrow> bool" where
  "undisturbed hash s db = (case live_raw s of
     None \<Rightarrow> True | Some raw \<Rightarrow> list_all (\<lambda>r. rt_hash r = hash raw \<longrightarrow> r \<in> set (ss_db s)) db)"

inductive flight_step :: "(string \<Rightarrow> string) \<Rightarrow> rt_config \<Rightarrow> session \<Rightarrow> session \<Rightarrow> bool" for hash cfg where
  step_ask: "flight_step hash cfg s (refreshAuthSession i s)"
| step_serve: "ss_flight s = Sent c \<Longrightarrow> flight_step hash cfg s (serve_refresh hash cfg e c s)"
| step_deliver: "ss_flight s = Served r \<Longrightarrow> flight_step hash cfg s (deliver_refresh account r s)"
| step_others: "undisturbed hash s db \<Longrightarrow> flight_step hash cfg s (s\<lparr>ss_db := db\<rparr>)"

inductive flight_reach :: "(string \<Rightarrow> string) \<Rightarrow> rt_config \<Rightarrow> session \<Rightarrow> session \<Rightarrow> bool" for hash cfg s0 where
  flight_start: "flight_reach hash cfg s0 s0"
| flight_more: "flight_reach hash cfg s0 s \<Longrightarrow> flight_step hash cfg s s' \<Longrightarrow> flight_reach hash cfg s0 s'"

text \<open>After a login: nothing under way, and the cookie's token not rotated and not revoked.\<close>

definition token_unused :: "(string \<Rightarrow> string) \<Rightarrow> string option \<Rightarrow> rt_row list \<Rightarrow> bool" where
  "token_unused hash c db = (case c of
     None \<Rightarrow> True | Some raw \<Rightarrow> list_all (\<lambda>r. rt_hash r = hash raw \<longrightarrow> rt_status r = RtActive) db)"

definition fresh_session :: "(string \<Rightarrow> string) \<Rightarrow> session \<Rightarrow> bool" where
  "fresh_session hash s \<longleftrightarrow> ss_flight s = Idle \<and> ss_waiting s = [] \<and> token_unused hash (ss_cookie s) (ss_db s)"

definition session_inv :: "(string \<Rightarrow> string) \<Rightarrow> session \<Rightarrow> bool" where
  "session_inv hash s \<longleftrightarrow> token_unused hash (live_raw s) (ss_db s) \<and> ss_flight s \<noteq> Served Reuse
     \<and> (ss_flight s = Idle \<longleftrightarrow> ss_waiting s = [])"

lemma token_unused_None [simp]: "token_unused hash None db"
  by (simp add: token_unused_def)

lemma unused_rotates:
  assumes "token_unused hash (Some raw) db" and "rotate_token hash cfg e raw db = (r, db')"
  shows "r \<noteq> Reuse" and "r = RotateOk raw' x u \<Longrightarrow> token_unused hash (Some raw') db'"
proof -
  let ?db = "prune (re_pruneAt e) db"
  have sub: "set ?db \<subseteq> set db" by (auto simp: prune_def)
  have plan: "rotate_plan hash cfg e raw ?db = Refuse
      \<or> (\<exists>row. row \<in> set ?db \<and> rotate_plan hash cfg e raw ?db = RotateRow row)"
  proof (cases "find (\<lambda>r. rt_hash r = hash raw) ?db")
    case None
    then show ?thesis by (simp add: rotate_plan_def)
  next
    case (Some row)
    then have "row \<in> set ?db \<and> rt_hash row = hash raw" by (rule find_SomeD)
    moreover from this have "rt_status row = RtActive"
      using assms(1) sub by (auto simp: token_unused_def list_all_iff)
    ultimately show ?thesis using Some by (auto simp: rotate_plan_def)
  qed
  show "r \<noteq> Reuse"
    using plan assms(2) by (auto simp: rotate_token_def rotateRow_def Let_def split: if_splits option.splits)
  assume r: "r = RotateOk raw' x u"
  then obtain row where row: "rotateRow hash cfg e row ?db = (RotateOk raw' x u, db')"
    using plan assms(2) by (auto simp: rotate_token_def)
  let ?n = "new_row hash cfg e (rt_familyId row) (rt_userId row) (rt_tenantId row)"
  let ?m = "update_rows (\<lambda>r. rt_id r = rt_id row) (mark_rotated (re_writeAt e)) ?db"
  have created: "create_row ?n ?m = Some db'" and raw: "raw' = re_raw e"
    using row by (auto simp: rotateRow_def split: if_splits option.splits)
  have "rt_hash x \<noteq> rt_hash ?n" if "x \<in> set ?m" for x
    using create_row_Some(3) [OF created] imageI [OF that, of rt_hash] by force
  moreover have "rt_hash ?n = hash raw'" "rt_status ?n = RtActive" by (simp_all add: raw new_row_def)
  ultimately show "token_unused hash (Some raw') db'"
    using create_row_Some(1) [OF created] by (auto simp: token_unused_def list_all_iff)
qed

lemma flight_step_inv: "flight_step hash cfg s s' \<Longrightarrow> session_inv hash s \<Longrightarrow> session_inv hash s'"
proof (induction rule: flight_step.induct)
  case (step_ask s i)
  then show ?case
    by (cases "ss_flight s") (auto simp: session_inv_def refreshAuthSession_def Let_def live_raw_def
        split: rotate_result.splits)
next
  case (step_serve s c e)
  show ?case
  proof (cases "c = None \<or> c = Some []")
    case True
    then show ?thesis using step_serve
      by (auto simp: session_inv_def serve_refresh_def live_raw_def)
  next
    case False
    then obtain raw where c: "c = Some raw" "raw \<noteq> []" by auto
    obtain r db where rot: "rotate_token hash cfg e raw (ss_db s) = (r, db)" by (rule prod.exhaust)
    have unused: "token_unused hash (Some raw) (ss_db s)"
      using step_serve c by (simp add: session_inv_def live_raw_def)
    show ?thesis
      using step_serve c rot unused_rotates [OF unused rot]
      by (cases r) (auto simp: session_inv_def serve_refresh_def live_raw_def)
  qed
next
  case (step_deliver s r account)
  then show ?case
    by (cases r) (auto simp: session_inv_def deliver_refresh_def settle_def live_raw_def)
next
  case (step_others s db)
  then show ?case
    by (auto simp: session_inv_def undisturbed_def token_unused_def live_raw_def list_all_iff
        split: option.splits flight.splits rotate_result.splits)
qed

lemma flight_reach_inv: "flight_reach hash cfg s0 s \<Longrightarrow> session_inv hash s0 \<Longrightarrow> session_inv hash s"
  by (induction rule: flight_reach.induct) (auto intro: flight_step_inv)

lemma fresh_session_inv: "fresh_session hash s \<Longrightarrow> session_inv hash s"
  by (simp add: fresh_session_def session_inv_def live_raw_def)


definition sample_session :: session where
  "sample_session = \<lparr>ss_cookie = Some ''raw-1'', ss_flight = Idle, ss_waiting = [], ss_answers = [],
     ss_db = session_db\<rparr>"

definition sample_shared :: session where
  "sample_shared = serve_refresh id sample_rt_config (sample_rt_env ''2'' 1) (Some ''raw-1'')
     (refreshAuthSession 2 (refreshAuthSession 1 sample_session))"

lemma sample_shared_reach: "flight_reach id sample_rt_config sample_session sample_shared"
proof -
  let ?s2 = "refreshAuthSession 2 (refreshAuthSession 1 sample_session)"
  have "flight_reach id sample_rt_config sample_session ?s2"
    by (intro flight_more [OF flight_more [OF flight_start step_ask] step_ask])
  moreover have "ss_flight ?s2 = Sent (Some ''raw-1'')"
    by (simp add: refreshAuthSession_def sample_session_def)
  ultimately show ?thesis
    unfolding sample_shared_def by (intro flight_more [OF _ step_serve])
qed


end
