(* ===== verification/Web_Api.thy ===== *)
theory Web_Api
  imports Web_Session
begin

text \<open>
  The calls of the frontends (\<open>packages/web-shared/src/api/client.ts\<close>): the request each function sends
  through \<open>authedFetch\<close> and how it reads the answer; and the routes the services declare for them, by
  which a request is shown to reach the handler it is meant for, with the ids it was called with.
\<close>

section \<open>Answers\<close>

definition api_call ::
    "web_config \<Rightarrow> 'w server \<Rightarrow> string \<Rightarrow> http_request \<Rightarrow> 'w browser
     \<Rightarrow> (client_error, http_response) result \<times> 'w browser" where
  "api_call cfg srv what rq b =
     (case authedFetch cfg srv rq b of
        (Inl e, b') \<Rightarrow> (Inl e, b')
      | (Inr res, b') \<Rightarrow>
          if hs_ok res then (Inr res, b')
          else (Inl (Failed (what @ '' failed: '' @ show_nat (hs_status res))), b'))"

definition body_of :: "http_response \<Rightarrow> (client_error, json) result" where
  "body_of res = (case hs_body res of None \<Rightarrow> Inl BadJson | Some j \<Rightarrow> Inr j)"

definition api_json ::
    "web_config \<Rightarrow> 'w server \<Rightarrow> string \<Rightarrow> http_request \<Rightarrow> 'w browser
     \<Rightarrow> (client_error, json) result \<times> 'w browser" where
  "api_json cfg srv what rq b =
     (case api_call cfg srv what rq b of
        (Inl e, b') \<Rightarrow> (Inl e, b')
      | (Inr res, b') \<Rightarrow> (body_of res, b'))"

definition api_unit ::
    "web_config \<Rightarrow> 'w server \<Rightarrow> string \<Rightarrow> http_request \<Rightarrow> 'w browser
     \<Rightarrow> (client_error, unit) result \<times> 'w browser" where
  "api_unit cfg srv what rq b =
     (case api_call cfg srv what rq b of
        (Inl e, b') \<Rightarrow> (Inl e, b')
      | (Inr res, b') \<Rightarrow> (Inr (), b'))"

text \<open>Reading a member of the body: undefined when it is absent, an exception when the body is null.\<close>

definition api_field ::
    "string \<Rightarrow> (client_error, json) result \<times> 'w browser \<Rightarrow> (client_error, json option) result \<times> 'w browser" where
  "api_field k rb =
     (case rb of
        (Inl e, b') \<Rightarrow> (Inl e, b')
      | (Inr JNull, b') \<Rightarrow> (Inl BadJson, b')
      | (Inr j, b') \<Rightarrow> (Inr (jget k j), b'))"

definition id_path :: "string \<Rightarrow> string \<Rightarrow> string \<Rightarrow> string" where
  "id_path pre i post = pre @ encodeURIComponent i @ post"

text \<open>\<open>URLSearchParams\<close>: form encoding, which escapes more than \<open>encodeURIComponent\<close> and writes a space as plus.\<close>

definition form_char :: "char \<Rightarrow> string" where
  "form_char c = (if c = CHR '' '' then ''+''
     else if c \<in> set ''!~'()'' then percent (of_char c) else encode_char c)"

definition form_encode :: "string \<Rightarrow> string" where
  "form_encode s = concat (map form_char s)"

definition search_params :: "(string \<times> string) list \<Rightarrow> string" where
  "search_params kvs = join ''&'' (map (\<lambda>(k, v). form_encode k @ ''='' @ form_encode v) kvs)"

section \<open>Orders\<close>

definition item_json :: "order_item \<Rightarrow> json" where
  "item_json i = JObj [(''sku'', JStr (sku i)), (''qty'', JInt (qty i)), (''price'', JInt (price i))]"

record place_request =
  pr_orderId :: string
  pr_customerId :: string
  pr_items :: "order_item list"
  pr_totalAmount :: int

definition place_json :: "place_request \<Rightarrow> json" where
  "place_json rq = JObj [(''orderId'', JStr (pr_orderId rq)), (''customerId'', JStr (pr_customerId rq)),
     (''items'', JArr (map item_json (pr_items rq))), (''totalAmount'', JInt (pr_totalAmount rq))]"

definition placeOrder_call ::
    "web_config \<Rightarrow> 'w server \<Rightarrow> place_request \<Rightarrow> 'w browser \<Rightarrow> (client_error, json) result \<times> 'w browser" where
  "placeOrder_call cfg srv rq = api_json cfg srv ''placeOrder'' (POST_JSON ''/api/write/orders'' (place_json rq))"

text \<open>A 404 means that the read model has not caught up: the answer is null.\<close>

definition getOrder_call ::
    "web_config \<Rightarrow> 'w server \<Rightarrow> string \<Rightarrow> 'w browser \<Rightarrow> (client_error, json option) result \<times> 'w browser" where
  "getOrder_call cfg srv orderId b =
     (case authedFetch cfg srv (GET_REQ (id_path ''/api/read/orders/'' orderId [])) b of
        (Inl e, b') \<Rightarrow> (Inl e, b')
      | (Inr res, b') \<Rightarrow>
          if hs_status res = 404 then (Inr None, b')
          else if \<not> hs_ok res then (Inl (Failed (''getOrder failed: '' @ show_nat (hs_status res))), b')
          else (map_sum id Some (body_of res), b'))"

definition fetchOrderPayment ::
    "web_config \<Rightarrow> 'w server \<Rightarrow> string \<Rightarrow> 'w browser \<Rightarrow> (client_error, json) result \<times> 'w browser" where
  "fetchOrderPayment cfg srv orderId =
     api_json cfg srv ''fetchOrderPayment'' (GET_REQ (id_path ''/api/read/orders/'' orderId ''/payment''))"

definition listOrders ::
    "web_config \<Rightarrow> 'w server \<Rightarrow> 'w browser \<Rightarrow> (client_error, json) result \<times> 'w browser" where
  "listOrders cfg srv = api_json cfg srv ''listOrders'' (GET_REQ ''/api/read/merchant/orders'')"

definition signalOrder ::
    "web_config \<Rightarrow> 'w server \<Rightarrow> string \<Rightarrow> string \<Rightarrow> 'w browser \<Rightarrow> (client_error, unit) result \<times> 'w browser" where
  "signalOrder cfg srv orderId action =
     api_unit cfg srv (action @ ''Order'') (POST_EMPTY (id_path ''/api/write/orders/'' orderId (''/'' @ action)))"

definition acceptOrder ::
    "web_config \<Rightarrow> 'w server \<Rightarrow> string \<Rightarrow> 'w browser \<Rightarrow> (client_error, unit) result \<times> 'w browser" where
  "acceptOrder cfg srv orderId = signalOrder cfg srv orderId ''accept''"

definition declineOrder ::
    "web_config \<Rightarrow> 'w server \<Rightarrow> string \<Rightarrow> 'w browser \<Rightarrow> (client_error, unit) result \<times> 'w browser" where
  "declineOrder cfg srv orderId = signalOrder cfg srv orderId ''decline''"

definition confirmPayment ::
    "web_config \<Rightarrow> 'w server \<Rightarrow> string \<Rightarrow> 'w browser \<Rightarrow> (client_error, unit) result \<times> 'w browser" where
  "confirmPayment cfg srv orderId =
     api_unit cfg srv ''confirmPayment'' (POST_EMPTY (id_path ''/api/write/orders/'' orderId ''/confirm-payment''))"

section \<open>Drivers\<close>

text \<open>Numbers are \<open>JInt\<close> or \<open>JFrac\<close>; an undefined \<open>orderId\<close> is not serialised.\<close>

definition reportLocation ::
    "web_config \<Rightarrow> 'w server \<Rightarrow> string \<Rightarrow> json \<Rightarrow> json \<Rightarrow> string option \<Rightarrow> 'w browser
     \<Rightarrow> (client_error, json) result \<times> 'w browser" where
  "reportLocation cfg srv driverId lng lat orderId =
     api_json cfg srv ''reportLocation'' (POST_JSON (id_path ''/api/read/drivers/'' driverId ''/location'')
       (JObj ([(''lng'', lng), (''lat'', lat)]
          @ (case orderId of None \<Rightarrow> [] | Some i \<Rightarrow> [(''orderId'', JStr i)]))))"

definition getNearbyDrivers ::
    "web_config \<Rightarrow> 'w server \<Rightarrow> json \<Rightarrow> json \<Rightarrow> json \<Rightarrow> 'w browser \<Rightarrow> (client_error, json) result \<times> 'w browser" where
  "getNearbyDrivers cfg srv lng lat radiusKm =
     api_json cfg srv ''getNearbyDrivers'' (GET_REQ (''/api/read/drivers/nearby?'' @ search_params
       [(''lng'', js_string (wc_num cfg) lng), (''lat'', js_string (wc_num cfg) lat),
        (''radiusKm'', js_string (wc_num cfg) radiusKm)]))"

definition goOnline_call ::
    "web_config \<Rightarrow> 'w server \<Rightarrow> string \<Rightarrow> 'w browser \<Rightarrow> (client_error, json) result \<times> 'w browser" where
  "goOnline_call cfg srv driverId =
     api_json cfg srv ''goOnline'' (POST_EMPTY (id_path ''/api/read/drivers/'' driverId ''/online''))"

definition goOffline_call ::
    "web_config \<Rightarrow> 'w server \<Rightarrow> string \<Rightarrow> 'w browser \<Rightarrow> (client_error, json) result \<times> 'w browser" where
  "goOffline_call cfg srv driverId =
     api_json cfg srv ''goOffline'' (POST_EMPTY (id_path ''/api/read/drivers/'' driverId ''/offline''))"

definition getDriverOnline ::
    "web_config \<Rightarrow> 'w server \<Rightarrow> string \<Rightarrow> 'w browser \<Rightarrow> (client_error, json option) result \<times> 'w browser" where
  "getDriverOnline cfg srv driverId b = api_field ''online''
     (api_json cfg srv ''getDriverOnline'' (GET_REQ (id_path ''/api/read/drivers/'' driverId ''/online'')) b)"

definition signalDispatch ::
    "web_config \<Rightarrow> 'w server \<Rightarrow> string \<Rightarrow> string \<Rightarrow> string \<Rightarrow> 'w browser
     \<Rightarrow> (client_error, unit) result \<times> 'w browser" where
  "signalDispatch cfg srv orderId action driverId =
     api_unit cfg srv (action @ ''Dispatch'')
       (POST_JSON (id_path ''/api/write/dispatch/'' orderId (''/'' @ action)) (JObj [(''driverId'', JStr driverId)]))"

definition acceptDispatch ::
    "web_config \<Rightarrow> 'w server \<Rightarrow> string \<Rightarrow> string \<Rightarrow> 'w browser \<Rightarrow> (client_error, unit) result \<times> 'w browser" where
  "acceptDispatch cfg srv orderId driverId = signalDispatch cfg srv orderId ''accept'' driverId"

definition rejectDispatch ::
    "web_config \<Rightarrow> 'w server \<Rightarrow> string \<Rightarrow> string \<Rightarrow> 'w browser \<Rightarrow> (client_error, unit) result \<times> 'w browser" where
  "rejectDispatch cfg srv orderId driverId = signalDispatch cfg srv orderId ''reject'' driverId"

definition pickupOrder ::
    "web_config \<Rightarrow> 'w server \<Rightarrow> string \<Rightarrow> string \<Rightarrow> 'w browser \<Rightarrow> (client_error, unit) result \<times> 'w browser" where
  "pickupOrder cfg srv orderId driverId = signalDispatch cfg srv orderId ''pickup'' driverId"

definition deliverOrder ::
    "web_config \<Rightarrow> 'w server \<Rightarrow> string \<Rightarrow> string \<Rightarrow> 'w browser \<Rightarrow> (client_error, unit) result \<times> 'w browser" where
  "deliverOrder cfg srv orderId driverId = signalDispatch cfg srv orderId ''deliver'' driverId"

section \<open>Dispatches, tenants and the operator\<close>

definition getMerchantDispatches ::
    "web_config \<Rightarrow> 'w server \<Rightarrow> 'w browser \<Rightarrow> (client_error, json) result \<times> 'w browser" where
  "getMerchantDispatches cfg srv = api_json cfg srv ''getMerchantDispatches'' (GET_REQ ''/api/read/merchant/dispatch'')"

definition getOrderDispatch ::
    "web_config \<Rightarrow> 'w server \<Rightarrow> string \<Rightarrow> 'w browser \<Rightarrow> (client_error, json) result \<times> 'w browser" where
  "getOrderDispatch cfg srv orderId =
     api_json cfg srv ''getOrderDispatch'' (GET_REQ (id_path ''/api/read/orders/'' orderId ''/dispatch''))"

definition getDispatchForDriver ::
    "web_config \<Rightarrow> 'w server \<Rightarrow> string \<Rightarrow> 'w browser \<Rightarrow> (client_error, json) result \<times> 'w browser" where
  "getDispatchForDriver cfg srv driverId =
     api_json cfg srv ''getDispatchForDriver''
       (GET_REQ (''/api/read/driver/dispatch?'' @ search_params [(''driverId'', driverId)]))"

definition getTenants ::
    "web_config \<Rightarrow> 'w server \<Rightarrow> 'w browser \<Rightarrow> (client_error, json) result \<times> 'w browser" where
  "getTenants cfg srv = api_json cfg srv ''getTenants'' (GET_REQ ''/api/read/tenants'')"

definition getOrderDriverLocation ::
    "web_config \<Rightarrow> 'w server \<Rightarrow> string \<Rightarrow> 'w browser \<Rightarrow> (client_error, json option) result \<times> 'w browser" where
  "getOrderDriverLocation cfg srv orderId b = api_field ''location''
     (api_json cfg srv ''getOrderDriverLocation'' (GET_REQ (id_path ''/api/read/orders/'' orderId ''/driver-location'')) b)"

definition getAdminOrders ::
    "web_config \<Rightarrow> 'w server \<Rightarrow> 'w browser \<Rightarrow> (client_error, json) result \<times> 'w browser" where
  "getAdminOrders cfg srv = api_json cfg srv ''getAdminOrders'' (GET_REQ ''/api/read/admin/orders'')"

definition getAdminDrivers ::
    "web_config \<Rightarrow> 'w server \<Rightarrow> 'w browser \<Rightarrow> (client_error, json) result \<times> 'w browser" where
  "getAdminDrivers cfg srv = api_json cfg srv ''getAdminDrivers'' (GET_REQ ''/api/read/admin/drivers'')"

section \<open>Routes\<close>

text \<open>
  The routes declared by the controllers' decorators, as the framework matches them: literal segments,
  and parameters that bind a decoded non-empty segment.
\<close>

datatype segment = Lit string | Param string

record route =
  ro_method :: string
  ro_segments :: "segment list"
  ro_handler :: string

definition route_of :: "string \<Rightarrow> segment list \<Rightarrow> string \<Rightarrow> route" where
  "route_of m segs h = \<lparr>ro_method = m, ro_segments = segs, ro_handler = h\<rparr>"

definition orders_routes :: "route list" where
  "orders_routes = [route_of ''POST'' [Lit ''orders''] ''place'']"

definition accept_routes :: "route list" where
  "accept_routes =
     [route_of ''POST'' [Lit ''orders'', Param ''orderId'', Lit ''accept''] ''accept'',
      route_of ''POST'' [Lit ''orders'', Param ''orderId'', Lit ''decline''] ''decline'']"

definition confirm_routes :: "route list" where
  "confirm_routes = [route_of ''POST'' [Lit ''orders'', Param ''orderId'', Lit ''confirm-payment''] ''confirm'']"

definition signal_routes :: "route list" where
  "signal_routes = [route_of ''POST'' [Lit ''dispatch'', Param ''orderId'', Param ''action''] ''signal'']"

definition order_query_routes :: "route list" where
  "order_query_routes =
     [route_of ''GET'' [Lit ''orders'', Param ''orderId''] ''getOrder'',
      route_of ''GET'' [Lit ''orders'', Param ''orderId'', Lit ''payment''] ''getPayment'']"

definition merchant_routes :: "route list" where
  "merchant_routes =
     [route_of ''GET'' [Lit ''merchant'', Lit ''orders''] ''list'',
      route_of ''GET'' [Lit ''merchant'', Lit ''dispatch''] ''snapshot'']"

definition dispatch_query_routes :: "route list" where
  "dispatch_query_routes =
     [route_of ''GET'' [Lit ''orders'', Param ''orderId'', Lit ''dispatch''] ''byOrder'',
      route_of ''GET'' [Lit ''driver'', Lit ''dispatch''] ''forDriver'',
      route_of ''GET'' [Lit ''orders'', Param ''orderId'', Lit ''driver-location''] ''driverLocation'']"

definition drivers_routes :: "route list" where
  "drivers_routes =
     [route_of ''POST'' [Lit ''drivers'', Param ''driverId'', Lit ''location''] ''reportLocation'',
      route_of ''GET'' [Lit ''drivers'', Lit ''nearby''] ''nearby'',
      route_of ''GET'' [Lit ''drivers'', Param ''driverId'', Lit ''online''] ''isOnline'',
      route_of ''POST'' [Lit ''drivers'', Param ''driverId'', Lit ''online''] ''goOnline'',
      route_of ''POST'' [Lit ''drivers'', Param ''driverId'', Lit ''offline''] ''goOffline'']"

definition admin_routes :: "route list" where
  "admin_routes =
     [route_of ''GET'' [Lit ''admin'', Lit ''orders''] ''listOrders'',
      route_of ''GET'' [Lit ''admin'', Lit ''drivers''] ''listDrivers'']"

definition tenants_routes :: "route list" where
  "tenants_routes = [route_of ''GET'' [Lit ''tenants''] ''list'']"

definition auth_routes :: "route list" where
  "auth_routes =
     [route_of ''POST'' [Lit ''auth'', Lit ''login''] ''login'',
      route_of ''POST'' [Lit ''auth'', Lit ''refresh''] ''refresh'',
      route_of ''POST'' [Lit ''auth'', Lit ''logout''] ''logout'']"

text \<open>The rewrites of \<open>next.config.ts\<close>: the service that \<open>/api/<service>/:path*\<close> is passed on to.\<close>

definition service_routes :: "string \<Rightarrow> route list" where
  "service_routes svc =
     (if svc = ''identity'' then auth_routes
      else if svc = ''write'' then orders_routes @ confirm_routes @ accept_routes @ signal_routes
      else if svc = ''read'' then order_query_routes @ merchant_routes @ dispatch_query_routes
        @ drivers_routes @ admin_routes @ tenants_routes
      else [])"

fun match_segments :: "segment list \<Rightarrow> string list \<Rightarrow> (string \<times> string) list option" where
  "match_segments [] [] = Some []"
| "match_segments (Lit s # ss) (p # ps) = (if s = p then match_segments ss ps else None)"
| "match_segments (Param k # ss) (p # ps) =
     (if p = [] then None
      else (case (decodeURIComponent p, match_segments ss ps) of
         (Some v, Some kvs) \<Rightarrow> Some ((k, v) # kvs) | _ \<Rightarrow> None))"
| "match_segments _ _ = None"

fun match_routes :: "string \<Rightarrow> string list \<Rightarrow> route list \<Rightarrow> (string \<times> (string \<times> string) list) option" where
  "match_routes m ps [] = None"
| "match_routes m ps (r # rs) =
     (case (if ro_method r = m then match_segments (ro_segments r) ps else None) of
        Some kvs \<Rightarrow> Some (ro_handler r, kvs)
      | None \<Rightarrow> match_routes m ps rs)"

text \<open>
  Where a request ends up: the service, the handler and the handler's parameters. A path with a dot
  segment is rewritten by the URL parser before it is sent, and is not followed here.
\<close>

definition target :: "http_request \<Rightarrow> (string \<times> string \<times> (string \<times> string) list) option" where
  "target rq =
     (case split_char CHR ''/'' (takeWhile (\<lambda>c. c \<noteq> CHR ''?'') (hq_url rq)) of
        x # api # svc # ps \<Rightarrow>
          if x = [] \<and> api = ''api'' \<and> list_all (\<lambda>p. p \<notin> {''.'', ''..''}) ps
          then map_option (Pair svc) (match_routes (hq_method rq) ps (service_routes svc))
          else None
      | _ \<Rightarrow> None)"

lemmas routes_defs = service_routes_def orders_routes_def accept_routes_def confirm_routes_def signal_routes_def
  order_query_routes_def merchant_routes_def dispatch_query_routes_def drivers_routes_def admin_routes_def
  tenants_routes_def auth_routes_def route_of_def

text \<open>The first request a call makes, and where it ends up: the call is run against a dead network.\<close>

definition dead_net :: "unit server" where
  "dead_net rq w = (None, w)"

definition blank_browser :: "(http_request list \<times> unit) browser" where
  "blank_browser = \<lparr>br_token = Some ''jwt'', br_claims = None, br_booting = False, br_bootstrapped = True,
     br_net = ([], ())\<rparr>"

definition reaches ::
    "((http_request list \<times> unit) server \<Rightarrow> (http_request list \<times> unit) browser
       \<Rightarrow> 'a \<times> (http_request list \<times> unit) browser) \<Rightarrow> (string \<times> string \<times> (string \<times> string) list) option" where
  "reaches call = (case fst (br_net (snd (call (logged dead_net) blank_browser))) of
     rq # _ \<Rightarrow> target rq | [] \<Rightarrow> None)"

text \<open>Ids that survive a URL: not empty and no dot segment.\<close>

definition url_id :: "string \<Rightarrow> bool" where
  "url_id i \<longleftrightarrow> i \<notin> {[], ''.'', ''..''}"

lemma dead_fetch:
  "authedFetch cfg (logged dead_net) rq blank_browser
     = (Inl NetworkFailure, blank_browser\<lparr>br_net := ([with_auth blank_browser rq], ())\<rparr>)"
  by (simp add: authedFetch_def logged_def dead_net_def blank_browser_def)

lemma with_auth_fields: "hq_method (with_auth b rq) = hq_method rq" "hq_url (with_auth b rq) = hq_url rq"
  by (simp_all add: with_auth_def)

lemma target_with_auth [simp]: "target (with_auth b rq) = target rq"
  unfolding target_def with_auth_fields by (rule refl)

lemma reaches_calls:
  "reaches (\<lambda>srv. api_json cfg srv what rq) = target rq"
  "reaches (\<lambda>srv. api_unit cfg srv what rq) = target rq"
  "reaches (\<lambda>srv b. api_field k (api_json cfg srv what rq b)) = target rq"
  "reaches (\<lambda>srv. getOrder_call cfg srv i) = target (GET_REQ (id_path ''/api/read/orders/'' i []))"
  by (simp_all add: reaches_def api_json_def api_unit_def api_call_def api_field_def getOrder_call_def dead_fetch)

lemma hex_unreserved: "d < 16 \<Longrightarrow> unreserved (hex_char d)"
  by (auto simp: unreserved_def hex_char_def of_char_of Let_def)

lemma percent_url_char: "b < 256 \<Longrightarrow> c \<in> set (percent b) \<Longrightarrow> unreserved c \<or> c = CHR ''%''"
  by (auto simp: percent_def hex_unreserved less_mult_imp_div_less)

lemma encode_url_char: "c \<in> set (encodeURIComponent s) \<Longrightarrow> unreserved c \<or> c = CHR ''%''"
proof -
  have "unreserved c \<or> c = CHR ''%''" if "c \<in> set (encode_char x)" for x
  proof -
    have n: "(of_char x :: nat) < 256" by simp
    then have "192 + (of_char x :: nat) div 64 < 256" "128 + (of_char x :: nat) mod 64 < 256" by linarith+
    with that n show ?thesis
      using percent_url_char [of "of_char x" c] percent_url_char [of "192 + of_char x div 64" c]
        percent_url_char [of "128 + of_char x mod 64" c]
      by (auto simp: encode_char_def Let_def split: if_splits)
  qed
  then show "c \<in> set (encodeURIComponent s) \<Longrightarrow> unreserved c \<or> c = CHR ''%''"
    by (auto simp: encodeURIComponent_def)
qed

lemma encode_segment:
  assumes "url_id i"
  shows "encodeURIComponent i \<notin> {[], ''.'', ''..''}" "CHR ''/'' \<notin> set (encodeURIComponent i)"
    "CHR ''?'' \<notin> set (encodeURIComponent i)"
proof -
  have "decodeURIComponent s = Some s" if "s \<in> {[], ''.'', ''..''}" for s
    using that by auto
  then show "encodeURIComponent i \<notin> {[], ''.'', ''..''}"
    using decode_encode [of i] assms unfolding url_id_def by (metis option.inject)
  show "CHR ''/'' \<notin> set (encodeURIComponent i)" "CHR ''?'' \<notin> set (encodeURIComponent i)"
    using encode_url_char [of "CHR ''/''" i] encode_url_char [of "CHR ''?''" i]
    by (auto simp: unreserved_def Let_def)
qed

lemma decode_segment [simp]: "decodeURIComponent (encodeURIComponent s) = Some s"
  by (rule decode_encode)

text \<open>A URL of segments without slashes and question marks, with a query or without, is taken apart again.\<close>

definition plain_segment :: "string \<Rightarrow> bool" where
  "plain_segment p \<longleftrightarrow> CHR ''/'' \<notin> set p \<and> CHR ''?'' \<notin> set p \<and> p \<noteq> ''.'' \<and> p \<noteq> ''..''"

lemma set_join: "set (join sep ps) \<subseteq> set sep \<union> (\<Union>p \<in> set ps. set p)"
  by (induction sep ps rule: join.induct) auto

lemma target_join:
  assumes "hq_url rq = join ''/'' ([] # ''api'' # svc # ps) @ rest" and "rest = [] \<or> hd rest = CHR ''?''"
    and "list_all plain_segment (svc # ps)"
  shows "target rq = map_option (Pair svc) (match_routes (hq_method rq) ps (service_routes svc))"
proof -
  let ?ss = "[] # ''api'' # svc # ps"
  have plain: "\<forall>p \<in> set ?ss. CHR ''/'' \<notin> set p \<and> CHR ''?'' \<notin> set p"
    using assms(3) by (auto simp: plain_segment_def list_all_iff)
  then have "CHR ''?'' \<notin> set (join ''/'' ?ss)" using set_join [of "''/''" ?ss] by auto
  then have "takeWhile (\<lambda>c. c \<noteq> CHR ''?'') (hq_url rq) = join ''/'' ?ss"
    using assms(1,2) by (cases rest) (auto simp: takeWhile_append)
  moreover have "split_char CHR ''/'' (join ''/'' ?ss) = ?ss"
    using plain by (intro split_join) auto
  moreover have "list_all (\<lambda>p. p \<notin> {''.'', ''..''}) ps"
    using assms(3) by (auto simp: plain_segment_def list_all_iff)
  ultimately show ?thesis by (simp add: target_def del: join.simps)
qed

lemma plain_encode: "url_id i \<Longrightarrow> plain_segment (encodeURIComponent i)"
  using encode_segment [of i] by (simp add: plain_segment_def)

lemma service_simps:
  "service_routes ''write'' = orders_routes @ confirm_routes @ accept_routes @ signal_routes"
  "service_routes ''read'' = order_query_routes @ merchant_routes @ dispatch_query_routes
        @ drivers_routes @ admin_routes @ tenants_routes"
  by (simp_all add: service_routes_def)

lemma match_append: "match_routes m ps (rs @ rs') =
    (case match_routes m ps rs of None \<Rightarrow> match_routes m ps rs' | Some x \<Rightarrow> Some x)"
  by (induction m ps rs rule: match_routes.induct) (auto split: option.splits)

lemma match_id:
  assumes "url_id i"
  shows "match_routes ''GET'' [''orders'', encodeURIComponent i] (service_routes ''read'')
      = Some (''getOrder'', [(''orderId'', i)])"
    and "match_routes ''GET'' [''orders'', encodeURIComponent i, ''payment''] (service_routes ''read'')
      = Some (''getPayment'', [(''orderId'', i)])"
    and "match_routes ''GET'' [''orders'', encodeURIComponent i, ''dispatch''] (service_routes ''read'')
      = Some (''byOrder'', [(''orderId'', i)])"
    and "match_routes ''GET'' [''orders'', encodeURIComponent i, ''driver-location''] (service_routes ''read'')
      = Some (''driverLocation'', [(''orderId'', i)])"
    and "match_routes ''POST'' [''drivers'', encodeURIComponent i, ''location''] (service_routes ''read'')
      = Some (''reportLocation'', [(''driverId'', i)])"
    and "match_routes ''GET'' [''drivers'', encodeURIComponent i, ''online''] (service_routes ''read'')
      = Some (''isOnline'', [(''driverId'', i)])"
    and "match_routes ''POST'' [''drivers'', encodeURIComponent i, ''online''] (service_routes ''read'')
      = Some (''goOnline'', [(''driverId'', i)])"
    and "match_routes ''POST'' [''drivers'', encodeURIComponent i, ''offline''] (service_routes ''read'')
      = Some (''goOffline'', [(''driverId'', i)])"
    and "match_routes ''POST'' [''orders'', encodeURIComponent i, ''accept''] (service_routes ''write'')
      = Some (''accept'', [(''orderId'', i)])"
    and "match_routes ''POST'' [''orders'', encodeURIComponent i, ''decline''] (service_routes ''write'')
      = Some (''decline'', [(''orderId'', i)])"
    and "match_routes ''POST'' [''orders'', encodeURIComponent i, ''confirm-payment''] (service_routes ''write'')
      = Some (''confirm'', [(''orderId'', i)])"
  using encode_segment(1) [OF assms] by (simp_all add: service_simps match_append routes_defs)

lemma match_dispatch:
  assumes "url_id i"
  shows "match_routes ''POST'' [''dispatch'', encodeURIComponent i, ''accept''] (service_routes ''write'')
      = Some (''signal'', [(''orderId'', i), (''action'', ''accept'')])"
    and "match_routes ''POST'' [''dispatch'', encodeURIComponent i, ''reject''] (service_routes ''write'')
      = Some (''signal'', [(''orderId'', i), (''action'', ''reject'')])"
    and "match_routes ''POST'' [''dispatch'', encodeURIComponent i, ''pickup''] (service_routes ''write'')
      = Some (''signal'', [(''orderId'', i), (''action'', ''pickup'')])"
    and "match_routes ''POST'' [''dispatch'', encodeURIComponent i, ''deliver''] (service_routes ''write'')
      = Some (''signal'', [(''orderId'', i), (''action'', ''deliver'')])"
  using encode_segment(1) [OF assms] by (simp_all add: service_simps match_append routes_defs)

lemma match_lists:
  "match_routes ''POST'' [''orders''] (service_routes ''write'') = Some (''place'', [])"
  "match_routes ''GET'' [''merchant'', ''orders''] (service_routes ''read'') = Some (''list'', [])"
  "match_routes ''GET'' [''merchant'', ''dispatch''] (service_routes ''read'') = Some (''snapshot'', [])"
  "match_routes ''GET'' [''driver'', ''dispatch''] (service_routes ''read'') = Some (''forDriver'', [])"
  "match_routes ''GET'' [''drivers'', ''nearby''] (service_routes ''read'') = Some (''nearby'', [])"
  "match_routes ''GET'' [''admin'', ''orders''] (service_routes ''read'') = Some (''listOrders'', [])"
  "match_routes ''GET'' [''admin'', ''drivers''] (service_routes ''read'') = Some (''listDrivers'', [])"
  "match_routes ''GET'' [''tenants''] (service_routes ''read'') = Some (''list'', [])"
  by (simp_all add: service_simps match_append routes_defs)

text \<open>The URLs of the calls, taken apart.\<close>

lemma target_plain:
  assumes "list_all plain_segment (svc # ps)"
  shows "target (GET_REQ (join ''/'' ([] # ''api'' # svc # ps)))
      = map_option (Pair svc) (match_routes ''GET'' ps (service_routes svc))"
    and "target (GET_REQ (join ''/'' ([] # ''api'' # svc # ps) @ CHR ''?'' # q))
      = map_option (Pair svc) (match_routes ''GET'' ps (service_routes svc))"
    and "target (POST_EMPTY (join ''/'' ([] # ''api'' # svc # ps)))
      = map_option (Pair svc) (match_routes ''POST'' ps (service_routes svc))"
    and "target (POST_JSON (join ''/'' ([] # ''api'' # svc # ps)) j)
      = map_option (Pair svc) (match_routes ''POST'' ps (service_routes svc))"
  using target_join [OF _ _ assms, of "GET_REQ (join ''/'' ([] # ''api'' # svc # ps))" "[]"]
    target_join [OF _ _ assms, of "GET_REQ (join ''/'' ([] # ''api'' # svc # ps) @ CHR ''?'' # q)" "CHR ''?'' # q"]
    target_join [OF _ _ assms, of "POST_EMPTY (join ''/'' ([] # ''api'' # svc # ps))" "[]"]
    target_join [OF _ _ assms, of "POST_JSON (join ''/'' ([] # ''api'' # svc # ps)) j" "[]"]
  by (simp_all add: GET_REQ_def POST_EMPTY_def POST_JSON_def del: join.simps)

lemma plain_literals: "list_all plain_segment [''read'', ''write'', ''orders'', ''payment'', ''dispatch'', ''driver-location'',
    ''accept'', ''decline'', ''confirm-payment'', ''drivers'', ''location'', ''online'', ''offline'', ''reject'', ''pickup'',
    ''deliver'', ''merchant'', ''admin'', ''tenants'', ''nearby'', ''driver'']"
  by (simp add: plain_segment_def)

lemmas plain_literals' = plain_literals [simplified]

lemma call_urls:
  "id_path ''/api/read/orders/'' i []
     = join ''/'' ([] # ''api'' # ''read'' # [''orders'', encodeURIComponent i])"
  "id_path ''/api/read/orders/'' i ''/payment''
     = join ''/'' ([] # ''api'' # ''read'' # [''orders'', encodeURIComponent i, ''payment''])"
  "id_path ''/api/read/orders/'' i ''/dispatch''
     = join ''/'' ([] # ''api'' # ''read'' # [''orders'', encodeURIComponent i, ''dispatch''])"
  "id_path ''/api/read/orders/'' i ''/driver-location''
     = join ''/'' ([] # ''api'' # ''read'' # [''orders'', encodeURIComponent i, ''driver-location''])"
  "id_path ''/api/write/orders/'' i ''/accept''
     = join ''/'' ([] # ''api'' # ''write'' # [''orders'', encodeURIComponent i, ''accept''])"
  "id_path ''/api/write/orders/'' i ''/decline''
     = join ''/'' ([] # ''api'' # ''write'' # [''orders'', encodeURIComponent i, ''decline''])"
  "id_path ''/api/write/orders/'' i ''/confirm-payment''
     = join ''/'' ([] # ''api'' # ''write'' # [''orders'', encodeURIComponent i, ''confirm-payment''])"
  "id_path ''/api/read/drivers/'' i ''/location''
     = join ''/'' ([] # ''api'' # ''read'' # [''drivers'', encodeURIComponent i, ''location''])"
  "id_path ''/api/read/drivers/'' i ''/online''
     = join ''/'' ([] # ''api'' # ''read'' # [''drivers'', encodeURIComponent i, ''online''])"
  "id_path ''/api/read/drivers/'' i ''/offline''
     = join ''/'' ([] # ''api'' # ''read'' # [''drivers'', encodeURIComponent i, ''offline''])"
  "id_path ''/api/write/dispatch/'' i ''/accept''
     = join ''/'' ([] # ''api'' # ''write'' # [''dispatch'', encodeURIComponent i, ''accept''])"
  "id_path ''/api/write/dispatch/'' i ''/reject''
     = join ''/'' ([] # ''api'' # ''write'' # [''dispatch'', encodeURIComponent i, ''reject''])"
  "id_path ''/api/write/dispatch/'' i ''/pickup''
     = join ''/'' ([] # ''api'' # ''write'' # [''dispatch'', encodeURIComponent i, ''pickup''])"
  "id_path ''/api/write/dispatch/'' i ''/deliver''
     = join ''/'' ([] # ''api'' # ''write'' # [''dispatch'', encodeURIComponent i, ''deliver''])"
  "''/api/write/orders'' = join ''/'' ([] # ''api'' # ''write'' # [''orders''])"
  "''/api/read/merchant/orders'' = join ''/'' ([] # ''api'' # ''read'' # [''merchant'', ''orders''])"
  "''/api/read/merchant/dispatch'' = join ''/'' ([] # ''api'' # ''read'' # [''merchant'', ''dispatch''])"
  "''/api/read/admin/orders'' = join ''/'' ([] # ''api'' # ''read'' # [''admin'', ''orders''])"
  "''/api/read/admin/drivers'' = join ''/'' ([] # ''api'' # ''read'' # [''admin'', ''drivers''])"
  "''/api/read/tenants'' = join ''/'' ([] # ''api'' # ''read'' # [''tenants''])"
  "''/api/read/drivers/nearby?'' @ q = join ''/'' ([] # ''api'' # ''read'' # [''drivers'', ''nearby'']) @ CHR ''?'' # q"
  "''/api/read/driver/dispatch?'' @ q = join ''/'' ([] # ''api'' # ''read'' # [''driver'', ''dispatch'']) @ CHR ''?'' # q"
  by (simp_all add: id_path_def)

lemmas calls_defs = placeOrder_call_def fetchOrderPayment_def listOrders_def signalOrder_def acceptOrder_def
  declineOrder_def confirmPayment_def reportLocation_def getNearbyDrivers_def goOnline_call_def goOffline_call_def
  getDriverOnline_def signalDispatch_def acceptDispatch_def rejectDispatch_def pickupOrder_def deliverOrder_def
  getMerchantDispatches_def getOrderDispatch_def getDispatchForDriver_def getTenants_def
  getOrderDriverLocation_def getAdminOrders_def getAdminDrivers_def

lemma order_calls:
  assumes "url_id i" and "url_id d"
  shows "reaches (\<lambda>srv. placeOrder_call cfg srv rq) = Some (''write'', ''place'', [])"
    and "reaches (\<lambda>srv. getOrder_call cfg srv i) = Some (''read'', ''getOrder'', [(''orderId'', i)])"
    and "reaches (\<lambda>srv. fetchOrderPayment cfg srv i) = Some (''read'', ''getPayment'', [(''orderId'', i)])"
    and "reaches (\<lambda>srv. listOrders cfg srv) = Some (''read'', ''list'', [])"
    and "reaches (\<lambda>srv. acceptOrder cfg srv i) = Some (''write'', ''accept'', [(''orderId'', i)])"
    and "reaches (\<lambda>srv. declineOrder cfg srv i) = Some (''write'', ''decline'', [(''orderId'', i)])"
    and "reaches (\<lambda>srv. confirmPayment cfg srv i) = Some (''write'', ''confirm'', [(''orderId'', i)])"
  unfolding calls_defs reaches_calls append.simps
  by (simp_all only: call_urls)
     (simp_all add: assms target_plain plain_encode plain_literals' match_id match_dispatch match_lists del: join.simps)

lemma driver_calls:
  assumes "url_id i" and "url_id d"
  shows "reaches (\<lambda>srv. reportLocation cfg srv d lng lat oid) = Some (''read'', ''reportLocation'', [(''driverId'', d)])"
    and "reaches (\<lambda>srv. getNearbyDrivers cfg srv lng lat km) = Some (''read'', ''nearby'', [])"
    and "reaches (\<lambda>srv. goOnline_call cfg srv d) = Some (''read'', ''goOnline'', [(''driverId'', d)])"
    and "reaches (\<lambda>srv. goOffline_call cfg srv d) = Some (''read'', ''goOffline'', [(''driverId'', d)])"
    and "reaches (\<lambda>srv. getDriverOnline cfg srv d) = Some (''read'', ''isOnline'', [(''driverId'', d)])"
  unfolding calls_defs reaches_calls
  by (simp_all only: call_urls)
     (simp_all add: assms target_plain plain_encode plain_literals' match_id match_dispatch match_lists del: join.simps)

lemma job_calls:
  assumes "url_id i" and "url_id d"
  shows "reaches (\<lambda>srv. acceptDispatch cfg srv i d) = Some (''write'', ''signal'', [(''orderId'', i), (''action'', ''accept'')])"
    and "reaches (\<lambda>srv. rejectDispatch cfg srv i d) = Some (''write'', ''signal'', [(''orderId'', i), (''action'', ''reject'')])"
    and "reaches (\<lambda>srv. pickupOrder cfg srv i d) = Some (''write'', ''signal'', [(''orderId'', i), (''action'', ''pickup'')])"
    and "reaches (\<lambda>srv. deliverOrder cfg srv i d) = Some (''write'', ''signal'', [(''orderId'', i), (''action'', ''deliver'')])"
  unfolding calls_defs reaches_calls append.simps
  by (simp_all only: call_urls)
     (simp_all add: assms target_plain plain_encode plain_literals' match_id match_dispatch match_lists del: join.simps)

lemma list_calls:
  assumes "url_id i" and "url_id d"
  shows "reaches (\<lambda>srv. getMerchantDispatches cfg srv) = Some (''read'', ''snapshot'', [])"
    and "reaches (\<lambda>srv. getOrderDispatch cfg srv i) = Some (''read'', ''byOrder'', [(''orderId'', i)])"
    and "reaches (\<lambda>srv. getDispatchForDriver cfg srv d) = Some (''read'', ''forDriver'', [])"
    and "reaches (\<lambda>srv. getTenants cfg srv) = Some (''read'', ''list'', [])"
    and "reaches (\<lambda>srv. getOrderDriverLocation cfg srv i) = Some (''read'', ''driverLocation'', [(''orderId'', i)])"
    and "reaches (\<lambda>srv. getAdminOrders cfg srv) = Some (''read'', ''listOrders'', [])"
    and "reaches (\<lambda>srv. getAdminDrivers cfg srv) = Some (''read'', ''listDrivers'', [])"
  unfolding calls_defs reaches_calls
  by (simp_all only: call_urls)
     (simp_all add: assms target_plain plain_encode plain_literals' match_id match_dispatch match_lists del: join.simps)



end
