(* ===== verification/Workflow_Runtime.thy ===== *)
theory Workflow_Runtime
  imports Prelude
begin

text \<open>
  What the workflows use of the Temporal runtime: activities retried by the policy
  \<open>retry: { maximumAttempts: 5 }\<close> unless their failure is marked non-retryable, signals handled as they
  arrive, and \<open>condition(p, timeout)\<close>. Time is in seconds. The signals of a workflow are a list of
  arrival times with the signals, in order of arrival; the signals that arrive while an activity
  runs, and those that arrive together, are all handled before a condition is evaluated again, and a
  signal counts against a timer when it arrives strictly before it.
\<close>

section \<open>Activities\<close>

datatype act_error = NonRetryable string | Retryable string

definition MAXIMUM_ATTEMPTS :: nat where "MAXIMUM_ATTEMPTS = 5"

fun retry :: "nat \<Rightarrow> ('w \<Rightarrow> (act_error, 'a) result \<times> 'w) \<Rightarrow> 'w \<Rightarrow> (act_error, 'a) result \<times> 'w" where
  "retry 0 attempt w = (Inl (Retryable ''no attempt left''), w)"
| "retry (Suc n) attempt w =
     (case attempt w of
        (Inr a, w') \<Rightarrow> (Inr a, w')
      | (Inl (NonRetryable m), w') \<Rightarrow> (Inl (NonRetryable m), w')
      | (Inl (Retryable m), w') \<Rightarrow> if n = 0 then (Inl (Retryable m), w') else retry n attempt w')"

definition proxied :: "('w \<Rightarrow> (act_error, 'a) result \<times> 'w) \<Rightarrow> 'w \<Rightarrow> (act_error, 'a) result \<times> 'w" where
  "proxied attempt w = retry MAXIMUM_ATTEMPTS attempt w"

text \<open>The rule for retried activities: every attempt keeps \<open>P\<close>, and one that returns gives \<open>Q\<close>.\<close>

lemma retry_rule:
  assumes att: "\<And>w r w'. P w \<Longrightarrow> attempt w = (r, w') \<Longrightarrow> P w' \<and> (\<forall>a. r = Inr a \<longrightarrow> Q a w')"
    and "P w" and "retry n attempt w = (r, w')"
  shows "P w' \<and> (\<forall>a. r = Inr a \<longrightarrow> Q a w')"
  using assms(2,3)
proof (induction n arbitrary: w)
  case 0
  then show ?case by auto
next
  case (Suc n)
  obtain r1 w1 where a: "attempt w = (r1, w1)" by (cases "attempt w")
  note step = att [OF Suc.prems(1) a]
  show ?case
  proof (cases r1)
    case (Inr x)
    with Suc.prems(2) a step show ?thesis by auto
  next
    case (Inl e)
    with Suc.prems(2) a step Suc.IH [of w1] show ?thesis
      by (cases e) (auto split: if_splits)
  qed
qed

lemma proxied_rule:
  assumes "\<And>w r w'. P w \<Longrightarrow> attempt w = (r, w') \<Longrightarrow> P w' \<and> (\<forall>a. r = Inr a \<longrightarrow> Q a w')"
    and "P w" and "proxied attempt w = (r, w')"
  shows "P w' \<and> (\<forall>a. r = Inr a \<longrightarrow> Q a w')"
  using retry_rule [of P attempt Q w MAXIMUM_ATTEMPTS r w'] assms by (simp add: proxied_def)

text \<open>
  The rule for what a failed call leaves: \<open>P\<close> holds before every attempt, a retryable failure keeps
  it, and it implies \<open>E\<close>, which a final failure also gives.
\<close>

lemma retry_error_rule:
  assumes att: "\<And>w r w'. P w \<Longrightarrow> attempt w = (r, w') \<Longrightarrow>
      (\<forall>m. r = Inl (Retryable m) \<longrightarrow> P w') \<and> (\<forall>m. r = Inl (NonRetryable m) \<longrightarrow> E w')"
    and PE: "\<And>w. P w \<Longrightarrow> E w"
    and "P w" and "retry n attempt w = (Inl e, w')"
  shows "E w'"
  using assms(3,4)
proof (induction n arbitrary: w)
  case 0
  then show ?case using PE by auto
next
  case (Suc n)
  obtain r1 w1 where a: "attempt w = (r1, w1)" by (cases "attempt w")
  note step = att [OF Suc.prems(1) a]
  show ?case
  proof (cases r1)
    case (Inr x)
    with Suc.prems(2) a show ?thesis by simp
  next
    case (Inl e1)
    with Suc.prems(2) a step Suc.IH [of w1] PE show ?thesis
      by (cases e1) (auto split: if_splits)
  qed
qed

text \<open>An attempt that cannot fail retryably settles the call.\<close>

lemma proxied_first:
  "(\<And>m. fst (attempt w) \<noteq> Inl (Retryable m)) \<Longrightarrow> proxied attempt w = attempt w"
  by (cases "attempt w"; cases "fst (attempt w)")
    (auto simp: proxied_def MAXIMUM_ATTEMPTS_def numeral_eq_Suc split: act_error.splits)

text \<open>Awaiting a call: its failure ends the caller, its value goes on.\<close>

definition and_then ::
    "(act_error, 'a) result \<times> 'w \<Rightarrow> ('a \<Rightarrow> 'w \<Rightarrow> (act_error, 'b) result \<times> 'w) \<Rightarrow> (act_error, 'b) result \<times> 'w" where
  "and_then m k = (case m of (Inl e, w) \<Rightarrow> (Inl e, w) | (Inr a, w) \<Rightarrow> k a w)"

lemma and_then_simps [simp]: "and_then (Inl e, w) k = (Inl e, w)" "and_then (Inr a, w) k = k a w"
  by (simp_all add: and_then_def)

section \<open>Signals and conditions\<close>

text \<open>Handling every signal that has arrived by a time.\<close>

fun handle_upto ::
    "('sig \<Rightarrow> 'st \<Rightarrow> 'st) \<Rightarrow> nat \<Rightarrow> 'st \<Rightarrow> (nat \<times> 'sig) list \<Rightarrow> 'st \<times> (nat \<times> 'sig) list" where
  "handle_upto h t st [] = (st, [])"
| "handle_upto h t st ((due, s) # q) = (if due \<le> t then handle_upto h t (h s st) q else (st, (due, s) # q))"

lemma length_handle_upto: "length (snd (handle_upto h t st q)) \<le> length q"
  by (induction q arbitrary: st) (auto simp: le_SucI)

function wait_more ::
    "('st \<Rightarrow> bool) \<Rightarrow> ('sig \<Rightarrow> 'st \<Rightarrow> 'st) \<Rightarrow> nat \<Rightarrow> nat \<Rightarrow> 'st \<Rightarrow> (nat \<times> 'sig) list
     \<Rightarrow> bool \<times> nat \<times> 'st \<times> (nat \<times> 'sig) list" where
  "wait_more p h deadline now st q =
     (if p st then (True, now, st, q)
      else (case q of
         [] \<Rightarrow> (False, deadline, st, [])
       | (t, s) # q' \<Rightarrow>
          if t < deadline
          then wait_more p h deadline t (fst (handle_upto h t (h s st) q')) (snd (handle_upto h t (h s st) q'))
          else (False, deadline, st, q)))"
  by pat_completeness auto
termination
  by (relation "measure (\<lambda>x. length (snd (snd (snd (snd (snd x))))))")
    (auto simp: less_Suc_eq_le length_handle_upto simp del: split_paired_All)

declare wait_more.simps [simp del]

text \<open>\<open>condition(p, timeout)\<close> at a time: whether \<open>p\<close> came true in time, when, and what is left.\<close>

definition condition ::
    "('st \<Rightarrow> bool) \<Rightarrow> ('sig \<Rightarrow> 'st \<Rightarrow> 'st) \<Rightarrow> nat \<Rightarrow> nat \<Rightarrow> 'st \<Rightarrow> (nat \<times> 'sig) list
     \<Rightarrow> bool \<times> nat \<times> 'st \<times> (nat \<times> 'sig) list" where
  "condition p h timeout now st q =
     (case handle_upto h now st q of (st', q') \<Rightarrow> wait_more p h (now + timeout) now st' q')"

lemma wait_more_true: "p st \<Longrightarrow> wait_more p h dl now st q = (True, now, st, q)"
  by (subst wait_more.simps) simp

lemma wait_more_false:
  "\<not> p st \<Longrightarrow> q = [] \<or> \<not> fst (hd q) < dl \<Longrightarrow> wait_more p h dl now st q = (False, dl, st, q)"
  by (subst wait_more.simps) (auto split: list.splits)

lemma wait_more_step:
  "\<not> p st \<Longrightarrow> due < dl \<Longrightarrow> wait_more p h dl now st ((due, s) # q) =
     wait_more p h dl due (fst (handle_upto h due (h s st) q)) (snd (handle_upto h due (h s st) q))"
  by (subst wait_more.simps) simp

lemma wait_more_induct [case_names true false step]:
  assumes true: "\<And>now st q. p st \<Longrightarrow> P now st q"
    and false: "\<And>now st q. \<not> p st \<Longrightarrow> q = [] \<or> \<not> fst (hd q) < dl \<Longrightarrow> P now st q"
    and step: "\<And>now st due s q. \<not> p st \<Longrightarrow> due < dl \<Longrightarrow>
      P due (fst (handle_upto h due (h s st) q)) (snd (handle_upto h due (h s st) q)) \<Longrightarrow>
      P now st ((due, s) # q)"
  shows "P now st q"
proof (induction "length q" arbitrary: now st q rule: less_induct)
  case less
  show ?case
  proof (cases "p st \<or> q = [] \<or> \<not> fst (hd q) < dl")
    case True
    then show ?thesis using true false by blast
  next
    case False
    then obtain due s q1 where q: "q = (due, s) # q1" and lt: "due < dl" by (cases q) auto
    have "length (snd (handle_upto h due (h s st) q1)) < length q"
      using length_handle_upto [of h due "h s st" q1] by (simp add: q)
    from step [OF _ lt less [OF this]] False show ?thesis by (simp add: q)
  qed
qed

lemma wait_more_holds: "wait_more p h dl now st q = (True, t, st', q') \<Longrightarrow> p st'"
  by (induction now st q rule: wait_more_induct [of p _ dl h])
    (auto simp: wait_more_true wait_more_false wait_more_step)

lemma wait_more_fails: "wait_more p h dl now st q = (False, t, st', q') \<Longrightarrow> \<not> p st' \<and> t = dl"
  by (induction now st q rule: wait_more_induct [of p _ dl h])
    (auto simp: wait_more_true wait_more_false wait_more_step)

lemma condition_holds: "condition p h d now st q = (True, t, st', q') \<Longrightarrow> p st'"
  by (auto simp: condition_def split: prod.splits dest: wait_more_holds)

lemma condition_fails: "condition p h d now st q = (False, t, st', q') \<Longrightarrow> \<not> p st' \<and> t = now + d"
  by (auto simp: condition_def split: prod.splits dest: wait_more_fails)

text \<open>
  A latch: a condition on a flag that one kind of signal sets and none resets. It holds within the
  window exactly when such a signal arrives by the start or before the deadline.
\<close>

definition in_window :: "nat \<Rightarrow> nat \<Rightarrow> nat \<Rightarrow> bool" where
  "in_window now dl t \<longleftrightarrow> t \<le> now \<or> t < dl"

lemma latch_handle_upto:
  assumes "\<And>s st. p (h s st) \<longleftrightarrow> p st \<or> good s" and "sorted (map fst q)"
  shows "p (fst (handle_upto h t st q)) \<longleftrightarrow> p st \<or> (\<exists>(due, s) \<in> set q. due \<le> t \<and> good s)"
    and "set (snd (handle_upto h t st q)) = {(due, s) \<in> set q. t < due}"
    and "sorted (map fst (snd (handle_upto h t st q)))"
proof -
  show "p (fst (handle_upto h t st q)) \<longleftrightarrow> p st \<or> (\<exists>(due, s) \<in> set q. due \<le> t \<and> good s)"
    using assms(2)
  proof (induction q arbitrary: st)
    case (Cons x q)
    obtain due s where x: "x = (due, s)" by (cases x)
    show ?case
    proof (cases "due \<le> t")
      case True
      with Cons.IH [of "h s st"] Cons.prems x show ?thesis by (auto simp: assms(1))
    next
      case False
      with Cons.prems x have "\<forall>(d, s) \<in> set (x # q). \<not> d \<le> t" by fastforce
      then show ?thesis using False x by auto
    qed
  qed simp
  show "set (snd (handle_upto h t st q)) = {(due, s) \<in> set q. t < due}"
    using assms(2) by (induction q arbitrary: st) (fastforce split: if_splits)+
  show "sorted (map fst (snd (handle_upto h t st q)))"
    using assms(2) by (induction q arbitrary: st) auto
qed

lemma latch_wait:
  assumes latch: "\<And>s st. p (h s st) \<longleftrightarrow> p st \<or> good s"
  shows "sorted (map fst q) \<Longrightarrow>
    fst (wait_more p h dl now st q) \<longleftrightarrow> p st \<or> (\<exists>(due, s) \<in> set q. due < dl \<and> good s)"
proof (induction now st q rule: wait_more_induct [of p _ dl h])
  case (true now st q)
  then show ?case by (simp add: wait_more_true)
next
  case (false now st q)
  then show ?case by (cases q) (fastforce simp: wait_more_false)+
next
  case (step now st due s q)
  have sq: "sorted (map fst q)" using step.prems by simp
  note hs = latch_handle_upto [of p h good q, OF latch sq, where t = due and st = "h s st"]
  from step.IH [OF hs(3)]
  have "fst (wait_more p h dl now st ((due, s) # q))
      \<longleftrightarrow> p (fst (handle_upto h due (h s st) q))
        \<or> (\<exists>(a, s) \<in> set (snd (handle_upto h due (h s st) q)). a < dl \<and> good s)"
    using step.hyps by (simp add: wait_more_step)
  also have "\<dots> \<longleftrightarrow> (\<exists>(a, s) \<in> set ((due, s) # q). a < dl \<and> good s)"
    using hs(1,2) latch step.hyps by fastforce
  finally show ?case using step.hyps(1) by simp
qed

lemma latch_condition:
  assumes "\<And>s st. p (h s st) \<longleftrightarrow> p st \<or> good s" and "sorted (map fst q)" and "\<not> p st"
  shows "fst (condition p h d now st q) \<longleftrightarrow> (\<exists>(due, s) \<in> set q. in_window now (now + d) due \<and> good s)"
proof -
  note hs = latch_handle_upto [of p h good q, OF assms(1,2), where t = now and st = st]
  have "fst (condition p h d now st q)
      \<longleftrightarrow> p (fst (handle_upto h now st q)) \<or> (\<exists>(due, s) \<in> set (snd (handle_upto h now st q)). due < now + d \<and> good s)"
    using latch_wait [of p h good, OF assms(1) hs(3)] by (simp add: condition_def case_prod_beta)
  also have "\<dots> \<longleftrightarrow> (\<exists>(due, s) \<in> set q. in_window now (now + d) due \<and> good s)"
    using hs(1,2) assms(3) by (fastforce simp: in_window_def)
  finally show ?thesis .
qed

end
