(* ===== verification/Writers.thy ===== *)
theory Writers
  imports Event_Store
begin

text \<open>
  Concurrent command handlers over one event store. Every handler of the write plane has the shape
  load - decide - append: it loads an aggregate, lets the aggregate's pure code decide on an event,
  and appends it at the loaded version. Handlers of different requests, activities and retries
  interleave between the load and the append; \<open>writers_reach\<close> is that interleaving, and the locale
  \<open>aggregate_machine\<close> proves once, for any aggregate, that the version check keeps every stream a
  run of the aggregate's own life cycle.
\<close>

section \<open>Aggregates and handlers in flight\<close>

record ('c, 's) machine =
  m_fold :: "'s \<Rightarrow> fold_event \<Rightarrow> 's"
  m_initial :: 's
  m_decide :: "'c \<Rightarrow> 's \<Rightarrow> (event_type \<times> payload) option"
  m_owns :: "string \<Rightarrow> bool"
  m_type :: aggregate_type
  m_topic :: "topic option"

record ('c, 's) writer =
  w_tenantId :: string
  w_aggregateId :: string
  w_cmd :: 'c
  w_state :: 's
  w_version :: nat

text \<open>The arguments with which a handler appends what its aggregate decided.\<close>

definition writer_args ::
    "('c, 's) machine \<Rightarrow> ('c, 's) writer \<Rightarrow> event_type \<Rightarrow> payload \<Rightarrow> string option \<Rightarrow> append_args" where
  "writer_args M w ty pl corr =
     \<lparr>aa_tenantId = w_tenantId w, aa_aggregateType = m_type M, aa_aggregateId = w_aggregateId w,
      aa_expectedVersion = w_version w, aa_eventType = ty, aa_payload = pl,
      aa_topic = m_topic M, aa_correlationId = corr\<rparr>"

text \<open>What a relay of the outbox does to the store: it changes the statuses of outbox rows.\<close>

definition restatus :: "(outbox_row \<Rightarrow> outbox_status) \<Rightarrow> pg_state \<Rightarrow> pg_state" where
  "restatus f pg = pg\<lparr>pg_outbox := map (\<lambda>b. b\<lparr>ob_status := f b\<rparr>) (pg_outbox pg)\<rparr>"

lemma restatus_simps [simp]:
  "pg_events (restatus f pg) = pg_events pg" "stream (restatus f pg) t a = stream pg t a"
  by (simp_all add: restatus_def stream_def)

lemma store_inv_restatus [simp]: "store_inv (restatus f pg) = store_inv pg"
proof -
  have "outbox_matches r (b\<lparr>ob_status := x\<rparr>) = outbox_matches r b" for r b x by (simp add: outbox_matches_def)
  then show ?thesis
    by (simp add: store_inv_def contiguous_def) (simp add: restatus_def list_all2_map2 comp_def)
qed

text \<open>
  States of the store together with the handlers between their load and their append. A handler may
  also crash (\<open>drop\<close>), other aggregates write to streams of their own (\<open>foreign\<close>), and the outbox is
  relayed (\<open>relay\<close>).
\<close>

inductive writers_reach :: "('c, 's) machine \<Rightarrow> pg_state \<Rightarrow> ('c, 's) writer list \<Rightarrow> bool" for M where
  start: "writers_reach M empty_pg []"
| load: "writers_reach M pg ws \<Longrightarrow> m_owns M a \<Longrightarrow>
     loadAggregate role t a (m_fold M) (m_initial M) pg = (s, v) \<Longrightarrow>
     writers_reach M pg
       (\<lparr>w_tenantId = t, w_aggregateId = a, w_cmd = c, w_state = s, w_version = v\<rparr> # ws)"
| commit: "writers_reach M pg (ws1 @ w # ws2) \<Longrightarrow>
     m_decide M (w_cmd w) (w_state w) = Some (ty, pl) \<Longrightarrow>
     appendWithExpectedVersion role obs su (writer_args M w ty pl corr) pg = (r, pg') \<Longrightarrow>
     writers_reach M pg' (ws1 @ ws2)"
| drop: "writers_reach M pg (ws1 @ w # ws2) \<Longrightarrow> writers_reach M pg (ws1 @ ws2)"
| foreign: "writers_reach M pg ws \<Longrightarrow> \<not> m_owns M (aa_aggregateId args) \<Longrightarrow>
     aa_expectedVersion args \<le> length (stream pg (aa_tenantId args) (aa_aggregateId args)) \<Longrightarrow>
     appendWithExpectedVersion role obs su args pg = (r, pg') \<Longrightarrow>
     writers_reach M pg' ws"
| relay: "writers_reach M pg ws \<Longrightarrow> writers_reach M (restatus f pg) ws"

definition events_of :: "pg_state \<Rightarrow> string \<Rightarrow> string \<Rightarrow> fold_event list" where
  "events_of pg t a = map fold_event_of (stream pg t a)"

lemma fold_stream_events: "fold_stream f i rs = foldl f i (map fold_event_of rs)"
  by (induction rs rule: rev_induct) auto

definition writer_ok :: "('c, 's) machine \<Rightarrow> pg_state \<Rightarrow> ('c, 's) writer \<Rightarrow> bool" where
  "writer_ok M pg w \<longleftrightarrow> m_owns M (w_aggregateId w)
     \<and> w_version w \<le> length (events_of pg (w_tenantId w) (w_aggregateId w))
     \<and> w_state w = foldl (m_fold M) (m_initial M)
         (take (w_version w) (events_of pg (w_tenantId w) (w_aggregateId w)))"

lemma length_events_of: "length (events_of pg t a) = length (stream pg t a)"
  by (simp add: events_of_def)

lemma events_of_empty [simp]: "events_of empty_pg t a = []"
  by (simp add: events_of_def stream_def empty_pg_def)

text \<open>How a writer's append acts on the streams, whatever its outcome.\<close>

lemma append_streams:
  assumes "store_inv pg"
    and "aa_expectedVersion args \<le> length (stream pg (aa_tenantId args) (aa_aggregateId args))"
    and "appendWithExpectedVersion role obs su args pg = (r, pg')"
  shows "store_inv pg'"
    and "events_of pg' t a = events_of pg t a \<or>
         (t = aa_tenantId args \<and> a = aa_aggregateId args
          \<and> aa_expectedVersion args = length (stream pg t a)
          \<and> events_of pg' t a = events_of pg t a @
              [\<lparr>fe_eventType = aa_eventType args, fe_payload = aa_payload args,
                fe_version = Suc (length (stream pg t a))\<rparr>])"
proof -
  have both: "store_inv pg' \<and> (events_of pg' t a = events_of pg t a \<or>
         (t = aa_tenantId args \<and> a = aa_aggregateId args
          \<and> aa_expectedVersion args = length (stream pg t a)
          \<and> events_of pg' t a = events_of pg t a @
              [\<lparr>fe_eventType = aa_eventType args, fe_payload = aa_payload args,
                fe_version = Suc (length (stream pg t a))\<rparr>]))"
  proof (cases r)
    case (Inl e)
    with append_failure assms(1,3) show ?thesis using assms(1) by blast
  next
    case (Inr env)
    with assms(3) have app: "appendWithExpectedVersion role obs su args pg = (Inr env, pg')" by simp
    note ok = append_success [OF assms(1,2) app]
    show ?thesis
      using ok(1,2) by (simp add: events_of_def ok(3) fold_event_of_def store_simps)
  qed
  then show "store_inv pg'" by blast
  from both show "events_of pg' t a = events_of pg t a \<or>
         (t = aa_tenantId args \<and> a = aa_aggregateId args
          \<and> aa_expectedVersion args = length (stream pg t a)
          \<and> events_of pg' t a = events_of pg t a @
              [\<lparr>fe_eventType = aa_eventType args, fe_payload = aa_payload args,
                fe_version = Suc (length (stream pg t a))\<rparr>])" by blast
qed

lemma writer_ok_append:
  assumes "store_inv pg"
    and "aa_expectedVersion args \<le> length (stream pg (aa_tenantId args) (aa_aggregateId args))"
    and "appendWithExpectedVersion role obs su args pg = (r, pg')"
    and "writer_ok M pg w"
  shows "writer_ok M pg' w"
  using append_streams(2) [OF assms(1-3), of "w_tenantId w" "w_aggregateId w"] assms(4)
  by (elim disjE) (auto simp: writer_ok_def)

section \<open>The contract of an aggregate\<close>

locale aggregate_machine =
  fixes M :: "('c, 's) machine"
    and legal :: "fold_event list \<Rightarrow> bool"
  assumes legal_nil: "legal []"
    and legal_step: "legal es \<Longrightarrow> m_decide M c (foldl (m_fold M) (m_initial M) es) = Some (ty, pl) \<Longrightarrow>
      legal (es @ [\<lparr>fe_eventType = ty, fe_payload = pl, fe_version = v\<rparr>])"
begin

definition writers_inv :: "pg_state \<Rightarrow> ('c, 's) writer list \<Rightarrow> bool" where
  "writers_inv pg ws \<longleftrightarrow> store_inv pg \<and> list_all (writer_ok M pg) ws
     \<and> (\<forall>t a. m_owns M a \<longrightarrow> legal (events_of pg t a))"

lemma commit_inv:
  assumes inv: "writers_inv pg (ws1 @ w # ws2)"
    and dec: "m_decide M (w_cmd w) (w_state w) = Some (ty, pl)"
    and app: "appendWithExpectedVersion role obs su (writer_args M w ty pl corr) pg = (r, pg')"
  shows "writers_inv pg' (ws1 @ ws2)"
proof -
  let ?args = "writer_args M w ty pl corr"
  from inv have store: "store_inv pg" and w: "writer_ok M pg w"
    and ws: "list_all (writer_ok M pg) (ws1 @ ws2)"
    and leg: "m_owns M a \<Longrightarrow> legal (events_of pg t a)" for t a
    by (auto simp: writers_inv_def)
  have ver: "aa_expectedVersion ?args \<le> length (stream pg (aa_tenantId ?args) (aa_aggregateId ?args))"
    using w by (simp add: writer_args_def writer_ok_def length_events_of)
  note eff = append_streams [OF store ver app]
  have "legal (events_of pg' t a)" if own: "m_owns M a" for t a
    using eff(2) [of t a] leg [OF own, of t] w dec
    by (auto simp: writer_args_def writer_ok_def length_events_of [symmetric] intro: legal_step)
  moreover have "list_all (writer_ok M pg') (ws1 @ ws2)"
    using ws writer_ok_append [OF store ver app] by (auto simp: list_all_iff)
  ultimately show ?thesis using eff(1) by (simp add: writers_inv_def)
qed

lemma reach_inv: "writers_reach M pg ws \<Longrightarrow> writers_inv pg ws"
proof (induction rule: writers_reach.induct)
  case start
  then show ?case by (simp add: writers_inv_def legal_nil)
next
  case (load pg ws a role t s v c)
  then have "store_inv pg" by (simp add: writers_inv_def)
  with load show ?case
    by (auto simp: writers_inv_def writer_ok_def loadAggregate_eq fold_stream_events
        length_events_of events_of_def)
next
  case (commit pg ws1 w ws2 ty pl role obs su corr r pg')
  then show ?case by (blast intro: commit_inv)
next
  case (drop pg ws1 w ws2)
  then show ?case by (simp add: writers_inv_def)
next
  case (foreign pg ws args role obs su r pg')
  then have store: "store_inv pg" by (simp add: writers_inv_def)
  note eff = append_streams [OF store foreign(3,4)]
  have "legal (events_of pg' t a)" if "m_owns M a" for t a
    using eff(2) [of t a] foreign that by (auto simp: writers_inv_def)
  moreover have "list_all (writer_ok M pg') ws"
    using foreign.IH writer_ok_append [OF store foreign(3,4)]
    by (auto simp: writers_inv_def list_all_iff)
  ultimately show ?case using eff(1) by (simp add: writers_inv_def)
next
  case (relay pg ws f)
  moreover have "writer_ok M (restatus f pg) w = writer_ok M pg w" for w
    by (simp add: writer_ok_def events_of_def)
  ultimately show ?case by (simp add: writers_inv_def list_all_iff events_of_def)
qed

lemma reach_store_inv: "writers_reach M pg ws \<Longrightarrow> store_inv pg"
  using reach_inv by (simp add: writers_inv_def)

lemma reach_legal: "writers_reach M pg ws \<Longrightarrow> m_owns M a \<Longrightarrow> legal (events_of pg t a)"
  using reach_inv by (simp add: writers_inv_def)

text \<open>
  Optimistic concurrency: of two handlers in flight that loaded the same stream at the same version,
  once one has appended, the other's append is refused.
\<close>

lemma loser_conflicts:
  assumes reach: "writers_reach M pg ws" and w: "w \<in> set ws" and w': "w' \<in> set ws"
    and same: "w_tenantId w' = w_tenantId w" "w_aggregateId w' = w_aggregateId w"
      "w_version w' = w_version w"
    and win: "appendWithExpectedVersion role obs su (writer_args M w ty pl corr) pg = (Inr env, pg')"
  shows "appendWithExpectedVersion role' obs' su' (writer_args M w' ty' pl' corr') pg'
           = (Inl (ConcurrencyError (w_aggregateId w) (Suc (w_version w))), pg')"
proof -
  from reach_inv [OF reach] w have store: "store_inv pg" and ok: "writer_ok M pg w"
    by (auto simp: writers_inv_def list_all_iff)
  have ver: "aa_expectedVersion (writer_args M w ty pl corr)
      \<le> length (stream pg (aa_tenantId (writer_args M w ty pl corr)) (aa_aggregateId (writer_args M w ty pl corr)))"
    using ok by (simp add: writer_args_def writer_ok_def length_events_of)
  note won = append_success [OF store ver win]
  show ?thesis
    using won(1) same by (simp add: append_eq [OF won(2)] won(3) writer_args_def)
qed

end

text \<open>A handler that runs its load and its append without interference is two steps of the system.\<close>

lemma sequential_handler_reach:
  assumes "writers_reach M pg ws" and "m_owns M a"
    and "loadAggregate role t a (m_fold M) (m_initial M) pg = (s, v)"
    and "m_decide M c s = Some (ty, pl)"
    and "appendWithExpectedVersion role' obs su
       \<lparr>aa_tenantId = t, aa_aggregateType = m_type M, aa_aggregateId = a, aa_expectedVersion = v,
        aa_eventType = ty, aa_payload = pl, aa_topic = m_topic M, aa_correlationId = corr\<rparr> pg = (r, pg')"
  shows "writers_reach M pg' ws"
proof -
  let ?w = "\<lparr>w_tenantId = t, w_aggregateId = a, w_cmd = c, w_state = s, w_version = v\<rparr>"
  have "writers_reach M pg ([] @ ?w # ws)"
    using writers_reach.load [OF assms(1-3), of c] by simp
  from writers_reach.commit [OF this, of ty pl role' obs su corr r pg'] assms(4,5)
  show ?thesis by (simp add: writer_args_def)
qed

end
