(* ===== verification/Order_Aggregate.thy ===== *)
theory Order_Aggregate
  imports Writers
begin

text \<open>
  The Order aggregate (\<open>packages/shared/src/order-aggregate.ts\<close>): its state, the fold of its events
  and its commands, and the proof that it meets the contract of an aggregate, with the life cycle
  \<open>placed, then accepted or cancelled, never both\<close>.
\<close>

section \<open>State and fold\<close>

record order_state =
  os_status :: "order_status option"
  os_customerId :: "string option"
  os_items :: "order_item list option"
  os_totalAmount :: "int option"
  os_cancelReason :: "string option"

definition INITIAL_ORDER_STATE :: order_state where
  "INITIAL_ORDER_STATE = \<lparr>os_status = None, os_customerId = None, os_items = None,
     os_totalAmount = None, os_cancelReason = None\<rparr>"

text \<open>\<open>InvalidTransitionError\<close>, with its message.\<close>

datatype transition_error = InvalidTransitionError string

fun order_status_name :: "order_status option \<Rightarrow> string" where
  "order_status_name None = ''null''"
| "order_status_name (Some PLACED) = ''PLACED''"
| "order_status_name (Some ACCEPTED) = ''ACCEPTED''"
| "order_status_name (Some CANCELLED) = ''CANCELLED''"

definition foldOrder :: "order_state \<Rightarrow> fold_event \<Rightarrow> order_state" where
  "foldOrder st e = (case fe_eventType e of
     OrderPlaced \<Rightarrow> \<lparr>os_status = Some PLACED, os_customerId = pl_customerId (fe_payload e),
       os_items = pl_items (fe_payload e), os_totalAmount = pl_totalAmount (fe_payload e),
       os_cancelReason = None\<rparr>
   | OrderAccepted \<Rightarrow> st\<lparr>os_status := Some ACCEPTED\<rparr>
   | OrderCancelled \<Rightarrow> st\<lparr>os_status := Some CANCELLED, os_cancelReason := pl_reason (fe_payload e)\<rparr>
   | _ \<Rightarrow> st)"

section \<open>Commands\<close>

definition place :: "order_state \<Rightarrow> payload \<Rightarrow> payload option" where
  "place st cmd = (if os_status st \<noteq> None then None else Some cmd)"

definition accept :: "order_state \<Rightarrow> string \<Rightarrow> (transition_error, payload) result" where
  "accept st orderId =
     (if os_status st \<noteq> Some PLACED
      then Inl (InvalidTransitionError (''cannot accept order in status '' @ order_status_name (os_status st)))
      else Inr (order_id_payload orderId))"

definition cancel :: "order_state \<Rightarrow> string \<Rightarrow> string \<Rightarrow> (transition_error, payload) result" where
  "cancel st orderId reason =
     (if os_status st \<noteq> Some PLACED
      then Inl (InvalidTransitionError (''cannot cancel order in status '' @ order_status_name (os_status st)))
      else Inr (reason_payload orderId reason))"

section \<open>The aggregate as a machine\<close>

datatype order_cmd = CmdPlace payload | CmdAccept string | CmdCancel string string

definition result_option :: "('e, 'a) result \<Rightarrow> 'a option" where
  "result_option r = (case r of Inl _ \<Rightarrow> None | Inr a \<Rightarrow> Some a)"

lemma result_option_simps [simp]: "result_option (Inl e) = None" "result_option (Inr a) = Some a"
  by (simp_all add: result_option_def)

fun order_decide :: "order_cmd \<Rightarrow> order_state \<Rightarrow> (event_type \<times> payload) option" where
  "order_decide (CmdPlace p) st = map_option (\<lambda>p. (OrderPlaced, p)) (place st p)"
| "order_decide (CmdAccept oid) st = map_option (\<lambda>p. (OrderAccepted, p)) (result_option (accept st oid))"
| "order_decide (CmdCancel oid r) st = map_option (\<lambda>p. (OrderCancelled, p)) (result_option (cancel st oid r))"

text \<open>
  Order streams are those whose aggregate id is not one of \<open>dispatchAggregateId\<close>; the event store
  itself keeps both kinds of streams in one key space.
\<close>

definition is_dispatch_id :: "string \<Rightarrow> bool" where
  "is_dispatch_id a \<longleftrightarrow> take 9 a = ''dispatch:''"

lemma is_dispatch_id_dispatchAggregateId [simp]: "is_dispatch_id (dispatchAggregateId oid)"
  by (simp add: is_dispatch_id_def dispatchAggregateId_def)

definition order_machine :: "(order_cmd, order_state) machine" where
  "order_machine = \<lparr>m_fold = foldOrder, m_initial = INITIAL_ORDER_STATE, m_decide = order_decide,
     m_owns = (\<lambda>a. \<not> is_dispatch_id a), m_type = ORDER, m_topic = None\<rparr>"

lemma order_machine_simps [simp]:
  "m_fold order_machine = foldOrder" "m_initial order_machine = INITIAL_ORDER_STATE"
  "m_decide order_machine = order_decide" "m_owns order_machine a = (\<not> is_dispatch_id a)"
  "m_type order_machine = ORDER" "m_topic order_machine = None"
  by (simp_all add: order_machine_def)

section \<open>The life cycle\<close>

text \<open>The abstract specification: the only event sequences an order may go through.\<close>

definition order_lifecycles :: "event_type list list" where
  "order_lifecycles = [[], [OrderPlaced], [OrderPlaced, OrderAccepted], [OrderPlaced, OrderCancelled]]"

definition order_legal :: "fold_event list \<Rightarrow> bool" where
  "order_legal es \<longleftrightarrow> map fe_eventType es \<in> set order_lifecycles"

lemma order_legal_cases:
  assumes "order_legal es"
  obtains "es = []"
  | p where "es = [p]" "fe_eventType p = OrderPlaced"
  | p a where "es = [p, a]" "fe_eventType p = OrderPlaced" "fe_eventType a = OrderAccepted"
  | p c where "es = [p, c]" "fe_eventType p = OrderPlaced" "fe_eventType c = OrderCancelled"
  using assms by (auto simp: order_legal_def order_lifecycles_def map_eq_Cons_conv)

definition order_fold :: "fold_event list \<Rightarrow> order_state" where
  "order_fold es = foldl foldOrder INITIAL_ORDER_STATE es"

lemma order_fold_status:
  assumes "order_legal es"
  shows "os_status (order_fold es) =
    (if es = [] then None
     else if length es = 1 then Some PLACED
     else if fe_eventType (last es) = OrderAccepted then Some ACCEPTED else Some CANCELLED)"
  using assms by (cases rule: order_legal_cases)
    (simp_all add: order_fold_def foldOrder_def INITIAL_ORDER_STATE_def)

lemma order_decide_SomeD:
  "order_decide c st = Some (ty, pl) \<Longrightarrow>
   (ty = OrderPlaced \<and> os_status st = None) \<or>
   (ty \<in> {OrderAccepted, OrderCancelled} \<and> os_status st = Some PLACED)"
  by (cases c) (auto simp: place_def accept_def cancel_def split: if_splits)

lemma order_legal_step:
  assumes leg: "order_legal es"
    and dec: "order_decide c (foldl foldOrder INITIAL_ORDER_STATE es) = Some (ty, pl)"
  shows "order_legal (es @ [\<lparr>fe_eventType = ty, fe_payload = pl, fe_version = v\<rparr>])"
  using leg order_fold_status [OF leg] order_decide_SomeD [OF dec]
  by (cases rule: order_legal_cases)
    (auto simp: order_fold_def order_legal_def order_lifecycles_def)

interpretation om: aggregate_machine order_machine order_legal
proof unfold_locales
  show "order_legal []" by (simp add: order_legal_def order_lifecycles_def)
qed (auto intro: order_legal_step)

text \<open>The fold of a legal order stream, spelt out.\<close>

lemma order_fold_view:
  assumes "order_legal es" and "es \<noteq> []"
  shows "order_fold es =
    \<lparr>os_status = Some (if length es = 1 then PLACED
        else if fe_eventType (last es) = OrderAccepted then ACCEPTED else CANCELLED),
     os_customerId = pl_customerId (fe_payload (hd es)), os_items = pl_items (fe_payload (hd es)),
     os_totalAmount = pl_totalAmount (fe_payload (hd es)),
     os_cancelReason = (if length es = 2 \<and> fe_eventType (last es) = OrderCancelled
        then pl_reason (fe_payload (last es)) else None)\<rparr>"
  using assms by (cases rule: order_legal_cases)
    (simp_all add: order_fold_def foldOrder_def INITIAL_ORDER_STATE_def)

section \<open>Orders under concurrency\<close>

text \<open>
  C1: An order's event stream is a run of its life cycle however the handlers of concurrent requests,
  activities and retries interleave: it is empty, or a placement, optionally followed by exactly one
  of an acceptance and a cancellation. No order is ever both accepted and cancelled.
\<close>

theorem order_stream_lifecycle:
  assumes "writers_reach order_machine pg ws" and "\<not> is_dispatch_id a"
  shows "map fe_eventType (events_of pg t a) \<in>
      {[], [OrderPlaced], [OrderPlaced, OrderAccepted], [OrderPlaced, OrderCancelled]}"
  using om.reach_legal [OF assms(1), of a t] assms(2)
  by (simp add: order_legal_def order_lifecycles_def)

text \<open>
  C3: The event store's invariant under every interleaving of handlers: the versions of each
  aggregate's stream are 1, 2, ..., n without gap or duplicate, event ids are unique, and the outbox
  holds exactly one row per event, in the same order, with the same id, key, type and payload.
\<close>

theorem event_store_invariant:
  assumes "writers_reach order_machine pg ws"
  shows "map ev_version (stream pg t a) = [1..<Suc (length (stream pg t a))]
    \<and> distinct (map ev_id (pg_events pg))
    \<and> list_all2 outbox_matches (pg_events pg) (pg_outbox pg)"
  using om.reach_store_inv [OF assms] stream_contiguous by (simp add: store_inv_def del: upt_Suc)

text \<open>
  C4: Optimistic concurrency. Of two handlers in flight that loaded an order at the same version, one
  accepting and one cancelling say, once one has appended its event the other's append is refused
  with a \<open>ConcurrencyError\<close> and changes nothing.
\<close>

theorem order_race_one_winner:
  assumes "writers_reach order_machine pg ws" and "w \<in> set ws" and "w' \<in> set ws"
    and "w_tenantId w' = w_tenantId w" and "w_aggregateId w' = w_aggregateId w"
    and "w_version w' = w_version w"
    and "appendWithExpectedVersion role obs su (writer_args order_machine w ty pl corr) pg = (Inr env, pg')"
  shows "appendWithExpectedVersion role' obs' su' (writer_args order_machine w' ty' pl' corr') pg'
     = (Inl (ConcurrencyError (w_aggregateId w) (Suc (w_version w))), pg')"
  by (rule om.loser_conflicts [OF assms])

definition placed_state :: order_state where
  "placed_state = \<lparr>os_status = Some PLACED, os_customerId = Some ''c1'',
     os_items = Some [\<lparr>sku = ''s'', qty = 1, price = 5\<rparr>], os_totalAmount = Some 5, os_cancelReason = None\<rparr>"

lemma sample_pg_reach: "writers_reach order_machine sample_pg []"
proof (rule sequential_handler_reach [where role = AppRole and v = 0 and s = INITIAL_ORDER_STATE
      and t = "''berlin''" and a = "''o1''" and ty = OrderPlaced and role' = AppRole and obs = None
      and su = "sample_draws ''e1''" and corr = None and r = "Inr (append_envelope None (sample_draws ''e1'') sample_append)"
      and c = "CmdPlace (aa_payload sample_append)" and pl = "aa_payload sample_append"])
  show "writers_reach order_machine empty_pg []" by (rule writers_reach.start)
  show "loadAggregate AppRole ''berlin'' ''o1'' (m_fold order_machine) (m_initial order_machine) empty_pg
      = (INITIAL_ORDER_STATE, 0)"
    by (simp add: loadAggregate_eq) (simp add: stream_def empty_pg_def)
  show "appendWithExpectedVersion AppRole None (sample_draws ''e1'')
     \<lparr>aa_tenantId = ''berlin'', aa_aggregateType = m_type order_machine, aa_aggregateId = ''o1'',
        aa_expectedVersion = 0, aa_eventType = OrderPlaced, aa_payload = aa_payload sample_append,
        aa_topic = m_topic order_machine, aa_correlationId = None\<rparr> empty_pg
     = (Inr (append_envelope None (sample_draws ''e1'') sample_append), sample_pg)"
    using sample_append_ok by (simp add: sample_append_def)
qed (simp_all add: is_dispatch_id_def place_def INITIAL_ORDER_STATE_def)

lemma sample_inv: "store_inv sample_pg"
  by (rule om.reach_store_inv [OF sample_pg_reach])

lemma sample_stream: "stream sample_pg ''berlin'' ''o1'' = pg_events sample_pg"
  by (simp add: stream_def sample_pg_def store_simps) (simp add: sample_append_def)

lemma sample_load:
  "loadAggregate role ''berlin'' ''o1'' foldOrder INITIAL_ORDER_STATE sample_pg = (placed_state, 1)"
  by (simp add: loadAggregate_eq sample_inv sample_stream)
    (simp add: sample_pg_def fold_stream_def fold_event_of_def store_simps foldOrder_def sample_append_def
      placed_state_def payload_defs)

definition sample_writer :: "order_cmd \<Rightarrow> (order_cmd, order_state) writer" where
  "sample_writer c = \<lparr>w_tenantId = ''berlin'', w_aggregateId = ''o1'', w_cmd = c,
     w_state = placed_state, w_version = 1\<rparr>"

lemma sample_race_reach:
  "writers_reach order_machine sample_pg [sample_writer (CmdAccept ''o1''), sample_writer (CmdCancel ''o1'' DECLINED)]"
  unfolding sample_writer_def
  by (rule writers_reach.load [where role = AppRole], rule writers_reach.load [where role = AppRole],
      rule sample_pg_reach) (simp_all add: is_dispatch_id_def sample_load)

theorem order_stream_lifecycle_witness:
  "map fe_eventType (events_of sample_pg ''berlin'' ''o1'') \<in>
      {[], [OrderPlaced], [OrderPlaced, OrderAccepted], [OrderPlaced, OrderCancelled]}"
  by (rule order_stream_lifecycle [OF sample_pg_reach]) (simp add: is_dispatch_id_def)

theorem event_store_invariant_witness:
  "map ev_version (stream sample_pg ''berlin'' ''o1'') = [1..<Suc (length (stream sample_pg ''berlin'' ''o1''))]
    \<and> distinct (map ev_id (pg_events sample_pg))
    \<and> list_all2 outbox_matches (pg_events sample_pg) (pg_outbox sample_pg)"
  by (rule event_store_invariant [OF sample_pg_reach])

theorem order_race_one_winner_witness:
  "\<exists>pg'. appendWithExpectedVersion AppRole None (sample_draws ''e3'') (writer_args order_machine
       (sample_writer (CmdCancel ''o1'' DECLINED)) OrderCancelled (reason_payload ''o1'' DECLINED) None) pg'
     = (Inl (ConcurrencyError ''o1'' 2), pg')"
proof -
  let ?args = "writer_args order_machine (sample_writer (CmdAccept ''o1'')) OrderAccepted (order_id_payload ''o1'') None"
  have "\<exists>pg'. appendWithExpectedVersion AppRole None (sample_draws ''e2'') ?args sample_pg
      = (Inr (append_envelope None (sample_draws ''e2'') ?args), pg')"
    by (rule append_progress [OF sample_inv])
      (simp_all add: writer_args_def sample_writer_def sample_stream, simp_all add: id_taken_def sample_pg_def
        store_simps sample_draws_def)
  then obtain pg' where app: "appendWithExpectedVersion AppRole None (sample_draws ''e2'') ?args sample_pg
      = (Inr (append_envelope None (sample_draws ''e2'') ?args), pg')" ..
  from order_race_one_winner [OF sample_race_reach _ _ _ _ _ app,
      of "sample_writer (CmdCancel ''o1'' DECLINED)" AppRole None "sample_draws ''e3''"
        OrderCancelled "reason_payload ''o1'' DECLINED" None]
  show ?thesis by (auto simp: sample_writer_def numeral_2_eq_2)
qed

end
