(* ===== verification/Order_Saga.thy ===== *)
theory Order_Saga
  imports Workflow_Runtime Order_Aggregate
begin

text \<open>
  The order-lifecycle workflow (\<open>apps/saga-worker/src/workflows.ts\<close>). The workflow reaches the world
  only through its proxied activities, its child workflow and the clock, which are the fields of
  \<open>order_activities\<close>; the locale \<open>order_saga_env\<close> states what it relies on of them, proves what the
  workflow promises, and is interpreted on the activities of the saga worker in \<open>Saga_World\<close>.
\<close>

section \<open>The interface\<close>

record saga_args =
  sa_tenantId :: string
  sa_orderId :: string
  sa_totalAmount :: int
  sa_slaSeconds :: nat
  sa_confirmSeconds :: nat
  sa_offerTimeoutSeconds :: nat
  sa_maxOffers :: nat
  sa_deliverySeconds :: nat
  sa_correlationId :: string

record dispatch_args =
  da_tenantId :: string
  da_orderId :: string
  da_offerTimeoutSeconds :: nat
  da_maxOffers :: nat
  da_deliverySeconds :: "nat option"
  da_correlationId :: "string option"

datatype order_signal = MerchantApproval bool | ConfirmPayment

record 'w order_activities =
  oa_clock :: "'w \<Rightarrow> nat"
  oa_advance :: "nat \<Rightarrow> 'w \<Rightarrow> 'w"
  oa_authorizePayment :: "string \<Rightarrow> string \<Rightarrow> int \<Rightarrow> 'w \<Rightarrow> (act_error, bool) result \<times> 'w"
  oa_capturePayment :: "string \<Rightarrow> string \<Rightarrow> 'w \<Rightarrow> (act_error, unit) result \<times> 'w"
  oa_voidPayment :: "string \<Rightarrow> string \<Rightarrow> 'w \<Rightarrow> (act_error, unit) result \<times> 'w"
  oa_recordOrderAccepted :: "string \<Rightarrow> string \<Rightarrow> string option \<Rightarrow> 'w \<Rightarrow> (act_error, unit) result \<times> 'w"
  oa_recordOrderCancelled :: "string \<Rightarrow> string \<Rightarrow> string \<Rightarrow> string option \<Rightarrow> 'w \<Rightarrow> (act_error, unit) result \<times> 'w"
  oa_executeChild :: "dispatch_args \<Rightarrow> 'w \<Rightarrow> (act_error, dispatch_status) result \<times> 'w"

section \<open>The workflow\<close>

text \<open>The workflow's variables \<open>approved\<close> and \<open>confirmed\<close>, and its signal handlers.\<close>

record saga_vars =
  sv_approved :: "bool option"
  sv_confirmed :: bool

fun saga_signal :: "order_signal \<Rightarrow> saga_vars \<Rightarrow> saga_vars" where
  "saga_signal (MerchantApproval v) st = st\<lparr>sv_approved := Some v\<rparr>"
| "saga_signal ConfirmPayment st = st\<lparr>sv_confirmed := True\<rparr>"

definition dispatchResult :: "dispatch_status \<Rightarrow> saga_result" where
  "dispatchResult d = (if d = DELIVERED then R_DELIVERED else R_DISPATCH_FAILED)"

definition child_args :: "saga_args \<Rightarrow> dispatch_args" where
  "child_args args = \<lparr>da_tenantId = sa_tenantId args, da_orderId = sa_orderId args,
     da_offerTimeoutSeconds = sa_offerTimeoutSeconds args, da_maxOffers = sa_maxOffers args,
     da_deliverySeconds = Some (sa_deliverySeconds args), da_correlationId = Some (sa_correlationId args)\<rparr>"

text \<open>Recording the cancellation and returning a result, the ending of every cancelling branch.\<close>

definition cancel_and_return ::
    "'w order_activities \<Rightarrow> saga_args \<Rightarrow> string \<Rightarrow> saga_result \<Rightarrow> 'w \<Rightarrow> (act_error, saga_result) result \<times> 'w" where
  "cancel_and_return A args reason res w =
     (case oa_recordOrderCancelled A (sa_tenantId args) (sa_orderId args) reason (Some (sa_correlationId args)) w of
        (Inl e, w') \<Rightarrow> (Inl e, w')
      | (Inr _, w') \<Rightarrow> (Inr res, w'))"

text \<open>After the capture: record the acceptance, then run the dispatch as a child.\<close>

definition accept_and_dispatch ::
    "'w order_activities \<Rightarrow> saga_args \<Rightarrow> 'w \<Rightarrow> (act_error, saga_result) result \<times> 'w" where
  "accept_and_dispatch A args w =
     (case oa_recordOrderAccepted A (sa_tenantId args) (sa_orderId args) (Some (sa_correlationId args)) w of
        (Inl e, w1) \<Rightarrow> (Inl e, w1)
      | (Inr _, w1) \<Rightarrow>
         (case oa_executeChild A (child_args args) w1 of
            (Inl _, w2) \<Rightarrow> (Inr R_DISPATCH_FAILED, w2)
          | (Inr outcome, w2) \<Rightarrow> (Inr (dispatchResult outcome), w2)))"

text \<open>The race of the merchant's decision against the SLA timer, once the payment is authorized.\<close>

definition merchant_race ::
    "'w order_activities \<Rightarrow> saga_args \<Rightarrow> saga_vars \<Rightarrow> (nat \<times> order_signal) list \<Rightarrow> 'w
     \<Rightarrow> (act_error, saga_result) result \<times> 'w" where
  "merchant_race A args st q w =
     (case condition (\<lambda>s. sv_approved s \<noteq> None) saga_signal (sa_slaSeconds args) (oa_clock A w) st q of
        (signalledInTime, t, st', q') \<Rightarrow>
          (let w1 = oa_advance A t w in
           if signalledInTime \<and> sv_approved st' = Some True
           then (case oa_capturePayment A (sa_tenantId args) (sa_orderId args) w1 of
                   (Inl _, w2) \<Rightarrow>
                     (case oa_voidPayment A (sa_tenantId args) (sa_orderId args) w2 of
                        (_, w3) \<Rightarrow> cancel_and_return A args PAYMENT_FAILED R_CANCELLED_PAYMENT_FAILED w3)
                 | (Inr _, w2) \<Rightarrow> accept_and_dispatch A args w2)
           else (case oa_voidPayment A (sa_tenantId args) (sa_orderId args) w1 of
                   (Inl e, w2) \<Rightarrow> (Inl e, w2)
                 | (Inr _, w2) \<Rightarrow>
                    (let reason = (if signalledInTime then DECLINED else SLA_BREACH)
                     in cancel_and_return A args reason
                          (if reason = SLA_BREACH then R_CANCELLED_SLA else R_CANCELLED_DECLINED) w2))))"

definition orderLifecycleWorkflow ::
    "'w order_activities \<Rightarrow> saga_args \<Rightarrow> (nat \<times> order_signal) list \<Rightarrow> 'w
     \<Rightarrow> (act_error, saga_result) result \<times> 'w" where
  "orderLifecycleWorkflow A args q w =
     (case condition sv_confirmed saga_signal (sa_confirmSeconds args) (oa_clock A w)
         \<lparr>sv_approved = None, sv_confirmed = False\<rparr> q of
        (confirmedInTime, t, st, q1) \<Rightarrow>
          (let w1 = oa_advance A t w in
           if \<not> confirmedInTime
           then cancel_and_return A args PAYMENT_TIMEOUT R_CANCELLED_PAYMENT_TIMEOUT w1
           else (case oa_authorizePayment A (sa_tenantId args) (sa_orderId args) (sa_totalAmount args) w1 of
                   (Inl _, w2) \<Rightarrow> cancel_and_return A args PAYMENT_FAILED R_CANCELLED_PAYMENT_FAILED w2
                 | (Inr authorized, w2) \<Rightarrow>
                    if \<not> authorized
                    then cancel_and_return A args PAYMENT_FAILED R_CANCELLED_PAYMENT_FAILED w2
                    else merchant_race A args st q1 w2)))"

section \<open>What the workflow guarantees\<close>

definition is_cancelled :: "order_state \<Rightarrow> string \<Rightarrow> bool" where
  "is_cancelled st reason \<longleftrightarrow> os_status st = Some CANCELLED \<and> os_cancelReason st = Some reason"

text \<open>
  The specification: what order and payment look like for each way the workflow can end. A workflow
  that fails (an activity it does not catch ran out of attempts) leaves the states in which the order
  is not settled, or is settled in agreement with the payment.
\<close>

fun saga_outcome :: "(act_error, saga_result) result \<Rightarrow> order_state \<Rightarrow> payment_status option \<Rightarrow> bool" where
  "saga_outcome (Inr R_DELIVERED) ord pay = (os_status ord = Some ACCEPTED \<and> pay = Some PAY_CAPTURED)"
| "saga_outcome (Inr R_DISPATCH_FAILED) ord pay = (os_status ord = Some ACCEPTED \<and> pay = Some PAY_CAPTURED)"
| "saga_outcome (Inr R_CANCELLED_SLA) ord pay = (is_cancelled ord SLA_BREACH \<and> pay = Some PAY_VOIDED)"
| "saga_outcome (Inr R_CANCELLED_DECLINED) ord pay = (is_cancelled ord DECLINED \<and> pay = Some PAY_VOIDED)"
| "saga_outcome (Inr R_CANCELLED_PAYMENT_TIMEOUT) ord pay = (is_cancelled ord PAYMENT_TIMEOUT \<and> pay = None)"
| "saga_outcome (Inr R_CANCELLED_PAYMENT_FAILED) ord pay = is_cancelled ord PAYMENT_FAILED"
| "saga_outcome (Inr R_ACCEPTED) ord pay = False"
| "saga_outcome (Inl e) ord pay =
     (os_status ord = Some PLACED \<or> os_status ord = Some ACCEPTED \<and> pay = Some PAY_CAPTURED
      \<or> os_status ord = Some CANCELLED)"

text \<open>
  What the workflow relies on, for one order: the clock touches nothing; the payment activities move
  the payment along its state machine and leave the order alone; the recording activities move the
  order and leave the payment alone; a failure may or may not have had its effect.
\<close>

locale order_saga_env =
  fixes A :: "'w order_activities"
    and tid oid :: string
    and inv :: "'w \<Rightarrow> bool"
    and ord :: "'w \<Rightarrow> order_state"
    and pay :: "'w \<Rightarrow> payment_status option"
  assumes advance: "inv w \<Longrightarrow> inv (oa_advance A n w) \<and> ord (oa_advance A n w) = ord w \<and> pay (oa_advance A n w) = pay w"
    and authorize: "inv w \<Longrightarrow> pay w = None \<Longrightarrow> oa_authorizePayment A tid oid amount w = (ra, w') \<Longrightarrow>
      inv w' \<and> ord w' = ord w \<and> pay w' \<in> {None, Some PAY_AUTHORIZED, Some PAY_DECLINED}
      \<and> (ra = Inr True \<longrightarrow> pay w' = Some PAY_AUTHORIZED) \<and> (ra = Inr False \<longrightarrow> pay w' = Some PAY_DECLINED)"
    and capture: "inv w \<Longrightarrow> pay w = Some PAY_AUTHORIZED \<Longrightarrow> oa_capturePayment A tid oid w = (r, w') \<Longrightarrow>
      inv w' \<and> ord w' = ord w \<and> pay w' \<in> {Some PAY_AUTHORIZED, Some PAY_CAPTURED}
      \<and> (r = Inr () \<longrightarrow> pay w' = Some PAY_CAPTURED)"
    and void_held: "inv w \<Longrightarrow> pay w = Some PAY_AUTHORIZED \<Longrightarrow> oa_voidPayment A tid oid w = (r, w') \<Longrightarrow>
      inv w' \<and> ord w' = ord w \<and> pay w' \<in> {Some PAY_AUTHORIZED, Some PAY_VOIDED}
      \<and> (r = Inr () \<longrightarrow> pay w' = Some PAY_VOIDED)"
    and void_captured: "inv w \<Longrightarrow> pay w = Some PAY_CAPTURED \<Longrightarrow> oa_voidPayment A tid oid w = (r, w') \<Longrightarrow>
      inv w' \<and> ord w' = ord w \<and> pay w' = Some PAY_CAPTURED"
    and accepted: "inv w \<Longrightarrow> os_status (ord w) = Some PLACED \<Longrightarrow>
      oa_recordOrderAccepted A tid oid corr w = (r, w') \<Longrightarrow>
      inv w' \<and> pay w' = pay w \<and> os_status (ord w') \<in> {Some PLACED, Some ACCEPTED}
      \<and> (r = Inr () \<longrightarrow> os_status (ord w') = Some ACCEPTED)"
    and cancelled: "inv w \<Longrightarrow> os_status (ord w) = Some PLACED \<Longrightarrow>
      oa_recordOrderCancelled A tid oid reason corr w = (r, w') \<Longrightarrow>
      inv w' \<and> pay w' = pay w \<and> (os_status (ord w') = Some PLACED \<or> is_cancelled (ord w') reason)
      \<and> (r = Inr () \<longrightarrow> is_cancelled (ord w') reason)"
    and child: "inv w \<Longrightarrow> da_tenantId da = tid \<Longrightarrow> da_orderId da = oid \<Longrightarrow> oa_executeChild A da w = (rc, w') \<Longrightarrow>
      inv w' \<and> ord w' = ord w \<and> pay w' = pay w"
begin

lemma cancel_and_return_outcome:
  assumes "inv w" and "os_status (ord w) = Some PLACED" and "sa_tenantId args = tid" and "sa_orderId args = oid"
    and "cancel_and_return A args reason res w = (r, w')"
  shows "inv w' \<and> pay w' = pay w \<and> (r = Inr res \<and> is_cancelled (ord w') reason
     \<or> (\<exists>e. r = Inl e) \<and> (os_status (ord w') = Some PLACED \<or> is_cancelled (ord w') reason))"
proof -
  obtain r1 w1 where c: "oa_recordOrderCancelled A tid oid reason (Some (sa_correlationId args)) w = (r1, w1)"
    by (cases "oa_recordOrderCancelled A tid oid reason (Some (sa_correlationId args)) w")
  from cancelled [OF assms(1,2) c] assms(3-5) c show ?thesis
    by (cases r1) (auto simp: cancel_and_return_def)
qed

lemma accept_and_dispatch_outcome:
  assumes "inv w" and "os_status (ord w) = Some PLACED" and "pay w = Some PAY_CAPTURED"
    and "sa_tenantId args = tid" and "sa_orderId args = oid"
    and "accept_and_dispatch A args w = (r, w')"
  shows "inv w' \<and> pay w' = Some PAY_CAPTURED \<and>
    (r \<in> {Inr R_DELIVERED, Inr R_DISPATCH_FAILED} \<and> os_status (ord w') = Some ACCEPTED
     \<or> (\<exists>e. r = Inl e) \<and> os_status (ord w') \<in> {Some PLACED, Some ACCEPTED})"
proof -
  obtain r1 w1 where a: "oa_recordOrderAccepted A tid oid (Some (sa_correlationId args)) w = (r1, w1)"
    by (cases "oa_recordOrderAccepted A tid oid (Some (sa_correlationId args)) w")
  note acc = accepted [OF assms(1,2) a]
  show ?thesis
  proof (cases r1)
    case (Inl e)
    with acc a assms show ?thesis by (auto simp: accept_and_dispatch_def)
  next
    case (Inr u)
    obtain r2 w2 where c: "oa_executeChild A (child_args args) w1 = (r2, w2)"
      by (cases "oa_executeChild A (child_args args) w1")
    have "inv w2 \<and> ord w2 = ord w1 \<and> pay w2 = pay w1"
      using child [OF _ _ _ c] acc assms by (simp add: child_args_def)
    with Inr acc a c assms show ?thesis
      by (cases r2) (auto simp: accept_and_dispatch_def dispatchResult_def)
  qed
qed

text \<open>The payment never ends captured behind a cancelled order, except after a failed capture.\<close>

definition capture_honest :: bool where
  "capture_honest \<longleftrightarrow> (\<forall>w e w'. inv w \<longrightarrow> pay w = Some PAY_AUTHORIZED \<longrightarrow>
     oa_capturePayment A tid oid w = (Inl e, w') \<longrightarrow> pay w' = Some PAY_AUTHORIZED)"

lemma merchant_race_outcome:
  assumes "inv w" and "os_status (ord w) = Some PLACED" and "pay w = Some PAY_AUTHORIZED"
    and args: "sa_tenantId args = tid" "sa_orderId args = oid"
    and run: "merchant_race A args st q w = (r, w')"
  shows "saga_outcome r (ord w') (pay w')
    \<and> (capture_honest \<longrightarrow> os_status (ord w') = Some CANCELLED \<longrightarrow> pay w' \<noteq> Some PAY_CAPTURED)"
proof -
  obtain ok t st' q' where c: "condition (\<lambda>s. sv_approved s \<noteq> None) saga_signal (sa_slaSeconds args)
      (oa_clock A w) st q = (ok, t, st', q')"
    by (cases "condition (\<lambda>s. sv_approved s \<noteq> None) saga_signal (sa_slaSeconds args) (oa_clock A w) st q")
  let ?w1 = "oa_advance A t w"
  have w1: "inv ?w1" "os_status (ord ?w1) = Some PLACED" "pay ?w1 = Some PAY_AUTHORIZED"
    using advance [OF assms(1), of t] assms(2,3) by auto
  show ?thesis
  proof (cases "ok \<and> sv_approved st' = Some True")
    case True
    obtain r2 w2 where cap: "oa_capturePayment A tid oid ?w1 = (r2, w2)"
      by (cases "oa_capturePayment A tid oid ?w1")
    note cp = capture [OF w1(1,3) cap]
    show ?thesis
    proof (cases r2)
      case (Inr u)
      with True c cap run args have "accept_and_dispatch A args w2 = (r, w')"
        by (simp add: merchant_race_def Let_def)
      from accept_and_dispatch_outcome [OF _ _ _ args this] cp Inr w1(2) show ?thesis by auto
    next
      case (Inl e)
      obtain r3 w3 where v: "oa_voidPayment A tid oid w2 = (r3, w3)"
        by (cases "oa_voidPayment A tid oid w2")
      have w3: "inv w3 \<and> ord w3 = ord w2 \<and> (pay w2 = Some PAY_AUTHORIZED \<longrightarrow> pay w3 \<noteq> Some PAY_CAPTURED)"
        using void_held [OF _ _ v] void_captured [OF _ _ v] cp by auto
      have "capture_honest \<Longrightarrow> pay w2 = Some PAY_AUTHORIZED"
        using w1(1,3) cap Inl unfolding capture_honest_def by blast
      moreover from Inl True c cap run args v
      have "cancel_and_return A args PAYMENT_FAILED R_CANCELLED_PAYMENT_FAILED w3 = (r, w')"
        by (simp add: merchant_race_def Let_def)
      from cancel_and_return_outcome [OF _ _ args this] w3 cp w1(2)
      have "pay w' = pay w3 \<and> (r = Inr R_CANCELLED_PAYMENT_FAILED \<and> is_cancelled (ord w') PAYMENT_FAILED
         \<or> (\<exists>e. r = Inl e) \<and> (os_status (ord w') = Some PLACED \<or> is_cancelled (ord w') PAYMENT_FAILED))"
        by simp
      ultimately show ?thesis using w3 by (auto simp: is_cancelled_def)
    qed
  next
    case False
    obtain r2 w2 where v: "oa_voidPayment A tid oid ?w1 = (r2, w2)"
      by (cases "oa_voidPayment A tid oid ?w1")
    note vd = void_held [OF w1(1,3) v]
    show ?thesis
    proof (cases r2)
      case (Inl e)
      with False c v run args vd w1(2) show ?thesis by (auto simp: merchant_race_def Let_def)
    next
      case (Inr u)
      let ?reason = "if ok then DECLINED else SLA_BREACH"
      have res: "cancel_and_return A args ?reason (if ok then R_CANCELLED_DECLINED else R_CANCELLED_SLA) w2 = (r, w')"
        using False c v run args Inr
        by (cases ok) (simp_all add: merchant_race_def Let_def reason_defs)
      from cancel_and_return_outcome [OF _ _ args res] vd Inr w1(2) show ?thesis
        by (cases ok) (auto simp: is_cancelled_def)
    qed
  qed
qed

lemma workflow_outcome:
  assumes "inv w" and "os_status (ord w) = Some PLACED" and "pay w = None"
    and args: "sa_tenantId args = tid" "sa_orderId args = oid"
    and run: "orderLifecycleWorkflow A args q w = (r, w')"
  shows "saga_outcome r (ord w') (pay w')
    \<and> (capture_honest \<longrightarrow> os_status (ord w') = Some CANCELLED \<longrightarrow> pay w' \<noteq> Some PAY_CAPTURED)"
proof -
  obtain ok t st q1 where c: "condition sv_confirmed saga_signal (sa_confirmSeconds args) (oa_clock A w)
      \<lparr>sv_approved = None, sv_confirmed = False\<rparr> q = (ok, t, st, q1)"
    by (cases "condition sv_confirmed saga_signal (sa_confirmSeconds args) (oa_clock A w)
      \<lparr>sv_approved = None, sv_confirmed = False\<rparr> q")
  let ?w1 = "oa_advance A t w"
  have w1: "inv ?w1" "os_status (ord ?w1) = Some PLACED" "pay ?w1 = None"
    using advance [OF assms(1), of t] assms(2,3) by auto
  show ?thesis
  proof (cases ok)
    case False
    with c run have "cancel_and_return A args PAYMENT_TIMEOUT R_CANCELLED_PAYMENT_TIMEOUT ?w1 = (r, w')"
      by (simp add: orderLifecycleWorkflow_def)
    from cancel_and_return_outcome [OF w1(1,2) args this] w1(3) show ?thesis
      by (auto simp: is_cancelled_def)
  next
    case True
    obtain r2 w2 where a: "oa_authorizePayment A tid oid (sa_totalAmount args) ?w1 = (r2, w2)"
      by (cases "oa_authorizePayment A tid oid (sa_totalAmount args) ?w1")
    note au = authorize [OF w1(1,3) a]
    show ?thesis
    proof (cases "r2 = Inr True")
      case True
      with \<open>ok\<close> c run args a have "merchant_race A args st q1 w2 = (r, w')"
        by (simp add: orderLifecycleWorkflow_def)
      from merchant_race_outcome [OF _ _ _ args this] au True w1(2) show ?thesis by simp
    next
      case False
      with \<open>ok\<close> c run args a have "cancel_and_return A args PAYMENT_FAILED R_CANCELLED_PAYMENT_FAILED w2 = (r, w')"
        by (cases r2) (auto simp: orderLifecycleWorkflow_def)
      from cancel_and_return_outcome [OF _ _ args this] au w1(2) show ?thesis
        by (auto simp: is_cancelled_def)
    qed
  qed
qed

end

section \<open>What a run keeps\<close>

text \<open>A predicate on the world that every activity of the workflow keeps, called as the workflow calls it.\<close>

locale order_frame =
  fixes A :: "'w order_activities"
    and args :: saga_args
    and I :: "'w \<Rightarrow> bool"
  assumes advance_keeps: "I w \<Longrightarrow> I (oa_advance A n w)"
    and authorize_keeps: "I w \<Longrightarrow>
      I (snd (oa_authorizePayment A (sa_tenantId args) (sa_orderId args) (sa_totalAmount args) w))"
    and settle_keeps: "I w \<Longrightarrow> I (snd (oa_capturePayment A (sa_tenantId args) (sa_orderId args) w))"
      "I w \<Longrightarrow> I (snd (oa_voidPayment A (sa_tenantId args) (sa_orderId args) w))"
    and record_keeps: "I w \<Longrightarrow> I (snd (oa_recordOrderAccepted A (sa_tenantId args) (sa_orderId args) corr w))"
      "I w \<Longrightarrow> I (snd (oa_recordOrderCancelled A (sa_tenantId args) (sa_orderId args) reason corr w))"
    and child_keeps: "I w \<Longrightarrow> I (snd (oa_executeChild A (child_args args) w))"
begin

lemma cancel_and_return_keeps: "I w \<Longrightarrow> I (snd (cancel_and_return A args reason res w))"
  using record_keeps(2) [of w reason "Some (sa_correlationId args)"]
  by (auto simp: cancel_and_return_def split: prod.splits sum.splits)

lemma accept_and_dispatch_keeps: "I w \<Longrightarrow> I (snd (accept_and_dispatch A args w))"
  using record_keeps(1) [of w "Some (sa_correlationId args)"] child_keeps
  by (auto simp: accept_and_dispatch_def split: prod.splits sum.splits) fastforce+

lemma merchant_race_keeps:
  assumes "I w"
  shows "I (snd (merchant_race A args st q w))"
proof -
  have cap: "I w2" if "oa_capturePayment A (sa_tenantId args) (sa_orderId args) w1 = (r, w2)" "I w1" for r w1 w2
    using settle_keeps(1) [OF that(2)] that(1) by simp
  have vd: "I w2" if "oa_voidPayment A (sa_tenantId args) (sa_orderId args) w1 = (r, w2)" "I w1" for r w1 w2
    using settle_keeps(2) [OF that(2)] that(1) by simp
  note adv = advance_keeps [OF assms]
  show ?thesis
    by (auto simp: merchant_race_def Let_def split: prod.splits sum.splits
        intro!: cancel_and_return_keeps accept_and_dispatch_keeps dest!: cap [OF _ adv] vd [OF _ adv])
      (auto intro: cancel_and_return_keeps dest: vd)
qed

lemma workflow_keeps:
  assumes "I w"
  shows "I (snd (orderLifecycleWorkflow A args q w))"
proof -
  have au: "I w2" if "oa_authorizePayment A (sa_tenantId args) (sa_orderId args) (sa_totalAmount args) w1 = (r, w2)" "I w1"
    for r w1 w2 using authorize_keeps [OF that(2)] that(1) by simp
  note adv = advance_keeps [OF assms]
  show ?thesis
    by (auto simp: orderLifecycleWorkflow_def Let_def split: prod.splits sum.splits
        intro!: cancel_and_return_keeps merchant_race_keeps adv dest!: au [OF _ adv])
qed

end

section \<open>When the payment is attempted at all\<close>

lemma confirmed_latch: "sv_confirmed (saga_signal s st) \<longleftrightarrow> sv_confirmed st \<or> s = ConfirmPayment"
  by (cases s) auto

definition confirmed_in_time :: "nat \<Rightarrow> nat \<Rightarrow> (nat \<times> order_signal) list \<Rightarrow> bool" where
  "confirmed_in_time now secs q \<longleftrightarrow> (\<exists>(due, s) \<in> set q. in_window now (now + secs) due \<and> s = ConfirmPayment)"

text \<open>
  No payment is attempted without the customer's confirmation. When no \<open>confirmPayment\<close> signal
  arrives before the confirmation window closes, the workflow does exactly one thing: at the end of
  the window it records the cancellation with reason \<open>PAYMENT_TIMEOUT\<close>; when one does arrive, it calls
  the authorization.
\<close>

theorem payment_needs_confirmation:
  assumes "sorted (map fst q)"
  shows "\<exists>t st q1. orderLifecycleWorkflow A args q w =
    (if confirmed_in_time (oa_clock A w) (sa_confirmSeconds args) q
     then (case oa_authorizePayment A (sa_tenantId args) (sa_orderId args) (sa_totalAmount args) (oa_advance A t w) of
             (Inr True, w2) \<Rightarrow> merchant_race A args st q1 w2
           | (_, w2) \<Rightarrow> cancel_and_return A args PAYMENT_FAILED R_CANCELLED_PAYMENT_FAILED w2)
     else cancel_and_return A args PAYMENT_TIMEOUT R_CANCELLED_PAYMENT_TIMEOUT
            (oa_advance A (oa_clock A w + sa_confirmSeconds args) w))"
proof -
  let ?c = "condition sv_confirmed saga_signal (sa_confirmSeconds args) (oa_clock A w)
      \<lparr>sv_approved = None, sv_confirmed = False\<rparr> q"
  obtain ok t st q1 where c: "?c = (ok, t, st, q1)" by (cases ?c)
  have "fst ?c \<longleftrightarrow> confirmed_in_time (oa_clock A w) (sa_confirmSeconds args) q"
    using latch_condition [of sv_confirmed saga_signal "\<lambda>s. s = ConfirmPayment", OF confirmed_latch assms]
    by (simp add: confirmed_in_time_def)
  with c have ok: "ok = confirmed_in_time (oa_clock A w) (sa_confirmSeconds args) q" by simp
  show ?thesis
  proof (cases ok)
    case True
    then show ?thesis using c ok
      by (intro exI [of _ t] exI [of _ st] exI [of _ q1])
        (auto simp: orderLifecycleWorkflow_def split: prod.splits sum.splits bool.splits)
  next
    case False
    with c condition_fails have "t = oa_clock A w + sa_confirmSeconds args" by metis
    then show ?thesis using c ok False by (simp add: orderLifecycleWorkflow_def)
  qed
qed

end
