(* ===== verification/Dispatch_Aggregate.thy ===== *)
theory Dispatch_Aggregate
  imports Order_Aggregate
begin

text \<open>
  The DriverDispatch aggregate (\<open>packages/shared/src/dispatch-aggregate.ts\<close>) and the proof that it
  meets the contract of an aggregate. Its life cycle: any number of offers, then nothing, a failure,
  or an acceptance by the driver of the last offer followed by pick-up and delivery, which a failure
  may cut short.
\<close>

section \<open>State and fold\<close>

record dispatch_state =
  ds_status :: "dispatch_status option"
  ds_offeredDriverId :: "string option"
  ds_driverId :: "string option"
  ds_reason :: "string option"

definition INITIAL_DISPATCH_STATE :: dispatch_state where
  "INITIAL_DISPATCH_STATE = \<lparr>ds_status = None, ds_offeredDriverId = None, ds_driverId = None,
     ds_reason = None\<rparr>"

definition TERMINAL :: "dispatch_status list" where
  "TERMINAL = [DELIVERED, FAILED]"

fun dispatch_status_name :: "dispatch_status \<Rightarrow> string" where
  "dispatch_status_name OFFERED = ''OFFERED''"
| "dispatch_status_name DISPATCHED = ''DISPATCHED''"
| "dispatch_status_name PICKED_UP = ''PICKED_UP''"
| "dispatch_status_name DELIVERED = ''DELIVERED''"
| "dispatch_status_name FAILED = ''FAILED''"

definition status_string :: "dispatch_status option \<Rightarrow> string" where
  "status_string s = (case s of None \<Rightarrow> ''null'' | Some x \<Rightarrow> dispatch_status_name x)"

definition foldDispatch :: "dispatch_state \<Rightarrow> fold_event \<Rightarrow> dispatch_state" where
  "foldDispatch st e = (case fe_eventType e of
     DriverOffered \<Rightarrow> st\<lparr>ds_status := Some OFFERED, ds_offeredDriverId := pl_driverId (fe_payload e)\<rparr>
   | DispatchAccepted \<Rightarrow> st\<lparr>ds_status := Some DISPATCHED, ds_driverId := pl_driverId (fe_payload e)\<rparr>
   | OrderPickedUp \<Rightarrow> st\<lparr>ds_status := Some PICKED_UP\<rparr>
   | OrderDelivered \<Rightarrow> st\<lparr>ds_status := Some DELIVERED\<rparr>
   | DispatchFailed \<Rightarrow> st\<lparr>ds_status := Some FAILED, ds_reason := pl_reason (fe_payload e)\<rparr>
   | _ \<Rightarrow> st)"

section \<open>Commands\<close>

definition offer :: "dispatch_state \<Rightarrow> string \<Rightarrow> string \<Rightarrow> (transition_error, payload) result" where
  "offer st orderId driverId =
     (if ds_status st \<noteq> None \<and> ds_status st \<noteq> Some OFFERED
      then Inl (InvalidTransitionError (''cannot offer in status '' @ status_string (ds_status st)))
      else Inr (driver_payload orderId driverId))"

definition acceptOffer :: "dispatch_state \<Rightarrow> string \<Rightarrow> string \<Rightarrow> (transition_error, payload) result" where
  "acceptOffer st orderId driverId =
     (if ds_status st \<noteq> Some OFFERED \<or> ds_offeredDriverId st \<noteq> Some driverId
      then Inl (InvalidTransitionError
        (''cannot accept in status '' @ status_string (ds_status st) @ '' by '' @ driverId))
      else Inr (driver_payload orderId driverId))"

definition pickup :: "dispatch_state \<Rightarrow> string \<Rightarrow> (transition_error, payload) result" where
  "pickup st orderId =
     (if ds_status st \<noteq> Some DISPATCHED
      then Inl (InvalidTransitionError (''cannot pick up in status '' @ status_string (ds_status st)))
      else Inr (order_id_payload orderId))"

definition deliver :: "dispatch_state \<Rightarrow> string \<Rightarrow> (transition_error, payload) result" where
  "deliver st orderId =
     (if ds_status st \<noteq> Some PICKED_UP
      then Inl (InvalidTransitionError (''cannot deliver in status '' @ status_string (ds_status st)))
      else Inr (order_id_payload orderId))"

definition fail :: "dispatch_state \<Rightarrow> string \<Rightarrow> string \<Rightarrow> (transition_error, payload) result" where
  "fail st orderId reason =
     (if (case ds_status st of None \<Rightarrow> False | Some s \<Rightarrow> s \<in> set TERMINAL)
      then Inl (InvalidTransitionError (''cannot fail in terminal status '' @ status_string (ds_status st)))
      else Inr (reason_payload orderId reason))"

lemmas dispatch_cmd_defs = offer_def acceptOffer_def pickup_def deliver_def fail_def TERMINAL_def

section \<open>The aggregate as a machine\<close>

datatype dispatch_cmd =
    CmdOffer string string | CmdAcceptOffer string string | CmdPickup string | CmdDeliver string
  | CmdFail string string

fun dispatch_build :: "dispatch_cmd \<Rightarrow> dispatch_state \<Rightarrow> (transition_error, payload) result" where
  "dispatch_build (CmdOffer oid d) st = offer st oid d"
| "dispatch_build (CmdAcceptOffer oid d) st = acceptOffer st oid d"
| "dispatch_build (CmdPickup oid) st = pickup st oid"
| "dispatch_build (CmdDeliver oid) st = deliver st oid"
| "dispatch_build (CmdFail oid r) st = fail st oid r"

fun dispatch_event :: "dispatch_cmd \<Rightarrow> event_type" where
  "dispatch_event (CmdOffer _ _) = DriverOffered"
| "dispatch_event (CmdAcceptOffer _ _) = DispatchAccepted"
| "dispatch_event (CmdPickup _) = OrderPickedUp"
| "dispatch_event (CmdDeliver _) = OrderDelivered"
| "dispatch_event (CmdFail _ _) = DispatchFailed"

definition dispatch_decide :: "dispatch_cmd \<Rightarrow> dispatch_state \<Rightarrow> (event_type \<times> payload) option" where
  "dispatch_decide c st = map_option (\<lambda>p. (dispatch_event c, p)) (result_option (dispatch_build c st))"

definition dispatch_machine :: "(dispatch_cmd, dispatch_state) machine" where
  "dispatch_machine = \<lparr>m_fold = foldDispatch, m_initial = INITIAL_DISPATCH_STATE,
     m_decide = dispatch_decide, m_owns = is_dispatch_id, m_type = DISPATCH,
     m_topic = Some DISPATCH_EVENTS\<rparr>"

lemma dispatch_machine_simps [simp]:
  "m_fold dispatch_machine = foldDispatch" "m_initial dispatch_machine = INITIAL_DISPATCH_STATE"
  "m_decide dispatch_machine = dispatch_decide" "m_owns dispatch_machine = is_dispatch_id"
  "m_type dispatch_machine = DISPATCH" "m_topic dispatch_machine = Some DISPATCH_EVENTS"
  by (simp_all add: dispatch_machine_def)

section \<open>The life cycle\<close>

text \<open>What may follow the offers; the endings after an acceptance need at least one offer.\<close>

definition dispatch_endings :: "nat \<Rightarrow> event_type list list" where
  "dispatch_endings n = [[], [DispatchFailed]] @
     (if n = 0 then [] else
       [[DispatchAccepted], [DispatchAccepted, DispatchFailed],
        [DispatchAccepted, OrderPickedUp], [DispatchAccepted, OrderPickedUp, DispatchFailed],
        [DispatchAccepted, OrderPickedUp, OrderDelivered]])"

text \<open>Every acceptance is by the driver of the offer right before it.\<close>

definition accepts_match :: "fold_event list \<Rightarrow> bool" where
  "accepts_match es \<longleftrightarrow> (\<forall>i < length es. fe_eventType (es ! i) = DispatchAccepted \<longrightarrow>
     0 < i \<and> fe_eventType (es ! (i - 1)) = DriverOffered
     \<and> pl_driverId (fe_payload (es ! i)) = pl_driverId (fe_payload (es ! (i - 1))))"

definition dispatch_legal :: "fold_event list \<Rightarrow> bool" where
  "dispatch_legal es \<longleftrightarrow> accepts_match es \<and>
     (\<exists>n rest. map fe_eventType es = replicate n DriverOffered @ rest \<and> rest \<in> set (dispatch_endings n))"

definition dispatch_fold :: "fold_event list \<Rightarrow> dispatch_state" where
  "dispatch_fold es = foldl foldDispatch INITIAL_DISPATCH_STATE es"

fun status_after :: "event_type \<Rightarrow> dispatch_status option" where
  "status_after DriverOffered = Some OFFERED"
| "status_after DispatchAccepted = Some DISPATCHED"
| "status_after OrderPickedUp = Some PICKED_UP"
| "status_after OrderDelivered = Some DELIVERED"
| "status_after DispatchFailed = Some FAILED"
| "status_after _ = None"

lemma dispatch_fold_snoc: "dispatch_fold (es @ [e]) = foldDispatch (dispatch_fold es) e"
  by (simp add: dispatch_fold_def)

lemma dispatch_fold_status:
  "es \<noteq> [] \<Longrightarrow> status_after (fe_eventType (last es)) \<noteq> None \<Longrightarrow>
   ds_status (dispatch_fold es) = status_after (fe_eventType (last es))"
  by (cases es rule: rev_cases)
    (auto simp: dispatch_fold_snoc foldDispatch_def split: event_type.splits)

lemma dispatch_fold_offered:
  "es \<noteq> [] \<Longrightarrow> fe_eventType (last es) = DriverOffered \<Longrightarrow>
   ds_offeredDriverId (dispatch_fold es) = pl_driverId (fe_payload (last es))"
  by (cases es rule: rev_cases) (auto simp: dispatch_fold_snoc foldDispatch_def)

lemma dispatch_fold_Nil [simp]: "ds_status (dispatch_fold []) = None"
  by (simp add: dispatch_fold_def INITIAL_DISPATCH_STATE_def)

definition match_at :: "fold_event list \<Rightarrow> nat \<Rightarrow> bool" where
  "match_at es i \<longleftrightarrow> (fe_eventType (es ! i) = DispatchAccepted \<longrightarrow>
     0 < i \<and> fe_eventType (es ! (i - 1)) = DriverOffered
     \<and> pl_driverId (fe_payload (es ! i)) = pl_driverId (fe_payload (es ! (i - 1))))"

lemma accepts_match_at: "accepts_match es \<longleftrightarrow> (\<forall>i < length es. match_at es i)"
  by (simp add: accepts_match_def match_at_def)

lemma match_at_append: "i < length es \<Longrightarrow> match_at (es @ [e]) i = match_at es i"
  by (cases i) (simp_all add: match_at_def nth_append)

lemma match_at_last:
  "match_at (es @ [e]) (length es) \<longleftrightarrow> (fe_eventType e = DispatchAccepted \<longrightarrow>
     es \<noteq> [] \<and> fe_eventType (last es) = DriverOffered
     \<and> pl_driverId (fe_payload e) = pl_driverId (fe_payload (last es)))"
  by (cases es rule: rev_cases) (simp_all add: match_at_def nth_append)

lemma accepts_match_snoc:
  "accepts_match (es @ [e]) \<longleftrightarrow> accepts_match es \<and>
     (fe_eventType e = DispatchAccepted \<longrightarrow> es \<noteq> [] \<and> fe_eventType (last es) = DriverOffered
        \<and> pl_driverId (fe_payload e) = pl_driverId (fe_payload (last es)))"
proof -
  have "accepts_match (es @ [e])
      \<longleftrightarrow> (\<forall>i < length es. match_at (es @ [e]) i) \<and> match_at (es @ [e]) (length es)"
    by (simp only: accepts_match_at) (auto simp: less_Suc_eq)
  then show ?thesis by (simp add: match_at_append match_at_last accepts_match_at)
qed

text \<open>The last event of a legal stream, which determines the folded status.\<close>

lemma dispatch_legal_status:
  assumes "map fe_eventType es = replicate n DriverOffered @ rest"
    and "rest \<in> set (dispatch_endings n)"
  shows "ds_status (dispatch_fold es) =
    (if rest = [] then (if n = 0 then None else Some OFFERED) else status_after (last rest))"
proof (cases "es = []")
  case True
  with assms show ?thesis by simp
next
  case False
  have "fe_eventType (last es) = last (replicate n DriverOffered @ rest)"
    using False by (simp add: assms(1) [symmetric] last_map)
  also have "\<dots> = (if rest = [] then DriverOffered else last rest)"
    using False assms(1) by (cases n) auto
  finally have l: "fe_eventType (last es) = (if rest = [] then DriverOffered else last rest)" .
  moreover have "rest \<noteq> [] \<Longrightarrow> status_after (last rest) \<noteq> None"
    using assms(2) by (auto simp: dispatch_endings_def split: if_splits)
  ultimately show ?thesis
    using False assms(1) dispatch_fold_status [OF False] by (cases n) (auto split: if_splits)
qed

lemma dispatch_decide_SomeD:
  assumes "dispatch_decide c st = Some (ty, pl)"
  shows "ty = dispatch_event c" and "dispatch_build c st = Inr pl"
  using assms by (auto simp: dispatch_decide_def result_option_def split: sum.splits)

lemma dispatch_legal_step:
  assumes leg: "dispatch_legal es"
    and dec: "dispatch_decide c (foldl foldDispatch INITIAL_DISPATCH_STATE es) = Some (ty, pl)"
  shows "dispatch_legal (es @ [\<lparr>fe_eventType = ty, fe_payload = pl, fe_version = v\<rparr>])"
proof -
  from leg obtain n rest where m: "accepts_match es"
    and types: "map fe_eventType es = replicate n DriverOffered @ rest"
    and rest: "rest \<in> set (dispatch_endings n)"
    by (auto simp: dispatch_legal_def)
  let ?st = "dispatch_fold es"
  note status = dispatch_legal_status [OF types rest]
  from dispatch_decide_SomeD [OF dec] have ty: "ty = dispatch_event c"
    and build: "dispatch_build c ?st = Inr pl" by (simp_all add: dispatch_fold_def)
  have types': "\<exists>n' rest'. replicate n DriverOffered @ rest @ [ty] = replicate n' DriverOffered @ rest'
      \<and> rest' \<in> set (dispatch_endings n')"
  proof (cases "ty = DriverOffered")
    case True
    with build ty status rest have "rest = []"
      by (cases c) (auto simp: dispatch_cmd_defs dispatch_endings_def split: if_splits)
    then show ?thesis using True
      by (intro exI [of _ "Suc n"] exI [of _ "[]"]) (simp add: replicate_append_same dispatch_endings_def)
  next
    case False
    with build ty status rest have "rest @ [ty] \<in> set (dispatch_endings n)"
      by (cases c) (auto simp: dispatch_cmd_defs dispatch_endings_def split: if_splits)
    then show ?thesis by auto
  qed
  have "es \<noteq> [] \<and> fe_eventType (last es) = DriverOffered
      \<and> pl_driverId pl = pl_driverId (fe_payload (last es))" if acc: "ty = DispatchAccepted"
  proof -
    from build ty acc obtain oid d where st: "ds_status ?st = Some OFFERED"
      and d: "ds_offeredDriverId ?st = Some d" and pl: "pl = driver_payload oid d"
      by (cases c) (auto simp: dispatch_cmd_defs split: if_splits)
    from st status rest have r: "rest = []" "n \<noteq> 0"
      by (auto simp: dispatch_endings_def split: if_splits)
    with types have ne: "es \<noteq> []" by auto
    have "fe_eventType (last es) = last (replicate n DriverOffered)"
      using ne types r by (simp add: last_map [symmetric])
    then have l: "fe_eventType (last es) = DriverOffered" using r by simp
    from dispatch_fold_offered [OF ne l] d pl ne l show ?thesis by (simp add: payload_defs)
  qed
  with m types types' show ?thesis by (simp add: dispatch_legal_def accepts_match_snoc)
qed

interpretation dm: aggregate_machine dispatch_machine dispatch_legal
proof unfold_locales
  have "map fe_eventType [] = replicate 0 DriverOffered @ []" and "[] \<in> set (dispatch_endings 0)"
    by (simp_all add: dispatch_endings_def)
  moreover have "accepts_match []" by (simp add: accepts_match_def)
  ultimately show "dispatch_legal []" unfolding dispatch_legal_def by blast
qed (auto intro: dispatch_legal_step)

section \<open>Dispatches under concurrency\<close>


definition sample_offer :: append_args where
  "sample_offer = \<lparr>aa_tenantId = ''berlin'', aa_aggregateType = DISPATCH, aa_aggregateId = ''dispatch:o1'',
     aa_expectedVersion = 0, aa_eventType = DriverOffered, aa_payload = driver_payload ''o1'' ''d1'',
     aa_topic = Some DISPATCH_EVENTS, aa_correlationId = None\<rparr>"

definition sample_dispatch_pg :: pg_state where
  "sample_dispatch_pg = \<lparr>pg_events = [append_event_row None (sample_draws ''e1'') sample_offer],
     pg_outbox = [append_outbox_row None (sample_draws ''e1'') sample_offer]\<rparr>"

lemma sample_dispatch_reach: "writers_reach dispatch_machine sample_dispatch_pg []"
proof (rule sequential_handler_reach [where role = AppRole and v = 0 and s = INITIAL_DISPATCH_STATE
      and t = "''berlin''" and a = "''dispatch:o1''" and ty = DriverOffered and role' = AppRole and obs = None
      and su = "sample_draws ''e1''" and corr = None and r = "Inr (append_envelope None (sample_draws ''e1'') sample_offer)"
      and c = "CmdOffer ''o1'' ''d1''" and pl = "driver_payload ''o1'' ''d1''"])
  show "writers_reach dispatch_machine empty_pg []" by (rule writers_reach.start)
  show "loadAggregate AppRole ''berlin'' ''dispatch:o1'' (m_fold dispatch_machine) (m_initial dispatch_machine)
      empty_pg = (INITIAL_DISPATCH_STATE, 0)"
    by (simp add: loadAggregate_eq) (simp add: stream_def empty_pg_def)
  have "appendWithExpectedVersion AppRole None (sample_draws ''e1'') sample_offer empty_pg
     = (Inr (append_envelope None (sample_draws ''e1'') sample_offer), sample_dispatch_pg)"
    by (simp add: append_eq sample_offer_def sample_dispatch_pg_def sample_draws_def id_taken_def stream_def)
      (simp add: empty_pg_def)
  then show "appendWithExpectedVersion AppRole None (sample_draws ''e1'')
     \<lparr>aa_tenantId = ''berlin'', aa_aggregateType = m_type dispatch_machine, aa_aggregateId = ''dispatch:o1'',
        aa_expectedVersion = 0, aa_eventType = DriverOffered, aa_payload = driver_payload ''o1'' ''d1'',
        aa_topic = m_topic dispatch_machine, aa_correlationId = None\<rparr> empty_pg
     = (Inr (append_envelope None (sample_draws ''e1'') sample_offer), sample_dispatch_pg)"
    by (simp add: sample_offer_def)
qed (simp_all add: is_dispatch_id_def dispatch_decide_def offer_def INITIAL_DISPATCH_STATE_def)


end
