(* ===== verification/Dispatch_Saga.thy ===== *)
theory Dispatch_Saga
  imports Order_Saga Dispatch_Aggregate
begin

text \<open>
  The driver-dispatch workflow (\<open>apps/saga-worker/src/dispatch-workflow.ts\<close>), over the interface
  \<open>dispatch_activities\<close>; the locale \<open>dispatch_env\<close> states what it relies on and is interpreted on the
  saga worker's activities in \<open>Saga_World\<close>.
\<close>

section \<open>The interface\<close>

datatype dispatch_signal =
    DispatchAccept string | DispatchReject string | DispatchPickup | DispatchDeliver

record 'w dispatch_activities =
  dx_clock :: "'w \<Rightarrow> nat"
  dx_advance :: "nat \<Rightarrow> 'w \<Rightarrow> 'w"
  dx_selectNearestAvailableDriver :: "string \<Rightarrow> string list \<Rightarrow> 'w \<Rightarrow> (act_error, string option) result \<times> 'w"
  dx_markBusy :: "string \<Rightarrow> string \<Rightarrow> 'w \<Rightarrow> (act_error, unit) result \<times> 'w"
  dx_clearBusy :: "string \<Rightarrow> string \<Rightarrow> 'w \<Rightarrow> (act_error, unit) result \<times> 'w"
  dx_recordDriverOffered :: "string \<Rightarrow> string \<Rightarrow> string \<Rightarrow> string option \<Rightarrow> 'w \<Rightarrow> (act_error, unit) result \<times> 'w"
  dx_recordDispatchAccepted :: "string \<Rightarrow> string \<Rightarrow> string \<Rightarrow> string option \<Rightarrow> 'w \<Rightarrow> (act_error, unit) result \<times> 'w"
  dx_recordOrderPickedUp :: "string \<Rightarrow> string \<Rightarrow> string option \<Rightarrow> 'w \<Rightarrow> (act_error, unit) result \<times> 'w"
  dx_recordOrderDelivered :: "string \<Rightarrow> string \<Rightarrow> string option \<Rightarrow> 'w \<Rightarrow> (act_error, unit) result \<times> 'w"
  dx_recordDispatchFailed :: "string \<Rightarrow> string \<Rightarrow> string \<Rightarrow> string option \<Rightarrow> 'w \<Rightarrow> (act_error, unit) result \<times> 'w"

section \<open>The workflow\<close>

text \<open>The sets and flags the signal handlers set; a \<open>Set\<close> is the list of its additions.\<close>

record dispatch_vars =
  dvr_accepted :: "string list"
  dvr_rejected :: "string list"
  dvr_pickedUp :: bool
  dvr_delivered :: bool

definition initial_dispatch_vars :: dispatch_vars where
  "initial_dispatch_vars = \<lparr>dvr_accepted = [], dvr_rejected = [], dvr_pickedUp = False, dvr_delivered = False\<rparr>"

fun dispatch_signalled :: "dispatch_signal \<Rightarrow> dispatch_vars \<Rightarrow> dispatch_vars" where
  "dispatch_signalled (DispatchAccept d) st = st\<lparr>dvr_accepted := dvr_accepted st @ [d]\<rparr>"
| "dispatch_signalled (DispatchReject d) st = st\<lparr>dvr_rejected := dvr_rejected st @ [d]\<rparr>"
| "dispatch_signalled DispatchPickup st = st\<lparr>dvr_pickedUp := True\<rparr>"
| "dispatch_signalled DispatchDeliver st = st\<lparr>dvr_delivered := True\<rparr>"

definition DEFAULT_DELIVERY_SECONDS :: nat where "DEFAULT_DELIVERY_SECONDS = 900"

definition failAfterAccept ::
    "'w dispatch_activities \<Rightarrow> dispatch_args \<Rightarrow> string \<Rightarrow> 'w \<Rightarrow> (act_error, dispatch_status) result \<times> 'w" where
  "failAfterAccept D args driverId w =
     and_then (dx_clearBusy D (da_tenantId args) driverId w)
       (\<lambda>_ w1. and_then (dx_recordDispatchFailed D (da_tenantId args) (da_orderId args) DELIVERY_TIMEOUT
                           (da_correlationId args) w1)
         (\<lambda>_ w2. (Inr FAILED, w2)))"

text \<open>From pick-up to delivery, once the acceptance is recorded.\<close>

definition deliver_leg ::
    "'w dispatch_activities \<Rightarrow> dispatch_args \<Rightarrow> string \<Rightarrow> dispatch_vars \<Rightarrow> (nat \<times> dispatch_signal) list \<Rightarrow> 'w
     \<Rightarrow> (act_error, dispatch_status) result \<times> 'w" where
  "deliver_leg D args candidate st q w =
     (case condition dvr_delivered dispatch_signalled
         (nullish (da_deliverySeconds args) DEFAULT_DELIVERY_SECONDS) (dx_clock D w) st q of
        (deliveredInTime, t, st', q') \<Rightarrow>
          (let w1 = dx_advance D t w in
           if \<not> deliveredInTime then failAfterAccept D args candidate w1
           else and_then (dx_recordOrderDelivered D (da_tenantId args) (da_orderId args) (da_correlationId args) w1)
             (\<lambda>_ w2. and_then (dx_clearBusy D (da_tenantId args) candidate w2)
               (\<lambda>_ w3. (Inr DELIVERED, w3)))))"

definition pickup_leg ::
    "'w dispatch_activities \<Rightarrow> dispatch_args \<Rightarrow> string \<Rightarrow> dispatch_vars \<Rightarrow> (nat \<times> dispatch_signal) list \<Rightarrow> 'w
     \<Rightarrow> (act_error, dispatch_status) result \<times> 'w" where
  "pickup_leg D args candidate st q w =
     (case condition dvr_pickedUp dispatch_signalled
         (nullish (da_deliverySeconds args) DEFAULT_DELIVERY_SECONDS) (dx_clock D w) st q of
        (pickedUpInTime, t, st', q') \<Rightarrow>
          (let w1 = dx_advance D t w in
           if \<not> pickedUpInTime then failAfterAccept D args candidate w1
           else and_then (dx_recordOrderPickedUp D (da_tenantId args) (da_orderId args) (da_correlationId args) w1)
             (\<lambda>_ w2. deliver_leg D args candidate st' q' w2)))"

definition after_accept ::
    "'w dispatch_activities \<Rightarrow> dispatch_args \<Rightarrow> string \<Rightarrow> dispatch_vars \<Rightarrow> (nat \<times> dispatch_signal) list \<Rightarrow> 'w
     \<Rightarrow> (act_error, dispatch_status) result \<times> 'w" where
  "after_accept D args candidate st q w =
     and_then (dx_markBusy D (da_tenantId args) candidate w)
       (\<lambda>_ w1. and_then (dx_recordDispatchAccepted D (da_tenantId args) (da_orderId args) candidate
                           (da_correlationId args) w1)
         (\<lambda>_ w2. pickup_leg D args candidate st q w2))"

definition no_drivers ::
    "'w dispatch_activities \<Rightarrow> dispatch_args \<Rightarrow> 'w \<Rightarrow> (act_error, dispatch_status) result \<times> 'w" where
  "no_drivers D args w =
     and_then (dx_recordDispatchFailed D (da_tenantId args) (da_orderId args) NO_DRIVERS_AVAILABLE
                 (da_correlationId args) w)
       (\<lambda>_ w1. (Inr FAILED, w1))"

text \<open>The loop over the offers still allowed; \<open>tried\<close> holds the drivers already offered.\<close>

fun offer_loop ::
    "'w dispatch_activities \<Rightarrow> dispatch_args \<Rightarrow> nat \<Rightarrow> string list \<Rightarrow> dispatch_vars
     \<Rightarrow> (nat \<times> dispatch_signal) list \<Rightarrow> 'w \<Rightarrow> (act_error, dispatch_status) result \<times> 'w" where
  "offer_loop D args 0 tried st q w = no_drivers D args w"
| "offer_loop D args (Suc n) tried st q w =
     and_then (dx_selectNearestAvailableDriver D (da_tenantId args) tried w)
       (\<lambda>candidate w1.
          if candidate = None \<or> candidate = Some [] then no_drivers D args w1
          else and_then (dx_recordDriverOffered D (da_tenantId args) (da_orderId args) (the candidate)
                           (da_correlationId args) w1)
            (\<lambda>_ w2.
               (case condition (\<lambda>s. the candidate \<in> set (dvr_accepted s) \<or> the candidate \<in> set (dvr_rejected s))
                   dispatch_signalled (da_offerTimeoutSeconds args) (dx_clock D w2) st q of
                  (resolved, t, st', q') \<Rightarrow>
                    (let w3 = dx_advance D t w2 in
                     if \<not> resolved then offer_loop D args n (tried @ [the candidate]) st' q' w3
                     else if the candidate \<in> set (dvr_accepted st')
                     then after_accept D args (the candidate) st' q' w3
                     else offer_loop D args n (tried @ [the candidate]) st' q' w3))))"

definition driverDispatchWorkflow ::
    "'w dispatch_activities \<Rightarrow> dispatch_args \<Rightarrow> (nat \<times> dispatch_signal) list \<Rightarrow> 'w
     \<Rightarrow> (act_error, dispatch_status) result \<times> 'w" where
  "driverDispatchWorkflow D args q w =
     offer_loop D args (da_maxOffers args) [] initial_dispatch_vars q w"

section \<open>What the workflow guarantees\<close>

text \<open>
  The laws, for one dispatch. \<open>dsp\<close> is the dispatch aggregate, \<open>busy\<close> the busy drivers of the tenant and
  \<open>offers\<close> the drivers offered so far, an offer recorded again by a retry counting once. A failed
  activity may or may not have had its effect.
\<close>

locale dispatch_env =
  fixes D :: "'w dispatch_activities"
    and tid oid :: string
    and inv :: "'w \<Rightarrow> bool"
    and dsp :: "'w \<Rightarrow> dispatch_state"
    and busy :: "'w \<Rightarrow> string set"
    and offers :: "'w \<Rightarrow> string list"
  assumes advance: "inv w \<Longrightarrow> inv (dx_advance D n w) \<and> dsp (dx_advance D n w) = dsp w
      \<and> busy (dx_advance D n w) = busy w \<and> offers (dx_advance D n w) = offers w"
    and select: "inv w \<Longrightarrow> dx_selectNearestAvailableDriver D tid ex w = (rs, w') \<Longrightarrow>
      inv w' \<and> dsp w' = dsp w \<and> busy w' = busy w \<and> offers w' = offers w
      \<and> (\<forall>d. rs = Inr (Some d) \<longrightarrow> d \<notin> set ex \<and> d \<notin> busy w')"
    and mark: "inv w \<Longrightarrow> dx_markBusy D tid d w = (r, w') \<Longrightarrow>
      inv w' \<and> dsp w' = dsp w \<and> offers w' = offers w \<and> busy w' \<in> {busy w, insert d (busy w)}
      \<and> (r = Inr () \<longrightarrow> busy w' = insert d (busy w))"
    and clear: "inv w \<Longrightarrow> dx_clearBusy D tid d w = (r, w') \<Longrightarrow>
      inv w' \<and> dsp w' = dsp w \<and> offers w' = offers w \<and> busy w' \<in> {busy w, busy w - {d}}
      \<and> (r = Inr () \<longrightarrow> busy w' = busy w - {d})"
    and offered: "inv w \<Longrightarrow> ds_status (dsp w) \<in> {None, Some OFFERED} \<Longrightarrow>
      dx_recordDriverOffered D tid oid d corr w = (r, w') \<Longrightarrow>
      inv w' \<and> busy w' = busy w \<and> ds_status (dsp w') \<in> {None, Some OFFERED}
      \<and> offers w' \<in> {offers w, remdups_adj (offers w @ [d])}
      \<and> (r = Inr () \<longrightarrow> offers w' = remdups_adj (offers w @ [d]) \<and> ds_status (dsp w') = Some OFFERED
           \<and> ds_offeredDriverId (dsp w') = Some d)"
    and accepted: "inv w \<Longrightarrow> ds_status (dsp w) = Some OFFERED \<Longrightarrow> ds_offeredDriverId (dsp w) = Some d \<Longrightarrow>
      dx_recordDispatchAccepted D tid oid d corr w = (r, w') \<Longrightarrow>
      inv w' \<and> busy w' = busy w \<and> offers w' = offers w
      \<and> (r = Inr () \<longrightarrow> ds_status (dsp w') = Some DISPATCHED \<and> ds_driverId (dsp w') = Some d)"
    and pickedUp: "inv w \<Longrightarrow> ds_status (dsp w) = Some DISPATCHED \<Longrightarrow>
      dx_recordOrderPickedUp D tid oid corr w = (r, w') \<Longrightarrow>
      inv w' \<and> busy w' = busy w \<and> offers w' = offers w
      \<and> (r = Inr () \<longrightarrow> ds_status (dsp w') = Some PICKED_UP \<and> ds_driverId (dsp w') = ds_driverId (dsp w))"
    and delivered: "inv w \<Longrightarrow> ds_status (dsp w) = Some PICKED_UP \<Longrightarrow>
      dx_recordOrderDelivered D tid oid corr w = (r, w') \<Longrightarrow>
      inv w' \<and> busy w' = busy w \<and> offers w' = offers w
      \<and> (r = Inr () \<longrightarrow> ds_status (dsp w') = Some DELIVERED \<and> ds_driverId (dsp w') = ds_driverId (dsp w))"
    and failed: "inv w \<Longrightarrow> ds_status (dsp w) \<notin> {Some DELIVERED, Some FAILED} \<Longrightarrow>
      dx_recordDispatchFailed D tid oid reason corr w = (r, w') \<Longrightarrow>
      inv w' \<and> busy w' = busy w \<and> offers w' = offers w
      \<and> (r = Inr () \<longrightarrow> ds_status (dsp w') = Some FAILED \<and> ds_reason (dsp w') = Some reason)"
begin

text \<open>
  What a leg of the workflow that started with the busy set \<open>B\<close> may end in, when the driver on the
  job is \<open>d\<close>: it returns only with the busy set as it was and the aggregate saying what it returns;
  when it fails, at most that driver may be left busy.
\<close>

definition leg_outcome ::
    "string set \<Rightarrow> string list \<Rightarrow> string \<Rightarrow> (act_error, dispatch_status) result \<times> 'w \<Rightarrow> bool" where
  "leg_outcome B os d rw \<longleftrightarrow> (case rw of (r, w') \<Rightarrow>
     inv w' \<and> offers w' = os \<and> busy w' \<in> {B, insert d B}
     \<and> (\<forall>res. r = Inr res \<longrightarrow> busy w' = B \<and> ds_status (dsp w') = Some res \<and>
          (res = DELIVERED \<and> ds_driverId (dsp w') = Some d
           \<or> res = FAILED \<and> ds_reason (dsp w') = Some DELIVERY_TIMEOUT)))"

lemma fail_leg:
  assumes "inv w" and "busy w = insert d B" and "d \<notin> B" and "offers w = os"
    and "ds_status (dsp w) \<notin> {Some DELIVERED, Some FAILED}"
    and args: "da_tenantId args = tid" "da_orderId args = oid"
  shows "leg_outcome B os d (failAfterAccept D args d w)"
proof -
  obtain r1 w1 where c: "dx_clearBusy D tid d w = (r1, w1)" by (cases "dx_clearBusy D tid d w")
  note cl = clear [OF assms(1) c]
  obtain r2 w2 where f: "dx_recordDispatchFailed D tid oid DELIVERY_TIMEOUT (da_correlationId args) w1 = (r2, w2)"
    by (cases "dx_recordDispatchFailed D tid oid DELIVERY_TIMEOUT (da_correlationId args) w1")
  have fl: "inv w2 \<and> busy w2 = busy w1 \<and> offers w2 = offers w1
      \<and> (r2 = Inr () \<longrightarrow> ds_status (dsp w2) = Some FAILED \<and> ds_reason (dsp w2) = Some DELIVERY_TIMEOUT)"
    using failed [OF _ _ f] cl assms(5) by simp
  show ?thesis
  proof (cases r1)
    case (Inl e)
    then show ?thesis using c cl assms args by (auto simp: failAfterAccept_def leg_outcome_def)
  next
    case (Inr u)
    then show ?thesis using c cl f fl assms args
      by (cases r2) (auto simp: failAfterAccept_def leg_outcome_def)
  qed
qed

lemma deliver_leg_outcome:
  assumes "inv w" and "busy w = insert d B" and "d \<notin> B" and "offers w = os"
    and "ds_status (dsp w) = Some PICKED_UP" and "ds_driverId (dsp w) = Some d"
    and args: "da_tenantId args = tid" "da_orderId args = oid"
  shows "leg_outcome B os d (deliver_leg D args d st q w)"
proof -
  let ?c = "condition dvr_delivered dispatch_signalled
      (nullish (da_deliverySeconds args) DEFAULT_DELIVERY_SECONDS) (dx_clock D w) st q"
  obtain ok t st' q' where c: "?c = (ok, t, st', q')" by (cases ?c)
  let ?w1 = "dx_advance D t w"
  note adv = advance [OF assms(1), of t]
  show ?thesis
  proof (cases ok)
    case False
    with c have "deliver_leg D args d st q w = failAfterAccept D args d ?w1"
      by (simp add: deliver_leg_def)
    with fail_leg [of ?w1 d B os args] adv assms show ?thesis by simp
  next
    case True
    obtain r2 w2 where de: "dx_recordOrderDelivered D tid oid (da_correlationId args) ?w1 = (r2, w2)"
      by (cases "dx_recordOrderDelivered D tid oid (da_correlationId args) ?w1")
    have dl: "inv w2 \<and> busy w2 = busy w \<and> offers w2 = offers w
      \<and> (r2 = Inr () \<longrightarrow> ds_status (dsp w2) = Some DELIVERED \<and> ds_driverId (dsp w2) = Some d)"
      using delivered [OF _ _ de] adv assms by simp
    obtain r3 w3 where cb: "dx_clearBusy D tid d w2 = (r3, w3)" by (cases "dx_clearBusy D tid d w2")
    have cl: "inv w3 \<and> dsp w3 = dsp w2 \<and> offers w3 = offers w2 \<and> busy w3 \<in> {busy w2, busy w2 - {d}}
      \<and> (r3 = Inr () \<longrightarrow> busy w3 = busy w2 - {d})"
      using clear [OF _ cb] dl by blast
    show ?thesis
    proof (cases r2)
      case (Inl e)
      then show ?thesis using True c de dl assms args by (simp add: deliver_leg_def leg_outcome_def)
    next
      case (Inr u)
      then show ?thesis using True c de dl cb cl assms args
        by (cases r3) (auto simp: deliver_leg_def leg_outcome_def)
    qed
  qed
qed

lemma pickup_leg_outcome:
  assumes "inv w" and "busy w = insert d B" and "d \<notin> B" and "offers w = os"
    and "ds_status (dsp w) = Some DISPATCHED" and "ds_driverId (dsp w) = Some d"
    and args: "da_tenantId args = tid" "da_orderId args = oid"
  shows "leg_outcome B os d (pickup_leg D args d st q w)"
proof -
  let ?c = "condition dvr_pickedUp dispatch_signalled
      (nullish (da_deliverySeconds args) DEFAULT_DELIVERY_SECONDS) (dx_clock D w) st q"
  obtain ok t st' q' where c: "?c = (ok, t, st', q')" by (cases ?c)
  let ?w1 = "dx_advance D t w"
  note adv = advance [OF assms(1), of t]
  show ?thesis
  proof (cases ok)
    case False
    with c have "pickup_leg D args d st q w = failAfterAccept D args d ?w1"
      by (simp add: pickup_leg_def)
    with fail_leg [of ?w1 d B os args] adv assms show ?thesis by simp
  next
    case True
    obtain r2 w2 where pu: "dx_recordOrderPickedUp D tid oid (da_correlationId args) ?w1 = (r2, w2)"
      by (cases "dx_recordOrderPickedUp D tid oid (da_correlationId args) ?w1")
    have pk: "inv w2 \<and> busy w2 = busy w \<and> offers w2 = offers w
      \<and> (r2 = Inr () \<longrightarrow> ds_status (dsp w2) = Some PICKED_UP \<and> ds_driverId (dsp w2) = Some d)"
      using pickedUp [OF _ _ pu] adv assms by simp
    show ?thesis
    proof (cases r2)
      case (Inl e)
      then show ?thesis using True c pu pk assms args by (simp add: pickup_leg_def leg_outcome_def)
    next
      case (Inr u)
      with True c pu args have "pickup_leg D args d st q w = deliver_leg D args d st' q' w2"
        by (simp add: pickup_leg_def)
      with deliver_leg_outcome [of w2 d B os args st' q'] Inr pk assms show ?thesis by simp
    qed
  qed
qed

lemma after_accept_outcome:
  assumes "inv w" and "d \<notin> busy w" and "ds_status (dsp w) = Some OFFERED"
    and "ds_offeredDriverId (dsp w) = Some d"
    and args: "da_tenantId args = tid" "da_orderId args = oid"
  shows "leg_outcome (busy w) (offers w) d (after_accept D args d st q w)"
proof -
  obtain r1 w1 where m: "dx_markBusy D tid d w = (r1, w1)" by (cases "dx_markBusy D tid d w")
  note mk = mark [OF assms(1) m]
  obtain r2 w2 where a: "dx_recordDispatchAccepted D tid oid d (da_correlationId args) w1 = (r2, w2)"
    by (cases "dx_recordDispatchAccepted D tid oid d (da_correlationId args) w1")
  have ac: "inv w2 \<and> busy w2 = busy w1 \<and> offers w2 = offers w1
      \<and> (r2 = Inr () \<longrightarrow> ds_status (dsp w2) = Some DISPATCHED \<and> ds_driverId (dsp w2) = Some d)"
    using accepted [OF _ _ _ a] mk assms by simp
  show ?thesis
  proof (cases r1)
    case (Inl e)
    then show ?thesis using m mk args by (auto simp: after_accept_def leg_outcome_def)
  next
    case (Inr u)
    show ?thesis
    proof (cases r2)
      case (Inl e)
      then show ?thesis using Inr m mk a ac args by (auto simp: after_accept_def leg_outcome_def)
    next
      case r2: (Inr v)
      with Inr m a args have "after_accept D args d st q w = pickup_leg D args d st q w2"
        by (simp add: after_accept_def)
      with pickup_leg_outcome [of w2 d "busy w" "offers w" args st q] r2 Inr ac mk assms show ?thesis
        by simp
    qed
  qed
qed

text \<open>The outcome of the whole workflow.\<close>

definition dispatch_outcome ::
    "string set \<Rightarrow> nat \<Rightarrow> (act_error, dispatch_status) result \<times> 'w \<Rightarrow> bool" where
  "dispatch_outcome B n rw \<longleftrightarrow> (case rw of (r, w') \<Rightarrow>
     inv w' \<and> distinct (offers w') \<and> length (offers w') \<le> n
     \<and> (busy w' = B \<or> offers w' \<noteq> [] \<and> busy w' = insert (last (offers w')) B)
     \<and> (\<forall>res. r = Inr res \<longrightarrow> busy w' = B \<and> ds_status (dsp w') = Some res \<and>
          (res = DELIVERED \<and> offers w' \<noteq> [] \<and> ds_driverId (dsp w') = Some (last (offers w'))
           \<or> res = FAILED \<and> ds_reason (dsp w') \<in> {Some NO_DRIVERS_AVAILABLE, Some DELIVERY_TIMEOUT})))"

lemma leg_dispatch_outcome:
  "leg_outcome B os d rw \<Longrightarrow> os \<noteq> [] \<Longrightarrow> last os = d \<Longrightarrow> distinct os \<Longrightarrow> length os \<le> n \<Longrightarrow>
   dispatch_outcome B n rw"
  by (auto simp: leg_outcome_def dispatch_outcome_def)

lemma no_drivers_outcome:
  assumes "inv w" and "ds_status (dsp w) \<in> {None, Some OFFERED}"
    and "distinct (offers w)" and "length (offers w) \<le> n"
    and args: "da_tenantId args = tid" "da_orderId args = oid"
  shows "dispatch_outcome (busy w) n (no_drivers D args w)"
proof -
  obtain r1 w1 where f: "dx_recordDispatchFailed D tid oid NO_DRIVERS_AVAILABLE (da_correlationId args) w = (r1, w1)"
    by (cases "dx_recordDispatchFailed D tid oid NO_DRIVERS_AVAILABLE (da_correlationId args) w")
  have "ds_status (dsp w) \<notin> {Some DELIVERED, Some FAILED}" using assms(2) by auto
  from failed [OF assms(1) this f] f assms show ?thesis
    by (cases r1) (auto simp: no_drivers_def dispatch_outcome_def)
qed

lemma remdups_adj_snoc_new: "distinct xs \<Longrightarrow> d \<notin> set xs \<Longrightarrow> remdups_adj (xs @ [d]) = xs @ [d]"
  by (simp add: remdups_adj_distinct)

lemma offer_loop_outcome:
  assumes "inv w" and "ds_status (dsp w) \<in> {None, Some OFFERED}" and "offers w = tried"
    and "distinct tried" and args: "da_tenantId args = tid" "da_orderId args = oid"
  shows "dispatch_outcome (busy w) (length tried + n) (offer_loop D args n tried st q w)"
  using assms(1-4)
proof (induction n arbitrary: tried st q w)
  case 0
  then show ?case using no_drivers_outcome [of w "length tried" args] args by simp
next
  case (Suc n)
  obtain rs w1 where s: "dx_selectNearestAvailableDriver D tid tried w = (rs, w1)"
    by (cases "dx_selectNearestAvailableDriver D tid tried w")
  note sl = select [OF Suc.prems(1) s]
  consider (err) e where "rs = Inl e" | (none) "rs = Inr None \<or> rs = Inr (Some [])"
    | (some) d where "rs = Inr (Some d)" "d \<noteq> []"
    by (cases rs) (auto, metis option.exhaust)
  then show ?case
  proof cases
    case err
    then show ?thesis using s sl Suc.prems args by (simp add: dispatch_outcome_def)
  next
    case none
    have "dispatch_outcome (busy w1) (length tried + Suc n) (no_drivers D args w1)"
      using no_drivers_outcome [of w1 _ args] sl Suc.prems args by simp
    with none s sl args show ?thesis by auto
  next
    case (some d)
    have fresh: "d \<notin> set tried" "d \<notin> busy w1" using sl some(1) by auto
    obtain r2 w2 where o: "dx_recordDriverOffered D tid oid d (da_correlationId args) w1 = (r2, w2)"
      by (cases "dx_recordDriverOffered D tid oid d (da_correlationId args) w1")
    have of: "inv w2 \<and> busy w2 = busy w \<and> ds_status (dsp w2) \<in> {None, Some OFFERED}
      \<and> offers w2 \<in> {tried, tried @ [d]}
      \<and> (r2 = Inr () \<longrightarrow> offers w2 = tried @ [d] \<and> ds_status (dsp w2) = Some OFFERED
           \<and> ds_offeredDriverId (dsp w2) = Some d)"
      using offered [OF _ _ o] sl Suc.prems fresh by (simp add: remdups_adj_snoc_new)
    show ?thesis
    proof (cases r2)
      case (Inl e)
      then show ?thesis using some s o of fresh Suc.prems args
        by (auto simp: dispatch_outcome_def)
    next
      case (Inr u)
      let ?c = "condition (\<lambda>s. d \<in> set (dvr_accepted s) \<or> d \<in> set (dvr_rejected s))
          dispatch_signalled (da_offerTimeoutSeconds args) (dx_clock D w2) st q"
      obtain ok t st' q' where c: "?c = (ok, t, st', q')" by (cases ?c)
      let ?w3 = "dx_advance D t w2"
      have w3: "inv ?w3" "busy ?w3 = busy w" "offers ?w3 = tried @ [d]" "ds_status (dsp ?w3) = Some OFFERED"
        "ds_offeredDriverId (dsp ?w3) = Some d"
        using advance [of w2 t] of Inr by auto
      have d': "distinct (tried @ [d])" using fresh Suc.prems by simp
      show ?thesis
      proof (cases "ok \<and> d \<in> set (dvr_accepted st')")
        case True
        with some Inr s o c args have run: "offer_loop D args (Suc n) tried st q w
            = after_accept D args d st' q' ?w3" by simp
        have "leg_outcome (busy w) (tried @ [d]) d (after_accept D args d st' q' ?w3)"
          using after_accept_outcome [OF w3(1) _ w3(4,5) args, of st' q'] w3 fresh sl by simp
        from leg_dispatch_outcome [OF this] d' show ?thesis unfolding run by simp
      next
        case False
        with some Inr s o c args have run: "offer_loop D args (Suc n) tried st q w
            = offer_loop D args n (tried @ [d]) st' q' ?w3" by (auto simp: Let_def)
        from Suc.IH [OF w3(1) _ w3(3) d', of st' q'] w3 show ?thesis unfolding run by simp
      qed
    qed
  qed
qed

lemma workflow_dispatch_outcome:
  assumes "inv w" and "ds_status (dsp w) = None" and "offers w = []"
    and "da_tenantId args = tid" "da_orderId args = oid"
  shows "dispatch_outcome (busy w) (da_maxOffers args) (driverDispatchWorkflow D args q w)"
  using offer_loop_outcome [of w "[]" args] assms by (simp add: driverDispatchWorkflow_def)

end

section \<open>What the workflow leaves alone\<close>

text \<open>A fact every activity keeps is kept by the whole workflow.\<close>

locale dispatch_frame =
  fixes D :: "'w dispatch_activities"
    and tid oid :: string
    and I :: "'w \<Rightarrow> bool"
  assumes advance_keeps: "I w \<Longrightarrow> I (dx_advance D n w)"
    and select_keeps: "I w \<Longrightarrow> I (snd (dx_selectNearestAvailableDriver D tid ex w))"
    and busy_keeps: "I w \<Longrightarrow> I (snd (dx_markBusy D tid d w))" "I w \<Longrightarrow> I (snd (dx_clearBusy D tid d w))"
    and offered_keeps: "I w \<Longrightarrow> I (snd (dx_recordDriverOffered D tid oid d corr w))"
    and accepted_keeps: "I w \<Longrightarrow> I (snd (dx_recordDispatchAccepted D tid oid d corr w))"
    and pickedUp_keeps: "I w \<Longrightarrow> I (snd (dx_recordOrderPickedUp D tid oid corr w))"
    and delivered_keeps: "I w \<Longrightarrow> I (snd (dx_recordOrderDelivered D tid oid corr w))"
    and failed_keeps: "I w \<Longrightarrow> I (snd (dx_recordDispatchFailed D tid oid reason corr w))"
begin

lemma and_then_keeps:
  assumes "I (snd m)" and "\<And>a w. I w \<Longrightarrow> I (snd (k a w))"
  shows "I (snd (and_then m k))"
  using assms by (cases m; cases "fst m") auto

lemmas keeps = advance_keeps select_keeps busy_keeps offered_keeps accepted_keeps pickedUp_keeps
  delivered_keeps failed_keeps

lemma fail_after_accept_keeps:
  assumes "da_tenantId args = tid" "da_orderId args = oid" and "I w"
  shows "I (snd (failAfterAccept D args d w))"
  unfolding failAfterAccept_def assms(1,2) using assms(3)
  by (intro and_then_keeps) (simp_all add: keeps)

lemma deliver_leg_keeps:
  assumes args: "da_tenantId args = tid" "da_orderId args = oid" and "I w"
  shows "I (snd (deliver_leg D args d st q w))"
proof -
  obtain ok t st' q' where c: "condition dvr_delivered dispatch_signalled
      (nullish (da_deliverySeconds args) DEFAULT_DELIVERY_SECONDS) (dx_clock D w) st q = (ok, t, st', q')"
    by (metis prod_cases4)
  have "I (snd (and_then (dx_recordOrderDelivered D tid oid (da_correlationId args) (dx_advance D t w))
     (\<lambda>_ w2. and_then (dx_clearBusy D tid d w2) (\<lambda>_ w3. (Inr DELIVERED, w3)))))"
    using assms(3) by (intro and_then_keeps) (simp_all add: keeps)
  then show ?thesis using c assms fail_after_accept_keeps [OF args advance_keeps]
    by (simp add: deliver_leg_def Let_def)
qed

lemma pickup_leg_keeps:
  assumes args: "da_tenantId args = tid" "da_orderId args = oid" and "I w"
  shows "I (snd (pickup_leg D args d st q w))"
proof -
  obtain ok t st' q' where c: "condition dvr_pickedUp dispatch_signalled
      (nullish (da_deliverySeconds args) DEFAULT_DELIVERY_SECONDS) (dx_clock D w) st q = (ok, t, st', q')"
    by (metis prod_cases4)
  have "I (snd (and_then (dx_recordOrderPickedUp D tid oid (da_correlationId args) (dx_advance D t w))
     (\<lambda>_ w2. deliver_leg D args d st' q' w2)))"
    using assms(3) by (intro and_then_keeps) (simp_all add: keeps deliver_leg_keeps args)
  then show ?thesis using c assms fail_after_accept_keeps [OF args advance_keeps]
    by (simp add: pickup_leg_def Let_def)
qed

lemma after_accept_keeps:
  assumes args: "da_tenantId args = tid" "da_orderId args = oid" and "I w"
  shows "I (snd (after_accept D args d st q w))"
  unfolding after_accept_def args using assms(3)
  by (intro and_then_keeps) (simp_all add: keeps pickup_leg_keeps args)

lemma no_drivers_keeps:
  assumes "da_tenantId args = tid" "da_orderId args = oid" and "I w"
  shows "I (snd (no_drivers D args w))"
  unfolding no_drivers_def assms(1,2) using assms(3) by (intro and_then_keeps) (simp_all add: keeps)

lemma offer_loop_keeps:
  assumes args: "da_tenantId args = tid" "da_orderId args = oid"
  shows "I w \<Longrightarrow> I (snd (offer_loop D args n tried st q w))"
proof (induction n arbitrary: tried st q w)
  case 0
  then show ?case by (simp add: no_drivers_keeps args)
next
  case (Suc n)
  have after: "I (snd (case condition p dispatch_signalled secs now st q of (resolved, t, st', q') \<Rightarrow>
      (let w3 = dx_advance D t w2 in
       if \<not> resolved then offer_loop D args n (tried @ [d]) st' q' w3
       else if d \<in> set (dvr_accepted st') then after_accept D args d st' q' w3
       else offer_loop D args n (tried @ [d]) st' q' w3)))"
    if "I w2" for p secs now w2 d
    using that by (auto simp: Let_def keeps Suc.IH after_accept_keeps args split: prod.splits)
  show ?case
    unfolding offer_loop.simps args
  proof (rule and_then_keeps)
    show "I (snd (dx_selectNearestAvailableDriver D tid tried w))" using Suc.prems by (rule select_keeps)
  next
    fix candidate w1
    assume I1: "I w1"
    show "I (snd (if candidate = None \<or> candidate = Some [] then no_drivers D args w1
          else and_then (dx_recordDriverOffered D tid oid (the candidate) (da_correlationId args) w1)
            (\<lambda>_ w2. case condition (\<lambda>s. the candidate \<in> set (dvr_accepted s) \<or> the candidate \<in> set (dvr_rejected s))
                   dispatch_signalled (da_offerTimeoutSeconds args) (dx_clock D w2) st q of
                  (resolved, t, st', q') \<Rightarrow>
                    (let w3 = dx_advance D t w2 in
                     if \<not> resolved then offer_loop D args n (tried @ [the candidate]) st' q' w3
                     else if the candidate \<in> set (dvr_accepted st')
                     then after_accept D args (the candidate) st' q' w3
                     else offer_loop D args n (tried @ [the candidate]) st' q' w3))))"
      using I1 by (auto intro!: and_then_keeps after no_drivers_keeps args offered_keeps)
  qed
qed

lemma workflow_keeps:
  assumes "da_tenantId args = tid" "da_orderId args = oid" and "I w"
  shows "I (snd (driverDispatchWorkflow D args q w))"
  using offer_loop_keeps [OF assms(1,2,3)] by (simp add: driverDispatchWorkflow_def)

end

end
