(* ===== verification/Payments.thy ===== *)
theory Payments
  imports Tenant_Context
begin

text \<open>
  The payments service (\<open>apps/payments/src\<close>): the decision rules (\<open>payment-rules.ts\<close>), the service
  over the table \<open>payment\<close> (\<open>payments.service.ts\<close>) and the HTTP controller with its request
  validation (\<open>payments.controller.ts\<close>, \<open>dto.ts\<close>). The table has one row per (tenant, order), so it
  is a map from those pairs.

  Every operation of the service reads its row with one database call and writes with a second one.
  The plan an operation makes from the row it read is separate from its write, so that the operations
  can be run both without interference and interleaved.
\<close>

section \<open>Decision rules\<close>

datatype transition_op = OpCapture | OpVoid

datatype illegal_transition = IllegalTransitionError payment_status transition_op

definition decideAuthorize :: "int \<Rightarrow> int \<Rightarrow> payment_status" where
  "decideAuthorize amount declineThreshold =
     (if amount \<ge> declineThreshold then PAY_DECLINED else PAY_AUTHORIZED)"

definition nextOnCapture :: "payment_status \<Rightarrow> (illegal_transition, payment_status) result" where
  "nextOnCapture current =
     (if current = PAY_CAPTURED then Inr PAY_CAPTURED
      else if current = PAY_AUTHORIZED then Inr PAY_CAPTURED
      else Inl (IllegalTransitionError current OpCapture))"

definition nextOnVoid :: "payment_status \<Rightarrow> (illegal_transition, payment_status) result" where
  "nextOnVoid current =
     (if current = PAY_VOIDED then Inr PAY_VOIDED
      else if current = PAY_AUTHORIZED then Inr PAY_VOIDED
      else Inl (IllegalTransitionError current OpVoid))"

section \<open>The table\<close>

record payment =
  pm_id :: string
  pm_tenantId :: string
  pm_orderId :: string
  pm_amount :: int
  pm_status :: payment_status
  pm_authorizedAt :: "int option"
  pm_capturedAt :: "int option"
  pm_voidedAt :: "int option"

type_synonym payments = "string \<times> string \<rightharpoonup> payment"

section \<open>The service\<close>

text \<open>A request, and what the operation does once it has read its row.\<close>

datatype pay_request =
    AuthorizeReq string string int
  | CaptureReq string string
  | VoidReq string string

fun req_key :: "pay_request \<Rightarrow> string \<times> string" where
  "req_key (AuthorizeReq t oid _) = (t, oid)"
| "req_key (CaptureReq t oid) = (t, oid)"
| "req_key (VoidReq t oid) = (t, oid)"

datatype pay_plan =
    Reply "string \<times> payment_outcome"
  | CreateRow payment payment_outcome
  | SetStatus transition_op "string \<times> payment_outcome" payment_status int
  | Refuse http_error

text \<open>
  \<open>authorize\<close> from the row found: an existing row gives the earlier decision, otherwise a row with
  the decision is to be created. The id and the clock are the row's defaults and \<open>new Date()\<close>.
\<close>

definition authorize_plan ::
    "string \<Rightarrow> string \<Rightarrow> int \<Rightarrow> int \<Rightarrow> string \<Rightarrow> int \<Rightarrow> payment option \<Rightarrow> pay_plan" where
  "authorize_plan tenantId orderId amount declineThreshold newId now existing =
     (case existing of
        Some row \<Rightarrow> Reply (pm_id row, if pm_status row = PAY_DECLINED then Declined else Authorized)
      | None \<Rightarrow>
          (let status = decideAuthorize amount declineThreshold
           in CreateRow \<lparr>pm_id = newId, pm_tenantId = tenantId, pm_orderId = orderId, pm_amount = amount,
                pm_status = status,
                pm_authorizedAt = (if status = PAY_AUTHORIZED then Some now else None),
                pm_capturedAt = None, pm_voidedAt = None\<rparr>
                (if status = PAY_DECLINED then Declined else Authorized)))"

fun transition_next :: "transition_op \<Rightarrow> payment_status \<Rightarrow> (illegal_transition, payment_status) result" where
  "transition_next OpCapture = nextOnCapture"
| "transition_next OpVoid = nextOnVoid"

fun transition_outcome :: "transition_op \<Rightarrow> payment_outcome" where
  "transition_outcome OpCapture = Captured"
| "transition_outcome OpVoid = Voided"

text \<open>\<open>transition\<close> from the row found; capture and void differ in rule, stamp and outcome.\<close>

definition transition_plan :: "transition_op \<Rightarrow> int \<Rightarrow> payment option \<Rightarrow> pay_plan" where
  "transition_plan op now found =
     (case found of
        None \<Rightarrow> Refuse (NotFound ''No payment'')
      | Some row \<Rightarrow>
         (case transition_next op (pm_status row) of
            Inl _ \<Rightarrow> Refuse (Conflict ''illegal transition'')
          | Inr target \<Rightarrow>
              if pm_status row \<noteq> target
              then SetStatus op (pm_id row, transition_outcome op) target now
              else Reply (pm_id row, transition_outcome op)))"

record pay_env =
  pe_threshold :: int
  pe_newId :: string
  pe_now :: int

fun pay_plan_of :: "pay_env \<Rightarrow> pay_request \<Rightarrow> payment option \<Rightarrow> pay_plan" where
  "pay_plan_of e (AuthorizeReq t oid amount) = authorize_plan t oid amount (pe_threshold e) (pe_newId e) (pe_now e)"
| "pay_plan_of e (CaptureReq t oid) = transition_plan OpCapture (pe_now e)"
| "pay_plan_of e (VoidReq t oid) = transition_plan OpVoid (pe_now e)"

definition stamp :: "transition_op \<Rightarrow> int \<Rightarrow> payment \<Rightarrow> payment" where
  "stamp op now row = (case op of OpCapture \<Rightarrow> row\<lparr>pm_capturedAt := Some now\<rparr>
                                | OpVoid \<Rightarrow> row\<lparr>pm_voidedAt := Some now\<rparr>)"

text \<open>The column \<open>amount\<close> is a 32-bit integer.\<close>

definition MAX_INT :: int where "MAX_INT = 2147483647"

text \<open>
  The second database call of an operation: \<open>create\<close> fails on the unique key and on an amount the
  column cannot hold, \<open>update\<close> on a missing row; all are unhandled and become a 500.
\<close>

definition pay_write ::
    "string \<times> string \<Rightarrow> pay_plan \<Rightarrow> payments \<Rightarrow> (http_error, string \<times> payment_outcome) result \<times> payments" where
  "pay_write key plan db =
     (case plan of
        Reply r \<Rightarrow> (Inr r, db)
      | CreateRow row out \<Rightarrow>
          (case db key of
             Some _ \<Rightarrow> (Inl (InternalError ''unique constraint''), db)
           | None \<Rightarrow>
              if MAX_INT < pm_amount row then (Inl (InternalError ''integer out of range''), db)
              else (Inr (pm_id row, out), db(key \<mapsto> row)))
      | SetStatus op r target now \<Rightarrow>
          (case db key of
             None \<Rightarrow> (Inl (InternalError ''record not found''), db)
           | Some row \<Rightarrow> (Inr r, db(key \<mapsto> (stamp op now row)\<lparr>pm_status := target\<rparr>)))
      | Refuse e \<Rightarrow> (Inl e, db))"

text \<open>An operation without interference between its two calls.\<close>

definition pay_op ::
    "pay_env \<Rightarrow> pay_request \<Rightarrow> payments \<Rightarrow> (http_error, string \<times> payment_outcome) result \<times> payments" where
  "pay_op e rq db = pay_write (req_key rq) (pay_plan_of e rq (db (req_key rq))) db"

definition pay_get :: "string \<Rightarrow> string \<Rightarrow> payments \<Rightarrow> (string \<times> payment_status \<times> int) option" where
  "pay_get tenantId orderId db =
     map_option (\<lambda>row. (pm_orderId row, pm_status row, pm_amount row)) (db (tenantId, orderId))"

section \<open>The controller\<close>

text \<open>
  \<open>ValidationPipe\<close> over \<open>AuthorizeDto\<close> and \<open>CaptureVoidDto\<close>: every field a string, the amount an
  integer of at least zero.
\<close>

definition is_jstr :: "json option \<Rightarrow> bool" where
  "is_jstr j = (jstr j \<noteq> None)"

definition authorize_dto :: "json \<Rightarrow> bool" where
  "authorize_dto b \<longleftrightarrow> is_jstr (jget ''tenantId'' b) \<and> is_jstr (jget ''orderId'' b)
     \<and> (case jint (jget ''amount'' b) of Some n \<Rightarrow> 0 \<le> n | None \<Rightarrow> False)
     \<and> is_jstr (jget ''idempotencyKey'' b)"

definition capture_void_dto :: "json \<Rightarrow> bool" where
  "capture_void_dto b \<longleftrightarrow> is_jstr (jget ''tenantId'' b) \<and> is_jstr (jget ''orderId'' b)
     \<and> is_jstr (jget ''idempotencyKey'' b)"

definition jstr_of :: "string \<Rightarrow> json \<Rightarrow> string" where
  "jstr_of k b = the (jstr (jget k b))"

definition payments_post ::
    "pay_env \<Rightarrow> string \<Rightarrow> json \<Rightarrow> payments \<Rightarrow> (http_error, string \<times> payment_outcome) result \<times> payments" where
  "payments_post e path b db =
     (if path = ''/payments/authorize'' then
        (if authorize_dto b
         then pay_op e (AuthorizeReq (jstr_of ''tenantId'' b) (jstr_of ''orderId'' b)
                (the (jint (jget ''amount'' b)))) db
         else (Inl (BadRequest ''validation failed''), db))
      else if path = ''/payments/capture'' then
        (if capture_void_dto b
         then pay_op e (CaptureReq (jstr_of ''tenantId'' b) (jstr_of ''orderId'' b)) db
         else (Inl (BadRequest ''validation failed''), db))
      else if path = ''/payments/void'' then
        (if capture_void_dto b
         then pay_op e (VoidReq (jstr_of ''tenantId'' b) (jstr_of ''orderId'' b)) db
         else (Inl (BadRequest ''validation failed''), db))
      else (Inl (NotFound ''no route''), db))"

definition payments_get :: "string \<Rightarrow> string \<Rightarrow> payments \<Rightarrow> (http_error, string \<times> payment_status \<times> int) result" where
  "payments_get tenantId orderId db = (case pay_get tenantId orderId db of
     None \<Rightarrow> Inl (NotFound ''No payment'') | Some v \<Rightarrow> Inr v)"

section \<open>Row invariant\<close>

text \<open>
  A row is filed under its own key, is authorized unless it was declined, and carries the stamp of
  its status; a settled row carries no stamp of the other settlement.
\<close>

definition row_stamped :: "payment \<Rightarrow> bool" where
  "row_stamped row \<longleftrightarrow>
     (case pm_status row of
        PAY_DECLINED \<Rightarrow> pm_authorizedAt row = None \<and> pm_capturedAt row = None \<and> pm_voidedAt row = None
      | PAY_AUTHORIZED \<Rightarrow> pm_authorizedAt row \<noteq> None \<and> pm_capturedAt row = None \<and> pm_voidedAt row = None
      | PAY_CAPTURED \<Rightarrow> pm_authorizedAt row \<noteq> None \<and> pm_capturedAt row \<noteq> None \<and> pm_voidedAt row = None
      | PAY_VOIDED \<Rightarrow> pm_authorizedAt row \<noteq> None \<and> pm_capturedAt row = None \<and> pm_voidedAt row \<noteq> None)"

definition payments_inv :: "payments \<Rightarrow> bool" where
  "payments_inv db \<longleftrightarrow> (\<forall>key row. db key = Some row \<longrightarrow>
     key = (pm_tenantId row, pm_orderId row) \<and> row_stamped row)"

lemma payments_inv_empty [simp]: "payments_inv Map.empty"
  by (simp add: payments_inv_def)

lemmas pay_rule_defs = decideAuthorize_def nextOnCapture_def nextOnVoid_def

text \<open>What an undisturbed operation does, on every branch.\<close>

lemma pay_op_authorize [pay_simps]:
  "pay_op e (AuthorizeReq t oid amount) db = (case db (t, oid) of
     Some row \<Rightarrow> (Inr (pm_id row, if pm_status row = PAY_DECLINED then Declined else Authorized), db)
   | None \<Rightarrow>
       if MAX_INT < amount then (Inl (InternalError ''integer out of range''), db)
       else (Inr (pe_newId e, if amount \<ge> pe_threshold e then Declined else Authorized),
       db((t, oid) \<mapsto> \<lparr>pm_id = pe_newId e, pm_tenantId = t, pm_orderId = oid, pm_amount = amount,
          pm_status = (if amount \<ge> pe_threshold e then PAY_DECLINED else PAY_AUTHORIZED),
          pm_authorizedAt = (if amount \<ge> pe_threshold e then None else Some (pe_now e)),
          pm_capturedAt = None, pm_voidedAt = None\<rparr>)))"
  by (simp add: pay_op_def pay_write_def authorize_plan_def decideAuthorize_def Let_def split: option.splits)

lemma pay_op_capture [pay_simps]:
  "pay_op e (CaptureReq t oid) db = (case db (t, oid) of
     None \<Rightarrow> (Inl (NotFound ''No payment''), db)
   | Some row \<Rightarrow> (case pm_status row of
       PAY_CAPTURED \<Rightarrow> (Inr (pm_id row, Captured), db)
     | PAY_AUTHORIZED \<Rightarrow> (Inr (pm_id row, Captured),
         db((t, oid) \<mapsto> row\<lparr>pm_capturedAt := Some (pe_now e), pm_status := PAY_CAPTURED\<rparr>))
     | _ \<Rightarrow> (Inl (Conflict ''illegal transition''), db)))"
  by (simp add: pay_op_def pay_write_def transition_plan_def nextOnCapture_def stamp_def
      split: option.splits payment_status.splits)

lemma pay_op_void [pay_simps]:
  "pay_op e (VoidReq t oid) db = (case db (t, oid) of
     None \<Rightarrow> (Inl (NotFound ''No payment''), db)
   | Some row \<Rightarrow> (case pm_status row of
       PAY_VOIDED \<Rightarrow> (Inr (pm_id row, Voided), db)
     | PAY_AUTHORIZED \<Rightarrow> (Inr (pm_id row, Voided),
         db((t, oid) \<mapsto> row\<lparr>pm_voidedAt := Some (pe_now e), pm_status := PAY_VOIDED\<rparr>))
     | _ \<Rightarrow> (Inl (Conflict ''illegal transition''), db)))"
  by (simp add: pay_op_def pay_write_def transition_plan_def nextOnVoid_def stamp_def
      split: option.splits payment_status.splits)

lemma pay_op_inv: "payments_inv db \<Longrightarrow> payments_inv (snd (pay_op e rq db))"
  by (cases rq) (auto simp: pay_simps payments_inv_def row_stamped_def
      split: option.splits payment_status.splits if_splits)

lemma pay_op_frame: "key \<noteq> req_key rq \<Longrightarrow> snd (pay_op e rq db) key = db key"
  by (cases rq) (auto simp: pay_simps split: option.splits payment_status.splits)

definition status_of :: "payments \<Rightarrow> string \<times> string \<Rightarrow> payment_status option" where
  "status_of db key = map_option pm_status (db key)"

section \<open>Serial behaviour\<close>

definition pay_run :: "(pay_env \<times> pay_request) list \<Rightarrow> payments \<Rightarrow> payments" where
  "pay_run rs db = foldl (\<lambda>db (e, rq). snd (pay_op e rq db)) db rs"

lemma pay_run_simps [simp]:
  "pay_run [] db = db"
  "pay_run (x # rs) db = pay_run rs (snd (pay_op (fst x) (snd x) db))"
  by (simp_all add: pay_run_def case_prod_beta)

text \<open>How a status may move: a settled or declined payment never does.\<close>

fun status_step :: "payment_status option \<Rightarrow> payment_status option \<Rightarrow> bool" where
  "status_step None b = (b \<in> {None, Some PAY_AUTHORIZED, Some PAY_DECLINED})"
| "status_step (Some PAY_AUTHORIZED) b = (b \<in> {Some PAY_AUTHORIZED, Some PAY_CAPTURED, Some PAY_VOIDED})"
| "status_step (Some s) b = (b = Some s)"

lemma status_step_refl: "status_step s s"
proof (cases s)
  case (Some x)
  then show ?thesis by (cases x) auto
qed simp

lemma pay_op_status_step: "status_step (status_of db key) (status_of (snd (pay_op e rq db)) key)"
proof (cases "key = req_key rq")
  case True
  then show ?thesis
    by (cases rq) (auto simp: pay_simps status_of_def status_step_refl split: option.splits payment_status.splits)
next
  case False
  then have "status_of (snd (pay_op e rq db)) key = status_of db key"
    by (simp add: status_of_def pay_op_frame)
  then show ?thesis by (simp add: status_step_refl)
qed

lemma settled_stays:
  "status_of db key = Some s \<Longrightarrow> s \<noteq> PAY_AUTHORIZED \<Longrightarrow> status_of (pay_run rs db) key = Some s"
proof (induction rs arbitrary: db)
  case (Cons r rs)
  have "status_of (snd (pay_op (fst r) (snd r) db)) key = Some s"
    using pay_op_status_step [of db key "fst r" "snd r"] Cons.prems by (cases s) auto
  with Cons.IH Cons.prems show ?case by simp
qed simp

lemma pay_run_inv: "payments_inv db \<Longrightarrow> payments_inv (pay_run rs db)"
  by (induction rs arbitrary: db) (auto intro: pay_op_inv)

text \<open>
  C15: Payments settle at most once. Whatever requests are served one after the other, every row is
  filed under its own key, bears exactly the stamps of its status - never both a capture and a void -
  and a payment once captured, voided or declined stays so under every later sequence of requests.
\<close>

theorem payments_settle_once:
  "payments_inv (pay_run rs Map.empty)
   \<and> (s \<noteq> PAY_AUTHORIZED \<longrightarrow> status_of (pay_run rs Map.empty) key = Some s \<longrightarrow>
        status_of (pay_run rs' (pay_run rs Map.empty)) key = Some s)"
  using pay_run_inv [OF payments_inv_empty] settled_stays by blast

definition sample_pay_env :: pay_env where
  "sample_pay_env = \<lparr>pe_threshold = 100000, pe_newId = ''p1'', pe_now = 7\<rparr>"

theorem payments_settle_once_witness:
  "status_of (pay_run [(sample_pay_env, VoidReq ''berlin'' ''o1'')]
      (pay_run [(sample_pay_env, AuthorizeReq ''berlin'' ''o1'' 500), (sample_pay_env, CaptureReq ''berlin'' ''o1'')]
        Map.empty)) (''berlin'', ''o1'') = Some PAY_CAPTURED"
proof -
  have "status_of (pay_run [(sample_pay_env, AuthorizeReq ''berlin'' ''o1'' 500), (sample_pay_env, CaptureReq ''berlin'' ''o1'')]
        Map.empty) (''berlin'', ''o1'') = Some PAY_CAPTURED"
    by (simp add: pay_simps status_of_def sample_pay_env_def MAX_INT_def)
  with payments_settle_once [of "[(sample_pay_env, AuthorizeReq ''berlin'' ''o1'' 500), (sample_pay_env, CaptureReq ''berlin'' ''o1'')]"
      PAY_CAPTURED "(''berlin'', ''o1'')" "[(sample_pay_env, VoidReq ''berlin'' ''o1'')]"]
  show ?thesis by simp
qed

text \<open>
  Requests to the payments service are idempotent, so a client may retry them. Repeating a
  request - with any new clock, id or threshold - after it was answered gives the same answer and
  changes nothing; a refused request changed nothing in the first place.
\<close>

theorem payments_idempotent:
  assumes "pay_op e rq db = (r, db')"
  shows "(is_ok r \<longrightarrow> pay_op e' rq db' = (r, db')) \<and> (\<not> is_ok r \<longrightarrow> db' = db)"
  using assms
  by (cases rq) (auto simp: pay_simps status_of_def split: option.splits payment_status.splits if_splits)

theorem payments_idempotent_witness:
  "pay_op (sample_pay_env\<lparr>pe_newId := ''p2'', pe_now := 99\<rparr>) (AuthorizeReq ''berlin'' ''o1'' 500)
     (snd (pay_op sample_pay_env (AuthorizeReq ''berlin'' ''o1'' 500) Map.empty))
   = pay_op sample_pay_env (AuthorizeReq ''berlin'' ''o1'' 500) Map.empty"
  using payments_idempotent [of sample_pay_env "AuthorizeReq ''berlin'' ''o1'' 500" Map.empty
      "fst (pay_op sample_pay_env (AuthorizeReq ''berlin'' ''o1'' 500) Map.empty)"
      "snd (pay_op sample_pay_env (AuthorizeReq ''berlin'' ''o1'' 500) Map.empty)"
      "sample_pay_env\<lparr>pe_newId := ''p2'', pe_now := 99\<rparr>"]
  by (simp add: pay_op_authorize MAX_INT_def)

section \<open>Interleaved requests\<close>

text \<open>
  Requests whose two database calls interleave: \<open>pay_reach\<close> keeps the plans made and not yet
  written.
\<close>

inductive pay_reach :: "payments \<Rightarrow> ((string \<times> string) \<times> pay_plan) list \<Rightarrow> bool" where
  pay_start: "pay_reach Map.empty []"
| pay_read: "pay_reach db ps \<Longrightarrow> pay_reach db ((req_key rq, pay_plan_of e rq (db (req_key rq))) # ps)"
| pay_commit: "pay_reach db (ps1 @ (key, plan) # ps2) \<Longrightarrow> pay_write key plan db = (r, db') \<Longrightarrow>
     pay_reach db' (ps1 @ ps2)"

text \<open>
  What still holds then. A declined payment stays declined and unstamped, a row's key, amount and
  decision are fixed when it is created, and a settled row has the stamp of its settlement.
\<close>

definition row_weak :: "payment \<Rightarrow> bool" where
  "row_weak row \<longleftrightarrow>
     (case pm_status row of
        PAY_DECLINED \<Rightarrow> pm_authorizedAt row = None \<and> pm_capturedAt row = None \<and> pm_voidedAt row = None
      | PAY_AUTHORIZED \<Rightarrow> pm_authorizedAt row \<noteq> None \<and> pm_capturedAt row = None \<and> pm_voidedAt row = None
      | PAY_CAPTURED \<Rightarrow> pm_authorizedAt row \<noteq> None \<and> pm_capturedAt row \<noteq> None
      | PAY_VOIDED \<Rightarrow> pm_authorizedAt row \<noteq> None \<and> pm_voidedAt row \<noteq> None)"

definition plan_ok :: "payments \<Rightarrow> (string \<times> string) \<times> pay_plan \<Rightarrow> bool" where
  "plan_ok db kp \<longleftrightarrow> (case snd kp of
     CreateRow row out \<Rightarrow> fst kp = (pm_tenantId row, pm_orderId row) \<and> row_weak row
   | SetStatus op r target now \<Rightarrow> target = (case op of OpCapture \<Rightarrow> PAY_CAPTURED | OpVoid \<Rightarrow> PAY_VOIDED)
       \<and> (\<exists>row. db (fst kp) = Some row \<and> pm_status row \<noteq> PAY_DECLINED)
   | _ \<Rightarrow> True)"

definition weak_inv :: "payments \<Rightarrow> bool" where
  "weak_inv db \<longleftrightarrow> (\<forall>key row. db key = Some row \<longrightarrow>
     key = (pm_tenantId row, pm_orderId row) \<and> row_weak row)"

lemma weak_invD: "weak_inv db \<Longrightarrow> db key = Some row \<Longrightarrow> key = (pm_tenantId row, pm_orderId row) \<and> row_weak row"
  unfolding weak_inv_def by blast

lemma plan_ok_read:
  assumes "weak_inv db"
  shows "plan_ok db (req_key rq, pay_plan_of e rq (db (req_key rq)))"
  using assms
  by (cases rq) (auto simp: plan_ok_def authorize_plan_def transition_plan_def pay_rule_defs Let_def
      row_weak_def weak_inv_def split: option.splits payment_status.splits sum.splits if_splits)

lemma pay_write_cases:
  assumes "pay_write key plan db = (r, db')"
  obtains "db' = db"
  | row out where "plan = CreateRow row out" "db key = None" "db' = db(key \<mapsto> row)"
  | op rr target now row where "plan = SetStatus op rr target now" "db key = Some row"
      "db' = db(key \<mapsto> (stamp op now row)\<lparr>pm_status := target\<rparr>)"
  using assms by (auto simp: pay_write_def split: pay_plan.splits option.splits if_splits)

lemma stamp_fields [simp]:
  "pm_tenantId (stamp op now row) = pm_tenantId row" "pm_orderId (stamp op now row) = pm_orderId row"
  "pm_authorizedAt (stamp op now row) = pm_authorizedAt row" "pm_amount (stamp op now row) = pm_amount row"
  by (cases op; simp add: stamp_def)+

lemma pay_write_weak:
  assumes inv: "weak_inv db" and ok: "plan_ok db (key, plan)" and w: "pay_write key plan db = (r, db')"
  shows "weak_inv db'"
    and "db k = Some row0 \<Longrightarrow> \<exists>row1. db' k = Some row1 \<and>
           (pm_status row1 = PAY_DECLINED \<longleftrightarrow> pm_status row0 = PAY_DECLINED)
           \<and> pm_amount row1 = pm_amount row0"
proof -
  show "weak_inv db'" using w
  proof (cases rule: pay_write_cases)
    case (3 op rr target now row)
    with ok have "pm_status row \<noteq> PAY_DECLINED" and "target = (case op of OpCapture \<Rightarrow> PAY_CAPTURED | OpVoid \<Rightarrow> PAY_VOIDED)"
      by (auto simp: plan_ok_def)
    moreover have "row_weak row" using weak_invD [OF inv] 3 by blast
    ultimately show ?thesis using inv 3
      by (cases op) (auto simp: weak_inv_def row_weak_def stamp_def split: payment_status.splits)
  qed (use inv ok in \<open>auto simp: weak_inv_def plan_ok_def\<close>)
  show "\<exists>row1. db' k = Some row1 \<and> (pm_status row1 = PAY_DECLINED \<longleftrightarrow> pm_status row0 = PAY_DECLINED)
      \<and> pm_amount row1 = pm_amount row0" if "db k = Some row0"
    using w
  proof (cases rule: pay_write_cases)
    case (3 op rr target now row)
    with ok that show ?thesis by (cases op) (auto simp: plan_ok_def)
  qed (use that in auto)
qed

lemma plan_ok_write:
  assumes "weak_inv db" and "plan_ok db (key, plan)" and "pay_write key plan db = (r, db')"
    and "plan_ok db kp"
  shows "plan_ok db' kp"
proof (cases "snd kp")
  case (SetStatus op rr target now)
  with assms(4) obtain row where "db (fst kp) = Some row" "pm_status row \<noteq> PAY_DECLINED"
    by (auto simp: plan_ok_def)
  with pay_write_weak(2) [OF assms(1-3)] obtain row1 where "db' (fst kp) = Some row1"
    "pm_status row1 \<noteq> PAY_DECLINED" by blast
  then show ?thesis using assms(4) SetStatus by (auto simp: plan_ok_def)
qed (use assms(4) in \<open>auto simp: plan_ok_def\<close>)

lemma pay_reach_weak: "pay_reach db ps \<Longrightarrow> weak_inv db \<and> list_all (plan_ok db) ps"
proof (induction rule: pay_reach.induct)
  case pay_start
  then show ?case by (simp add: weak_inv_def)
next
  case (pay_read db ps rq e)
  then show ?case by (simp add: plan_ok_read)
next
  case (pay_commit db ps1 key plan ps2 r db')
  then have inv: "weak_inv db" and ok: "plan_ok db (key, plan)" by auto
  show ?case using pay_write_weak(1) [OF inv ok pay_commit.hyps(2)]
      plan_ok_write [OF inv ok pay_commit.hyps(2)] pay_commit.IH
    by (auto simp: list_all_iff)
qed

text \<open>
  Interleaved payment requests. However the reads and writes of concurrent requests interleave,
  every row is filed under its own key, a declined payment carries no stamp, an open hold carries
  only its authorization, and a captured or voided payment was authorized and has its stamp.
\<close>

theorem payments_interleaved_invariant:
  assumes "pay_reach db ps" and "db key = Some row"
  shows "key = (pm_tenantId row, pm_orderId row) \<and> row_weak row"
  using pay_reach_weak [OF assms(1)] assms(2) weak_invD by blast

definition held_row :: payment where
  "held_row = \<lparr>pm_id = ''p1'', pm_tenantId = ''berlin'', pm_orderId = ''o1'', pm_amount = 500,
     pm_status = PAY_AUTHORIZED, pm_authorizedAt = Some 7, pm_capturedAt = None, pm_voidedAt = None\<rparr>"

lemma held_reach: "pay_reach [(''berlin'', ''o1'') \<mapsto> held_row] []"
proof -
  let ?rq = "AuthorizeReq ''berlin'' ''o1'' 500"
  have "pay_reach Map.empty ([] @ (req_key ?rq, pay_plan_of sample_pay_env ?rq None) # [])"
    using pay_reach.pay_read [OF pay_reach.pay_start, of ?rq sample_pay_env] by simp
  from pay_reach.pay_commit [OF this] show ?thesis
    by (simp add: pay_write_def authorize_plan_def decideAuthorize_def sample_pay_env_def MAX_INT_def
        held_row_def)
qed

theorem payments_interleaved_invariant_witness: "row_weak held_row"
  using payments_interleaved_invariant [OF held_reach, of "(''berlin'', ''o1'')" held_row] by simp

text \<open>
  The service does not exclude a double settlement. A capture and a void of the same hold that
  both read it before either writes both succeed, and leave one row stamped captured and voided.
\<close>

theorem payments_double_settlement:
  "\<exists>db row. pay_reach db [] \<and> db (''berlin'', ''o1'') = Some row
     \<and> pm_capturedAt row \<noteq> None \<and> pm_voidedAt row \<noteq> None"
proof -
  let ?db = "[(''berlin'', ''o1'') \<mapsto> held_row]" and ?k = "(''berlin'', ''o1'')"
  have "pay_reach ?db ([] @ (?k, SetStatus OpCapture (''p1'', Captured) PAY_CAPTURED 7)
      # [(?k, SetStatus OpVoid (''p1'', Voided) PAY_VOIDED 7)])"
    using pay_reach.pay_read [OF pay_reach.pay_read [OF held_reach, of "VoidReq ''berlin'' ''o1''" sample_pay_env],
        of "CaptureReq ''berlin'' ''o1''" sample_pay_env]
    by (simp add: transition_plan_def pay_rule_defs held_row_def sample_pay_env_def)
  from pay_reach.pay_commit [OF this surjective_pairing] have "pay_reach (snd (pay_write ?k
      (SetStatus OpCapture (''p1'', Captured) PAY_CAPTURED 7) ?db))
      ([] @ (?k, SetStatus OpVoid (''p1'', Voided) PAY_VOIDED 7) # [])"
    by (simp add: pay_write_def)
  from pay_reach.pay_commit [OF this surjective_pairing] show ?thesis
    by (force simp: pay_write_def stamp_def)
qed

end
