(* ===== verification/Saga_World.thy ===== *)
theory Saga_World
  imports Dispatch_Saga Payments
begin

text \<open>
  The saga worker's world and its activities: the payments client (\<open>payments-client.ts\<close>), the order
  activities (\<open>activities.ts\<close>) and the dispatch activities (\<open>dispatch-activities.ts\<close>) over the event
  store, the payments service, the tenant catalog and Redis. The interfaces of the two workflows are
  interpreted on them.

  Each attempt of an activity meets the environment of its tick: fresh ids and clocks, the drivers
  Redis' GEOSEARCH finds (a parameter: it is Redis' own), who is online, the tenant catalog's database, and
  whether the attempt is lost before or after it took effect.
\<close>

section \<open>The world\<close>

datatype fault = Deliver | LoseRequest | LoseReply

record attempt_env =
  ae_draws :: draws
  ae_fault :: fault
  ae_pay :: pay_env
  ae_catalog :: catalog_io
  ae_geo :: "string \<Rightarrow> real \<Rightarrow> real \<Rightarrow> string list"
  ae_online :: "string \<Rightarrow> string \<Rightarrow> bool"
  ae_duration :: nat

record world =
  wd_pg :: pg_state
  wd_pay :: payments
  wd_busy :: "string \<Rightarrow> string set"
  wd_catalog :: catalog
  wd_ttl :: int
  wd_clock :: nat
  wd_tick :: nat
  wd_env :: "nat \<Rightarrow> attempt_env"

definition attempt :: "(attempt_env \<Rightarrow> world \<Rightarrow> (act_error, 'a) result \<times> world) \<Rightarrow> world
    \<Rightarrow> (act_error, 'a) result \<times> world" where
  "attempt body w =
     (let e = wd_env w (wd_tick w);
          w1 = w\<lparr>wd_tick := wd_tick w + 1, wd_clock := wd_clock w + ae_duration e\<rparr>
      in (case ae_fault e of
            Deliver \<Rightarrow> body e w1
          | LoseRequest \<Rightarrow> (Inl (Retryable ''activity lost''), w1)
          | LoseReply \<Rightarrow> (Inl (Retryable ''activity lost''), snd (body e w1))))"

section \<open>The payments client\<close>

text \<open>\<open>post\<close>: a 4xx answer is a non-retryable failure, a 5xx one a retryable failure.\<close>

definition payments_post_call ::
    "string \<Rightarrow> json \<Rightarrow> attempt_env \<Rightarrow> world \<Rightarrow> (act_error, string \<times> payment_outcome) result \<times> world" where
  "payments_post_call path b e w =
     (case payments_post (ae_pay e) path b (wd_pay w) of
        (Inr r, db) \<Rightarrow> (Inr r, w\<lparr>wd_pay := db\<rparr>)
      | (Inl err, db) \<Rightarrow>
          (Inl (if 400 \<le> http_status err \<and> http_status err < 500
                then NonRetryable (''payments '' @ path @ '' failed'')
                else Retryable (''payments '' @ path @ '' failed'')), w\<lparr>wd_pay := db\<rparr>))"

definition idempotency_key :: "string \<Rightarrow> string \<Rightarrow> string \<Rightarrow> string" where
  "idempotency_key op t oid = op @ '':'' @ t @ '':'' @ oid"

definition authorizePayment ::
    "string \<Rightarrow> string \<Rightarrow> int \<Rightarrow> attempt_env \<Rightarrow> world \<Rightarrow> (act_error, bool) result \<times> world" where
  "authorizePayment t oid amount e w =
     (case payments_post_call ''/payments/authorize''
        (JObj [(''tenantId'', JStr t), (''orderId'', JStr oid), (''amount'', JInt amount),
               (''idempotencyKey'', JStr (idempotency_key ''authorize'' t oid))]) e w of
        (Inl er, w') \<Rightarrow> (Inl er, w')
      | (Inr r, w') \<Rightarrow> (Inr (snd r \<noteq> Declined), w'))"

definition capturePayment ::
    "string \<Rightarrow> string \<Rightarrow> attempt_env \<Rightarrow> world \<Rightarrow> (act_error, unit) result \<times> world" where
  "capturePayment t oid e w =
     (case payments_post_call ''/payments/capture''
        (JObj [(''tenantId'', JStr t), (''orderId'', JStr oid),
               (''idempotencyKey'', JStr (idempotency_key ''capture'' t oid))]) e w of
        (Inl er, w') \<Rightarrow> (Inl er, w')
      | (Inr r, w') \<Rightarrow> (Inr (), w'))"

definition voidPayment ::
    "string \<Rightarrow> string \<Rightarrow> attempt_env \<Rightarrow> world \<Rightarrow> (act_error, unit) result \<times> world" where
  "voidPayment t oid e w =
     (case payments_post_call ''/payments/void''
        (JObj [(''tenantId'', JStr t), (''orderId'', JStr oid),
               (''idempotencyKey'', JStr (idempotency_key ''void'' t oid))]) e w of
        (Inl er, w') \<Rightarrow> (Inl er, w')
      | (Inr r, w') \<Rightarrow> (Inr (), w'))"

section \<open>The recording activities\<close>

text \<open>
  Load the aggregate, let it decide, append at the loaded version. A refused transition is a benign
  no-op; a failed append is thrown, and so retried. \<open>build\<close> is the aggregate's command on its state.
\<close>

definition record_order_event ::
    "string \<Rightarrow> string \<Rightarrow> event_type \<Rightarrow> (order_state \<Rightarrow> (transition_error, payload) result) \<Rightarrow> string option
     \<Rightarrow> attempt_env \<Rightarrow> world \<Rightarrow> (act_error, unit) result \<times> world" where
  "record_order_event t oid ty build corr e w =
     (case loadAggregate AppRole t oid foldOrder INITIAL_ORDER_STATE (wd_pg w) of
        (st, version) \<Rightarrow>
          (case build st of
             Inl _ \<Rightarrow> (Inr (), w)
           | Inr payload \<Rightarrow>
               (case appendWithExpectedVersion AppRole None (ae_draws e)
                   \<lparr>aa_tenantId = t, aa_aggregateType = ORDER, aa_aggregateId = oid,
                    aa_expectedVersion = version, aa_eventType = ty, aa_payload = payload,
                    aa_topic = None, aa_correlationId = corr\<rparr> (wd_pg w) of
                  (Inl _, pg) \<Rightarrow> (Inl (Retryable ''append failed''), w\<lparr>wd_pg := pg\<rparr>)
                | (Inr _, pg) \<Rightarrow> (Inr (), w\<lparr>wd_pg := pg\<rparr>))))"

definition recordOrderAccepted ::
    "string \<Rightarrow> string \<Rightarrow> string option \<Rightarrow> attempt_env \<Rightarrow> world \<Rightarrow> (act_error, unit) result \<times> world" where
  "recordOrderAccepted t oid corr = record_order_event t oid OrderAccepted (\<lambda>st. accept st oid) corr"

definition recordOrderCancelled ::
    "string \<Rightarrow> string \<Rightarrow> string \<Rightarrow> string option \<Rightarrow> attempt_env \<Rightarrow> world \<Rightarrow> (act_error, unit) result \<times> world" where
  "recordOrderCancelled t oid reason corr =
     record_order_event t oid OrderCancelled (\<lambda>st. cancel st oid reason) corr"

definition dispatch_append ::
    "string \<Rightarrow> string \<Rightarrow> event_type \<Rightarrow> (dispatch_state \<Rightarrow> (transition_error, payload) result) \<Rightarrow> string option
     \<Rightarrow> attempt_env \<Rightarrow> world \<Rightarrow> (act_error, unit) result \<times> world" where
  "dispatch_append t oid ty build corr e w =
     (case loadAggregate AppRole t (dispatchAggregateId oid) foldDispatch INITIAL_DISPATCH_STATE (wd_pg w) of
        (st, version) \<Rightarrow>
          (case build st of
             Inl _ \<Rightarrow> (Inr (), w)
           | Inr payload \<Rightarrow>
               (case appendWithExpectedVersion AppRole None (ae_draws e)
                   \<lparr>aa_tenantId = t, aa_aggregateType = DISPATCH, aa_aggregateId = dispatchAggregateId oid,
                    aa_expectedVersion = version, aa_eventType = ty, aa_payload = payload,
                    aa_topic = Some DISPATCH_EVENTS, aa_correlationId = corr\<rparr> (wd_pg w) of
                  (Inl _, pg) \<Rightarrow> (Inl (Retryable ''append failed''), w\<lparr>wd_pg := pg\<rparr>)
                | (Inr _, pg) \<Rightarrow> (Inr (), w\<lparr>wd_pg := pg\<rparr>))))"

definition recordDriverOffered ::
    "string \<Rightarrow> string \<Rightarrow> string \<Rightarrow> string option \<Rightarrow> attempt_env \<Rightarrow> world \<Rightarrow> (act_error, unit) result \<times> world" where
  "recordDriverOffered t oid d corr = dispatch_append t oid DriverOffered (\<lambda>st. offer st oid d) corr"

definition recordDispatchAccepted ::
    "string \<Rightarrow> string \<Rightarrow> string \<Rightarrow> string option \<Rightarrow> attempt_env \<Rightarrow> world \<Rightarrow> (act_error, unit) result \<times> world" where
  "recordDispatchAccepted t oid d corr = dispatch_append t oid DispatchAccepted (\<lambda>st. acceptOffer st oid d) corr"

definition recordOrderPickedUp ::
    "string \<Rightarrow> string \<Rightarrow> string option \<Rightarrow> attempt_env \<Rightarrow> world \<Rightarrow> (act_error, unit) result \<times> world" where
  "recordOrderPickedUp t oid corr = dispatch_append t oid OrderPickedUp (\<lambda>st. pickup st oid) corr"

definition recordOrderDelivered ::
    "string \<Rightarrow> string \<Rightarrow> string option \<Rightarrow> attempt_env \<Rightarrow> world \<Rightarrow> (act_error, unit) result \<times> world" where
  "recordOrderDelivered t oid corr = dispatch_append t oid OrderDelivered (\<lambda>st. deliver st oid) corr"

definition recordDispatchFailed ::
    "string \<Rightarrow> string \<Rightarrow> string \<Rightarrow> string option \<Rightarrow> attempt_env \<Rightarrow> world \<Rightarrow> (act_error, unit) result \<times> world" where
  "recordDispatchFailed t oid reason corr = dispatch_append t oid DispatchFailed (\<lambda>st. fail st oid reason) corr"

section \<open>Driver selection and the busy set\<close>

text \<open>The loop over the drivers found, nearest first.\<close>

fun first_available :: "(string \<Rightarrow> bool) \<Rightarrow> (string \<Rightarrow> bool) \<Rightarrow> string list \<Rightarrow> string list \<Rightarrow> string option" where
  "first_available online isbusy exclude [] = None"
| "first_available online isbusy exclude (d # ds) =
     (if d \<in> set exclude then first_available online isbusy exclude ds
      else if \<not> online d then first_available online isbusy exclude ds
      else if isbusy d then first_available online isbusy exclude ds
      else Some d)"

definition selectNearestAvailableDriver ::
    "string \<Rightarrow> string list \<Rightarrow> attempt_env \<Rightarrow> world \<Rightarrow> (act_error, string option) result \<times> world" where
  "selectNearestAvailableDriver t exclude e w =
     (case catalog_get (wd_ttl w) t (ae_catalog e) (wd_catalog w) of
        (Inl err, cat) \<Rightarrow> (Inl (Retryable err), w\<lparr>wd_catalog := cat\<rparr>)
      | (Inr None, cat) \<Rightarrow> (Inr None, w\<lparr>wd_catalog := cat\<rparr>)
      | (Inr (Some center), cat) \<Rightarrow>
          (Inr (first_available (ae_online e (driverOnlineKey t)) (\<lambda>d. d \<in> wd_busy w (driverBusyKey t)) exclude
                  (ae_geo e (driverGeoKey t) (tv_lng center) (tv_lat center))),
           w\<lparr>wd_catalog := cat\<rparr>))"

definition markBusy :: "string \<Rightarrow> string \<Rightarrow> attempt_env \<Rightarrow> world \<Rightarrow> (act_error, unit) result \<times> world" where
  "markBusy t d e w = (Inr (), w\<lparr>wd_busy := (wd_busy w)(driverBusyKey t := insert d (wd_busy w (driverBusyKey t)))\<rparr>)"

definition clearBusy :: "string \<Rightarrow> string \<Rightarrow> attempt_env \<Rightarrow> world \<Rightarrow> (act_error, unit) result \<times> world" where
  "clearBusy t d e w = (Inr (), w\<lparr>wd_busy := (wd_busy w)(driverBusyKey t := wd_busy w (driverBusyKey t) - {d})\<rparr>)"

text \<open>Selection finds the nearest driver that is online, free and not excluded.\<close>

lemma first_available_spec:
  "first_available online isbusy exclude ds = find (\<lambda>d. d \<notin> set exclude \<and> online d \<and> \<not> isbusy d) ds"
  by (induction ds) auto

section \<open>The proxied activities\<close>

definition advance_to :: "nat \<Rightarrow> world \<Rightarrow> world" where
  "advance_to t w = w\<lparr>wd_clock := t\<rparr>"

definition worker_dispatch_activities :: "world dispatch_activities" where
  "worker_dispatch_activities = \<lparr>
     dx_clock = wd_clock, dx_advance = advance_to,
     dx_selectNearestAvailableDriver = (\<lambda>t ex. proxied (attempt (selectNearestAvailableDriver t ex))),
     dx_markBusy = (\<lambda>t d. proxied (attempt (markBusy t d))),
     dx_clearBusy = (\<lambda>t d. proxied (attempt (clearBusy t d))),
     dx_recordDriverOffered = (\<lambda>t oid d corr. proxied (attempt (recordDriverOffered t oid d corr))),
     dx_recordDispatchAccepted = (\<lambda>t oid d corr. proxied (attempt (recordDispatchAccepted t oid d corr))),
     dx_recordOrderPickedUp = (\<lambda>t oid corr. proxied (attempt (recordOrderPickedUp t oid corr))),
     dx_recordOrderDelivered = (\<lambda>t oid corr. proxied (attempt (recordOrderDelivered t oid corr))),
     dx_recordDispatchFailed = (\<lambda>t oid r corr. proxied (attempt (recordDispatchFailed t oid r corr)))\<rparr>"

text \<open>The child workflow runs on the same world, with signals \<open>dq\<close> of its own.\<close>

definition worker_order_activities :: "(nat \<times> dispatch_signal) list \<Rightarrow> world order_activities" where
  "worker_order_activities dq = \<lparr>
     oa_clock = wd_clock, oa_advance = advance_to,
     oa_authorizePayment = (\<lambda>t oid amount. proxied (attempt (authorizePayment t oid amount))),
     oa_capturePayment = (\<lambda>t oid. proxied (attempt (capturePayment t oid))),
     oa_voidPayment = (\<lambda>t oid. proxied (attempt (voidPayment t oid))),
     oa_recordOrderAccepted = (\<lambda>t oid corr. proxied (attempt (recordOrderAccepted t oid corr))),
     oa_recordOrderCancelled = (\<lambda>t oid r corr. proxied (attempt (recordOrderCancelled t oid r corr))),
     oa_executeChild = (\<lambda>args. driverDispatchWorkflow worker_dispatch_activities args dq)\<rparr>"

lemmas worker_defs = worker_order_activities_def worker_dispatch_activities_def

section \<open>What one attempt does\<close>

lemma append_loaded:
  assumes "store_inv pg" and "aa_expectedVersion args = length (stream pg (aa_tenantId args) (aa_aggregateId args))"
    and "appendWithExpectedVersion role obs su args pg = (r, pg')"
  shows "store_inv pg'"
    and "(t', a') \<noteq> (aa_tenantId args, aa_aggregateId args) \<Longrightarrow> events_of pg' t' a' = events_of pg t' a'"
    and "r = Inl e \<Longrightarrow> pg' = pg"
    and "r = Inr env \<Longrightarrow> events_of pg' (aa_tenantId args) (aa_aggregateId args) =
      events_of pg (aa_tenantId args) (aa_aggregateId args) @
        [\<lparr>fe_eventType = aa_eventType args, fe_payload = aa_payload args,
          fe_version = Suc (aa_expectedVersion args)\<rparr>]"
proof -
  have ver: "aa_expectedVersion args \<le> length (stream pg (aa_tenantId args) (aa_aggregateId args))"
    using assms(2) by simp
  note eff = append_streams [OF assms(1) ver assms(3)]
  show "store_inv pg'" by (rule eff(1))
  show "events_of pg' t' a' = events_of pg t' a'" if "(t', a') \<noteq> (aa_tenantId args, aa_aggregateId args)"
    using eff(2) [of t' a'] that by auto
  show "pg' = pg" if "r = Inl e"
    using append_failure [OF assms(1)] assms(3) that by blast
  show "events_of pg' (aa_tenantId args) (aa_aggregateId args) =
      events_of pg (aa_tenantId args) (aa_aggregateId args) @
        [\<lparr>fe_eventType = aa_eventType args, fe_payload = aa_payload args,
          fe_version = Suc (aa_expectedVersion args)\<rparr>]" if "r = Inr env"
    using append_success [OF assms(1) ver] assms(3) that
    by (simp add: events_of_def fold_event_of_def store_simps)
qed

definition same_but_pg :: "world \<Rightarrow> world \<Rightarrow> bool" where
  "same_but_pg w w' \<longleftrightarrow> w' = w\<lparr>wd_pg := wd_pg w'\<rparr>"

text \<open>The effect of recording an event, for either aggregate.\<close>

definition record_effect ::
    "string \<Rightarrow> string \<Rightarrow> event_type \<Rightarrow> (transition_error, payload) result \<Rightarrow> world
     \<Rightarrow> (act_error, unit) result \<times> world \<Rightarrow> bool" where
  "record_effect t a ty decision w rw \<longleftrightarrow> (case rw of (r, w') \<Rightarrow>
     store_inv (wd_pg w') \<and> same_but_pg w w'
     \<and> (\<forall>t' a'. (t', a') \<noteq> (t, a) \<longrightarrow> events_of (wd_pg w') t' a' = events_of (wd_pg w) t' a')
     \<and> (case decision of
          Inl _ \<Rightarrow> r = Inr () \<and> w' = w
        | Inr p \<Rightarrow> (\<exists>m. r = Inl (Retryable m)) \<and> w' = w
            \<or> r = Inr () \<and> (\<exists>v. events_of (wd_pg w') t a = events_of (wd_pg w) t a @
                [\<lparr>fe_eventType = ty, fe_payload = p, fe_version = v\<rparr>])))"

lemma loadAggregate_events:
  "store_inv pg \<Longrightarrow> loadAggregate role t a fld initial pg =
     (foldl fld initial (events_of pg t a), length (stream pg t a))"
  by (simp add: loadAggregate_eq fold_stream_events events_of_def)

lemma record_order_event_effect:
  assumes inv: "store_inv (wd_pg w)"
  shows "record_effect t oid ty (build (order_fold (events_of (wd_pg w) t oid))) w
    (record_order_event t oid ty build corr e w)"
proof (cases "build (order_fold (events_of (wd_pg w) t oid))")
  case (Inl x)
  then show ?thesis using inv
    by (simp add: record_order_event_def loadAggregate_events order_fold_def record_effect_def same_but_pg_def)
next
  case (Inr p)
  let ?args = "\<lparr>aa_tenantId = t, aa_aggregateType = ORDER, aa_aggregateId = oid,
      aa_expectedVersion = length (stream (wd_pg w) t oid), aa_eventType = ty, aa_payload = p,
      aa_topic = None, aa_correlationId = corr\<rparr>"
  obtain r pg' where app: "appendWithExpectedVersion AppRole None (ae_draws e) ?args (wd_pg w) = (r, pg')"
    by (cases "appendWithExpectedVersion AppRole None (ae_draws e) ?args (wd_pg w)")
  note eff = append_loaded [OF inv _ app]
  show ?thesis using Inr inv app eff
    by (cases r) (auto simp: record_order_event_def loadAggregate_events order_fold_def record_effect_def
        same_but_pg_def)
qed

lemma dispatch_append_effect:
  assumes inv: "store_inv (wd_pg w)"
  shows "record_effect t (dispatchAggregateId oid) ty
    (build (dispatch_fold (events_of (wd_pg w) t (dispatchAggregateId oid)))) w
    (dispatch_append t oid ty build corr e w)"
proof (cases "build (dispatch_fold (events_of (wd_pg w) t (dispatchAggregateId oid)))")
  case (Inl x)
  then show ?thesis using inv
    by (simp add: dispatch_append_def loadAggregate_events dispatch_fold_def record_effect_def same_but_pg_def)
next
  case (Inr p)
  let ?args = "\<lparr>aa_tenantId = t, aa_aggregateType = DISPATCH, aa_aggregateId = dispatchAggregateId oid,
      aa_expectedVersion = length (stream (wd_pg w) t (dispatchAggregateId oid)), aa_eventType = ty,
      aa_payload = p, aa_topic = Some DISPATCH_EVENTS, aa_correlationId = corr\<rparr>"
  obtain r pg' where app: "appendWithExpectedVersion AppRole None (ae_draws e) ?args (wd_pg w) = (r, pg')"
    by (cases "appendWithExpectedVersion AppRole None (ae_draws e) ?args (wd_pg w)")
  note eff = append_loaded [OF inv _ app]
  show ?thesis using Inr inv app eff
    by (cases r) (auto simp: dispatch_append_def loadAggregate_events dispatch_fold_def record_effect_def
        same_but_pg_def)
qed

text \<open>The rule for a proxied activity of the worker: its body keeps \<open>P\<close>, and returning gives \<open>Q\<close>.\<close>

lemma proxied_attempt_rule:
  assumes body: "\<And>e w r w'. P w \<Longrightarrow> body e w = (r, w') \<Longrightarrow> P w' \<and> (\<forall>a. r = Inr a \<longrightarrow> Q a w')"
    and time: "\<And>w n c. P w \<Longrightarrow> P (w\<lparr>wd_tick := n, wd_clock := c\<rparr>)"
    and "P w" and "proxied (attempt body) w = (r, w')"
  shows "P w' \<and> (\<forall>a. r = Inr a \<longrightarrow> Q a w')"
proof (rule proxied_rule [where P = P and Q = Q and attempt = "attempt body" and w = w])
  fix w r w' assume P: "P w" and a: "attempt body w = (r, w')"
  let ?e = "wd_env w (wd_tick w)"
  let ?w1 = "w\<lparr>wd_tick := wd_tick w + 1, wd_clock := wd_clock w + ae_duration ?e\<rparr>"
  have P1: "P ?w1" using time [OF P] by simp
  obtain r1 w2 where b: "body ?e ?w1 = (r1, w2)" by (cases "body ?e ?w1")
  from body [OF P1 b] P1 a b show "P w' \<and> (\<forall>a. r = Inr a \<longrightarrow> Q a w')"
    by (cases "ae_fault ?e") (auto simp: attempt_def Let_def)
qed (use assms(3,4) in auto)

section \<open>The observations\<close>

definition ord_of :: "string \<Rightarrow> string \<Rightarrow> world \<Rightarrow> order_state" where
  "ord_of t oid w = order_fold (events_of (wd_pg w) t oid)"

definition pay_of :: "string \<Rightarrow> string \<Rightarrow> world \<Rightarrow> payment_status option" where
  "pay_of t oid w = status_of (wd_pay w) (t, oid)"

definition dsp_of :: "string \<Rightarrow> string \<Rightarrow> world \<Rightarrow> dispatch_state" where
  "dsp_of t oid w = dispatch_fold (events_of (wd_pg w) t (dispatchAggregateId oid))"

definition busy_of :: "string \<Rightarrow> world \<Rightarrow> string set" where
  "busy_of t w = wd_busy w (driverBusyKey t)"

definition offered_drivers :: "fold_event list \<Rightarrow> string list" where
  "offered_drivers es = remdups_adj
     (map (\<lambda>e. nullish (pl_driverId (fe_payload e)) []) (filter (\<lambda>e. fe_eventType e = DriverOffered) es))"

definition offers_of :: "string \<Rightarrow> string \<Rightarrow> world \<Rightarrow> string list" where
  "offers_of t oid w = offered_drivers (events_of (wd_pg w) t (dispatchAggregateId oid))"

definition world_inv :: "world \<Rightarrow> bool" where
  "world_inv w \<longleftrightarrow> store_inv (wd_pg w)"

lemmas observe_defs = ord_of_def pay_of_def dsp_of_def busy_of_def offers_of_def world_inv_def

lemma remdups_adj_snoc:
  "remdups_adj (xs @ [d]) = (if xs \<noteq> [] \<and> last xs = d then remdups_adj xs else remdups_adj xs @ [d])"
  by (cases xs rule: rev_cases) (auto simp: remdups_adj_append_two)

lemma remdups_adj_append_last: "remdups_adj (remdups_adj xs @ [d]) = remdups_adj (xs @ [d])"
proof -
  have "remdups_adj (remdups_adj xs) = remdups_adj xs"
    using distinct_adj_altdef distinct_adj_remdups_adj by blast
  then show ?thesis by (simp add: remdups_adj_snoc)
qed

lemma offered_drivers_snoc:
  "offered_drivers (es @ [e]) = (if fe_eventType e = DriverOffered
     then remdups_adj (offered_drivers es @ [nullish (pl_driverId (fe_payload e)) []]) else offered_drivers es)"
  by (simp add: offered_drivers_def remdups_adj_append_last)

lemma dispatch_id_ne: "dispatchAggregateId oid \<noteq> oid"
  by (metis append_self_conv2 dispatchAggregateId_def list.distinct(1))

lemma same_but_pgD:
  "same_but_pg w w' \<Longrightarrow> wd_pay w' = wd_pay w \<and> wd_busy w' = wd_busy w \<and> wd_catalog w' = wd_catalog w"
  unfolding same_but_pg_def by (cases w; cases w') simp

section \<open>The payment activities keep the order saga's laws\<close>

lemma payments_post_authorize:
  "payments_post e ''/payments/authorize''
     (JObj [(''tenantId'', JStr t), (''orderId'', JStr oid), (''amount'', JInt amount), (''idempotencyKey'', JStr k)]) db
   = (if 0 \<le> amount then pay_op e (AuthorizeReq t oid amount) db
      else (Inl (BadRequest ''validation failed''), db))"
  by (simp add: payments_post_def authorize_dto_def is_jstr_def jget_def jstr_def jint_def jstr_of_def)

lemma payments_post_capture:
  "payments_post e ''/payments/capture''
     (JObj [(''tenantId'', JStr t), (''orderId'', JStr oid), (''idempotencyKey'', JStr k)]) db
   = pay_op e (CaptureReq t oid) db"
  by (simp add: payments_post_def capture_void_dto_def is_jstr_def jget_def jstr_def jstr_of_def)

lemma payments_post_void:
  "payments_post e ''/payments/void''
     (JObj [(''tenantId'', JStr t), (''orderId'', JStr oid), (''idempotencyKey'', JStr k)]) db
   = pay_op e (VoidReq t oid) db"
  by (simp add: payments_post_def capture_void_dto_def is_jstr_def jget_def jstr_def jstr_of_def)

lemmas post_evals = payments_post_call_def payments_post_authorize payments_post_capture payments_post_void

text \<open>The states in which one order's saga finds the world, before and after a payment activity.\<close>

definition saga_at :: "string \<Rightarrow> string \<Rightarrow> order_state \<Rightarrow> payment_status option set \<Rightarrow> world \<Rightarrow> bool" where
  "saga_at t oid st ps w \<longleftrightarrow> world_inv w \<and> ord_of t oid w = st \<and> pay_of t oid w \<in> ps"

lemma saga_at_time: "saga_at t oid st ps w \<Longrightarrow> saga_at t oid st ps (w\<lparr>wd_tick := n, wd_clock := c\<rparr>)"
  by (simp add: saga_at_def observe_defs)

lemma pay_frame:
  "world_inv (w\<lparr>wd_pay := db\<rparr>) = world_inv w" "ord_of t oid (w\<lparr>wd_pay := db\<rparr>) = ord_of t oid w"
  by (simp_all add: observe_defs)

lemma authorize_body:
  assumes "saga_at t oid st {None, Some PAY_AUTHORIZED, Some PAY_DECLINED} w"
    and "authorizePayment t oid amount e w = (r, w')"
  shows "saga_at t oid st {None, Some PAY_AUTHORIZED, Some PAY_DECLINED} w'
    \<and> (\<forall>a. r = Inr a \<longrightarrow> pay_of t oid w' = Some (if a then PAY_AUTHORIZED else PAY_DECLINED))"
  using assms
  by (auto simp: authorizePayment_def post_evals pay_simps pay_frame saga_at_def pay_of_def status_of_def
      split: if_splits option.splits)

lemma capture_body:
  assumes "saga_at t oid st {Some PAY_AUTHORIZED, Some PAY_CAPTURED} w"
    and "capturePayment t oid e w = (r, w')"
  shows "saga_at t oid st {Some PAY_AUTHORIZED, Some PAY_CAPTURED} w'
    \<and> (\<forall>a. r = Inr a \<longrightarrow> pay_of t oid w' = Some PAY_CAPTURED)"
  using assms
  by (auto simp: capturePayment_def post_evals pay_simps pay_frame saga_at_def pay_of_def status_of_def
      split: if_splits option.splits payment_status.splits)

lemma void_body:
  assumes "saga_at t oid st {Some PAY_AUTHORIZED, Some PAY_VOIDED} w"
    and "voidPayment t oid e w = (r, w')"
  shows "saga_at t oid st {Some PAY_AUTHORIZED, Some PAY_VOIDED} w'
    \<and> (\<forall>a. r = Inr a \<longrightarrow> pay_of t oid w' = Some PAY_VOIDED)"
  using assms
  by (auto simp: voidPayment_def post_evals pay_simps pay_frame saga_at_def pay_of_def status_of_def
      split: if_splits option.splits payment_status.splits)

lemma void_captured_body:
  assumes "saga_at t oid st {Some PAY_CAPTURED} w" and "voidPayment t oid e w = (r, w')"
  shows "saga_at t oid st {Some PAY_CAPTURED} w' \<and> (\<forall>a. r = Inr a \<longrightarrow> True)"
  using assms
  by (auto simp: voidPayment_def post_evals pay_simps pay_frame saga_at_def pay_of_def status_of_def
      split: if_splits option.splits payment_status.splits)

section \<open>The recording activities keep the order saga's laws\<close>

lemma order_fold_snoc: "order_fold (es @ [e]) = foldOrder (order_fold es) e"
  by (simp add: order_fold_def)

definition order_at ::
    "string \<Rightarrow> string \<Rightarrow> payment_status option \<Rightarrow> (order_state \<Rightarrow> bool) \<Rightarrow> world \<Rightarrow> bool" where
  "order_at t oid p S w \<longleftrightarrow> world_inv w \<and> pay_of t oid w = p \<and> S (ord_of t oid w)"

lemma order_at_time: "order_at t oid p S w \<Longrightarrow> order_at t oid p S (w\<lparr>wd_tick := n, wd_clock := c\<rparr>)"
  by (simp add: order_at_def observe_defs)

text \<open>Recording from a placed order, or from the state an earlier attempt left, gives that state.\<close>

lemma record_order_body:
  assumes at: "order_at t oid p (\<lambda>o'. os_status o' = Some PLACED \<or> G o') w"
    and fires: "\<And>o'. os_status o' = Some PLACED \<Longrightarrow> \<exists>pl. build o' = Inr pl"
    and refuses: "\<And>o'. G o' \<Longrightarrow> \<exists>x. build o' = Inl x"
    and reaches: "\<And>o' pl v. build o' = Inr pl \<Longrightarrow>
        G (foldOrder o' \<lparr>fe_eventType = ty, fe_payload = pl, fe_version = v\<rparr>)"
    and run: "record_order_event t oid ty build corr e w = (r, w')"
  shows "order_at t oid p (\<lambda>o'. os_status o' = Some PLACED \<or> G o') w'
    \<and> (\<forall>a. r = Inr a \<longrightarrow> G (ord_of t oid w'))"
proof -
  from at have inv: "store_inv (wd_pg w)" by (simp add: order_at_def observe_defs)
  have eff: "record_effect t oid ty (build (ord_of t oid w)) w (r, w')"
    using record_order_event_effect [OF inv, of t oid ty build corr e] run by (simp add: ord_of_def)
  then have pay: "pay_of t oid w' = pay_of t oid w" and inv': "world_inv w'"
    by (auto simp: record_effect_def pay_of_def world_inv_def dest: same_but_pgD)
  show ?thesis
  proof (cases "build (ord_of t oid w)")
    case (Inl x)
    with eff have "w' = w" by (simp add: record_effect_def)
    moreover have "G (ord_of t oid w)" using at fires [of "ord_of t oid w"] Inl by (auto simp: order_at_def)
    ultimately show ?thesis using at by (simp add: order_at_def)
  next
    case (Inr pl)
    from eff Inr consider "w' = w" "\<exists>m. r = Inl m"
      | v where "events_of (wd_pg w') t oid = events_of (wd_pg w) t oid @
          [\<lparr>fe_eventType = ty, fe_payload = pl, fe_version = v\<rparr>]"
      by (auto simp: record_effect_def)
    then show ?thesis
    proof cases
      case 1
      then show ?thesis using at by auto
    next
      case 2
      then have "ord_of t oid w' = foldOrder (ord_of t oid w) \<lparr>fe_eventType = ty, fe_payload = pl, fe_version = v\<rparr>"
        by (simp add: ord_of_def order_fold_snoc)
      with reaches [OF Inr] have "G (ord_of t oid w')" by simp
      with at pay inv' show ?thesis by (simp add: order_at_def)
    qed
  qed
qed

lemma accepted_body:
  assumes "order_at t oid p (\<lambda>o'. os_status o' = Some PLACED \<or> os_status o' = Some ACCEPTED) w"
    and "recordOrderAccepted t oid corr e w = (r, w')"
  shows "order_at t oid p (\<lambda>o'. os_status o' = Some PLACED \<or> os_status o' = Some ACCEPTED) w'
    \<and> (\<forall>a. r = Inr a \<longrightarrow> os_status (ord_of t oid w') = Some ACCEPTED)"
  using assms unfolding recordOrderAccepted_def
  by (intro record_order_body) (auto simp: accept_def foldOrder_def split: if_splits)

lemma cancelled_body:
  assumes "order_at t oid p (\<lambda>o'. os_status o' = Some PLACED \<or> is_cancelled o' reason) w"
    and "recordOrderCancelled t oid reason corr e w = (r, w')"
  shows "order_at t oid p (\<lambda>o'. os_status o' = Some PLACED \<or> is_cancelled o' reason) w'
    \<and> (\<forall>a. r = Inr a \<longrightarrow> is_cancelled (ord_of t oid w') reason)"
  using assms unfolding recordOrderCancelled_def
  by (intro record_order_body)
    (auto simp: cancel_def foldOrder_def is_cancelled_def payload_defs split: if_splits)

section \<open>The dispatch activities keep the dispatch workflow's laws\<close>

text \<open>The world as one dispatch finds it: its aggregate, the tenant's busy set, the offers made.\<close>

definition dispatch_at ::
    "string \<Rightarrow> string \<Rightarrow> (dispatch_state \<Rightarrow> bool) \<Rightarrow> (string set \<Rightarrow> bool) \<Rightarrow> (string list \<Rightarrow> bool) \<Rightarrow> world \<Rightarrow> bool" where
  "dispatch_at t oid S B Os w \<longleftrightarrow> world_inv w \<and> S (dsp_of t oid w) \<and> B (busy_of t w) \<and> Os (offers_of t oid w)"

lemma dispatch_at_time:
  "dispatch_at t oid S B Os w \<Longrightarrow> dispatch_at t oid S B Os (w\<lparr>wd_tick := n, wd_clock := c\<rparr>)"
  by (simp add: dispatch_at_def observe_defs)

lemma busy_frame:
  "world_inv (w\<lparr>wd_busy := b\<rparr>) = world_inv w" "dsp_of t oid (w\<lparr>wd_busy := b\<rparr>) = dsp_of t oid w"
  "offers_of t oid (w\<lparr>wd_busy := b\<rparr>) = offers_of t oid w" "ord_of t oid (w\<lparr>wd_busy := b\<rparr>) = ord_of t oid w"
  "pay_of t oid (w\<lparr>wd_busy := b\<rparr>) = pay_of t oid w"
  by (simp_all add: observe_defs)

lemma catalog_frame:
  "world_inv (w\<lparr>wd_catalog := c\<rparr>) = world_inv w" "dsp_of t oid (w\<lparr>wd_catalog := c\<rparr>) = dsp_of t oid w"
  "offers_of t oid (w\<lparr>wd_catalog := c\<rparr>) = offers_of t oid w" "ord_of t oid (w\<lparr>wd_catalog := c\<rparr>) = ord_of t oid w"
  "pay_of t oid (w\<lparr>wd_catalog := c\<rparr>) = pay_of t oid w" "busy_of t (w\<lparr>wd_catalog := c\<rparr>) = busy_of t w"
  by (simp_all add: observe_defs)

lemma select_body:
  assumes "dispatch_at t oid S B Os w" and "selectNearestAvailableDriver t ex e w = (r, w')"
  shows "dispatch_at t oid S B Os w'
    \<and> (\<forall>c. r = Inr c \<longrightarrow> (\<forall>d. c = Some d \<longrightarrow> d \<notin> set ex \<and> d \<notin> busy_of t w'))"
  using assms
  by (auto simp: selectNearestAvailableDriver_def dispatch_at_def catalog_frame first_available_spec
      busy_of_def find_Some_iff split: prod.splits sum.splits option.splits)

lemma mark_body:
  assumes "dispatch_at t oid S (\<lambda>b. b \<in> {b0, insert d b0}) Os w" and "markBusy t d e w = (r, w')"
  shows "dispatch_at t oid S (\<lambda>b. b \<in> {b0, insert d b0}) Os w'
    \<and> (\<forall>a. r = Inr a \<longrightarrow> busy_of t w' = insert d b0)"
proof -
  from assms(2) have w': "w' = w\<lparr>wd_busy := (wd_busy w)(driverBusyKey t := insert d (busy_of t w))\<rparr>"
    by (simp add: markBusy_def busy_of_def)
  have "insert d (busy_of t w) = insert d b0" using assms(1) by (auto simp: dispatch_at_def)
  then have "busy_of t w' = insert d b0" by (simp add: w' busy_of_def)
  then show ?thesis using assms(1) by (simp add: dispatch_at_def w' busy_frame)
qed

lemma clear_body:
  assumes "dispatch_at t oid S (\<lambda>b. b \<in> {b0, b0 - {d}}) Os w" and "clearBusy t d e w = (r, w')"
  shows "dispatch_at t oid S (\<lambda>b. b \<in> {b0, b0 - {d}}) Os w'
    \<and> (\<forall>a. r = Inr a \<longrightarrow> busy_of t w' = b0 - {d})"
proof -
  from assms(2) have w': "w' = w\<lparr>wd_busy := (wd_busy w)(driverBusyKey t := busy_of t w - {d})\<rparr>"
    by (simp add: clearBusy_def busy_of_def)
  have "busy_of t w - {d} = b0 - {d}" using assms(1) by (auto simp: dispatch_at_def)
  then have "busy_of t w' = b0 - {d}" by (simp add: w' busy_of_def)
  then show ?thesis using assms(1) by (simp add: dispatch_at_def w' busy_frame)
qed

text \<open>
  Recording a dispatch event: either the aggregate refuses and nothing happens, or the append fails
  and nothing happens, or the event is folded in.
\<close>

lemma dispatch_append_cases:
  assumes "world_inv w" and "dispatch_append t oid ty build corr e w = (r, w')"
  obtains x where "build (dsp_of t oid w) = Inl x" "r = Inr ()" "w' = w"
  | pl m where "build (dsp_of t oid w) = Inr pl" "r = Inl m" "w' = w"
  | pl v where "build (dsp_of t oid w) = Inr pl" "r = Inr ()" "world_inv w'" "same_but_pg w w'"
      "dsp_of t oid w' = foldDispatch (dsp_of t oid w) \<lparr>fe_eventType = ty, fe_payload = pl, fe_version = v\<rparr>"
      "offers_of t oid w' = (if ty = DriverOffered
         then remdups_adj (offers_of t oid w @ [nullish (pl_driverId pl) []]) else offers_of t oid w)"
proof -
  from assms(1) have inv: "store_inv (wd_pg w)" by (simp add: world_inv_def)
  have eff: "record_effect t (dispatchAggregateId oid) ty (build (dsp_of t oid w)) w (r, w')"
    using dispatch_append_effect [OF inv, of t oid ty build corr e] assms(2) by (simp add: dsp_of_def)
  show thesis
  proof (cases "build (dsp_of t oid w)")
    case (Inl x)
    with eff that(1) show thesis by (auto simp: record_effect_def)
  next
    case (Inr pl)
    with eff consider m where "w' = w" "r = Inl m"
      | v where "r = Inr ()" "world_inv w'" "same_but_pg w w'"
        "events_of (wd_pg w') t (dispatchAggregateId oid) = events_of (wd_pg w) t (dispatchAggregateId oid) @
          [\<lparr>fe_eventType = ty, fe_payload = pl, fe_version = v\<rparr>]"
      by (auto simp: record_effect_def world_inv_def)
    then show thesis
    proof cases
      case 1
      with Inr that(2) show thesis by blast
    next
      case 2
      show thesis
        by (rule that(3) [OF Inr 2(1-3)]) (use 2(4) in \<open>auto simp: dsp_of_def dispatch_fold_snoc offers_of_def
            offered_drivers_snoc\<close>)
    qed
  qed
qed

lemma busy_of_same: "same_but_pg w w' \<Longrightarrow> busy_of t w' = busy_of t w"
  by (auto simp: busy_of_def dest: same_but_pgD)

lemma offered_body:
  assumes "dispatch_at t oid (\<lambda>s. ds_status s = None \<or> ds_status s = Some OFFERED) B
      (\<lambda>os. os \<in> {os0, remdups_adj (os0 @ [d])}) w"
    and "recordDriverOffered t oid d corr e w = (r, w')"
  shows "dispatch_at t oid (\<lambda>s. ds_status s = None \<or> ds_status s = Some OFFERED) B
      (\<lambda>os. os \<in> {os0, remdups_adj (os0 @ [d])}) w'
    \<and> (\<forall>a. r = Inr a \<longrightarrow> offers_of t oid w' = remdups_adj (os0 @ [d])
        \<and> ds_status (dsp_of t oid w') = Some OFFERED \<and> ds_offeredDriverId (dsp_of t oid w') = Some d)"
proof -
  from assms(1) have at: "world_inv w" "ds_status (dsp_of t oid w) = None \<or> ds_status (dsp_of t oid w) = Some OFFERED"
    "B (busy_of t w)" "offers_of t oid w \<in> {os0, remdups_adj (os0 @ [d])}" by (simp_all add: dispatch_at_def)
  have again: "remdups_adj (remdups_adj (os0 @ [d]) @ [d]) = remdups_adj (os0 @ [d])"
    by (simp add: remdups_adj_append_last remdups_adj_append_two)
  from at(1) assms(2) [unfolded recordDriverOffered_def] show ?thesis
  proof (cases rule: dispatch_append_cases)
    case (1 x)
    with at(2) show ?thesis by (auto simp: offer_def)
  next
    case (2 pl m)
    then show ?thesis using assms(1) by simp
  next
    case (3 pl v)
    then have pl: "pl = driver_payload oid d" by (auto simp: offer_def split: if_splits)
    show ?thesis using 3 at again by (auto simp: pl dispatch_at_def foldDispatch_def payload_defs busy_of_same)
  qed
qed

text \<open>The other events step the aggregate from one status to the next, and can be retried.\<close>

lemma dispatch_step_body:
  assumes at: "dispatch_at t oid (\<lambda>s. F s \<or> G s) B Os w" and ty: "ty \<noteq> DriverOffered"
    and fires: "\<And>s. F s \<Longrightarrow> \<exists>pl. build s = Inr pl"
    and refuses: "\<And>s x. build s = Inl x \<Longrightarrow> F s \<or> G s \<Longrightarrow> G s"
    and reaches: "\<And>s pl v. F s \<or> G s \<Longrightarrow> build s = Inr pl \<Longrightarrow>
        G (foldDispatch s \<lparr>fe_eventType = ty, fe_payload = pl, fe_version = v\<rparr>)"
    and run: "dispatch_append t oid ty build corr e w = (r, w')"
  shows "dispatch_at t oid (\<lambda>s. F s \<or> G s) B Os w' \<and> (\<forall>a. r = Inr a \<longrightarrow> G (dsp_of t oid w'))"
proof -
  from at have w: "world_inv w" "F (dsp_of t oid w) \<or> G (dsp_of t oid w)" "B (busy_of t w)" "Os (offers_of t oid w)"
    by (simp_all add: dispatch_at_def)
  from w(1) run show ?thesis
  proof (cases rule: dispatch_append_cases)
    case (1 x)
    then show ?thesis using at refuses [OF _ w(2)] by simp
  next
    case (2 pl m)
    then show ?thesis using at by simp
  next
    case (3 pl v)
    from reaches [OF w(2) 3(1), of v] 3 w ty show ?thesis by (simp add: dispatch_at_def busy_of_same)
  qed
qed

lemma dispatch_accepted_body:
  assumes "dispatch_at t oid (\<lambda>s. (ds_status s = Some OFFERED \<and> ds_offeredDriverId s = Some d)
      \<or> (ds_status s = Some DISPATCHED \<and> ds_driverId s = Some d)) B Os w"
    and "recordDispatchAccepted t oid d corr e w = (r, w')"
  shows "dispatch_at t oid (\<lambda>s. (ds_status s = Some OFFERED \<and> ds_offeredDriverId s = Some d)
      \<or> (ds_status s = Some DISPATCHED \<and> ds_driverId s = Some d)) B Os w'
    \<and> (\<forall>a. r = Inr a \<longrightarrow> ds_status (dsp_of t oid w') = Some DISPATCHED \<and> ds_driverId (dsp_of t oid w') = Some d)"
  using assms unfolding recordDispatchAccepted_def
  by (intro dispatch_step_body) (auto simp: acceptOffer_def foldDispatch_def payload_defs split: if_splits)

lemma picked_up_body:
  assumes "dispatch_at t oid (\<lambda>s. (ds_status s = Some DISPATCHED \<and> ds_driverId s = d)
      \<or> (ds_status s = Some PICKED_UP \<and> ds_driverId s = d)) B Os w"
    and "recordOrderPickedUp t oid corr e w = (r, w')"
  shows "dispatch_at t oid (\<lambda>s. (ds_status s = Some DISPATCHED \<and> ds_driverId s = d)
      \<or> (ds_status s = Some PICKED_UP \<and> ds_driverId s = d)) B Os w'
    \<and> (\<forall>a. r = Inr a \<longrightarrow> ds_status (dsp_of t oid w') = Some PICKED_UP \<and> ds_driverId (dsp_of t oid w') = d)"
  using assms unfolding recordOrderPickedUp_def
  by (intro dispatch_step_body) (auto simp: pickup_def foldDispatch_def payload_defs split: if_splits)

lemma delivered_body:
  assumes "dispatch_at t oid (\<lambda>s. (ds_status s = Some PICKED_UP \<and> ds_driverId s = d)
      \<or> (ds_status s = Some DELIVERED \<and> ds_driverId s = d)) B Os w"
    and "recordOrderDelivered t oid corr e w = (r, w')"
  shows "dispatch_at t oid (\<lambda>s. (ds_status s = Some PICKED_UP \<and> ds_driverId s = d)
      \<or> (ds_status s = Some DELIVERED \<and> ds_driverId s = d)) B Os w'
    \<and> (\<forall>a. r = Inr a \<longrightarrow> ds_status (dsp_of t oid w') = Some DELIVERED \<and> ds_driverId (dsp_of t oid w') = d)"
  using assms unfolding recordOrderDelivered_def
  by (intro dispatch_step_body) (auto simp: deliver_def foldDispatch_def payload_defs split: if_splits)

lemma failed_body:
  assumes "dispatch_at t oid (\<lambda>s. (ds_status s \<noteq> Some DELIVERED \<and> ds_status s \<noteq> Some FAILED)
      \<or> (ds_status s = Some FAILED \<and> ds_reason s = Some reason)) B Os w"
    and "recordDispatchFailed t oid reason corr e w = (r, w')"
  shows "dispatch_at t oid (\<lambda>s. (ds_status s \<noteq> Some DELIVERED \<and> ds_status s \<noteq> Some FAILED)
      \<or> (ds_status s = Some FAILED \<and> ds_reason s = Some reason)) B Os w'
    \<and> (\<forall>a. r = Inr a \<longrightarrow> ds_status (dsp_of t oid w') = Some FAILED \<and> ds_reason (dsp_of t oid w') = Some reason)"
  using assms unfolding recordDispatchFailed_def
  by (intro dispatch_step_body)
    (auto simp: fail_def TERMINAL_def foldDispatch_def payload_defs split: if_splits option.splits)

lemma worker_dispatch_simps [simp]:
  "dx_clock worker_dispatch_activities = wd_clock" "dx_advance worker_dispatch_activities = advance_to"
  "dx_selectNearestAvailableDriver worker_dispatch_activities t ex = proxied (attempt (selectNearestAvailableDriver t ex))"
  "dx_markBusy worker_dispatch_activities t d = proxied (attempt (markBusy t d))"
  "dx_clearBusy worker_dispatch_activities t d = proxied (attempt (clearBusy t d))"
  "dx_recordDriverOffered worker_dispatch_activities t oid d corr = proxied (attempt (recordDriverOffered t oid d corr))"
  "dx_recordDispatchAccepted worker_dispatch_activities t oid d corr = proxied (attempt (recordDispatchAccepted t oid d corr))"
  "dx_recordOrderPickedUp worker_dispatch_activities t oid corr = proxied (attempt (recordOrderPickedUp t oid corr))"
  "dx_recordOrderDelivered worker_dispatch_activities t oid corr = proxied (attempt (recordOrderDelivered t oid corr))"
  "dx_recordDispatchFailed worker_dispatch_activities t oid r corr = proxied (attempt (recordDispatchFailed t oid r corr))"
  by (simp_all add: worker_dispatch_activities_def)

lemma advance_frame:
  "world_inv (advance_to n w) = world_inv w" "dsp_of t oid (advance_to n w) = dsp_of t oid w"
  "offers_of t oid (advance_to n w) = offers_of t oid w" "ord_of t oid (advance_to n w) = ord_of t oid w"
  "pay_of t oid (advance_to n w) = pay_of t oid w" "busy_of t (advance_to n w) = busy_of t w"
  by (simp_all add: observe_defs advance_to_def)

lemma dispatch_at_here:
  "world_inv w \<Longrightarrow> S (dsp_of t oid w) \<Longrightarrow> B (busy_of t w) \<Longrightarrow> Os (offers_of t oid w) \<Longrightarrow> dispatch_at t oid S B Os w"
  by (simp add: dispatch_at_def)

interpretation dsw: dispatch_env worker_dispatch_activities tid oid world_inv
    "dsp_of tid oid" "busy_of tid" "offers_of tid oid" for tid oid
proof (unfold_locales, simp_all only: worker_dispatch_simps)
  fix n and w :: world
  assume "world_inv w"
  then show "world_inv (advance_to n w) \<and> dsp_of tid oid (advance_to n w) = dsp_of tid oid w
      \<and> busy_of tid (advance_to n w) = busy_of tid w \<and> offers_of tid oid (advance_to n w) = offers_of tid oid w"
    by (simp add: advance_frame)
next
  fix ex rs and w w' :: world
  assume inv: "world_inv w" and run: "proxied (attempt (selectNearestAvailableDriver tid ex)) w = (rs, w')"
  show "world_inv w' \<and> dsp_of tid oid w' = dsp_of tid oid w \<and> busy_of tid w' = busy_of tid w
      \<and> offers_of tid oid w' = offers_of tid oid w
      \<and> (\<forall>d. rs = Inr (Some d) \<longrightarrow> d \<notin> set ex \<and> d \<notin> busy_of tid w')"
  proof -
    let ?P = "dispatch_at tid oid (\<lambda>s. s = dsp_of tid oid w) (\<lambda>b. b = busy_of tid w) (\<lambda>os. os = offers_of tid oid w)"
    have "?P w' \<and> (\<forall>a. rs = Inr a \<longrightarrow> (\<lambda>c w'. \<forall>d. c = Some d \<longrightarrow> d \<notin> set ex \<and> d \<notin> busy_of tid w') a w')"
    proof (rule proxied_attempt_rule [where P = ?P and body = "selectNearestAvailableDriver tid ex", OF _ dispatch_at_time _ run])
      show "?P w" using inv by (simp add: dispatch_at_def)
    qed (drule (1) select_body, simp)
    then show ?thesis by (auto simp: dispatch_at_def)
  qed
next
  fix d r and w w' :: world
  assume inv: "world_inv w" and run: "proxied (attempt (markBusy tid d)) w = (r, w')"
  show "world_inv w' \<and> dsp_of tid oid w' = dsp_of tid oid w \<and> offers_of tid oid w' = offers_of tid oid w
      \<and> busy_of tid w' \<in> {busy_of tid w, insert d (busy_of tid w)}
      \<and> (r = Inr () \<longrightarrow> busy_of tid w' = insert d (busy_of tid w))"
  proof -
    let ?P = "dispatch_at tid oid (\<lambda>s. s = dsp_of tid oid w) (\<lambda>b. b \<in> {busy_of tid w, insert d (busy_of tid w)}) (\<lambda>os. os = offers_of tid oid w)"
    have "?P w' \<and> (\<forall>a. r = Inr a \<longrightarrow> (\<lambda>a w'. busy_of tid w' = insert d (busy_of tid w)) a w')"
    proof (rule proxied_attempt_rule [where P = ?P and body = "markBusy tid d", OF _ dispatch_at_time _ run])
      show "?P w" using inv by (simp add: dispatch_at_def)
    qed (drule (1) mark_body, simp)
    then show ?thesis by (simp add: dispatch_at_def)
  qed
next
  fix d r and w w' :: world
  assume inv: "world_inv w" and run: "proxied (attempt (clearBusy tid d)) w = (r, w')"
  show "world_inv w' \<and> dsp_of tid oid w' = dsp_of tid oid w \<and> offers_of tid oid w' = offers_of tid oid w
      \<and> busy_of tid w' \<in> {busy_of tid w, busy_of tid w - {d}}
      \<and> (r = Inr () \<longrightarrow> busy_of tid w' = busy_of tid w - {d})"
  proof -
    let ?P = "dispatch_at tid oid (\<lambda>s. s = dsp_of tid oid w) (\<lambda>b. b \<in> {busy_of tid w, busy_of tid w - {d}}) (\<lambda>os. os = offers_of tid oid w)"
    have "?P w' \<and> (\<forall>a. r = Inr a \<longrightarrow> (\<lambda>a w'. busy_of tid w' = busy_of tid w - {d}) a w')"
    proof (rule proxied_attempt_rule [where P = ?P and body = "clearBusy tid d", OF _ dispatch_at_time _ run])
      show "?P w" using inv by (simp add: dispatch_at_def)
    qed (drule (1) clear_body, simp)
    then show ?thesis by (simp add: dispatch_at_def)
  qed
next
  fix d corr r and w w' :: world
  assume inv: "world_inv w" and st: "ds_status (dsp_of tid oid w) \<in> {None, Some OFFERED}"
    and run: "proxied (attempt (recordDriverOffered tid oid d corr)) w = (r, w')"
  show "world_inv w' \<and> busy_of tid w' = busy_of tid w \<and> ds_status (dsp_of tid oid w') \<in> {None, Some OFFERED}
      \<and> offers_of tid oid w' \<in> {offers_of tid oid w, remdups_adj (offers_of tid oid w @ [d])}
      \<and> (r = Inr () \<longrightarrow> offers_of tid oid w' = remdups_adj (offers_of tid oid w @ [d])
          \<and> ds_status (dsp_of tid oid w') = Some OFFERED \<and> ds_offeredDriverId (dsp_of tid oid w') = Some d)"
  proof -
    let ?P = "dispatch_at tid oid (\<lambda>s. ds_status s = None \<or> ds_status s = Some OFFERED) (\<lambda>b. b = busy_of tid w) (\<lambda>os. os \<in> {offers_of tid oid w, remdups_adj (offers_of tid oid w @ [d])})"
    have "?P w' \<and> (\<forall>a. r = Inr a \<longrightarrow> (\<lambda>a w'. offers_of tid oid w' = remdups_adj (offers_of tid oid w @ [d]) \<and> ds_status (dsp_of tid oid w') = Some OFFERED \<and> ds_offeredDriverId (dsp_of tid oid w') = Some d) a w')"
    proof (rule proxied_attempt_rule [where P = ?P and body = "recordDriverOffered tid oid d corr", OF _ dispatch_at_time _ run])
      show "?P w" using inv st by (simp add: dispatch_at_def)
    qed (drule (1) offered_body, simp)
    then show ?thesis by (simp add: dispatch_at_def)
  qed
next
  fix d corr r and w w' :: world
  assume inv: "world_inv w" and st: "ds_status (dsp_of tid oid w) = Some OFFERED"
      "ds_offeredDriverId (dsp_of tid oid w) = Some d"
    and run: "proxied (attempt (recordDispatchAccepted tid oid d corr)) w = (r, w')"
  show "world_inv w' \<and> busy_of tid w' = busy_of tid w \<and> offers_of tid oid w' = offers_of tid oid w
      \<and> (r = Inr () \<longrightarrow> ds_status (dsp_of tid oid w') = Some DISPATCHED \<and> ds_driverId (dsp_of tid oid w') = Some d)"
  proof -
    let ?P = "dispatch_at tid oid (\<lambda>s. (ds_status s = Some OFFERED \<and> ds_offeredDriverId s = Some d) \<or> (ds_status s = Some DISPATCHED \<and> ds_driverId s = Some d)) (\<lambda>b. b = busy_of tid w) (\<lambda>os. os = offers_of tid oid w)"
    have "?P w' \<and> (\<forall>a. r = Inr a \<longrightarrow> (\<lambda>a w'. ds_status (dsp_of tid oid w') = Some DISPATCHED \<and> ds_driverId (dsp_of tid oid w') = Some d) a w')"
    proof (rule proxied_attempt_rule [where P = ?P and body = "recordDispatchAccepted tid oid d corr", OF _ dispatch_at_time _ run])
      show "?P w" using inv st by (simp add: dispatch_at_def)
    qed (drule (1) dispatch_accepted_body, simp)
    then show ?thesis by (simp add: dispatch_at_def)
  qed
next
  fix corr r and w w' :: world
  assume inv: "world_inv w" and st: "ds_status (dsp_of tid oid w) = Some DISPATCHED"
    and run: "proxied (attempt (recordOrderPickedUp tid oid corr)) w = (r, w')"
  show "world_inv w' \<and> busy_of tid w' = busy_of tid w \<and> offers_of tid oid w' = offers_of tid oid w
      \<and> (r = Inr () \<longrightarrow> ds_status (dsp_of tid oid w') = Some PICKED_UP
          \<and> ds_driverId (dsp_of tid oid w') = ds_driverId (dsp_of tid oid w))"
  proof -
    let ?P = "dispatch_at tid oid (\<lambda>s. (ds_status s = Some DISPATCHED \<and> ds_driverId s = ds_driverId (dsp_of tid oid w)) \<or> (ds_status s = Some PICKED_UP \<and> ds_driverId s = ds_driverId (dsp_of tid oid w))) (\<lambda>b. b = busy_of tid w) (\<lambda>os. os = offers_of tid oid w)"
    have "?P w' \<and> (\<forall>a. r = Inr a \<longrightarrow> (\<lambda>a w'. ds_status (dsp_of tid oid w') = Some PICKED_UP \<and> ds_driverId (dsp_of tid oid w') = ds_driverId (dsp_of tid oid w)) a w')"
    proof (rule proxied_attempt_rule [where P = ?P and body = "recordOrderPickedUp tid oid corr", OF _ dispatch_at_time _ run])
      show "?P w" using inv st by (simp add: dispatch_at_def)
    qed (drule (1) picked_up_body, simp)
    then show ?thesis by (simp add: dispatch_at_def)
  qed
next
  fix corr r and w w' :: world
  assume inv: "world_inv w" and st: "ds_status (dsp_of tid oid w) = Some PICKED_UP"
    and run: "proxied (attempt (recordOrderDelivered tid oid corr)) w = (r, w')"
  show "world_inv w' \<and> busy_of tid w' = busy_of tid w \<and> offers_of tid oid w' = offers_of tid oid w
      \<and> (r = Inr () \<longrightarrow> ds_status (dsp_of tid oid w') = Some DELIVERED
          \<and> ds_driverId (dsp_of tid oid w') = ds_driverId (dsp_of tid oid w))"
  proof -
    let ?P = "dispatch_at tid oid (\<lambda>s. (ds_status s = Some PICKED_UP \<and> ds_driverId s = ds_driverId (dsp_of tid oid w)) \<or> (ds_status s = Some DELIVERED \<and> ds_driverId s = ds_driverId (dsp_of tid oid w))) (\<lambda>b. b = busy_of tid w) (\<lambda>os. os = offers_of tid oid w)"
    have "?P w' \<and> (\<forall>a. r = Inr a \<longrightarrow> (\<lambda>a w'. ds_status (dsp_of tid oid w') = Some DELIVERED \<and> ds_driverId (dsp_of tid oid w') = ds_driverId (dsp_of tid oid w)) a w')"
    proof (rule proxied_attempt_rule [where P = ?P and body = "recordOrderDelivered tid oid corr", OF _ dispatch_at_time _ run])
      show "?P w" using inv st by (simp add: dispatch_at_def)
    qed (drule (1) delivered_body, simp)
    then show ?thesis by (simp add: dispatch_at_def)
  qed
next
  fix reason corr r and w w' :: world
  assume inv: "world_inv w" and st: "ds_status (dsp_of tid oid w) \<notin> {Some DELIVERED, Some FAILED}"
    and run: "proxied (attempt (recordDispatchFailed tid oid reason corr)) w = (r, w')"
  show "world_inv w' \<and> busy_of tid w' = busy_of tid w \<and> offers_of tid oid w' = offers_of tid oid w
      \<and> (r = Inr () \<longrightarrow> ds_status (dsp_of tid oid w') = Some FAILED \<and> ds_reason (dsp_of tid oid w') = Some reason)"
  proof -
    let ?P = "dispatch_at tid oid (\<lambda>s. (ds_status s \<noteq> Some DELIVERED \<and> ds_status s \<noteq> Some FAILED) \<or> (ds_status s = Some FAILED \<and> ds_reason s = Some reason)) (\<lambda>b. b = busy_of tid w) (\<lambda>os. os = offers_of tid oid w)"
    have "?P w' \<and> (\<forall>a. r = Inr a \<longrightarrow> (\<lambda>a w'. ds_status (dsp_of tid oid w') = Some FAILED \<and> ds_reason (dsp_of tid oid w') = Some reason) a w')"
    proof (rule proxied_attempt_rule [where P = ?P and body = "recordDispatchFailed tid oid reason corr", OF _ dispatch_at_time _ run])
      show "?P w" using inv st by (simp add: dispatch_at_def)
    qed (drule (1) failed_body, simp)
    then show ?thesis by (simp add: dispatch_at_def)
  qed
qed

section \<open>The order saga on the worker's activities\<close>

text \<open>The dispatch activities leave the order and the payment alone.\<close>

definition order_fixed :: "string \<Rightarrow> string \<Rightarrow> order_state \<Rightarrow> payment_status option \<Rightarrow> world \<Rightarrow> bool" where
  "order_fixed t oid st p w \<longleftrightarrow> world_inv w \<and> ord_of t oid w = st \<and> pay_of t oid w = p"

lemma order_fixed_time: "order_fixed t oid st p w \<Longrightarrow> order_fixed t oid st p (w\<lparr>wd_tick := n, wd_clock := c\<rparr>)"
  by (simp add: order_fixed_def observe_defs)

lemma dispatch_append_fixed:
  assumes "order_fixed t oid st p w" and "dispatch_append t oid ty build corr e w = (r, w')"
  shows "order_fixed t oid st p w'"
proof -
  from assms(1) have inv: "store_inv (wd_pg w)" by (simp add: order_fixed_def world_inv_def)
  have "record_effect t (dispatchAggregateId oid) ty (build (dsp_of t oid w)) w (r, w')"
    using dispatch_append_effect [OF inv, of t oid ty build corr e] assms(2) by (simp add: dsp_of_def)
  then have "store_inv (wd_pg w')" "same_but_pg w w'" "events_of (wd_pg w') t oid = events_of (wd_pg w) t oid"
    using dispatch_id_ne [of oid] by (auto simp: record_effect_def)
  with assms(1) show ?thesis by (auto simp: order_fixed_def observe_defs dest: same_but_pgD)
qed

lemma select_fixed:
  "order_fixed t oid st p w \<Longrightarrow> selectNearestAvailableDriver t ex e w = (r, w') \<Longrightarrow> order_fixed t oid st p w'"
  by (auto simp: selectNearestAvailableDriver_def order_fixed_def catalog_frame
      split: prod.splits sum.splits option.splits)

lemma mark_fixed: "order_fixed t oid st p w \<Longrightarrow> markBusy t d e w = (r, w') \<Longrightarrow> order_fixed t oid st p w'"
  by (auto simp: markBusy_def order_fixed_def busy_frame)

lemma clear_fixed: "order_fixed t oid st p w \<Longrightarrow> clearBusy t d e w = (r, w') \<Longrightarrow> order_fixed t oid st p w'"
  by (auto simp: clearBusy_def order_fixed_def busy_frame)

lemma proxied_keeps:
  assumes "\<And>e w r w'. P w \<Longrightarrow> body e w = (r, w') \<Longrightarrow> P w'"
    and "\<And>w n c. P w \<Longrightarrow> P (w\<lparr>wd_tick := n, wd_clock := c\<rparr>)" and "P w"
  shows "P (snd (proxied (attempt body) w))"
  using proxied_attempt_rule [where P = P and body = body and Q = "\<lambda>_ _. True" and w = w
      and r = "fst (proxied (attempt body) w)" and w' = "snd (proxied (attempt body) w)"] assms by auto

interpretation dsf: dispatch_frame worker_dispatch_activities tid oid "order_fixed tid oid st p" for tid oid st p
proof (unfold_locales, simp_all only: worker_dispatch_simps)
  show "order_fixed tid oid st p w \<Longrightarrow> order_fixed tid oid st p (advance_to n w)" for w n
    by (simp add: order_fixed_def advance_frame)
  show "order_fixed tid oid st p w \<Longrightarrow>
      order_fixed tid oid st p (snd (proxied (attempt (selectNearestAvailableDriver tid ex)) w))" for ex w
    by (rule proxied_keeps [where P = "order_fixed tid oid st p"])
      (erule (1) select_fixed, erule order_fixed_time, assumption)
  show "order_fixed tid oid st p w \<Longrightarrow> order_fixed tid oid st p (snd (proxied (attempt (markBusy tid d)) w))" for d w
    by (rule proxied_keeps [where P = "order_fixed tid oid st p"])
      (erule (1) mark_fixed, erule order_fixed_time, assumption)
  show "order_fixed tid oid st p w \<Longrightarrow> order_fixed tid oid st p (snd (proxied (attempt (clearBusy tid d)) w))" for d w
    by (rule proxied_keeps [where P = "order_fixed tid oid st p"])
      (erule (1) clear_fixed, erule order_fixed_time, assumption)
  show "order_fixed tid oid st p w \<Longrightarrow>
      order_fixed tid oid st p (snd (proxied (attempt (recordDriverOffered tid oid d corr)) w))" for d corr w
    unfolding recordDriverOffered_def by (rule proxied_keeps [where P = "order_fixed tid oid st p"])
      (erule (1) dispatch_append_fixed, erule order_fixed_time, assumption)
  show "order_fixed tid oid st p w \<Longrightarrow>
      order_fixed tid oid st p (snd (proxied (attempt (recordDispatchAccepted tid oid d corr)) w))" for d corr w
    unfolding recordDispatchAccepted_def by (rule proxied_keeps [where P = "order_fixed tid oid st p"])
      (erule (1) dispatch_append_fixed, erule order_fixed_time, assumption)
  show "order_fixed tid oid st p w \<Longrightarrow>
      order_fixed tid oid st p (snd (proxied (attempt (recordOrderPickedUp tid oid corr)) w))" for corr w
    unfolding recordOrderPickedUp_def by (rule proxied_keeps [where P = "order_fixed tid oid st p"])
      (erule (1) dispatch_append_fixed, erule order_fixed_time, assumption)
  show "order_fixed tid oid st p w \<Longrightarrow>
      order_fixed tid oid st p (snd (proxied (attempt (recordOrderDelivered tid oid corr)) w))" for corr w
    unfolding recordOrderDelivered_def by (rule proxied_keeps [where P = "order_fixed tid oid st p"])
      (erule (1) dispatch_append_fixed, erule order_fixed_time, assumption)
  show "order_fixed tid oid st p w \<Longrightarrow>
      order_fixed tid oid st p (snd (proxied (attempt (recordDispatchFailed tid oid reason corr)) w))" for reason corr w
    unfolding recordDispatchFailed_def by (rule proxied_keeps [where P = "order_fixed tid oid st p"])
      (erule (1) dispatch_append_fixed, erule order_fixed_time, assumption)
qed

lemma worker_order_simps [simp]:
  "oa_clock (worker_order_activities dq) = wd_clock" "oa_advance (worker_order_activities dq) = advance_to"
  "oa_authorizePayment (worker_order_activities dq) t oid amount = proxied (attempt (authorizePayment t oid amount))"
  "oa_capturePayment (worker_order_activities dq) t oid = proxied (attempt (capturePayment t oid))"
  "oa_voidPayment (worker_order_activities dq) t oid = proxied (attempt (voidPayment t oid))"
  "oa_recordOrderAccepted (worker_order_activities dq) t oid corr = proxied (attempt (recordOrderAccepted t oid corr))"
  "oa_recordOrderCancelled (worker_order_activities dq) t oid r corr = proxied (attempt (recordOrderCancelled t oid r corr))"
  "oa_executeChild (worker_order_activities dq) args = driverDispatchWorkflow worker_dispatch_activities args dq"
  by (simp_all add: worker_order_activities_def)

interpretation osw: order_saga_env "worker_order_activities dq" tid oid world_inv "ord_of tid oid" "pay_of tid oid"
  for dq tid oid
proof (unfold_locales, simp_all only: worker_order_simps)
  fix n and w :: world
  assume "world_inv w"
  then show "world_inv (advance_to n w) \<and> ord_of tid oid (advance_to n w) = ord_of tid oid w
      \<and> pay_of tid oid (advance_to n w) = pay_of tid oid w" by (simp add: advance_frame)
next
  fix amount ra and w w' :: world
  assume inv: "world_inv w" and p: "pay_of tid oid w = None"
    and run: "proxied (attempt (authorizePayment tid oid amount)) w = (ra, w')"
  let ?P = "saga_at tid oid (ord_of tid oid w) {None, Some PAY_AUTHORIZED, Some PAY_DECLINED}"
  have "?P w' \<and> (\<forall>a. ra = Inr a \<longrightarrow> (\<lambda>a w'. pay_of tid oid w' = Some (if a then PAY_AUTHORIZED else PAY_DECLINED)) a w')"
  proof (rule proxied_attempt_rule [where P = ?P and body = "authorizePayment tid oid amount", OF _ saga_at_time _ run])
    show "?P w" using inv p by (simp add: saga_at_def)
  qed (drule (1) authorize_body, simp)
  moreover from this have "ra = Inr True \<Longrightarrow> pay_of tid oid w' = Some PAY_AUTHORIZED"
    and "ra = Inr False \<Longrightarrow> pay_of tid oid w' = Some PAY_DECLINED" by (metis sum.inject(2))+
  ultimately show "world_inv w' \<and> ord_of tid oid w' = ord_of tid oid w
      \<and> pay_of tid oid w' \<in> {None, Some PAY_AUTHORIZED, Some PAY_DECLINED}
      \<and> (ra = Inr True \<longrightarrow> pay_of tid oid w' = Some PAY_AUTHORIZED)
      \<and> (ra = Inr False \<longrightarrow> pay_of tid oid w' = Some PAY_DECLINED)" by (simp add: saga_at_def)
next
  fix r and w w' :: world
  assume inv: "world_inv w" and p: "pay_of tid oid w = Some PAY_AUTHORIZED"
    and run: "proxied (attempt (capturePayment tid oid)) w = (r, w')"
  let ?P = "saga_at tid oid (ord_of tid oid w) {Some PAY_AUTHORIZED, Some PAY_CAPTURED}"
  have "?P w' \<and> (\<forall>a. r = Inr a \<longrightarrow> (\<lambda>a w'. pay_of tid oid w' = Some PAY_CAPTURED) a w')"
  proof (rule proxied_attempt_rule [where P = ?P and body = "capturePayment tid oid", OF _ saga_at_time _ run])
    show "?P w" using inv p by (simp add: saga_at_def)
  qed (drule (1) capture_body, simp)
  then show "world_inv w' \<and> ord_of tid oid w' = ord_of tid oid w
      \<and> pay_of tid oid w' \<in> {Some PAY_AUTHORIZED, Some PAY_CAPTURED}
      \<and> (r = Inr () \<longrightarrow> pay_of tid oid w' = Some PAY_CAPTURED)" by (simp add: saga_at_def)
next
  fix r and w w' :: world
  assume inv: "world_inv w" and p: "pay_of tid oid w = Some PAY_AUTHORIZED"
    and run: "proxied (attempt (voidPayment tid oid)) w = (r, w')"
  let ?P = "saga_at tid oid (ord_of tid oid w) {Some PAY_AUTHORIZED, Some PAY_VOIDED}"
  have "?P w' \<and> (\<forall>a. r = Inr a \<longrightarrow> (\<lambda>a w'. pay_of tid oid w' = Some PAY_VOIDED) a w')"
  proof (rule proxied_attempt_rule [where P = ?P and body = "voidPayment tid oid", OF _ saga_at_time _ run])
    show "?P w" using inv p by (simp add: saga_at_def)
  qed (drule (1) void_body, simp)
  then show "world_inv w' \<and> ord_of tid oid w' = ord_of tid oid w
      \<and> pay_of tid oid w' \<in> {Some PAY_AUTHORIZED, Some PAY_VOIDED}
      \<and> (r = Inr () \<longrightarrow> pay_of tid oid w' = Some PAY_VOIDED)" by (simp add: saga_at_def)
next
  fix r and w w' :: world
  assume inv: "world_inv w" and p: "pay_of tid oid w = Some PAY_CAPTURED"
    and run: "proxied (attempt (voidPayment tid oid)) w = (r, w')"
  let ?P = "saga_at tid oid (ord_of tid oid w) {Some PAY_CAPTURED}"
  have "?P w' \<and> (\<forall>a. r = Inr a \<longrightarrow> (\<lambda>_ _. True) a w')"
  proof (rule proxied_attempt_rule [where P = ?P and body = "voidPayment tid oid", OF _ saga_at_time _ run])
    show "?P w" using inv p by (simp add: saga_at_def)
  qed (drule (1) void_captured_body, simp)
  then show "world_inv w' \<and> ord_of tid oid w' = ord_of tid oid w \<and> pay_of tid oid w' = Some PAY_CAPTURED"
    by (simp add: saga_at_def)
next
  fix corr r and w w' :: world
  assume inv: "world_inv w" and st: "os_status (ord_of tid oid w) = Some PLACED"
    and run: "proxied (attempt (recordOrderAccepted tid oid corr)) w = (r, w')"
  let ?P = "order_at tid oid (pay_of tid oid w) (\<lambda>o'. os_status o' = Some PLACED \<or> os_status o' = Some ACCEPTED)"
  have "?P w' \<and> (\<forall>a. r = Inr a \<longrightarrow> (\<lambda>_ w'. os_status (ord_of tid oid w') = Some ACCEPTED) a w')"
  proof (rule proxied_attempt_rule [where P = ?P and body = "recordOrderAccepted tid oid corr", OF _ order_at_time _ run])
    show "?P w" using inv st by (simp add: order_at_def)
  qed (drule (1) accepted_body, simp)
  then show "world_inv w' \<and> pay_of tid oid w' = pay_of tid oid w
      \<and> os_status (ord_of tid oid w') \<in> {Some PLACED, Some ACCEPTED}
      \<and> (r = Inr () \<longrightarrow> os_status (ord_of tid oid w') = Some ACCEPTED)" by (simp add: order_at_def)
next
  fix reason corr r and w w' :: world
  assume inv: "world_inv w" and st: "os_status (ord_of tid oid w) = Some PLACED"
    and run: "proxied (attempt (recordOrderCancelled tid oid reason corr)) w = (r, w')"
  let ?P = "order_at tid oid (pay_of tid oid w) (\<lambda>o'. os_status o' = Some PLACED \<or> is_cancelled o' reason)"
  have "?P w' \<and> (\<forall>a. r = Inr a \<longrightarrow> (\<lambda>_ w'. is_cancelled (ord_of tid oid w') reason) a w')"
  proof (rule proxied_attempt_rule [where P = ?P and body = "recordOrderCancelled tid oid reason corr", OF _ order_at_time _ run])
    show "?P w" using inv st by (simp add: order_at_def)
  qed (drule (1) cancelled_body, simp)
  then show "world_inv w' \<and> pay_of tid oid w' = pay_of tid oid w
      \<and> (os_status (ord_of tid oid w') = Some PLACED \<or> is_cancelled (ord_of tid oid w') reason)
      \<and> (r = Inr () \<longrightarrow> is_cancelled (ord_of tid oid w') reason)" by (simp add: order_at_def)
next
  fix da rc and w w' :: world
  assume inv: "world_inv w" and args: "da_tenantId da = tid" "da_orderId da = oid"
    and run: "driverDispatchWorkflow worker_dispatch_activities da dq w = (rc, w')"
  have "order_fixed tid oid (ord_of tid oid w) (pay_of tid oid w) (snd (driverDispatchWorkflow worker_dispatch_activities da dq w))"
    by (rule dsf.workflow_keeps [OF args]) (simp add: order_fixed_def inv)
  then show "world_inv w' \<and> ord_of tid oid w' = ord_of tid oid w \<and> pay_of tid oid w' = pay_of tid oid w"
    using run by (simp add: order_fixed_def)
qed

section \<open>Without lost replies\<close>

definition lossless :: "world \<Rightarrow> bool" where
  "lossless w \<longleftrightarrow> (\<forall>n. ae_fault (wd_env w n) \<noteq> LoseReply)"

lemma lossless_same_env: "wd_env w' = wd_env w \<Longrightarrow> lossless w' = lossless w"
  by (simp add: lossless_def)

text \<open>No activity changes the environment it meets.\<close>

lemma env_dispatch_append: "dispatch_append t oid ty build corr e w = (r, w') \<Longrightarrow> wd_env w' = wd_env w"
  by (auto simp: dispatch_append_def split: prod.splits sum.splits)

lemma env_record_order: "record_order_event t oid ty build corr e w = (r, w') \<Longrightarrow> wd_env w' = wd_env w"
  by (auto simp: record_order_event_def split: prod.splits sum.splits)

lemma env_post: "payments_post_call path b e w = (r, w') \<Longrightarrow> wd_env w' = wd_env w"
  by (auto simp: payments_post_call_def split: prod.splits sum.splits)

lemma env_select: "selectNearestAvailableDriver t ex e w = (r, w') \<Longrightarrow> wd_env w' = wd_env w"
  by (auto simp: selectNearestAvailableDriver_def split: prod.splits sum.splits option.splits)

lemma env_busy: "markBusy t d e w = (r, w') \<Longrightarrow> wd_env w' = wd_env w"
  "clearBusy t d e w = (r, w') \<Longrightarrow> wd_env w' = wd_env w"
  by (auto simp: markBusy_def clearBusy_def)

lemma env_payments:
  "authorizePayment t oid amount e w = (r, w') \<Longrightarrow> wd_env w' = wd_env w"
  "capturePayment t oid e w = (s, w') \<Longrightarrow> wd_env w' = wd_env w"
  "voidPayment t oid e w = (s, w') \<Longrightarrow> wd_env w' = wd_env w"
  by (auto simp: authorizePayment_def capturePayment_def voidPayment_def split: prod.splits sum.splits
      dest: env_post)

lemmas env_bodies = env_dispatch_append env_record_order env_select env_busy env_payments

lemma proxied_env:
  assumes "\<And>e w r w'. body e w = (r, w') \<Longrightarrow> wd_env w' = wd_env w"
  shows "wd_env (snd (proxied (attempt body) w)) = wd_env w"
proof -
  have body: "wd_env w2 = wd_env w" if "wd_env w1 = wd_env w" "body e w1 = (r, w2)" for e w1 r w2
    using assms [OF that(2)] that(1) by simp
  show ?thesis
    by (rule proxied_keeps [where P = "\<lambda>x. wd_env x = wd_env w"]) (erule (1) body, simp_all)
qed

interpretation dse: dispatch_frame worker_dispatch_activities tid oid "\<lambda>w. wd_env w = env" for tid oid env
  by (unfold_locales; simp only: worker_dispatch_simps)
    (simp_all add: advance_to_def recordDriverOffered_def recordDispatchAccepted_def recordOrderPickedUp_def
      recordOrderDelivered_def recordDispatchFailed_def proxied_env [OF env_select] proxied_env [OF env_busy(1)]
      proxied_env [OF env_busy(2)] proxied_env [OF env_dispatch_append])

lemma worker_env:
  "proxied (attempt (authorizePayment tid oid amount)) w = (ra, w') \<Longrightarrow> wd_env w' = wd_env w"
  "proxied (attempt (capturePayment tid oid)) w = (r, w') \<Longrightarrow> wd_env w' = wd_env w"
  "proxied (attempt (voidPayment tid oid)) w = (r, w') \<Longrightarrow> wd_env w' = wd_env w"
  "proxied (attempt (recordOrderAccepted tid oid corr)) w = (r, w') \<Longrightarrow> wd_env w' = wd_env w"
  "proxied (attempt (recordOrderCancelled tid oid reason corr)) w = (r, w') \<Longrightarrow> wd_env w' = wd_env w"
  using proxied_env [where body = "authorizePayment tid oid amount" and w = w, OF env_payments(1)]
    proxied_env [where body = "capturePayment tid oid" and w = w, OF env_payments(2)]
    proxied_env [where body = "voidPayment tid oid" and w = w, OF env_payments(3)]
    proxied_env [where body = "record_order_event tid oid OrderAccepted (\<lambda>st. accept st oid) corr" and w = w,
      OF env_record_order]
    proxied_env [where body = "record_order_event tid oid OrderCancelled (\<lambda>st. cancel st oid reason) corr" and w = w,
      OF env_record_order]
  by (simp_all add: recordOrderAccepted_def recordOrderCancelled_def)

lemma child_env:
  assumes "da_tenantId da = tid" "da_orderId da = oid"
    and "driverDispatchWorkflow worker_dispatch_activities da dq w = (rc, w')"
  shows "wd_env w' = wd_env w"
  using dse.workflow_keeps [OF assms(1,2), of w "wd_env w" dq] assms(3) by simp

interpretation osl: order_saga_env "worker_order_activities dq" tid oid "\<lambda>w. world_inv w \<and> lossless w"
    "ord_of tid oid" "pay_of tid oid" for dq tid oid
proof (unfold_locales, goal_cases)
  case (1 w n)
  then show ?case using osw.advance [of w dq n tid oid] by (simp add: lossless_def advance_to_def)
next
  case (2 w amount ra w')
  then show ?case using osw.authorize [of w tid oid dq amount ra w']
    by (auto dest!: worker_env(1) lossless_same_env)
next
  case (3 w r w')
  then show ?case using osw.capture [of w tid oid dq r w'] by (auto dest!: worker_env(2) lossless_same_env)
next
  case (4 w r w')
  then show ?case using osw.void_held [of w tid oid dq r w'] by (auto dest!: worker_env(3) lossless_same_env)
next
  case (5 w r w')
  then show ?case using osw.void_captured [of w tid oid dq r w'] by (auto dest!: worker_env(3) lossless_same_env)
next
  case (6 w corr r w')
  then show ?case using osw.accepted [of w tid oid dq corr r w'] by (auto dest!: worker_env(4) lossless_same_env)
next
  case (7 w reason corr r w')
  then show ?case using osw.cancelled [of w tid oid dq reason corr r w']
    by (auto dest!: worker_env(5) lossless_same_env)
next
  case (8 w da rc w')
  then have "wd_env w' = wd_env w" using child_env [of da tid oid dq w rc w'] by simp
  then have "lossless w' = lossless w" by (rule lossless_same_env)
  then show ?case using 8 osw.child [of w da tid oid dq rc w'] by simp
qed

lemma capture_honest_lossless: "osl.capture_honest dq tid oid"
proof -
  have honest: "pay_of tid oid w' = Some PAY_AUTHORIZED"
    if inv: "world_inv w" "lossless w" and p: "pay_of tid oid w = Some PAY_AUTHORIZED"
      and run: "proxied (attempt (capturePayment tid oid)) w = (Inl e, w')" for w e w'
  proof (rule retry_error_rule [where P = "\<lambda>w. lossless w \<and> pay_of tid oid w = Some PAY_AUTHORIZED"
        and attempt = "attempt (capturePayment tid oid)" and w = w and e = e and n = MAXIMUM_ATTEMPTS])
    fix w r w'
    assume P: "lossless w \<and> pay_of tid oid w = Some PAY_AUTHORIZED"
      and a: "attempt (capturePayment tid oid) w = (r, w')"
    let ?e = "wd_env w (wd_tick w)"
    let ?w1 = "w\<lparr>wd_tick := wd_tick w + 1, wd_clock := wd_clock w + ae_duration ?e\<rparr>"
    obtain row where row: "wd_pay ?w1 (tid, oid) = Some row" "pm_status row = PAY_AUTHORIZED"
      using P by (auto simp: pay_of_def status_of_def)
    have ok: "\<exists>w2. capturePayment tid oid ?e ?w1 = (Inr (), w2)"
      using row by (simp add: capturePayment_def post_evals pay_simps)
    from P have "ae_fault ?e \<noteq> LoseReply" by (simp add: lossless_def)
    then show "(\<forall>m. r = Inl (Retryable m) \<longrightarrow> lossless w' \<and> pay_of tid oid w' = Some PAY_AUTHORIZED)
        \<and> (\<forall>m. r = Inl (NonRetryable m) \<longrightarrow> pay_of tid oid w' = Some PAY_AUTHORIZED)"
      using a ok P by (cases "ae_fault ?e")
        (auto simp: attempt_def Let_def lossless_def pay_of_def)
  qed (use that in \<open>simp_all add: proxied_def\<close>)
  show ?thesis unfolding osl.capture_honest_def worker_order_simps using honest by blast
qed

end
