(* ===== verification/Messaging.thy ===== *)
theory Messaging
  imports Event_Store
begin

text \<open>
  The wire format (\<open>packages/messaging/src\<close>): envelope metadata as Kafka headers, payloads Avro-encoded
  with the schema id the registry reports, publishing, consuming and schema registration. The schema
  registry's codec is a parameter of type \<open>registry\<close>; bytes are whatever it produces.

  A header value is text. The timestamp header is the timestamp string itself: \<open>HTime\<close> when it was
  written from one, and text put there by anyone else is read as no date.
\<close>

section \<open>Headers\<close>

datatype header_text = HText string | HTime datestr

type_synonym headers = "(string \<times> header_text) list"

fun header_string :: "header_text \<Rightarrow> string" where
  "header_string (HText s) = s"
| "header_string (HTime (NotDate s)) = s"
| "header_string (HTime (ISO t)) = ''<timestamp>''"

fun header_time :: "header_text \<Rightarrow> datestr" where
  "header_time (HTime d) = d"
| "header_time (HText s) = NotDate s"

definition buildHeaders :: "envelope \<Rightarrow> headers" where
  "buildHeaders meta =
     [(''eventType'', HText (event_type_name (e_eventType meta))),
      (''tenantId'', HText (e_tenantId meta)),
      (''eventId'', HText (e_eventId meta)),
      (''version'', HText (show_nat (e_version meta))),
      (''occurredAt'', HTime (e_occurredAt meta)),
      (''correlationId'', HText (e_correlationId meta))]"

definition REQUIRED_HEADERS :: "string list" where
  "REQUIRED_HEADERS = [''eventType'', ''tenantId'', ''eventId'']"

text \<open>\<open>s(k)\<close>: the header's text, empty when absent.\<close>

definition header_s :: "headers \<Rightarrow> string \<Rightarrow> string" where
  "header_s h k = (case map_of h k of None \<Rightarrow> [] | Some v \<Rightarrow> header_string v)"

definition header_t :: "headers \<Rightarrow> string \<Rightarrow> datestr" where
  "header_t h k = (case map_of h k of None \<Rightarrow> NotDate [] | Some v \<Rightarrow> header_time v)"

text \<open>The metadata read back; the version is \<open>None\<close> when the header is no number (\<open>NaN\<close>).\<close>

record envelope_meta =
  em_eventType :: event_type
  em_tenantId :: string
  em_eventId :: string
  em_version :: "nat option"
  em_occurredAt :: datestr
  em_correlationId :: string

definition missing_headers :: "headers \<Rightarrow> string list" where
  "missing_headers h = filter (\<lambda>k. header_s h k = []) REQUIRED_HEADERS"

definition parseHeaders :: "string \<Rightarrow> headers option \<Rightarrow> (string, envelope_meta) result" where
  "parseHeaders freshId hs =
     (let h = (case hs of None \<Rightarrow> [] | Some h \<Rightarrow> h) in
      if missing_headers h \<noteq> []
      then Inl (''Kafka message missing required envelope header(s): '' @ join '', '' (missing_headers h))
      else Inr \<lparr>em_eventType = event_type_of (header_s h ''eventType''),
                em_tenantId = header_s h ''tenantId'',
                em_eventId = header_s h ''eventId'',
                em_version = (if header_s h ''version'' = [] then Some 0 else read_nat (header_s h ''version'')),
                em_occurredAt = header_t h ''occurredAt'',
                em_correlationId = (if header_s h ''correlationId'' = [] then freshId
                                    else header_s h ''correlationId'')\<rparr>)"

section \<open>Schemas and the registry\<close>

record 'b registry =
  rg_latest :: "string \<Rightarrow> nat option"
  rg_encode :: "nat \<Rightarrow> payload \<Rightarrow> 'b option"
  rg_decode :: "'b \<Rightarrow> payload option"

type_synonym id_cache = "string \<rightharpoonup> nat"

definition resolveSchemaId :: "'b registry \<Rightarrow> string \<Rightarrow> id_cache \<Rightarrow> (string, nat) result \<times> id_cache" where
  "resolveSchemaId rg subject cache =
     (case cache subject of
        Some hit \<Rightarrow> (Inr hit, cache)
      | None \<Rightarrow>
          (case rg_latest rg subject of
             None \<Rightarrow> (Inl ''subject not found'', cache)
           | Some i \<Rightarrow> (Inr i, cache(subject \<mapsto> i))))"

definition encodePayload ::
    "'b registry \<Rightarrow> string \<Rightarrow> payload \<Rightarrow> id_cache \<Rightarrow> (string, 'b) result \<times> id_cache" where
  "encodePayload rg subject p cache =
     (case resolveSchemaId rg subject cache of
        (Inl e, c) \<Rightarrow> (Inl e, c)
      | (Inr i, c) \<Rightarrow> ((case rg_encode rg i p of None \<Rightarrow> Inl ''payload does not fit the schema'' | Some b \<Rightarrow> Inr b), c))"

definition decodePayload :: "'b registry \<Rightarrow> 'b \<Rightarrow> (string, payload) result" where
  "decodePayload rg b = (case rg_decode rg b of None \<Rightarrow> Inl ''undecodable value'' | Some p \<Rightarrow> Inr p)"

section \<open>Publishing and consuming\<close>

record 'b kafka_message =
  km_topic :: topic
  km_key :: string
  km_value :: "'b option"
  km_headers :: "headers option"

definition subject_of :: "event_type \<Rightarrow> subject_entry option" where
  "subject_of ty = find (\<lambda>s. sub_eventType s = ty) SUBJECTS"

text \<open>The message handed to \<open>producer.send\<close>, or the error thrown before it.\<close>

definition publishEnvelope ::
    "'b registry \<Rightarrow> topic \<Rightarrow> string \<Rightarrow> envelope \<Rightarrow> id_cache \<Rightarrow> (string, 'b kafka_message) result \<times> id_cache" where
  "publishEnvelope rg tp key env cache =
     (case subject_of (e_eventType env) of
        None \<Rightarrow> (Inl (''No Avro subject for eventType '' @ event_type_name (e_eventType env)), cache)
      | Some entry \<Rightarrow>
          (case encodePayload rg (subjectFor tp (sub_recordName entry)) (e_payload env) cache of
             (Inl e, c) \<Rightarrow> (Inl e, c)
           | (Inr value, c) \<Rightarrow>
               (Inr \<lparr>km_topic = tp, km_key = key, km_value = Some value, km_headers = Some (buildHeaders env)\<rparr>, c)))"

definition readEnvelope ::
    "'b registry \<Rightarrow> string \<Rightarrow> 'b kafka_message \<Rightarrow> (string, (envelope_meta \<times> payload) option) result" where
  "readEnvelope rg freshId m =
     (case km_value m of
        None \<Rightarrow> Inr None
      | Some b \<Rightarrow>
          (case parseHeaders freshId (km_headers m) of
             Inl e \<Rightarrow> Inl e
           | Inr meta \<Rightarrow>
               (case decodePayload rg b of
                  Inl e \<Rightarrow> Inl e
                | Inr p \<Rightarrow> Inr (Some (meta, p)))))"

text \<open>The envelope a consumer sees when the version is a number.\<close>

definition envelope_of :: "envelope_meta \<times> payload \<Rightarrow> envelope option" where
  "envelope_of mp = (case em_version (fst mp) of
     None \<Rightarrow> None
   | Some v \<Rightarrow> Some \<lparr>e_tenantId = em_tenantId (fst mp), e_eventId = em_eventId (fst mp),
       e_eventType = em_eventType (fst mp), e_version = v, e_occurredAt = em_occurredAt (fst mp),
       e_correlationId = em_correlationId (fst mp), e_payload = snd mp\<rparr>)"

section \<open>Registration\<close>

record registry_server =
  rs_compat :: "string \<rightharpoonup> string"
  rs_schemas :: "(string \<times> string) list"

text \<open>
  One subject: its compatibility level is set first, then its schema registered; either call may be
  refused, which stops the loop. \<open>accepts\<close> is the server's answer to each call.
\<close>

definition setCompatibility ::
    "(string \<Rightarrow> bool) \<Rightarrow> string \<Rightarrow> string \<Rightarrow> registry_server \<Rightarrow> (string, unit) result \<times> registry_server" where
  "setCompatibility accepts subject level s =
     (if accepts subject then (Inr (), s\<lparr>rs_compat := (rs_compat s)(subject \<mapsto> level)\<rparr>)
      else (Inl (''set compatibility '' @ subject @ '' failed''), s))"

fun register_each ::
    "(string \<Rightarrow> bool) \<Rightarrow> (string \<Rightarrow> bool) \<Rightarrow> subject_entry list \<Rightarrow> registry_server
     \<Rightarrow> (string, unit) result \<times> registry_server" where
  "register_each okCompat okSchema [] s = (Inr (), s)"
| "register_each okCompat okSchema (e # es) s =
     (case setCompatibility okCompat (subjectFor (sub_topic e) (sub_recordName e)) ''BACKWARD'' s of
        (Inl err, s1) \<Rightarrow> (Inl err, s1)
      | (Inr _, s1) \<Rightarrow>
          if okSchema (subjectFor (sub_topic e) (sub_recordName e))
          then register_each okCompat okSchema es
                 (s1\<lparr>rs_schemas := rs_schemas s1 @ [(subjectFor (sub_topic e) (sub_recordName e), sub_avsc e)]\<rparr>)
          else (Inl ''incompatible schema'', s1))"

definition registerAllSchemas ::
    "(string \<Rightarrow> bool) \<Rightarrow> (string \<Rightarrow> bool) \<Rightarrow> registry_server \<Rightarrow> (string, unit) result \<times> registry_server" where
  "registerAllSchemas okCompat okSchema s = register_each okCompat okSchema SUBJECTS s"

section \<open>Facts\<close>

lemma header_build:
  "header_s (buildHeaders env) ''eventType'' = event_type_name (e_eventType env)"
  "header_s (buildHeaders env) ''tenantId'' = e_tenantId env"
  "header_s (buildHeaders env) ''eventId'' = e_eventId env"
  "header_s (buildHeaders env) ''version'' = show_nat (e_version env)"
  "header_t (buildHeaders env) ''occurredAt'' = e_occurredAt env"
  "header_s (buildHeaders env) ''correlationId'' = e_correlationId env"
  by (simp_all add: header_s_def header_t_def buildHeaders_def)

definition meta_of :: "envelope \<Rightarrow> envelope_meta" where
  "meta_of env = \<lparr>em_eventType = e_eventType env, em_tenantId = e_tenantId env, em_eventId = e_eventId env,
     em_version = Some (e_version env), em_occurredAt = e_occurredAt env, em_correlationId = e_correlationId env\<rparr>"

definition wellformed :: "envelope \<Rightarrow> bool" where
  "wellformed env \<longleftrightarrow> proper_event_type (e_eventType env) \<and> event_type_name (e_eventType env) \<noteq> []
     \<and> e_tenantId env \<noteq> [] \<and> e_eventId env \<noteq> [] \<and> e_correlationId env \<noteq> []"

lemma parse_build:
  "wellformed env \<Longrightarrow> parseHeaders freshId (Some (buildHeaders env)) = Inr (meta_of env)"
  by (simp add: parseHeaders_def missing_headers_def REQUIRED_HEADERS_def header_build wellformed_def
      proper_event_type_def meta_of_def)

lemma envelope_of_meta [simp]: "envelope_of (meta_of env, e_payload env) = Some env"
  by (simp add: envelope_of_def meta_of_def)

text \<open>
  Metadata is read fail-closed. Parsing the headers of a message succeeds exactly when the event
  type, the tenant and the event id are all present and non-empty, so no consumed envelope ever has
  an empty tenant, id or type; otherwise the error names the headers that are missing.
\<close>

theorem parse_headers_fail_closed:
  "case parseHeaders freshId hs of
     Inr m \<Rightarrow> list_all (\<lambda>k. header_s (nullish hs []) k \<noteq> []) REQUIRED_HEADERS
       \<and> em_tenantId m \<noteq> [] \<and> em_eventId m \<noteq> [] \<and> event_type_name (em_eventType m) \<noteq> []
   | Inl e \<Rightarrow> list_ex (\<lambda>k. header_s (nullish hs []) k = []) REQUIRED_HEADERS
       \<and> e = ''Kafka message missing required envelope header(s): '' @ join '', ''
               (filter (\<lambda>k. header_s (nullish hs []) k = []) REQUIRED_HEADERS)"
proof -
  let ?h = "nullish hs []"
  have h: "(case hs of None \<Rightarrow> [] | Some h \<Rightarrow> h) = ?h" by (cases hs) simp_all
  have name: "event_type_name (event_type_of s) = s" for s
    by (auto simp: event_type_of_def split: option.splits dest: find_SomeD)
  show ?thesis
  proof (cases "missing_headers ?h = []")
    case True
    then have "\<forall>k \<in> set REQUIRED_HEADERS. header_s ?h k \<noteq> []"
      by (simp add: missing_headers_def filter_empty_conv)
    moreover from this have "header_s ?h ''tenantId'' \<noteq> []" "header_s ?h ''eventId'' \<noteq> []"
      "header_s ?h ''eventType'' \<noteq> []" by (simp_all add: REQUIRED_HEADERS_def)
    ultimately show ?thesis using True by (simp add: parseHeaders_def h Let_def name list_all_iff)
  next
    case False
    then have "\<exists>k \<in> set REQUIRED_HEADERS. header_s ?h k = []"
      by (auto simp: missing_headers_def filter_empty_conv)
    with False show ?thesis by (simp add: parseHeaders_def h Let_def missing_headers_def list_ex_iff)
  qed
qed

text \<open>Reading back what was published, whatever fresh correlation id the consumer has at hand.\<close>

lemma publish_read:
  assumes "wellformed env" and "publishEnvelope rg tp key env cache = (Inr msg, cache')"
    and "\<And>i b. rg_encode rg i (e_payload env) = Some b \<Longrightarrow> rg_decode rg b = Some (e_payload env)"
  shows "km_topic msg = tp" and "km_key msg = key" and "subject_of (e_eventType env) \<noteq> None"
    and "readEnvelope rg freshId msg = Inr (Some (meta_of env, e_payload env))"
proof -
  from assms(2) obtain entry i b where entry: "subject_of (e_eventType env) = Some entry"
    and enc: "rg_encode rg i (e_payload env) = Some b"
    and msg: "msg = \<lparr>km_topic = tp, km_key = key, km_value = Some b, km_headers = Some (buildHeaders env)\<rparr>"
    by (auto simp: publishEnvelope_def encodePayload_def split: option.splits prod.splits sum.splits)
  then show "km_topic msg = tp" "km_key msg = key" "subject_of (e_eventType env) \<noteq> None" by simp_all
  show "readEnvelope rg freshId msg = Inr (Some (meta_of env, e_payload env))"
    by (simp add: msg readEnvelope_def parse_build [OF assms(1)] decodePayload_def assms(3) [OF enc])
qed

lemma subject_known: "subject_of ty \<noteq> None \<longleftrightarrow> ty \<in> set known_event_types"
proof -
  have "subject_of ty \<noteq> None \<longleftrightarrow> ty \<in> set (map sub_eventType SUBJECTS)"
    by (auto simp: subject_of_def find_None_iff)
  moreover have "map sub_eventType SUBJECTS = known_event_types"
    by (simp add: SUBJECTS_def known_event_types_def)
  ultimately show ?thesis by simp
qed

text \<open>
  C22: An event survives the wire. When publishing an envelope succeeds and the registry's codec
  decodes the value it produced back to the payload, every consumer reads exactly the envelope that
  was published, whatever fresh correlation id it had at hand; and publishing succeeds only for the
  event types that have a subject.
\<close>

theorem publish_consume_roundtrip:
  assumes "wellformed env"
    and "publishEnvelope rg tp key env cache = (Inr msg, cache')"
    and codec: "\<And>i b. rg_encode rg i (e_payload env) = Some b \<Longrightarrow> rg_decode rg b = Some (e_payload env)"
  shows "km_topic msg = tp \<and> km_key msg = key \<and> e_eventType env \<in> set known_event_types
    \<and> (\<exists>meta p. readEnvelope rg freshId msg = Inr (Some (meta, p)) \<and> envelope_of (meta, p) = Some env)"
  using publish_read [OF assms(1,2)] codec subject_known by auto

definition identity_registry :: "payload registry" where
  "identity_registry = \<lparr>rg_latest = (\<lambda>s. Some 1), rg_encode = (\<lambda>i p. Some p), rg_decode = (\<lambda>b. Some b)\<rparr>"

definition sample_envelope :: envelope where
  "sample_envelope = \<lparr>e_tenantId = ''berlin'', e_eventId = ''e1'', e_eventType = OrderCancelled, e_version = 2,
     e_occurredAt = ISO 1000, e_correlationId = ''corr'', e_payload = reason_payload ''o1'' DECLINED\<rparr>"

lemma sample_wellformed: "wellformed sample_envelope"
proof -
  have "event_type_of (event_type_name OrderCancelled) = OrderCancelled"
    by (rule known_event_type_proper) (simp add: known_event_types_def)
  then show ?thesis by (simp add: wellformed_def sample_envelope_def proper_event_type_def)
qed

theorem publish_consume_roundtrip_witness:
  "case publishEnvelope identity_registry ORDER_EVENTS ''berlin:o1'' sample_envelope Map.empty of
     (Inr msg, _) \<Rightarrow> \<exists>meta p. readEnvelope identity_registry ''fresh'' msg = Inr (Some (meta, p))
        \<and> envelope_of (meta, p) = Some sample_envelope
   | _ \<Rightarrow> False"
proof -
  obtain r c where pub: "publishEnvelope identity_registry ORDER_EVENTS ''berlin:o1'' sample_envelope Map.empty = (r, c)"
    by fastforce
  then obtain msg where msg: "r = Inr msg"
    by (cases r) (auto simp: publishEnvelope_def encodePayload_def resolveSchemaId_def identity_registry_def
        subject_of_def SUBJECTS_def sample_envelope_def)
  have "\<exists>meta p. readEnvelope identity_registry ''fresh'' msg = Inr (Some (meta, p))
      \<and> envelope_of (meta, p) = Some sample_envelope"
    using publish_consume_roundtrip [where rg = identity_registry and env = sample_envelope and msg = msg
        and freshId = "''fresh''", OF sample_wellformed pub [unfolded msg]]
    by (simp add: identity_registry_def)
  then show ?thesis using pub msg by simp
qed

text \<open>Schema ids are cached for good: later lookups of a subject ignore what the registry now says.\<close>

lemma resolve_cached:
  "resolveSchemaId rg subject cache = (Inr i, cache') \<Longrightarrow> resolveSchemaId rg' subject cache' = (Inr i, cache')"
  by (auto simp: resolveSchemaId_def split: option.splits)

definition entry_subject :: "subject_entry \<Rightarrow> string" where
  "entry_subject e = subjectFor (sub_topic e) (sub_recordName e)"

lemma register_each_Cons:
  "register_each okC okS (e # es) s =
    (if \<not> okC (entry_subject e) then (Inl (''set compatibility '' @ entry_subject e @ '' failed''), s)
     else if \<not> okS (entry_subject e)
     then (Inl ''incompatible schema'', s\<lparr>rs_compat := (rs_compat s)(entry_subject e \<mapsto> ''BACKWARD'')\<rparr>)
     else register_each okC okS es
       (s\<lparr>rs_compat := (rs_compat s)(entry_subject e \<mapsto> ''BACKWARD''),
          rs_schemas := rs_schemas s @ [(entry_subject e, sub_avsc e)]\<rparr>))"
  by (simp add: setCompatibility_def entry_subject_def)

lemma register_each_spec:
  "register_each okC okS es s = (r, s') \<Longrightarrow>
    \<forall>sub av. (sub, av) \<in> set (rs_schemas s) \<longrightarrow> rs_compat s sub = Some ''BACKWARD'' \<Longrightarrow>
    (is_ok r \<longleftrightarrow> list_all (\<lambda>e. okC (entry_subject e) \<and> okS (entry_subject e)) es)
    \<and> (\<exists>n. rs_schemas s' = rs_schemas s @ map (\<lambda>e. (entry_subject e, sub_avsc e)) (take n es)
        \<and> (is_ok r \<longrightarrow> n = length es))
    \<and> (\<forall>sub av. (sub, av) \<in> set (rs_schemas s') \<longrightarrow> rs_compat s' sub = Some ''BACKWARD'')"
proof (induction es arbitrary: s)
  case Nil
  then show ?case by auto
next
  case (Cons e es)
  let ?s2 = "s\<lparr>rs_compat := (rs_compat s)(entry_subject e \<mapsto> ''BACKWARD''),
          rs_schemas := rs_schemas s @ [(entry_subject e, sub_avsc e)]\<rparr>"
  show ?case
  proof (cases "okC (entry_subject e) \<and> okS (entry_subject e)")
    case False
    then show ?thesis using Cons.prems
      by (auto simp: register_each_Cons simp del: register_each.simps split: if_splits intro!: exI [of _ 0]) blast
  next
    case True
    then have run: "register_each okC okS es ?s2 = (r, s')"
      using Cons.prems(1) by (simp add: register_each_Cons del: register_each.simps)
    have "\<forall>sub av. (sub, av) \<in> set (rs_schemas ?s2) \<longrightarrow> rs_compat ?s2 sub = Some ''BACKWARD''"
      using Cons.prems(2) by auto
    note ih = Cons.IH [OF run this]
    then obtain n where n: "rs_schemas s' = rs_schemas ?s2 @ map (\<lambda>e. (entry_subject e, sub_avsc e)) (take n es)"
      "is_ok r \<longrightarrow> n = length es" by blast
    then have "rs_schemas s' = rs_schemas s @ map (\<lambda>e. (entry_subject e, sub_avsc e)) (take (Suc n) (e # es))
        \<and> (is_ok r \<longrightarrow> Suc n = length (e # es))" by simp
    moreover have "is_ok r \<longleftrightarrow> list_all (\<lambda>e. okC (entry_subject e) \<and> okS (entry_subject e)) (e # es)"
      using ih True by simp
    ultimately show ?thesis using ih by blast
  qed
qed

text \<open>
  Registration covers every event type. When \<open>registerAllSchemas\<close> succeeds, every subject a
  producer can look up is at BACKWARD compatibility with its own schema file registered, in order;
  it succeeds exactly when the registry refuses no call, and a refusal leaves a prefix registered.
\<close>

theorem register_all_schemas_complete:
  assumes "registerAllSchemas okC okS \<lparr>rs_compat = Map.empty, rs_schemas = []\<rparr> = (r, s')"
  shows "(is_ok r \<longleftrightarrow> list_all (\<lambda>e. okC (entry_subject e) \<and> okS (entry_subject e)) SUBJECTS)
    \<and> (\<exists>n. rs_schemas s' = map (\<lambda>e. (entry_subject e, sub_avsc e)) (take n SUBJECTS)
          \<and> (is_ok r \<longrightarrow> n = length SUBJECTS))
    \<and> (\<forall>sub av. (sub, av) \<in> set (rs_schemas s') \<longrightarrow> rs_compat s' sub = Some ''BACKWARD'')"
  using register_each_spec [of okC okS SUBJECTS "\<lparr>rs_compat = Map.empty, rs_schemas = []\<rparr>" r s'] assms
  by (auto simp: registerAllSchemas_def)

theorem register_all_schemas_complete_witness:
  "rs_schemas (snd (registerAllSchemas (\<lambda>s. True) (\<lambda>s. True) \<lparr>rs_compat = Map.empty, rs_schemas = []\<rparr>))
     = map (\<lambda>e. (entry_subject e, sub_avsc e)) SUBJECTS"
proof -
  let ?run = "registerAllSchemas (\<lambda>s. True) (\<lambda>s. True) \<lparr>rs_compat = Map.empty, rs_schemas = []\<rparr>"
  obtain r s' where run: "?run = (r, s')" by fastforce
  from register_all_schemas_complete [OF this] have "is_ok r" by (simp add: list_all_iff)
  with register_all_schemas_complete [OF run] run show ?thesis by auto
qed

end
