(* ===== verification/Inbox.thy ===== *)
theory Inbox
  imports Prelude
begin

text \<open>
  What the consumers that keep a read model promise: an inbox that passes over events already
  processed, and an upsert guarded by the version. Messages come at least once and in order per key:
  a consumer that restarts sees again what it has seen, but never an event before its predecessor.
  From the laws of the inbox and the guard, the locale shows that duplicates, restarts and crashes
  between the upsert and the inbox entry leave a document equal to the fold of its events.
\<close>

text \<open>
  How far a log of deliveries has come with the events \<open>es\<close> of one key, from the \<open>n\<close> already
  delivered: \<open>None\<close> if an event comes before its predecessor.
\<close>

fun progress :: "('m \<Rightarrow> 'e option) \<Rightarrow> ('e \<Rightarrow> bool) \<Rightarrow> 'e list \<Rightarrow> nat \<Rightarrow> 'm list \<Rightarrow> nat option" where
  "progress event mine es n [] = Some n"
| "progress event mine es n (m # ms) =
     (case event m of
        None \<Rightarrow> progress event mine es n ms
      | Some e \<Rightarrow>
          if \<not> mine e \<or> e \<in> set (take n es) then progress event mine es n ms
          else if n < length es \<and> e = es ! n then progress event mine es (Suc n) ms
          else None)"

lemma progress_append:
  "progress event mine es n (ms @ ms') =
     Option.bind (progress event mine es n ms) (\<lambda>n'. progress event mine es n' ms')"
  by (induction ms arbitrary: n) (auto split: option.splits)

lemma progress_split:
  assumes "progress event mine es n (ms @ ms') = Some k"
  obtains j where "progress event mine es n ms = Some j" and "progress event mine es j ms' = Some k"
  using assms by (auto simp: progress_append bind_eq_Some_conv)

lemma progress_bounds:
  "progress event mine es n ms = Some n' \<Longrightarrow> n \<le> length es \<Longrightarrow> n \<le> n' \<and> n' \<le> length es"
proof (induction ms arbitrary: n)
  case (Cons m ms)
  then show ?case by (fastforce split: option.splits if_splits)
qed simp

lemma progress_extend:
  "progress event mine es n ms = Some n' \<Longrightarrow> n \<le> length es \<Longrightarrow> progress event mine (es @ xs) n ms = Some n'"
proof (induction ms arbitrary: n)
  case (Cons m ms)
  then show ?case by (auto simp: nth_append split: option.splits if_splits)
qed simp

definition run_log :: "('m \<Rightarrow> 's \<Rightarrow> 's) \<Rightarrow> 'm list \<Rightarrow> 's \<Rightarrow> 's" where
  "run_log act ms s = foldl (\<lambda>s m. act m s) s ms"

lemma run_log_simps [simp]: "run_log act [] s = s" "run_log act (m # ms) s = run_log act ms (act m s)"
  by (simp_all add: run_log_def)

definition project_events :: "('e \<Rightarrow> 'd option \<Rightarrow> 'd option) \<Rightarrow> 'e list \<Rightarrow> 'd option" where
  "project_events step es = foldl (\<lambda>d e. step e d) None es"

lemma project_events_simps [simp]:
  "project_events step [] = None" "project_events step (es @ [e]) = step e (project_events step es)"
  by (simp_all add: project_events_def)

lemma project_take_Suc:
  "n < length es \<Longrightarrow> project_events step (take (Suc n) es) = step (es ! n) (project_events step (take n es))"
  by (simp add: take_Suc_conv_app_nth)

locale inbox_consumer =
  fixes act :: "'m \<Rightarrow> 's \<Rightarrow> 's" and event :: "'m \<Rightarrow> 'e option" and entry :: "'m \<Rightarrow> 'i"
    and look :: "'k \<Rightarrow> 's \<Rightarrow> 'd option" and seen :: "'i \<Rightarrow> 's \<Rightarrow> bool"
    and key :: "'e \<Rightarrow> 'k" and entry_of :: "'e \<Rightarrow> 'i"
    and step :: "'e \<Rightarrow> 'd option \<Rightarrow> 'd option" and vers :: "'d \<Rightarrow> nat" and ever :: "'e \<Rightarrow> nat"
  assumes act_other: "event m = None \<Longrightarrow> look k (act m s) = look k s"
    and act_look: "event m = Some e \<Longrightarrow> look k (act m s) =
      (if key e = k \<and> \<not> seen (entry_of e) s then step e (look k s) else look k s)"
    and act_seen: "seen i (act m s) \<Longrightarrow> i = entry m \<or> seen i s"
    and entry_event: "event m = Some e \<Longrightarrow> entry m = entry_of e"
    and step_guard: "ever e \<le> vers d \<Longrightarrow> step e (Some d) = Some d"
    and step_stamp: "step e x = x \<or> (\<exists>d. step e x = Some d \<and> vers d = ever e)"
begin

lemma step_idem: "step e (step e x) = step e x"
  using step_stamp [of e x] step_guard [of e] by force

text \<open>An old event changes nothing, even when the inbox has not kept it.\<close>

lemma step_old:
  assumes "sorted_wrt (<) (map ever es)" and "n \<le> length es" and "i < n"
  shows "step (es ! i) (project_events step (take n es)) = project_events step (take n es)"
  using assms(2,3)
proof (induction n)
  case 0
  then show ?case by simp
next
  case (Suc n)
  let ?D = "project_events step (take n es)"
  have D: "project_events step (take (Suc n) es) = step (es ! n) ?D"
    using Suc.prems by (simp add: project_take_Suc)
  show ?case
  proof (cases "i = n")
    case True
    then show ?thesis by (simp add: D step_idem)
  next
    case False
    with Suc have old: "step (es ! i) ?D = ?D" and "ever (es ! i) < ever (es ! n)"
      using assms(1) by (auto simp: sorted_wrt_iff_nth_less)
    then show ?thesis
      using step_stamp [of "es ! n" ?D] step_guard [of "es ! i"] by (auto simp: D)
  qed
qed

definition synced :: "'k \<Rightarrow> 'e list \<Rightarrow> nat \<Rightarrow> 's \<Rightarrow> bool" where
  "synced k es n s \<longleftrightarrow> n \<le> length es \<and> look k s = project_events step (take n es)
     \<and> (\<forall>j < length es. seen (entry_of (es ! j)) s \<longrightarrow> j < n)"

lemma synced_other:
  assumes "synced k es n s" and "\<And>e. event m = Some e \<Longrightarrow> key e \<noteq> k" and "entry m \<notin> entry_of ` set es"
  shows "synced k es n (act m s)"
proof -
  have "look k (act m s) = look k s"
    using assms(2) by (cases "event m") (auto simp: act_other act_look)
  moreover have "\<forall>j < length es. seen (entry_of (es ! j)) (act m s) \<longrightarrow> seen (entry_of (es ! j)) s"
    using act_seen assms(3) by (metis image_eqI nth_mem)
  ultimately show ?thesis using assms(1) by (auto simp: synced_def)
qed

lemma synced_old:
  assumes "synced k es n s" and "event m = Some (es ! i)" and "i < n"
    and "sorted_wrt (<) (map ever es)" and "distinct (map entry_of es)"
  shows "synced k es n (act m s)"
proof -
  have n: "n \<le> length es" and D: "look k s = project_events step (take n es)"
    using assms(1) by (auto simp: synced_def)
  have "look k (act m s) = look k s"
    using step_old [OF assms(4) n assms(3)] by (simp add: act_look [OF assms(2)] D)
  moreover have "j = i" if "j < length es" and "entry_of (es ! j) = entry_of (es ! i)" for j
    using that assms(3,5) n by (metis distinct_conv_nth le_trans length_map less_le_trans nth_map)
  ultimately show ?thesis
    using assms(1,3) act_seen [of _ m s] entry_event [OF assms(2)] by (auto simp: synced_def)
qed

lemma synced_next:
  assumes "synced k es n s" and "event m = Some (es ! n)" and "n < length es" and "key (es ! n) = k"
    and "distinct (map entry_of es)"
  shows "synced k es (Suc n) (act m s)"
proof -
  have "\<not> seen (entry_of (es ! n)) s" using assms(1,3) by (auto simp: synced_def)
  then have "look k (act m s) = project_events step (take (Suc n) es)"
    using assms by (simp add: act_look [OF assms(2)] project_take_Suc synced_def)
  moreover have "j = n" if "j < length es" and "entry_of (es ! j) = entry_of (es ! n)" for j
    using that assms(3,5) by (metis distinct_conv_nth length_map nth_map)
  ultimately show ?thesis
    using assms(1,3) act_seen [of _ m s] entry_event [OF assms(2)] by (auto simp: synced_def less_Suc_eq)
qed

text \<open>The main lemma: whatever the log, the document is the fold of the events delivered so far.\<close>

lemma run_synced:
  assumes "progress event (\<lambda>e. key e = k) es n ms = Some n'" and "synced k es n s"
    and "sorted_wrt (<) (map ever es)" and "distinct (map entry_of es)"
    and "\<And>m. m \<in> set ms \<Longrightarrow> (\<forall>e. event m = Some e \<longrightarrow> key e \<noteq> k) \<Longrightarrow> entry m \<notin> entry_of ` set es"
  shows "synced k es n' (run_log act ms s)"
  using assms(1,2,5)
proof (induction ms arbitrary: n s)
  case Nil
  then show ?case by simp
next
  case (Cons m ms)
  consider (other) "\<forall>e. event m = Some e \<longrightarrow> key e \<noteq> k" "progress event (\<lambda>e. key e = k) es n ms = Some n'"
    | (old) i where "event m = Some (es ! i)" "i < n" "progress event (\<lambda>e. key e = k) es n ms = Some n'"
    | (fresh) "event m = Some (es ! n)" "n < length es" "key (es ! n) = k"
        "progress event (\<lambda>e. key e = k) es (Suc n) ms = Some n'"
    using Cons.prems(1) by (auto simp: in_set_conv_nth split: option.splits if_splits)
  then show ?case
  proof cases
    case other
    have "synced k es n (act m s)"
      by (rule synced_other [OF Cons.prems(2)]) (use other Cons.prems(3) in auto)
    with Cons.IH [OF other(2)] Cons.prems(3) show ?thesis by simp
  next
    case old
    with Cons.IH [OF old(3)] synced_old [OF Cons.prems(2) old(1,2) assms(3,4)] Cons.prems(3)
    show ?thesis by simp
  next
    case fresh
    with Cons.IH [OF fresh(4)] synced_next [OF Cons.prems(2) fresh(1-3) assms(4)] Cons.prems(3)
    show ?thesis by simp
  qed
qed

lemma run_project:
  assumes "progress event (\<lambda>e. key e = k) es 0 ms = Some n" and "look k s = None"
    and "\<And>e. e \<in> set es \<Longrightarrow> \<not> seen (entry_of e) s"
    and "sorted_wrt (<) (map ever es)" and "distinct (map entry_of es)"
    and "\<And>m. m \<in> set ms \<Longrightarrow> (\<forall>e. event m = Some e \<longrightarrow> key e \<noteq> k) \<Longrightarrow> entry m \<notin> entry_of ` set es"
  shows "look k (run_log act ms s) = project_events step (take n es)" and "n \<le> length es"
proof -
  have "synced k es 0 s" using assms(2,3) by (simp add: synced_def)
  from run_synced [OF assms(1) this assms(4,5,6)]
  have "synced k es n (run_log act ms s)" by blast
  then show "look k (run_log act ms s) = project_events step (take n es)" and "n \<le> length es"
    by (simp_all add: synced_def)
qed

text \<open>
  A consumer at position \<open>p\<close> of the log \<open>L\<close> of one key: the messages before \<open>p\<close> bring the first \<open>q\<close>
  events, and the state is that after \<open>c\<close> events, no fewer - more when the position was set back.
\<close>

definition reads :: "('l \<Rightarrow> 'e option) \<Rightarrow> 'k \<Rightarrow> 'e list \<Rightarrow> nat \<Rightarrow> 'l list \<Rightarrow> 's \<Rightarrow> bool" where
  "reads dec k es p L s \<longleftrightarrow> p \<le> length L
     \<and> (\<exists>q c. progress dec (\<lambda>_. True) es 0 (take p L) = Some q \<and> q \<le> c \<and> synced k es c s)"

lemma synced_extend:
  assumes "synced k es n s" and "\<forall>e \<in> set xs. \<not> seen (entry_of e) s"
  shows "synced k (es @ xs) n s"
  using assms by (auto simp: synced_def nth_append)

lemma reads_extend:
  assumes "reads dec k es p L s" and "\<forall>e \<in> set xs. \<not> seen (entry_of e) s"
  shows "reads dec k (es @ xs) p (L @ ms) s"
  using assms synced_extend progress_extend by (fastforce simp: reads_def)

lemma reads_other:
  assumes "reads dec k es p L s" and "\<And>e. event m = Some e \<Longrightarrow> key e \<noteq> k" and "entry m \<notin> entry_of ` set es"
  shows "reads dec k es p L (act m s)"
  using assms synced_other by (fastforce simp: reads_def)

lemma reads_rewind:
  assumes "reads dec k es p L s" and "p' \<le> p"
  shows "reads dec k es p' L s"
proof -
  from assms obtain q c where q: "p \<le> length L" "progress dec (\<lambda>_. True) es 0 (take p L) = Some q" "q \<le> c"
    "synced k es c s" by (auto simp: reads_def)
  have cut: "take p L = take p' L @ drop p' (take p L)"
    using append_take_drop_id [of p' "take p L"] assms(2) by (simp add: min_def)
  have "progress dec (\<lambda>_. True) es 0 (take p' L @ drop p' (take p L)) = Some q"
    by (simp only: cut [symmetric] q(2))
  then obtain q' where q': "progress dec (\<lambda>_. True) es 0 (take p' L) = Some q'"
    "progress dec (\<lambda>_. True) es q' (drop p' (take p L)) = Some q" by (rule progress_split)
  have "q' \<le> length es" using progress_bounds [OF q'(1)] by simp
  then have "q' \<le> q" using progress_bounds [OF q'(2)] by simp
  then show ?thesis using q q'(1) assms(2) unfolding reads_def by (meson le_trans)
qed

lemma reads_deliver:
  assumes "reads dec k es p L s" and "p < length L" and "progress dec (\<lambda>_. True) es 0 L \<noteq> None"
    and "dec (L ! p) = Some e" and "event m = Some e" and "\<forall>x \<in> set es. key x = k"
    and "sorted_wrt (<) (map ever es)" and "distinct (map entry_of es)"
  shows "reads dec k es (Suc p) L (act m s) \<and> reads dec k es p L (act m s)"
proof -
  from assms(1) obtain q c where q: "progress dec (\<lambda>_. True) es 0 (take p L) = Some q" "q \<le> c"
    "synced k es c s" by (auto simp: reads_def)
  have "progress dec (\<lambda>_. True) es 0 (take (Suc p) L @ drop (Suc p) L) \<noteq> None" using assms(3) by simp
  then obtain q' where q': "progress dec (\<lambda>_. True) es 0 (take (Suc p) L) = Some q'"
    unfolding progress_append by (auto simp: bind_eq_Some_conv)
  then have step: "progress dec (\<lambda>_. True) es q [L ! p] = Some q'"
    using q(1) assms(2) by (simp add: take_Suc_conv_app_nth progress_append)
  have "(\<exists>i < q. e = es ! i) \<and> q' = q \<or> q < length es \<and> e = es ! q \<and> q' = Suc q"
  proof (cases "e \<in> set (take q es)")
    case True
    then show ?thesis using step assms(4) by (auto simp: in_set_conv_nth)
  next
    case False
    then show ?thesis using step assms(4) by (simp split: if_splits)
  qed
  then consider i where "i < q" "e = es ! i" "q' = q" | "q < length es" "e = es ! q" "q' = Suc q"
    by blast
  then have "\<exists>c'. q' \<le> c' \<and> q \<le> c' \<and> synced k es c' (act m s)"
  proof cases
    case 1
    then show ?thesis using synced_old [OF q(3), of m i] q(2) assms by (intro exI [of _ c]) simp
  next
    case 2
    show ?thesis
    proof (cases "q = c")
      case True
      then show ?thesis using synced_next [OF q(3)] 2 assms by (intro exI [of _ "Suc c"]) simp
    next
      case False
      then show ?thesis using synced_old [OF q(3), of m q] 2 q(2) assms by (intro exI [of _ c]) simp
    qed
  qed
  then show ?thesis using q(1) q' assms(2) by (auto simp: reads_def)
qed

text \<open>At the end of a log that has brought every event, the document is the fold of all of them.\<close>

lemma reads_progress:
  assumes "reads dec k es p L s"
  shows "\<exists>n \<le> length es. look k s = project_events step (take n es)"
  using assms by (auto simp: reads_def synced_def)

lemma reads_end:
  assumes "reads dec k es (length L) L s" and "progress dec (\<lambda>_. True) es 0 L = Some (length es)"
  shows "look k s = project_events step es"
  using assms by (fastforce simp: reads_def synced_def)

end

end
