(* ===== verification/Write_Api.thy ===== *)
theory Write_Api
  imports Saga_World Messaging Inbox
begin

text \<open>
  The write service (\<open>apps/write-api/src\<close>): validation of a new order, \<open>placeOrder\<close>, the merchant's
  and the customer's signals to the order workflow and the driver's signals to the dispatch workflow;
  and the consumer that starts an order's workflow when its placement is read from Kafka
  (\<open>startOrderConsumer\<close> of \<open>apps/saga-worker/src/main.ts\<close>). Temporal's client is a parameter.
\<close>

section \<open>Validation of a new order\<close>

record create_order_dto =
  co_orderId :: string
  co_customerId :: string
  co_items :: "order_item list"
  co_totalAmount :: int

text \<open>
  The decorators of \<open>create-order.dto.ts\<close> under the service's validation pipe: \<open>None\<close> is a 400.
  Fields without a decorator are dropped (\<open>whitelist\<close>).
\<close>

definition item_dto :: "json \<Rightarrow> order_item option" where
  "item_dto j =
     (case (jstr (jget ''sku'' j), jint (jget ''qty'' j), jint (jget ''price'' j)) of
        (Some s, Some q, Some p) \<Rightarrow>
          if 1 \<le> q \<and> 0 \<le> p then Some \<lparr>sku = s, qty = q, price = p\<rparr> else None
      | _ \<Rightarrow> None)"

fun all_some :: "'a option list \<Rightarrow> 'a list option" where
  "all_some [] = Some []"
| "all_some (x # xs) = (case (x, all_some xs) of (Some a, Some as) \<Rightarrow> Some (a # as) | _ \<Rightarrow> None)"

definition create_order :: "json \<Rightarrow> create_order_dto option" where
  "create_order body =
     (case (jstr (jget ''orderId'' body), jstr (jget ''customerId'' body), jget ''items'' body,
            jint (jget ''totalAmount'' body)) of
        (Some oid, Some cid, Some (JArr js), Some tot) \<Rightarrow>
          if js = [] \<or> tot < 0 then None
          else (case all_some (map item_dto js) of
             None \<Rightarrow> None
           | Some its \<Rightarrow> Some \<lparr>co_orderId = oid, co_customerId = cid, co_items = its, co_totalAmount = tot\<rparr>)
      | _ \<Rightarrow> None)"

section \<open>Placing an order\<close>

definition dto_payload :: "create_order_dto \<Rightarrow> payload" where
  "dto_payload dto = order_placed_payload (co_orderId dto) (co_customerId dto) (co_items dto) (co_totalAmount dto)"

text \<open>\<open>placeOrder\<close> from the state and version it has loaded.\<close>

definition placeOrder_commit ::
    "db_role \<Rightarrow> obs_context option \<Rightarrow> draws \<Rightarrow> string \<Rightarrow> create_order_dto \<Rightarrow> order_state \<Rightarrow> nat \<Rightarrow> pg_state
     \<Rightarrow> (db_error, string) result \<times> pg_state" where
  "placeOrder_commit role obs su tenantId dto state version pg =
     (case place state (dto_payload dto) of
        None \<Rightarrow> (Inr (co_orderId dto), pg)
      | Some pl \<Rightarrow>
          (case appendWithExpectedVersion role obs su
             \<lparr>aa_tenantId = tenantId, aa_aggregateType = ORDER, aa_aggregateId = co_orderId dto,
              aa_expectedVersion = version, aa_eventType = OrderPlaced, aa_payload = pl,
              aa_topic = None, aa_correlationId = None\<rparr> pg of
             (Inr _, pg') \<Rightarrow> (Inr (co_orderId dto), pg')
           | (Inl (ConcurrencyError _ _), pg') \<Rightarrow> (Inr (co_orderId dto), pg')
           | (Inl (DatabaseError e), pg') \<Rightarrow> (Inl e, pg')))"

definition placeOrder ::
    "db_role \<Rightarrow> obs_context option \<Rightarrow> draws \<Rightarrow> string \<Rightarrow> create_order_dto \<Rightarrow> pg_state
     \<Rightarrow> (db_error, string) result \<times> pg_state" where
  "placeOrder role obs su tenantId dto pg =
     (case loadAggregate role tenantId (co_orderId dto) foldOrder INITIAL_ORDER_STATE pg of
        (state, version) \<Rightarrow> placeOrder_commit role obs su tenantId dto state version pg)"

section \<open>Recognising errors by their text\<close>

definition lower_char :: "char \<Rightarrow> char" where
  "lower_char c = (let n = of_char c :: nat in if 65 \<le> n \<and> n \<le> 90 then char_of (n + 32) else c)"

fun has_prefix :: "string \<Rightarrow> string \<Rightarrow> bool" where
  "has_prefix [] s = True"
| "has_prefix (p # ps) [] = False"
| "has_prefix (p # ps) (c # cs) \<longleftrightarrow> p = c \<and> has_prefix ps cs"

fun contains :: "string \<Rightarrow> string \<Rightarrow> bool" where
  "contains p [] \<longleftrightarrow> p = []"
| "contains p (c # cs) \<longleftrightarrow> has_prefix p (c # cs) \<or> contains p cs"

text \<open>A case-insensitive test for one of two words, \<open>/a|b/i.test(String(err))\<close>.\<close>

definition mentions :: "string list \<Rightarrow> string \<Rightarrow> bool" where
  "mentions words s \<longleftrightarrow> list_ex (\<lambda>w. contains (map lower_char w) (map lower_char s)) words"

definition NOT_FOUND :: "string list" where "NOT_FOUND = [''not found'', ''NotFound'']"

definition ALREADY_STARTED :: "string list" where
  "ALREADY_STARTED = [''already started'', ''WorkflowExecutionAlreadyStarted'']"

section \<open>Signals to the workflows\<close>

text \<open>
  What a controller hands to \<open>handle.signal\<close>. The table of dispatch signals is a plain object, so an
  action named like a member every object inherits finds that member instead of nothing.
\<close>

datatype wf_signal =
    SigMerchantApproval bool
  | SigConfirmPayment
  | SigDispatch string "json option"
  | SigInherited string "json option"

text \<open>
  Temporal's answer to a signal for a workflow id: delivered, or the error thrown. A controller's run
  is its answer with the signals that were delivered.
\<close>

type_synonym signal_server = "string \<Rightarrow> wf_signal \<Rightarrow> (string, unit) result"

definition send_signal ::
    "signal_server \<Rightarrow> string \<Rightarrow> wf_signal \<Rightarrow> string \<Rightarrow> 'a
     \<Rightarrow> (http_error, 'a) result \<times> (string \<times> wf_signal) list" where
  "send_signal srv wid sg notFound answer =
     (case srv wid sg of
        Inr _ \<Rightarrow> (Inr answer, [(wid, sg)])
      | Inl err \<Rightarrow> (Inl (if mentions NOT_FOUND err then NotFound notFound else InternalError err), []))"

definition order_workflow_id :: "string \<Rightarrow> string \<Rightarrow> string" where
  "order_workflow_id tenantId orderId = colon_key tenantId orderId"

definition dispatch_workflow_id :: "string \<Rightarrow> string \<Rightarrow> string" where
  "dispatch_workflow_id tenantId orderId = ''dispatch:'' @ colon_key tenantId orderId"

text \<open>\<open>PaymentsClient.getStatus\<close> from the reply of the payments service, \<open>None\<close> when it cannot be reached.\<close>

definition getStatus ::
    "(http_error, string \<times> payment_status \<times> int) result option \<Rightarrow> (string, payment_status option) result" where
  "getStatus reply =
     (case reply of
        None \<Rightarrow> Inl ''fetch failed''
      | Some (Inr (_, s, _)) \<Rightarrow> Inr (Some s)
      | Some (Inl e) \<Rightarrow>
          if http_status e = 404 then Inr None
          else Inl (''payments GET failed: '' @ show_nat (http_status e)))"

fun payment_status_name :: "payment_status \<Rightarrow> string" where
  "payment_status_name PAY_AUTHORIZED = ''AUTHORIZED''"
| "payment_status_name PAY_CAPTURED = ''CAPTURED''"
| "payment_status_name PAY_VOIDED = ''VOIDED''"
| "payment_status_name PAY_DECLINED = ''DECLINED''"

definition not_authorized_text :: "string \<Rightarrow> payment_status option \<Rightarrow> string" where
  "not_authorized_text orderId st = ''Order '' @ orderId @ '' payment is not authorized (status: '' @
     (case st of None \<Rightarrow> ''none'' | Some s \<Rightarrow> payment_status_name s) @ '')''"

definition merchant_signal ::
    "signal_server \<Rightarrow> (http_error, string \<times> payment_status \<times> int) result option \<Rightarrow> string \<Rightarrow> string \<Rightarrow> bool
     \<Rightarrow> (http_error, string \<times> string) result \<times> (string \<times> wf_signal) list" where
  "merchant_signal srv reply tenantId orderId approved =
     (case getStatus reply of
        Inl e \<Rightarrow> (Inl (InternalError e), [])
      | Inr st \<Rightarrow>
          if st \<noteq> Some PAY_AUTHORIZED then (Inl (Conflict (not_authorized_text orderId st)), [])
          else send_signal srv (order_workflow_id tenantId orderId) (SigMerchantApproval approved)
                 (''No active order workflow for '' @ orderId)
                 (orderId, if approved then ''accept'' else ''decline''))"

definition confirm_payment ::
    "signal_server \<Rightarrow> string \<Rightarrow> string \<Rightarrow> (http_error, string \<times> string) result \<times> (string \<times> wf_signal) list" where
  "confirm_payment srv tenantId orderId =
     send_signal srv (order_workflow_id tenantId orderId) SigConfirmPayment
       (''No active order workflow for '' @ orderId) (orderId, ''confirm-payment'')"

definition OBJECT_MEMBERS :: "string list" where
  "OBJECT_MEMBERS = [''constructor'', ''toString'', ''toLocaleString'', ''valueOf'', ''hasOwnProperty'',
     ''isPrototypeOf'', ''propertyIsEnumerable'', ''__proto__'', ''__defineGetter__'', ''__defineSetter__'',
     ''__lookupGetter__'', ''__lookupSetter__'']"

definition SIGNALS :: "(string \<times> string) list" where
  "SIGNALS = [(''accept'', ''dispatchAccept''), (''reject'', ''dispatchReject''),
     (''pickup'', ''dispatchPickup''), (''deliver'', ''dispatchDeliver'')]"

definition signal_of :: "string \<Rightarrow> json option \<Rightarrow> wf_signal option" where
  "signal_of action driverId =
     (case map_of SIGNALS action of
        Some s \<Rightarrow> Some (SigDispatch s driverId)
      | None \<Rightarrow> if action \<in> set OBJECT_MEMBERS then Some (SigInherited action driverId) else None)"

definition driver_signal ::
    "signal_server \<Rightarrow> string \<Rightarrow> string \<Rightarrow> string \<Rightarrow> json
     \<Rightarrow> (http_error, string \<times> string) result \<times> (string \<times> wf_signal) list" where
  "driver_signal srv tenantId orderId action body =
     (case signal_of action (jget ''driverId'' body) of
        None \<Rightarrow> (Inl (NotFound (''unknown dispatch action '' @ action)), [])
      | Some sg \<Rightarrow> send_signal srv (dispatch_workflow_id tenantId orderId) sg
                    (''No active dispatch for '' @ orderId) (orderId, action))"


section \<open>Starting the order workflow\<close>

record saga_config =
  sg_slaSeconds :: nat
  sg_confirmSeconds :: nat
  sg_offerTimeoutSeconds :: nat
  sg_maxOffers :: nat
  sg_deliverySeconds :: nat

text \<open>The schema of \<open>OrderPlaced\<close> requires the order id and the total, so the defaults are never met.\<close>

definition saga_start_args :: "saga_config \<Rightarrow> envelope \<Rightarrow> saga_args" where
  "saga_start_args cfg env =
     \<lparr>sa_tenantId = e_tenantId env, sa_orderId = nullish (pl_orderId (e_payload env)) ''undefined'',
      sa_totalAmount = nullish (pl_totalAmount (e_payload env)) 0, sa_slaSeconds = sg_slaSeconds cfg,
      sa_confirmSeconds = sg_confirmSeconds cfg, sa_offerTimeoutSeconds = sg_offerTimeoutSeconds cfg,
      sa_maxOffers = sg_maxOffers cfg, sa_deliverySeconds = sg_deliverySeconds cfg,
      sa_correlationId = e_correlationId env\<rparr>"

text \<open>
  \<open>workflow.start\<close> is the parameter \<open>start\<close>, on the state \<open>'s\<close> of the Temporal server. The handler's
  answer is an error when the message is to be delivered again.
\<close>

definition start_workflow ::
    "(string \<Rightarrow> saga_args \<Rightarrow> 's \<Rightarrow> (string, unit) result \<times> 's) \<Rightarrow> saga_config \<Rightarrow> envelope \<Rightarrow> 's
     \<Rightarrow> (string, unit) result \<times> 's" where
  "start_workflow start cfg env s =
     (if e_eventType env \<noteq> OrderPlaced then (Inr (), s)
      else (case start (order_workflow_id (e_tenantId env) (nullish (pl_orderId (e_payload env)) ''undefined''))
                (saga_start_args cfg env) s of
        (Inr _, s') \<Rightarrow> (Inr (), s')
      | (Inl err, s') \<Rightarrow> (if mentions ALREADY_STARTED err then Inr () else Inl err, s')))"

definition order_consumer_message ::
    "(string \<Rightarrow> saga_args \<Rightarrow> 's \<Rightarrow> (string, unit) result \<times> 's) \<Rightarrow> saga_config \<Rightarrow> 'b registry \<Rightarrow> string
     \<Rightarrow> 'b kafka_message \<Rightarrow> 's \<Rightarrow> (string, unit) result \<times> 's" where
  "order_consumer_message start cfg rg freshId m s =
     (case readEnvelope rg freshId m of
        Inl e \<Rightarrow> (Inl e, s)
      | Inr None \<Rightarrow> (Inr (), s)
      | Inr (Some mp) \<Rightarrow>
          (case envelope_of mp of
             None \<Rightarrow> (Inr (), s)
           | Some env \<Rightarrow> start_workflow start cfg env s))"

section \<open>Placing is idempotent\<close>

lemma writer_nonempty:
  assumes "writers_reach order_machine pg ws" and "w \<in> set ws" and "os_status (w_state w) \<noteq> None"
  shows "events_of pg (w_tenantId w) (w_aggregateId w) \<noteq> []"
proof
  assume "events_of pg (w_tenantId w) (w_aggregateId w) = []"
  moreover have "writer_ok order_machine pg w"
    using om.reach_inv [OF assms(1)] assms(2) by (simp add: om.writers_inv_def list_all_iff)
  ultimately show False using assms(3) by (simp add: writer_ok_def INITIAL_ORDER_STATE_def)
qed

lemma placeOrder_existing:
  assumes "store_inv pg" and "order_legal (events_of pg t (co_orderId dto))"
    and "events_of pg t (co_orderId dto) \<noteq> []"
  shows "placeOrder role obs su t dto pg = (Inr (co_orderId dto), pg)"
proof -
  have "os_status (order_fold (events_of pg t (co_orderId dto))) \<noteq> None"
    using order_fold_status [OF assms(2)] assms(3) by simp
  then show ?thesis
    by (simp add: placeOrder_def placeOrder_commit_def loadAggregate_eq [OF assms(1)] fold_stream_events
        place_def order_fold_def events_of_def)
qed


lemma placeOrder_commit_reach:
  assumes "writers_reach order_machine pg ws" and "w \<in> set ws"
    and "w_cmd w = CmdPlace (dto_payload dto)" and "w_aggregateId w = co_orderId dto"
    and "placeOrder_commit role obs su (w_tenantId w) dto (w_state w) (w_version w) pg = (r, pg')"
  shows "\<exists>ws'. writers_reach order_machine pg' ws'"
proof (cases "place (w_state w) (dto_payload dto)")
  case None
  with assms(1,5) show ?thesis by (auto simp: placeOrder_commit_def)
next
  case (Some pl)
  let ?args = "writer_args order_machine w OrderPlaced pl None"
  obtain ws1 ws2 where ws: "ws = ws1 @ w # ws2" using assms(2) by (meson split_list)
  obtain r' where app: "appendWithExpectedVersion role obs su ?args pg = (r', pg')"
    using assms(4,5) Some
    by (auto simp: placeOrder_commit_def writer_args_def split: prod.splits sum.splits store_error.splits)
  have "order_decide (w_cmd w) (w_state w) = Some (OrderPlaced, pl)" using Some assms(3) by simp
  then show ?thesis
    using writers_reach.commit [OF assms(1)[unfolded ws], of OrderPlaced pl role obs su None r' pg'] app by auto
qed

lemma placeOrder_commit_exists:
  assumes "writers_reach order_machine pg ws" and "w \<in> set ws" and "w_aggregateId w = co_orderId dto"
    and "\<not> id_taken (su_eventId su) pg"
    and "placeOrder_commit role obs su (w_tenantId w) dto (w_state w) (w_version w) pg = (r, pg')"
  shows "r = Inr (co_orderId dto)" and "events_of pg' (w_tenantId w) (co_orderId dto) \<noteq> []"
proof -
  note inv = om.reach_store_inv [OF assms(1)]
  have ok: "writer_ok order_machine pg w"
    using om.reach_inv [OF assms(1)] assms(2) by (simp add: om.writers_inv_def list_all_iff)
  have "r = Inr (co_orderId dto) \<and> events_of pg' (w_tenantId w) (co_orderId dto) \<noteq> []"
  proof (cases "os_status (w_state w) = None")
    case False
    with assms(3,5) writer_nonempty [OF assms(1,2)] show ?thesis
      by (auto simp: placeOrder_commit_def place_def)
  next
    case True
    let ?t = "w_tenantId w" and ?a = "co_orderId dto"
    have v: "w_version w \<le> length (stream pg ?t ?a)"
      using ok assms(3) by (simp add: writer_ok_def length_events_of)
    show ?thesis
    proof (cases "w_version w = length (stream pg ?t ?a)")
      case False
      with v have "stream pg ?t ?a \<noteq> []" "w_version w < length (stream pg ?t ?a)" by auto
      with True assms(3-5) show ?thesis
        by (auto simp: placeOrder_commit_def place_def append_eq [OF inv] events_of_def)
    next
      case at_end: True
      let ?args = "\<lparr>aa_tenantId = ?t, aa_aggregateType = ORDER, aa_aggregateId = ?a,
        aa_expectedVersion = w_version w, aa_eventType = OrderPlaced, aa_payload = dto_payload dto,
        aa_topic = None, aa_correlationId = None\<rparr>"
      have "stream (pg\<lparr>pg_events := pg_events pg @ [append_event_row obs su ?args],
          pg_outbox := pg_outbox pg @ [append_outbox_row obs su ?args]\<rparr>) ?t ?a \<noteq> []"
        by (simp add: stream_def store_simps)
      with True at_end assms(3-5) show ?thesis
        by (auto simp: placeOrder_commit_def place_def append_eq [OF inv] events_of_def)
    qed
  qed
  then show "r = Inr (co_orderId dto)" and "events_of pg' (w_tenantId w) (co_orderId dto) \<noteq> []" by auto
qed

text \<open>
  C23: Placing an order is idempotent, also against concurrent requests. Whatever handlers are in
  flight, a \<open>placeOrder\<close> that has loaded the order (possibly long ago) answers its order id and leaves
  an order behind, be it its own, one that was there, or that of a request that won the race; from
  then on placing that order again, with whatever contents, answers the same and changes nothing.
\<close>

theorem place_order_idempotent:
  assumes "writers_reach order_machine pg ws" and "w \<in> set ws"
    and "w_cmd w = CmdPlace (dto_payload dto)" and "w_aggregateId w = co_orderId dto"
    and "\<not> id_taken (su_eventId su) pg"
    and "placeOrder_commit role obs su (w_tenantId w) dto (w_state w) (w_version w) pg = (r, pg')"
  shows "r = Inr (co_orderId dto) \<and> events_of pg' (w_tenantId w) (co_orderId dto) \<noteq> [] \<and>
    (co_orderId dto' = co_orderId dto \<longrightarrow>
       placeOrder role' obs' su' (w_tenantId w) dto' pg' = (Inr (co_orderId dto), pg'))"
proof -
  note ex = placeOrder_commit_exists [OF assms(1,2,4,5,6)]
  from placeOrder_commit_reach [OF assms(1-4,6)] obtain ws' where reach: "writers_reach order_machine pg' ws'" ..
  have "\<not> is_dispatch_id (co_orderId dto)"
    using om.reach_inv [OF assms(1)] assms(2,4) by (auto simp: om.writers_inv_def list_all_iff writer_ok_def)
  then have "order_legal (events_of pg' (w_tenantId w) (co_orderId dto))" using om.reach_legal [OF reach] by simp
  then show ?thesis
    using ex placeOrder_existing [OF om.reach_store_inv [OF reach], of "w_tenantId w" dto'] by auto
qed

definition sample_dto :: create_order_dto where
  "sample_dto = \<lparr>co_orderId = ''o1'', co_customerId = ''c9'', co_items = [\<lparr>sku = ''t'', qty = 2, price = 3\<rparr>],
     co_totalAmount = 6\<rparr>"

text \<open>The second of two racing placements of one order, which loaded it before the first committed.\<close>

definition late_writer :: "(order_cmd, order_state) writer" where
  "late_writer = \<lparr>w_tenantId = ''berlin'', w_aggregateId = ''o1'', w_cmd = CmdPlace (dto_payload sample_dto),
     w_state = INITIAL_ORDER_STATE, w_version = 0\<rparr>"

lemma late_writer_reach: "writers_reach order_machine sample_pg [late_writer]"
proof (rule sequential_handler_reach [where role = AppRole and v = 0 and s = INITIAL_ORDER_STATE
      and t = "''berlin''" and a = "''o1''" and ty = OrderPlaced and role' = AppRole and obs = None
      and su = "sample_draws ''e1''" and corr = None and r = "Inr (append_envelope None (sample_draws ''e1'') sample_append)"
      and c = "CmdPlace (aa_payload sample_append)" and pl = "aa_payload sample_append"])
  have load: "loadAggregate AppRole ''berlin'' ''o1'' foldOrder INITIAL_ORDER_STATE empty_pg = (INITIAL_ORDER_STATE, 0)"
    by (simp add: loadAggregate_eq) (simp add: stream_def empty_pg_def)
  then show "loadAggregate AppRole ''berlin'' ''o1'' (m_fold order_machine) (m_initial order_machine) empty_pg
      = (INITIAL_ORDER_STATE, 0)" by simp
  show "writers_reach order_machine empty_pg [late_writer]"
    unfolding late_writer_def
    by (rule writers_reach.load [where role = AppRole], rule writers_reach.start)
      (simp_all add: is_dispatch_id_def load)
  show "appendWithExpectedVersion AppRole None (sample_draws ''e1'')
     \<lparr>aa_tenantId = ''berlin'', aa_aggregateType = m_type order_machine, aa_aggregateId = ''o1'',
        aa_expectedVersion = 0, aa_eventType = OrderPlaced, aa_payload = aa_payload sample_append,
        aa_topic = m_topic order_machine, aa_correlationId = None\<rparr> empty_pg
     = (Inr (append_envelope None (sample_draws ''e1'') sample_append), sample_pg)"
    using sample_append_ok by (simp add: sample_append_def)
qed (simp_all add: is_dispatch_id_def place_def INITIAL_ORDER_STATE_def)

theorem place_order_idempotent_witness:
  "fst (placeOrder_commit AppRole None (sample_draws ''e2'') ''berlin'' sample_dto INITIAL_ORDER_STATE 0 sample_pg)
     = Inr ''o1''"
proof -
  obtain r pg' where app: "placeOrder_commit AppRole None (sample_draws ''e2'') ''berlin'' sample_dto
      INITIAL_ORDER_STATE 0 sample_pg = (r, pg')" by fastforce
  from place_order_idempotent [OF late_writer_reach, of late_writer sample_dto "sample_draws ''e2''" AppRole None r pg'
      sample_dto AppRole None "sample_draws ''e3''"] app
  show ?thesis
    by (simp add: late_writer_def sample_dto_def id_taken_def sample_pg_def store_simps sample_draws_def)
qed


section \<open>Placing a new order\<close>

definition place_args :: "string \<Rightarrow> create_order_dto \<Rightarrow> append_args" where
  "place_args t dto = \<lparr>aa_tenantId = t, aa_aggregateType = ORDER, aa_aggregateId = co_orderId dto,
     aa_expectedVersion = 0, aa_eventType = OrderPlaced, aa_payload = dto_payload dto,
     aa_topic = None, aa_correlationId = None\<rparr>"

lemma place_initial: "place INITIAL_ORDER_STATE p = Some p"
  by (simp add: place_def INITIAL_ORDER_STATE_def)

lemma placeOrder_new:
  assumes "store_inv pg" and "events_of pg t (co_orderId dto) = []" and "\<not> id_taken (su_eventId su) pg"
    and "placeOrder role obs su t dto pg = (r, pg')"
  shows "r = Inr (co_orderId dto)" and "store_inv pg'"
    and "pg_outbox pg' = pg_outbox pg @ [append_outbox_row obs su (place_args t dto)]"
    and "os_status (order_fold (events_of pg' t (co_orderId dto))) = Some PLACED"
proof -
  have none: "stream pg t (co_orderId dto) = []" using assms(2) by (simp add: events_of_def)
  have load: "loadAggregate role t (co_orderId dto) foldOrder INITIAL_ORDER_STATE pg = (INITIAL_ORDER_STATE, 0)"
    using loadAggregate_events [OF assms(1), of role t "co_orderId dto" foldOrder INITIAL_ORDER_STATE] assms(2) none
    by simp
  obtain pg1 where app: "appendWithExpectedVersion role obs su (place_args t dto) pg =
      (Inr (append_envelope obs su (place_args t dto)), pg1)"
    using append_progress [OF assms(1,3), of "place_args t dto"] none by (auto simp: place_args_def)
  have run: "placeOrder role obs su t dto pg = (Inr (co_orderId dto), pg1)"
    using app by (simp add: placeOrder_def placeOrder_commit_def load place_initial place_args_def)
  then have pg': "r = Inr (co_orderId dto)" "pg' = pg1" using assms(4) by simp_all
  then show "r = Inr (co_orderId dto)" by simp
  note eff = append_loaded [OF assms(1) _ app]
  show "store_inv pg'" using eff(1) none pg'(2) by (simp add: place_args_def)
  have "events_of pg1 t (co_orderId dto) =
      [\<lparr>fe_eventType = OrderPlaced, fe_payload = dto_payload dto, fe_version = Suc 0\<rparr>]"
    using eff(4) none assms(2) by (simp add: place_args_def)
  then show "os_status (order_fold (events_of pg' t (co_orderId dto))) = Some PLACED"
    by (simp add: pg'(2) order_fold_def foldOrder_def)
  show "pg_outbox pg' = pg_outbox pg @ [append_outbox_row obs su (place_args t dto)]"
    using app assms(1) by (auto simp: pg'(2) append_eq split: if_splits)
qed

section \<open>Signals stay in their tenant\<close>

datatype endpoint = MerchantEndpoint bool | ConfirmEndpoint | DriverEndpoint string json

fun call_endpoint ::
    "signal_server \<Rightarrow> (http_error, string \<times> payment_status \<times> int) result option \<Rightarrow> string \<Rightarrow> string \<Rightarrow> endpoint
     \<Rightarrow> (http_error, string \<times> string) result \<times> (string \<times> wf_signal) list" where
  "call_endpoint srv reply t oid (MerchantEndpoint approved) = merchant_signal srv reply t oid approved"
| "call_endpoint srv reply t oid ConfirmEndpoint = confirm_payment srv t oid"
| "call_endpoint srv reply t oid (DriverEndpoint action body) = driver_signal srv t oid action body"

definition workflow_slug :: "string \<Rightarrow> bool" where
  "workflow_slug t \<longleftrightarrow> CHR '':'' \<notin> set t \<and> t \<noteq> ''dispatch''"

lemma send_signal_cases:
  "send_signal srv wid sg nf a = (r, sent) \<Longrightarrow> (is_ok r \<longleftrightarrow> sent = [(wid, sg)]) \<and> (sent = [] \<or> sent = [(wid, sg)])"
  by (auto simp: send_signal_def split: sum.splits)

lemma call_endpoint_target:
  assumes "call_endpoint srv reply t oid ep = (r, sent)"
  shows "is_ok r \<longleftrightarrow> sent \<noteq> []" and "length sent \<le> 1"
    and "(wid, sg) \<in> set sent \<Longrightarrow> wid = order_workflow_id t oid \<or> wid = dispatch_workflow_id t oid"
proof -
  have "(is_ok r \<longleftrightarrow> sent \<noteq> []) \<and> length sent \<le> 1 \<and>
      ((wid, sg) \<in> set sent \<longrightarrow> wid = order_workflow_id t oid \<or> wid = dispatch_workflow_id t oid)"
    using assms send_signal_cases [of srv _ _ _ _ r sent]
    by (cases ep) (fastforce simp: merchant_signal_def confirm_payment_def driver_signal_def
        split: sum.splits if_splits option.splits)+
  then show "is_ok r \<longleftrightarrow> sent \<noteq> []" "length sent \<le> 1"
    "(wid, sg) \<in> set sent \<Longrightarrow> wid = order_workflow_id t oid \<or> wid = dispatch_workflow_id t oid" by auto
qed

lemma workflow_ids_tenant:
  assumes "workflow_slug t" and "workflow_slug t'" and "wid \<in> {order_workflow_id t a, dispatch_workflow_id t a}"
    and "wid \<in> {order_workflow_id t' b, dispatch_workflow_id t' b}"
  shows "t = t'"
proof -
  have d: "dispatch_workflow_id u x = colon_key ''dispatch'' (colon_key u x)" for u x
    by (simp add: dispatch_workflow_id_def colon_key_def)
  show ?thesis
    using assms by (auto simp: workflow_slug_def order_workflow_id_def d colon_key_inject)
qed

text \<open>
  C24: No request signals a workflow of another tenant. A 202 of the merchant's, the customer's and the
  driver's endpoints means that exactly one signal was delivered and any other answer that none was;
  and the workflows that requests of two different tenants reach are different ones, whatever order
  ids and actions they name, as long as slugs have no colon and none is \<open>dispatch\<close>.
\<close>

theorem signals_stay_in_tenant:
  assumes "call_endpoint srv reply t oid ep = (r, sent)" and "call_endpoint srv' reply' t' oid' ep' = (r', sent')"
    and "workflow_slug t" and "workflow_slug t'" and "t \<noteq> t'"
  shows "(is_ok r \<longleftrightarrow> length sent = 1) \<and> fst ` set sent \<inter> fst ` set sent' = {}"
proof -
  note a = call_endpoint_target [OF assms(1)] and b = call_endpoint_target [OF assms(2)]
  have "length sent = 1 \<longleftrightarrow> sent \<noteq> []" using a(2) by (cases sent) auto
  moreover have "False" if "(wid, sg) \<in> set sent" "(wid, sg') \<in> set sent'" for wid sg sg'
    using workflow_ids_tenant [OF assms(3,4), of wid oid oid'] a(3) [OF that(1)] b(3) [OF that(2)] assms(5) by auto
  ultimately show ?thesis using a(1) by fastforce
qed

theorem signals_stay_in_tenant_witness:
  "let (r, sent) = call_endpoint (\<lambda>_ _. Inr ()) None ''berlin'' ''o1'' ConfirmEndpoint;
       (r', sent') = call_endpoint (\<lambda>_ _. Inr ()) None ''tokyo'' ''o1'' (DriverEndpoint ''pickup'' (JObj []))
   in length sent = 1 \<and> fst ` set sent \<inter> fst ` set sent' = {}"
proof -
  obtain r sent r' sent' where runs:
    "call_endpoint (\<lambda>_ _. Inr ()) None ''berlin'' ''o1'' ConfirmEndpoint = (r, sent)"
    "call_endpoint (\<lambda>_ _. Inr ()) None ''tokyo'' ''o1'' (DriverEndpoint ''pickup'' (JObj [])) = (r', sent')"
    by fastforce
  have "is_ok r" using runs(1) by (auto simp: confirm_payment_def send_signal_def)
  moreover have "(is_ok r \<longleftrightarrow> length sent = 1) \<and> fst ` set sent \<inter> fst ` set sent' = {}"
    by (rule signals_stay_in_tenant [OF runs]) (simp_all add: workflow_slug_def)
  ultimately show ?thesis by (simp only: runs Let_def prod.case simp_thms)
qed

text \<open>
  A merchant's decision reaches the order workflow only while the payment is held: when the
  payments service answers from its table, an approval or a refusal is delivered only if the row of
  that tenant and order is \<open>AUTHORIZED\<close>; in every other state the merchant gets a 409.
\<close>

theorem merchant_decision_needs_hold:
  "merchant_signal srv (Some (payments_get t oid db)) t oid approved =
    (if status_of db (t, oid) = Some PAY_AUTHORIZED
     then send_signal srv (order_workflow_id t oid) (SigMerchantApproval approved)
        (''No active order workflow for '' @ oid) (oid, if approved then ''accept'' else ''decline'')
     else (Inl (Conflict (not_authorized_text oid (status_of db (t, oid)))), []))"
  by (cases "db (t, oid)")
    (simp_all add: merchant_signal_def getStatus_def payments_get_def pay_get_def status_of_def)

section \<open>One workflow per order\<close>

text \<open>
  What the consumer relies on of \<open>workflow.start\<close> with the reuse policy \<open>REJECT_DUPLICATE\<close>: an id that
  was ever started is refused with an error of that name, any other is started with its arguments or
  the call fails and starts nothing. \<open>started\<close> reads the server's state.
\<close>

definition rejects_duplicates ::
    "(string \<Rightarrow> saga_args \<Rightarrow> 's \<Rightarrow> (string, unit) result \<times> 's) \<Rightarrow> ('s \<Rightarrow> string \<Rightarrow> saga_args option) \<Rightarrow> bool" where
  "rejects_duplicates start started \<longleftrightarrow> (\<forall>i a s. case start i a s of
      (Inr _, s') \<Rightarrow> started s i = None \<and> started s' = (started s)(i \<mapsto> a)
    | (Inl err, s') \<Rightarrow> started s' = started s \<and> (mentions ALREADY_STARTED err \<longleftrightarrow> started s i \<noteq> None))"

definition order_wid :: "envelope \<Rightarrow> string" where
  "order_wid env = order_workflow_id (e_tenantId env) (nullish (pl_orderId (e_payload env)) ''undefined'')"

text \<open>
  A consumer's life over the deliveries it gets: a message whose handling throws comes again, as do
  messages handled before, so the log is any list of envelopes; the second result collects those
  that were acknowledged.
\<close>

fun consume_log ::
    "(string \<Rightarrow> saga_args \<Rightarrow> 's \<Rightarrow> (string, unit) result \<times> 's) \<Rightarrow> saga_config \<Rightarrow> envelope list \<Rightarrow> 's
     \<Rightarrow> envelope list \<times> 's" where
  "consume_log start cfg [] s = ([], s)"
| "consume_log start cfg (e # es) s =
     (case start_workflow start cfg e s of
        (r, s') \<Rightarrow> (case consume_log start cfg es s' of
          (acked, s'') \<Rightarrow> (if is_ok r then e # acked else acked, s'')))"

lemma start_workflow_effect:
  assumes "rejects_duplicates start started" and "start_workflow start cfg e s = (r, s')"
  shows "started s' = (if e_eventType e = OrderPlaced \<and> is_ok r \<and> started s (order_wid e) = None
      then (started s)(order_wid e \<mapsto> saga_start_args cfg e) else started s)"
    and "e_eventType e = OrderPlaced \<Longrightarrow> is_ok r \<longleftrightarrow> started s' (order_wid e) \<noteq> None"
proof -
  obtain q s1 where st: "start (order_wid e) (saga_start_args cfg e) s = (q, s1)" by fastforce
  have "case start (order_wid e) (saga_start_args cfg e) s of
      (Inr _, s') \<Rightarrow> started s (order_wid e) = None \<and> started s' = (started s)(order_wid e \<mapsto> saga_start_args cfg e)
    | (Inl err, s') \<Rightarrow> started s' = started s \<and> (mentions ALREADY_STARTED err \<longleftrightarrow> started s (order_wid e) \<noteq> None)"
    by (rule assms(1) [unfolded rejects_duplicates_def, THEN spec, THEN spec, THEN spec])
  note law = this [unfolded st prod.case]
  have def: "start_workflow start cfg e s = (if e_eventType e \<noteq> OrderPlaced then (Inr (), s)
      else case (q, s1) of (Inr _, s') \<Rightarrow> (Inr (), s')
        | (Inl err, s') \<Rightarrow> (if mentions ALREADY_STARTED err then Inr () else Inl err, s'))"
    by (simp only: start_workflow_def order_wid_def [symmetric] st)
  show "started s' = (if e_eventType e = OrderPlaced \<and> is_ok r \<and> started s (order_wid e) = None
      then (started s)(order_wid e \<mapsto> saga_start_args cfg e) else started s)"
    using assms(2) [unfolded def] law by (cases q) (auto split: if_splits)
  show "is_ok r \<longleftrightarrow> started s' (order_wid e) \<noteq> None" if "e_eventType e = OrderPlaced"
    using assms(2) [unfolded def] law that by (cases q) (auto split: if_splits)
qed

lemma consume_log_effect:
  assumes "rejects_duplicates start started" and "consume_log start cfg es s = (acked, s')"
  shows "started s' i = (case started s i of Some a \<Rightarrow> Some a
    | None \<Rightarrow> map_option (saga_start_args cfg) (find (\<lambda>e. e_eventType e = OrderPlaced \<and> order_wid e = i) acked))"
  using assms(2)
proof (induction es arbitrary: s acked)
  case Nil
  then show ?case by (auto split: option.splits)
next
  case (Cons e es)
  obtain r s1 where st: "start_workflow start cfg e s = (r, s1)" by fastforce
  obtain acked1 s2 where rest: "consume_log start cfg es s1 = (acked1, s2)" by fastforce
  from Cons.prems st rest have a: "acked = (if is_ok r then e # acked1 else acked1)" "s' = s2" by auto
  have IH: "started s' i = (case started s1 i of Some a \<Rightarrow> Some a
    | None \<Rightarrow> map_option (saga_start_args cfg) (find (\<lambda>e. e_eventType e = OrderPlaced \<and> order_wid e = i) acked1))"
    using Cons.IH [OF rest [folded a(2)]] by simp
  show ?case
    using start_workflow_effect [OF assms(1) st] IH a(1)
    by (cases "e_eventType e = OrderPlaced \<and> order_wid e = i"; cases "started s i") (auto split: if_splits)
qed

text \<open>
  C25: Every order gets exactly one workflow. However often and in whatever order placements are
  delivered and redelivered, and however often starting fails, once a placement is acknowledged the
  order's workflow has been started, with the arguments of the first acknowledged placement; no
  later delivery starts it again, and nothing else starts a workflow.
\<close>

theorem one_workflow_per_order:
  assumes "rejects_duplicates start started" and "started s = Map.empty"
    and "consume_log start cfg es s = (acked, s')"
  shows "started s' = (\<lambda>i. map_option (saga_start_args cfg)
    (find (\<lambda>e. e_eventType e = OrderPlaced \<and> order_wid e = i) acked))"
  using consume_log_effect [OF assms(1,3)] assms(2) by (simp add: fun_eq_iff)

text \<open>A server as the hypothesis describes it, refusing every call in its first state.\<close>

definition sample_start ::
    "string \<Rightarrow> saga_args \<Rightarrow> (string \<rightharpoonup> saga_args) \<times> nat \<Rightarrow> (string, unit) result \<times> (string \<rightharpoonup> saga_args) \<times> nat" where
  "sample_start i a st =
     (case st of (m, n) \<Rightarrow>
        if m i \<noteq> None then (Inl ''WorkflowExecutionAlreadyStartedError'', m, Suc n)
        else if n = 0 then (Inl ''unavailable'', m, Suc n) else (Inr (), m(i \<mapsto> a), Suc n))"

definition sample_saga_config :: saga_config where
  "sample_saga_config = \<lparr>sg_slaSeconds = 60, sg_confirmSeconds = 60, sg_offerTimeoutSeconds = 30, sg_maxOffers = 3,
     sg_deliverySeconds = 60\<rparr>"

definition placed_envelope :: envelope where
  "placed_envelope = append_envelope None (sample_draws ''e1'') sample_append"

lemma sample_start_mentions:
  "mentions ALREADY_STARTED ''WorkflowExecutionAlreadyStartedError''" "\<not> mentions ALREADY_STARTED ''unavailable''"
  by code_simp+

lemma sample_start_law: "rejects_duplicates sample_start fst"
  by (auto simp: rejects_duplicates_def sample_start_def sample_start_mentions split: prod.splits)

theorem one_workflow_per_order_witness:
  "fst (snd (consume_log sample_start sample_saga_config [placed_envelope, placed_envelope, placed_envelope]
      (Map.empty, 0)))
    = [order_wid placed_envelope \<mapsto> saga_start_args sample_saga_config placed_envelope]"
proof -
  have ty: "e_eventType placed_envelope = OrderPlaced" by (simp add: placed_envelope_def append_envelope_def buildEnvelope_def sample_append_def)
  have run: "fst (consume_log sample_start sample_saga_config [placed_envelope, placed_envelope, placed_envelope]
      (Map.empty, 0)) = [placed_envelope, placed_envelope]"
    by (simp add: start_workflow_def sample_start_def sample_start_mentions ty)
  obtain acked s' where log: "consume_log sample_start sample_saga_config
      [placed_envelope, placed_envelope, placed_envelope] (Map.empty, 0) = (acked, s')" by (rule prod.exhaust)
  then have "acked = [placed_envelope, placed_envelope]" using run by simp
  with one_workflow_per_order [OF sample_start_law _ log] show ?thesis
    unfolding log by (auto simp: fun_eq_iff ty)
qed

end
