(* ===== verification/Web_Cart.thy ===== *)
theory Web_Cart
  imports Web_Api Write_Api
begin

text \<open>
  The storefront (\<open>packages/web-shared/src/store/cart-store.ts\<close>, \<open>menu/seed.ts\<close>,
  \<open>apps/web-customer/app/checkout/page.tsx\<close> and \<open>app/page.tsx\<close>): the menu, the cart's operations and the
  checkout, whose request is shown to pass the write service's validation.
\<close>

section \<open>The menu\<close>

datatype category = Pizza | Burgers | Sides | Desserts | Mains

record menu_item =
  mi_sku :: string
  mi_name :: string
  mi_description :: string
  mi_priceCents :: int
  mi_category :: category
  mi_imageUrl :: "string option"
  mi_popular :: bool

definition item :: "string \<Rightarrow> string \<Rightarrow> string \<Rightarrow> int \<Rightarrow> category \<Rightarrow> bool \<Rightarrow> menu_item" where
  "item s n d p c pop = \<lparr>mi_sku = s, mi_name = n, mi_description = d, mi_priceCents = p, mi_category = c,
     mi_imageUrl = None, mi_popular = pop\<rparr>"

definition DEFAULT_TENANT :: string where "DEFAULT_TENANT = ''berlin''"

definition MENUS :: "(string \<times> menu_item list) list" where
  "MENUS =
    [(''berlin'',
       [item ''pizza'' ''Pizza Margherita'' ''San Marzano, basil'' 1200 Pizza True,
        item ''burger'' ''Cheeseburger'' ''Aged cheddar'' 950 Burgers True,
        item ''fries'' ''Fries'' ''Sea salt'' 400 Sides True,
        item ''tiramisu'' ''Tiramisu'' ''Mascarpone, cocoa'' 600 Desserts False]),
     (''tokyo'',
       [item ''sushi'' ''Sushi Set'' ''Chef's selection'' 1800 Mains True,
        item ''ramen'' ''Tonkotsu Ramen'' ''Pork broth'' 1300 Mains True,
        item ''gyoza'' ''Gyoza (6)'' ''Pan-fried'' 700 Sides False,
        item ''mochi'' ''Mochi'' ''Red bean'' 500 Desserts False])]"

text \<open>A tenant named like a member that every object inherits is not considered.\<close>

definition getMenu :: "string \<Rightarrow> menu_item list" where
  "getMenu tenant = (case map_of MENUS tenant of
     Some m \<Rightarrow> m | None \<Rightarrow> (case map_of MENUS DEFAULT_TENANT of Some m \<Rightarrow> m | None \<Rightarrow> []))"

definition getPopular :: "string \<Rightarrow> menu_item list" where
  "getPopular tenant = filter mi_popular (getMenu tenant)"

section \<open>The cart\<close>

record cart_line =
  cn_sku :: string
  cn_name :: string
  cn_priceCents :: int
  cn_qty :: int

definition add_item :: "string \<Rightarrow> string \<Rightarrow> int \<Rightarrow> cart_line list \<Rightarrow> cart_line list" where
  "add_item s n p items =
     (case find (\<lambda>l. cn_sku l = s) items of
        Some _ \<Rightarrow> map (\<lambda>l. if cn_sku l = s then l\<lparr>cn_qty := cn_qty l + 1\<rparr> else l) items
      | None \<Rightarrow> items @ [\<lparr>cn_sku = s, cn_name = n, cn_priceCents = p, cn_qty = 1\<rparr>])"

definition remove_line :: "string \<Rightarrow> cart_line list \<Rightarrow> cart_line list" where
  "remove_line s items = filter (\<lambda>l. cn_sku l \<noteq> s) items"

definition setQty :: "string \<Rightarrow> int \<Rightarrow> cart_line list \<Rightarrow> cart_line list" where
  "setQty s q items =
     (if q \<le> 0 then filter (\<lambda>l. cn_sku l \<noteq> s) items
      else map (\<lambda>l. if cn_sku l = s then l\<lparr>cn_qty := q\<rparr> else l) items)"

definition clear_cart :: "cart_line list \<Rightarrow> cart_line list" where
  "clear_cart items = []"

definition cart_count :: "cart_line list \<Rightarrow> int" where
  "cart_count items = foldl (\<lambda>n l. n + cn_qty l) 0 items"

definition totalCents :: "cart_line list \<Rightarrow> int" where
  "totalCents items = foldl (\<lambda>s l. s + cn_priceCents l * cn_qty l) 0 items"

section \<open>The pages\<close>

text \<open>The storefront's page: what it lists, what its button adds and the link to the checkout.\<close>

record storefront =
  sf_popular :: "(string \<times> int) list"
  sf_menu :: "(string \<times> string \<times> int) list"
  sf_checkout :: "int option"

definition home_page :: "auth_claims option \<Rightarrow> cart_line list \<Rightarrow> storefront" where
  "home_page claims items =
     (let tenantId = (case claims of None \<Rightarrow> ''berlin'' | Some c \<Rightarrow> cl_tenantId c) in
      \<lparr>sf_popular = map (\<lambda>i. (mi_name i, mi_priceCents i)) (getPopular tenantId),
       sf_menu = map (\<lambda>i. (mi_name i, mi_description i, mi_priceCents i)) (getMenu tenantId),
       sf_checkout = (if cart_count items > 0 then Some (totalCents items) else None)\<rparr>)"

definition click_add :: "menu_item \<Rightarrow> cart_line list \<Rightarrow> cart_line list" where
  "click_add i items = add_item (mi_sku i) (mi_name i) (mi_priceCents i) items"

text \<open>The checkout: its state, what it shows and what its button does.\<close>

record checkout =
  ck_name :: string
  ck_busy :: bool
  ck_inFlight :: bool
  ck_items :: "cart_line list"
  ck_toasts :: "string list"
  ck_route :: "string option"

datatype checkout_view =
    EmptyCart
  | CartSummary "(string \<times> int \<times> int) list" int string bool

definition checkout_page :: "checkout \<Rightarrow> checkout_view" where
  "checkout_page s =
     (if ck_items s = [] then EmptyCart
      else CartSummary (map (\<lambda>l. (cn_name l, cn_qty l, cn_priceCents l * cn_qty l)) (ck_items s))
             (totalCents (ck_items s)) (ck_name s) (ck_busy s))"

definition line_item :: "cart_line \<Rightarrow> order_item" where
  "line_item l = \<lparr>sku = cn_sku l, qty = cn_qty l, price = cn_priceCents l\<rparr>"

definition checkout_request :: "string \<Rightarrow> string \<Rightarrow> cart_line list \<Rightarrow> place_request" where
  "checkout_request orderId name items =
     \<lparr>pr_orderId = orderId, pr_customerId = (if trim name = [] then ''guest'' else trim name),
      pr_items = map line_item items, pr_totalAmount = totalCents items\<rparr>"

definition submit ::
    "web_config \<Rightarrow> 'w server \<Rightarrow> string \<Rightarrow> checkout \<Rightarrow> 'w browser \<Rightarrow> checkout \<times> 'w browser" where
  "submit cfg srv uuid s b =
     (if ck_inFlight s then (s, b)
      else (let s1 = s\<lparr>ck_inFlight := True, ck_busy := True\<rparr> in
        case placeOrder_call cfg srv (checkout_request uuid (ck_name s) (ck_items s)) b of
          (Inr _, b') \<Rightarrow> (s1\<lparr>ck_items := clear_cart (ck_items s1), ck_toasts := ck_toasts s1 @ [''Order placed''],
             ck_route := Some (''/orders/'' @ uuid)\<rparr>, b')
        | (Inl _, b') \<Rightarrow> (s1\<lparr>ck_toasts := ck_toasts s1 @ [''Couldn't place your order. Please try again.''],
             ck_inFlight := False, ck_busy := False\<rparr>, b')))"

section \<open>A checked-out cart is a valid order\<close>

datatype cart_op = ClickAdd menu_item | SetQty string int | Remove string | Clear

fun cart_step :: "cart_op \<Rightarrow> cart_line list \<Rightarrow> cart_line list" where
  "cart_step (ClickAdd i) items = click_add i items"
| "cart_step (SetQty s q) items = setQty s q items"
| "cart_step (Remove s) items = remove_line s items"
| "cart_step Clear items = clear_cart items"

definition run_cart :: "cart_op list \<Rightarrow> cart_line list" where
  "run_cart ops = foldl (\<lambda>items op. cart_step op items) [] ops"

text \<open>The customer adds what the menu offers.\<close>

definition from_menu :: "string \<Rightarrow> cart_op \<Rightarrow> bool" where
  "from_menu tenant op = (case op of ClickAdd i \<Rightarrow> i \<in> set (getMenu tenant) | _ \<Rightarrow> True)"

definition on_menu :: "string \<Rightarrow> cart_line \<Rightarrow> bool" where
  "on_menu tenant l \<longleftrightarrow> 1 \<le> cn_qty l \<and>
     list_ex (\<lambda>i. mi_sku i = cn_sku l \<and> mi_name i = cn_name l \<and> mi_priceCents i = cn_priceCents l) (getMenu tenant)"

definition cart_inv :: "string \<Rightarrow> cart_line list \<Rightarrow> bool" where
  "cart_inv tenant items \<longleftrightarrow> distinct (map cn_sku items) \<and> list_all (on_menu tenant) items"

lemma map_sku_update: "map (cn_sku \<circ> (\<lambda>l. if P l then l\<lparr>cn_qty := f l\<rparr> else l)) items = map cn_sku items"
  by (induction items) auto

lemma on_menu_qty: "on_menu t l \<Longrightarrow> 1 \<le> q \<Longrightarrow> on_menu t (l\<lparr>cn_qty := q\<rparr>)"
  by (simp add: on_menu_def)

lemma cart_step_inv:
  assumes "cart_inv tenant items" and "from_menu tenant op"
  shows "cart_inv tenant (cart_step op items)"
proof (cases op)
  case (ClickAdd i)
  show ?thesis
  proof (cases "find (\<lambda>l. cn_sku l = mi_sku i) items")
    case None
    then have "mi_sku i \<notin> set (map cn_sku items)" by (auto simp: find_None_iff)
    then show ?thesis using assms None ClickAdd
      by (auto simp: cart_inv_def click_add_def add_item_def on_menu_def from_menu_def list_ex_iff)
  next
    case (Some l)
    have "on_menu tenant (x\<lparr>cn_qty := cn_qty x + 1\<rparr>)" if "x \<in> set items" for x
      using assms(1) that by (intro on_menu_qty) (auto simp: cart_inv_def list_all_iff on_menu_def)
    then show ?thesis using assms(1) Some ClickAdd
      by (auto simp: cart_inv_def click_add_def add_item_def map_sku_update list_all_iff)
  qed
next
  case (SetQty s q)
  show ?thesis
  proof (cases "q \<le> 0")
    case True
    then show ?thesis using assms SetQty
      by (auto simp: cart_inv_def setQty_def distinct_map_filter list_all_iff)
  next
    case False
    then show ?thesis using assms SetQty
      by (auto simp: cart_inv_def setQty_def map_sku_update list_all_iff intro: on_menu_qty)
  qed
next
  case (Remove s)
  then show ?thesis using assms by (auto simp: cart_inv_def remove_line_def distinct_map_filter list_all_iff)
qed (simp add: cart_inv_def clear_cart_def)

lemma run_cart_inv: "list_all (from_menu tenant) ops \<Longrightarrow> cart_inv tenant (run_cart ops)"
proof (induction ops rule: rev_induct)
  case Nil
  then show ?case by (simp add: run_cart_def cart_inv_def)
next
  case (snoc op ops)
  then show ?case using cart_step_inv [of tenant "run_cart ops" op] by (simp add: run_cart_def)
qed

lemma menu_prices: "i \<in> set (getMenu tenant) \<Longrightarrow> 0 \<le> mi_priceCents i"
  by (auto simp: getMenu_def MENUS_def DEFAULT_TENANT_def item_def split: if_splits)

lemma totalCents_sum: "totalCents items = sum_list (map (\<lambda>l. cn_priceCents l * cn_qty l) items)"
proof -
  have "foldl (\<lambda>s l. s + cn_priceCents l * cn_qty l) a items = a + sum_list (map (\<lambda>l. cn_priceCents l * cn_qty l) items)" for a
    by (induction items arbitrary: a) auto
  then show ?thesis by (simp add: totalCents_def)
qed

lemma item_dto_json: "1 \<le> qty i \<Longrightarrow> 0 \<le> price i \<Longrightarrow> item_dto (item_json i) = Some i"
  by (cases i) (simp add: item_dto_def item_json_def jget_def jstr_def jint_def)

lemma all_some_items: "list_all (\<lambda>i. 1 \<le> qty i \<and> 0 \<le> price i) is \<Longrightarrow> all_some (map item_dto (map item_json is)) = Some is"
  by (induction "is") (auto simp: item_dto_json)

lemma checkout_valid:
  assumes "list_all (from_menu tenant) ops" and "run_cart ops = items"
  shows "distinct (map cn_sku items) \<and> list_all (on_menu tenant) items
    \<and> totalCents items = sum_list (map (\<lambda>l. cn_priceCents l * cn_qty l) items)
    \<and> (items = [] \<or> create_order (place_json (checkout_request uuid name items)) =
         Some \<lparr>co_orderId = uuid, co_customerId = (if trim name = [] then ''guest'' else trim name),
               co_items = map line_item items, co_totalAmount = totalCents items\<rparr>)"
proof -
  have inv: "cart_inv tenant items" using run_cart_inv assms by blast
  have line: "1 \<le> cn_qty l \<and> 0 \<le> cn_priceCents l" if "l \<in> set items" for l
    using inv that by (fastforce simp: cart_inv_def on_menu_def list_all_iff list_ex_iff dest: menu_prices)
  then have "0 \<le> totalCents items"
    unfolding totalCents_sum by (intro sum_list_nonneg) (force intro: mult_nonneg_nonneg)
  moreover have "all_some (map item_dto (map item_json (map line_item items))) = Some (map line_item items)"
    using line by (intro all_some_items) (auto simp: list_all_iff line_item_def)
  ultimately show ?thesis using inv
    by (simp add: cart_inv_def totalCents_sum create_order_def place_json_def checkout_request_def
        jget_def jstr_def jint_def)
qed

text \<open>
  What a customer can put into the cart checks out as a valid order. After any clicks on the menu's
  items, changes of quantity (to anything), removals and clearings, the cart holds each item at most
  once, at its menu price and in a positive quantity; its total is the sum of price times quantity;
  and if it is not empty, the request of the checkout passes the write service's validation, which
  reads it as exactly that order, for the trimmed name or for \<open>guest\<close>.
\<close>

theorem cart_checks_out:
  assumes "list_all (from_menu tenant) ops" and "run_cart ops = items"
  shows "distinct (map cn_sku items) \<and> list_all (on_menu tenant) items
    \<and> totalCents items = sum_list (map (\<lambda>l. cn_priceCents l * cn_qty l) items)
    \<and> (items = [] \<or> create_order (place_json (checkout_request uuid name items)) =
         Some \<lparr>co_orderId = uuid, co_customerId = (if trim name = [] then ''guest'' else trim name),
               co_items = map line_item items, co_totalAmount = totalCents items\<rparr>)"
  by (rule checkout_valid [OF assms])

definition sample_cart_ops :: "cart_op list" where
  "sample_cart_ops = [ClickAdd (hd (getMenu ''tokyo'')), ClickAdd (getMenu ''tokyo'' ! 2), ClickAdd (hd (getMenu ''tokyo'')),
     SetQty ''gyoza'' 3, SetQty ''sushi'' 0, Remove ''mochi'']"

theorem cart_checks_out_witness:
  "run_cart sample_cart_ops \<noteq> [] \<and> totalCents (run_cart sample_cart_ops) = 2100
   \<and> create_order (place_json (checkout_request ''o-1'' '' Ann '' (run_cart sample_cart_ops))) =
       Some \<lparr>co_orderId = ''o-1'', co_customerId = ''Ann'',
             co_items = [\<lparr>sku = ''gyoza'', qty = 3, price = 700\<rparr>], co_totalAmount = 2100\<rparr>"
proof -
  have "list_all (from_menu ''tokyo'') sample_cart_ops"
    by (simp add: sample_cart_ops_def from_menu_def getMenu_def MENUS_def)
  from cart_checks_out [OF this refl, of "''o-1''" "'' Ann ''"]
  have "run_cart sample_cart_ops = [] \<or>
      create_order (place_json (checkout_request ''o-1'' '' Ann '' (run_cart sample_cart_ops))) =
       Some \<lparr>co_orderId = ''o-1'', co_customerId = (if trim '' Ann '' = [] then ''guest'' else trim '' Ann ''),
             co_items = map line_item (run_cart sample_cart_ops), co_totalAmount = totalCents (run_cart sample_cart_ops)\<rparr>"
    by blast
  moreover have "run_cart sample_cart_ops = [\<lparr>cn_sku = ''gyoza'', cn_name = ''Gyoza (6)'', cn_priceCents = 700, cn_qty = 3\<rparr>]"
    by code_simp
  moreover have "trim '' Ann '' = ''Ann''" by code_simp
  ultimately show ?thesis by (simp add: totalCents_def line_item_def)
qed

end
