(* ===== verification/Saga_Properties.thy ===== *)
theory Saga_Properties
  imports Saga_World
begin

text \<open>
  What the order saga and the dispatch workflow guarantee on the saga worker's own activities, for
  every schedule of signals and every pattern of lost activities, and concrete runs of them.
\<close>

section \<open>A sample world\<close>

definition sample_env :: "(nat \<Rightarrow> fault) \<Rightarrow> nat \<Rightarrow> attempt_env" where
  "sample_env f n = \<lparr>ae_draws = sample_draws (''ev-'' @ show_nat n), ae_fault = f n, ae_pay = sample_pay_env,
     ae_catalog = \<lparr>ci_now = 0, ci_rows = Some witness_rows, ci_after = 0\<rparr>,
     ae_geo = (\<lambda>k lng lat. [''d1'', ''d2'']), ae_online = (\<lambda>k d. True), ae_duration = 1\<rparr>"

text \<open>The order \<open>o1\<close> of tenant \<open>berlin\<close> has been placed; no payment exists yet.\<close>

definition sample_world :: "(nat \<Rightarrow> fault) \<Rightarrow> world" where
  "sample_world f = \<lparr>wd_pg = sample_pg, wd_pay = Map.empty, wd_busy = (\<lambda>k. {}), wd_catalog = empty_catalog,
     wd_ttl = 60000, wd_clock = 0, wd_tick = 0, wd_env = sample_env f\<rparr>"

definition sample_args :: saga_args where
  "sample_args = \<lparr>sa_tenantId = ''berlin'', sa_orderId = ''o1'', sa_totalAmount = 500, sa_slaSeconds = 300,
     sa_confirmSeconds = 120, sa_offerTimeoutSeconds = 30, sa_maxOffers = 5, sa_deliverySeconds = 900,
     sa_correlationId = ''corr''\<rparr>"

definition sample_signals :: "(nat \<times> order_signal) list" where
  "sample_signals = [(10, ConfirmPayment), (20, MerchantApproval True)]"

lemma sample_world_inv: "world_inv (sample_world f)"
  by (simp add: world_inv_def sample_world_def sample_inv)

lemma sample_world_order: "ord_of ''berlin'' ''o1'' (sample_world f) = placed_state"
  using loadAggregate_events [OF sample_inv, of AppRole "''berlin''" "''o1''" foldOrder INITIAL_ORDER_STATE]
    sample_load [of AppRole]
  by (simp add: ord_of_def sample_world_def order_fold_def)

lemma sample_world_pay: "pay_of ''berlin'' ''o1'' (sample_world f) = None"
  by (simp add: pay_of_def status_of_def sample_world_def)

lemma sample_clocks: "wd_clock (sample_world f) = 0" "sa_confirmSeconds sample_args = 120"
  by (simp_all add: sample_world_def sample_args_def)

lemma sample_world_dispatch: "events_of (wd_pg (sample_world f)) ''berlin'' (dispatchAggregateId ''o1'') = []"
  by (simp add: events_of_def sample_world_def stream_def sample_pg_def append_event_row_def sample_append_def
      dispatchAggregateId_def)

section \<open>The order saga\<close>



text \<open>
  C6: A cancelled order is never charged, as long as no activity's effect is lost behind a failed
  reply: however the workflow ends, a cancelled order's payment is not captured.
\<close>

theorem cancelled_not_captured:
  assumes "world_inv w" and "lossless w"
    and "os_status (ord_of (sa_tenantId args) (sa_orderId args) w) = Some PLACED"
    and "pay_of (sa_tenantId args) (sa_orderId args) w = None"
    and "orderLifecycleWorkflow (worker_order_activities dq) args q w = (r, w')"
    and "os_status (ord_of (sa_tenantId args) (sa_orderId args) w') = Some CANCELLED"
  shows "pay_of (sa_tenantId args) (sa_orderId args) w' \<noteq> Some PAY_CAPTURED"
  using osl.workflow_outcome [OF _ assms(3,4) refl refl assms(5)] capture_honest_lossless assms(1,2,6) by blast

theorem cancelled_not_captured_witness:
  "\<exists>w. lossless w \<and> (case orderLifecycleWorkflow (worker_order_activities []) sample_args [] w of
     (r, w') \<Rightarrow> os_status (ord_of ''berlin'' ''o1'' w') = Some CANCELLED
       \<and> pay_of ''berlin'' ''o1'' w' \<noteq> Some PAY_CAPTURED)"
proof -
  let ?w = "sample_world (\<lambda>n. Deliver)"
  have run: "case orderLifecycleWorkflow (worker_order_activities []) sample_args [] ?w of
      (r, w') \<Rightarrow> os_status (ord_of ''berlin'' ''o1'' w') = Some CANCELLED"
    by code_simp
  obtain r w' where r: "orderLifecycleWorkflow (worker_order_activities []) sample_args [] ?w = (r, w')" by fastforce
  have less: "lossless ?w" by (simp add: lossless_def sample_world_def sample_env_def)
  have "pay_of (sa_tenantId sample_args) (sa_orderId sample_args) w' \<noteq> Some PAY_CAPTURED"
    by (rule cancelled_not_captured [OF sample_world_inv less _ _ r])
      (use run r in \<open>simp_all add: sample_args_def sample_world_order sample_world_pay placed_state_def\<close>)
  with run r less show ?thesis by (intro exI [of _ ?w]) (simp add: sample_args_def)
qed

definition lose_captures :: "nat \<Rightarrow> fault" where
  "lose_captures n = (if 1 \<le> n \<and> n \<le> 5 then LoseReply else Deliver)"


theorem payment_needs_confirmation_witness:
  "orderLifecycleWorkflow (worker_order_activities []) sample_args [(20, MerchantApproval True), (120, ConfirmPayment)]
     (sample_world (\<lambda>n. Deliver))
   = cancel_and_return (worker_order_activities []) sample_args PAYMENT_TIMEOUT R_CANCELLED_PAYMENT_TIMEOUT
       (advance_to 120 (sample_world (\<lambda>n. Deliver)))"
  using payment_needs_confirmation [of "[(20, MerchantApproval True), (120, ConfirmPayment)]"
      "worker_order_activities []" sample_args "sample_world (\<lambda>n. Deliver)"]
  by (simp add: confirmed_in_time_def in_window_def sample_clocks)

section \<open>The dispatch workflow\<close>

text \<open>
  C9: Dispatching. Started on an order with no dispatch yet, whatever signals arrive and whatever
  attempts are lost: at most \<open>maxOffers\<close> drivers are offered the job and none of them twice; when the
  workflow returns, no driver is left marked busy by it and the dispatch aggregate is in the status
  returned - delivered by the driver last offered, or failed for want of drivers or for a delivery
  timeout; when it fails instead, at most the driver last offered is left busy.
\<close>

theorem dispatch_workflow_outcome:
  assumes "world_inv w" and "events_of (wd_pg w) (da_tenantId args) (dispatchAggregateId (da_orderId args)) = []"
    and "driverDispatchWorkflow worker_dispatch_activities args q w = (r, w')"
  shows "distinct (offers_of (da_tenantId args) (da_orderId args) w')
    \<and> length (offers_of (da_tenantId args) (da_orderId args) w') \<le> da_maxOffers args
    \<and> (\<forall>res. r = Inr res \<longrightarrow>
        busy_of (da_tenantId args) w' = busy_of (da_tenantId args) w
        \<and> ds_status (dsp_of (da_tenantId args) (da_orderId args) w') = Some res
        \<and> (res = DELIVERED \<and> ds_driverId (dsp_of (da_tenantId args) (da_orderId args) w')
              = Some (last (offers_of (da_tenantId args) (da_orderId args) w'))
           \<or> res = FAILED \<and> ds_reason (dsp_of (da_tenantId args) (da_orderId args) w')
              \<in> {Some NO_DRIVERS_AVAILABLE, Some DELIVERY_TIMEOUT}))
    \<and> (busy_of (da_tenantId args) w' = busy_of (da_tenantId args) w
        \<or> busy_of (da_tenantId args) w' = insert (last (offers_of (da_tenantId args) (da_orderId args) w'))
            (busy_of (da_tenantId args) w))"
proof -
  have "ds_status (dsp_of (da_tenantId args) (da_orderId args) w) = None"
    and "offers_of (da_tenantId args) (da_orderId args) w = []"
    using assms(2) by (simp_all add: dsp_of_def offers_of_def offered_drivers_def)
  from dsw.workflow_dispatch_outcome [OF assms(1) this refl refl, of q] assms(3)
  show ?thesis by (auto simp: dsw.dispatch_outcome_def)
qed

definition sample_dispatch_args :: dispatch_args where
  "sample_dispatch_args = child_args sample_args"

definition job_signals :: "(nat \<times> dispatch_signal) list" where
  "job_signals = [(30, DispatchAccept ''d2''), (31, DispatchReject ''d1''), (40, DispatchPickup), (50, DispatchDeliver)]"

theorem dispatch_workflow_outcome_witness:
  "case driverDispatchWorkflow worker_dispatch_activities sample_dispatch_args job_signals (sample_world (\<lambda>n. Deliver)) of
     (r, w') \<Rightarrow> r = Inr DELIVERED \<and> offers_of ''berlin'' ''o1'' w' = [''d1'', ''d2'']
       \<and> busy_of ''berlin'' w' = {} \<and> ds_driverId (dsp_of ''berlin'' ''o1'' w') = Some ''d2''"
proof -
  let ?w = "sample_world (\<lambda>n. Deliver)"
  have run: "case driverDispatchWorkflow worker_dispatch_activities sample_dispatch_args job_signals ?w of
     (r, w') \<Rightarrow> r = Inr DELIVERED \<and> offers_of ''berlin'' ''o1'' w' = [''d1'', ''d2'']"
    by code_simp
  obtain r w' where r: "driverDispatchWorkflow worker_dispatch_activities sample_dispatch_args job_signals ?w = (r, w')"
    by fastforce
  have none: "events_of (wd_pg ?w) (da_tenantId sample_dispatch_args)
      (dispatchAggregateId (da_orderId sample_dispatch_args)) = []"
    using sample_world_dispatch by (simp add: sample_dispatch_args_def child_args_def sample_args_def)
  have b0: "busy_of ''berlin'' ?w = {}" by (simp add: busy_of_def sample_world_def)
  from dispatch_workflow_outcome [OF sample_world_inv none r] run r b0 show ?thesis
    by (simp add: sample_dispatch_args_def child_args_def sample_args_def)
qed

definition lose_acceptance :: "nat \<Rightarrow> fault" where
  "lose_acceptance n = (if 3 \<le> n then LoseRequest else Deliver)"

text \<open>
  The dispatch workflow's gap. When recording the acceptance fails for good after the driver was
  marked busy, the workflow fails without releasing the driver: nothing offers that driver a job again.
\<close>

theorem failed_acceptance_leaves_driver_busy:
  "case driverDispatchWorkflow worker_dispatch_activities sample_dispatch_args [(30, DispatchAccept ''d1'')]
       (sample_world lose_acceptance) of
     (r, w') \<Rightarrow> \<not> is_ok r \<and> ''d1'' \<in> busy_of ''berlin'' w'
       \<and> first_available (\<lambda>d. True) (\<lambda>d. d \<in> busy_of ''berlin'' w') [] [''d1''] = None"
  by code_simp

text \<open>
  Driver selection. With the tenant known to the catalog, selection returns the first driver of
  the radius query - so the nearest - who is online, not busy and not yet tried, and none exactly when
  there is no such driver; it changes neither the event store nor the busy set.
\<close>

theorem select_nearest_available:
  assumes "catalog_get (wd_ttl w) t (ae_catalog e) (wd_catalog w) = (Inr (Some center), cat)"
  shows "selectNearestAvailableDriver t exclude e w =
    (Inr (find (\<lambda>d. d \<notin> set exclude \<and> ae_online e (driverOnlineKey t) d \<and> d \<notin> busy_of t w)
       (ae_geo e (driverGeoKey t) (tv_lng center) (tv_lat center))), w\<lparr>wd_catalog := cat\<rparr>)"
  using assms by (simp add: selectNearestAvailableDriver_def first_available_spec busy_of_def)

theorem select_nearest_available_witness:
  "fst (selectNearestAvailableDriver ''berlin'' [''d1''] (sample_env (\<lambda>n. Deliver) 0) (sample_world (\<lambda>n. Deliver)))
     = Inr (Some ''d2'')"
proof -
  have "catalog_get (wd_ttl (sample_world (\<lambda>n. Deliver))) ''berlin'' (ae_catalog (sample_env (\<lambda>n. Deliver) 0))
      (wd_catalog (sample_world (\<lambda>n. Deliver))) = (Inr (Some (hd witness_rows)), \<lparr>tc_cache = Some witness_rows, tc_loadedAt = 0\<rparr>)"
    by (simp add: sample_world_def sample_env_def catalog_get_def ensureFresh_def empty_catalog_def witness_rows_def)
  from select_nearest_available [OF this, of "[''d1'']"] show ?thesis
    by (simp add: sample_env_def busy_of_def sample_world_def)
qed

definition lose_offer_reply :: "nat \<Rightarrow> fault" where
  "lose_offer_reply n = (if n = 1 then LoseReply else if n \<le> 2 then Deliver else LoseRequest)"

text \<open>
  Recording an offer is not idempotent. An offer whose reply is lost is appended again by the
  retry - \<open>offer\<close> is allowed while offered - so the stream, and everything projected from it, holds the
  same offer twice.
\<close>

theorem lost_offer_recorded_twice:
  "case driverDispatchWorkflow worker_dispatch_activities sample_dispatch_args [] (sample_world lose_offer_reply) of
     (r, w') \<Rightarrow> map fe_eventType (events_of (wd_pg w') ''berlin'' (dispatchAggregateId ''o1''))
       = [DriverOffered, DriverOffered] \<and> offers_of ''berlin'' ''o1'' w' = [''d1'']"
  by code_simp

end
