(* ===== verification/Outbox_Poller.thy ===== *)
theory Outbox_Poller
  imports Messaging
begin

text \<open>
  The outbox poller (\<open>apps/outbox-poller/src/poller.ts\<close> and the loop of its \<open>main.ts\<close>): it publishes
  the pending rows of the outbox to Kafka, oldest first, a hundred at a time, and marks each one sent.
  What it can meet between a row's publication and its update is a script of faults; the broker is
  the log of the messages it took.
\<close>

section \<open>The poller\<close>

record 'b broker =
  bk_log :: "'b kafka_message list"
  bk_cache :: id_cache

text \<open>Per row: all goes well, the producer's send fails, or the process dies before the update.\<close>

datatype poll_fault = PollOk | SendFails | DiesAfterSend

definition BATCH :: nat where "BATCH = 100"

definition pending_rows :: "outbox_row list \<Rightarrow> outbox_row list" where
  "pending_rows rows = take BATCH (sort_key ob_createdAt (filter (\<lambda>r. ob_status r = PENDING) rows))"

definition mark_sent :: "string \<Rightarrow> outbox_row list \<Rightarrow> outbox_row list" where
  "mark_sent i rows = map (\<lambda>r. if ob_id r = i then r\<lparr>ob_status := SENT\<rparr> else r) rows"

fun poll_rows ::
    "'b registry \<Rightarrow> (outbox_row \<Rightarrow> poll_fault) \<Rightarrow> outbox_row list \<Rightarrow> outbox_row list \<times> 'b broker
     \<Rightarrow> (string, unit) result \<times> outbox_row list \<times> 'b broker" where
  "poll_rows rg fault [] (rows, bk) = (Inr (), rows, bk)"
| "poll_rows rg fault (r # rs) (rows, bk) =
     (case publishEnvelope rg (ob_topic r) (ob_partitionKey r) (ob_payload r) (bk_cache bk) of
        (Inl e, c) \<Rightarrow> (Inl e, rows, bk\<lparr>bk_cache := c\<rparr>)
      | (Inr msg, c) \<Rightarrow>
          (case fault r of
             SendFails \<Rightarrow> (Inl ''send failed'', rows, bk\<lparr>bk_cache := c\<rparr>)
           | DiesAfterSend \<Rightarrow> (Inl ''crashed'', rows, bk\<lparr>bk_log := bk_log bk @ [msg], bk_cache := c\<rparr>)
           | PollOk \<Rightarrow> poll_rows rg fault rs
               (mark_sent (ob_id r) rows, bk\<lparr>bk_log := bk_log bk @ [msg], bk_cache := c\<rparr>)))"

text \<open>\<open>pollOnce\<close> returns the number of rows it fetched.\<close>

definition pollOnce ::
    "'b registry \<Rightarrow> (outbox_row \<Rightarrow> poll_fault) \<Rightarrow> outbox_row list \<times> 'b broker
     \<Rightarrow> (string, nat) result \<times> outbox_row list \<times> 'b broker" where
  "pollOnce rg fault st =
     (let pending = pending_rows (fst st) in
      case poll_rows rg fault pending st of
        (Inl e, st') \<Rightarrow> (Inl e, st')
      | (Inr _, st') \<Rightarrow> (Inr (length pending), st'))"

section \<open>At-least-once delivery\<close>

definition row_published :: "outbox_row \<Rightarrow> 'b kafka_message \<Rightarrow> bool" where
  "row_published r m \<longleftrightarrow> km_topic m = ob_topic r \<and> km_key m = ob_partitionKey r
     \<and> km_headers m = Some (buildHeaders (ob_payload r))"

text \<open>Every sent row is in the log, and the log holds nothing but rows of the outbox.\<close>

definition delivery_inv :: "outbox_row list \<times> 'b broker \<Rightarrow> bool" where
  "delivery_inv st \<longleftrightarrow>
     (\<forall>r \<in> set (fst st). ob_status r = SENT \<longrightarrow> (\<exists>m \<in> set (bk_log (snd st)). row_published r m))
     \<and> (\<forall>m \<in> set (bk_log (snd st)). \<exists>r \<in> set (fst st). row_published r m)"

text \<open>The steps of the system: writers append pending rows; pollers poll, and may die at any point.\<close>

inductive poll_reach :: "'b registry \<Rightarrow> outbox_row list \<times> 'b broker \<Rightarrow> bool" for rg where
  poll_start: "poll_reach rg ([], \<lparr>bk_log = [], bk_cache = Map.empty\<rparr>)"
| poll_append: "poll_reach rg (rows, bk) \<Longrightarrow> ob_status r = PENDING \<Longrightarrow> ob_id r \<notin> ob_id ` set rows \<Longrightarrow>
     poll_reach rg (rows @ [r], bk)"
| poll_poll: "poll_reach rg st \<Longrightarrow> pollOnce rg fault st = (res, st') \<Longrightarrow> poll_reach rg st'"
| poll_restart: "poll_reach rg (rows, bk) \<Longrightarrow> poll_reach rg (rows, bk\<lparr>bk_cache := Map.empty\<rparr>)"

lemma publish_row:
  "publishEnvelope rg tp key env c = (Inr msg, c') \<Longrightarrow>
   km_topic msg = tp \<and> km_key msg = key \<and> km_headers msg = Some (buildHeaders env)"
  by (auto simp: publishEnvelope_def split: option.splits prod.splits sum.splits)

lemma row_published_sent: "row_published (r\<lparr>ob_status := s\<rparr>) m = row_published r m"
  by (simp add: row_published_def)

lemma ids_mark_sent [simp]: "map ob_id (mark_sent i rows) = map ob_id rows"
  by (simp add: mark_sent_def comp_def if_distrib cong: if_cong)

text \<open>Marking a row whose message is in the log keeps the invariant.\<close>

lemma mark_sent_inv:
  assumes "delivery_inv (rows, bk)" and "r \<in> set rows" and "distinct (map ob_id rows)" and "row_published r m"
  shows "delivery_inv (mark_sent (ob_id r) rows, bk\<lparr>bk_log := bk_log bk @ [m], bk_cache := c\<rparr>)"
proof -
  have "\<exists>m' \<in> set (bk_log bk @ [m]). row_published x m'"
    if x: "x \<in> set (mark_sent (ob_id r) rows)" and s: "ob_status x = SENT" for x
  proof -
    from x obtain y where y: "y \<in> set rows" and xy: "x = (if ob_id y = ob_id r then y\<lparr>ob_status := SENT\<rparr> else y)"
      by (auto simp: mark_sent_def)
    show ?thesis
    proof (cases "ob_id y = ob_id r")
      case True
      with assms(2,3) y have "y = r" by (metis distinct_map inj_on_def)
      then show ?thesis using assms(4) xy by (simp add: row_published_sent)
    next
      case False
      then show ?thesis using assms(1) y xy s by (auto simp: delivery_inv_def)
    qed
  qed
  moreover have "\<exists>x \<in> set (mark_sent (ob_id r) rows). row_published x m'"
    if "m' \<in> set (bk_log bk @ [m])" for m'
  proof -
    have "\<exists>y \<in> set rows. row_published y m'" using that assms(1,2,4) by (auto simp: delivery_inv_def)
    then obtain y where "y \<in> set rows" "row_published y m'" ..
    then show ?thesis
      by (intro bexI [of _ "if ob_id y = ob_id r then y\<lparr>ob_status := SENT\<rparr> else y"])
        (auto simp: mark_sent_def row_published_sent)
  qed
  ultimately show ?thesis by (simp add: delivery_inv_def)
qed

lemma poll_rows_inv:
  "delivery_inv (rows, bk :: 'b broker) \<Longrightarrow> distinct (map ob_id rows) \<Longrightarrow>
   (\<forall>r \<in> set rs. \<exists>r' \<in> set rows. ob_id r' = ob_id r \<and> (\<forall>m :: 'b kafka_message. row_published r' m = row_published r m)) \<Longrightarrow>
   poll_rows rg fault rs (rows, bk) = (res, rows', bk') \<Longrightarrow>
   delivery_inv (rows', bk') \<and> map ob_id rows' = map ob_id rows"
proof (induction rs arbitrary: rows bk)
  case Nil
  then show ?case by simp
next
  case (Cons r rs)
  obtain p c where pub: "publishEnvelope rg (ob_topic r) (ob_partitionKey r) (ob_payload r) (bk_cache bk) = (p, c)"
    by fastforce
  show ?case
  proof (cases p)
    case (Inl e)
    with Cons.prems pub show ?thesis by (auto simp: delivery_inv_def)
  next
    case (Inr msg)
    from publish_row [OF pub [unfolded Inr]] have rp: "row_published r msg" by (simp add: row_published_def)
    from Cons.prems(3) obtain r' where r': "r' \<in> set rows" "ob_id r' = ob_id r" "row_published r' msg"
      using rp by auto
    show ?thesis
    proof (cases "fault r")
      case PollOk
      let ?rows = "mark_sent (ob_id r) rows" and ?bk = "bk\<lparr>bk_log := bk_log bk @ [msg], bk_cache := c\<rparr>"
      have run: "poll_rows rg fault rs (?rows, ?bk) = (res, rows', bk')"
        using Cons.prems(4) pub Inr PollOk by simp
      have inv: "delivery_inv (?rows, ?bk)"
        using mark_sent_inv [OF Cons.prems(1) r'(1) Cons.prems(2) r'(3)] r'(2) by simp
      have "\<forall>x \<in> set rs. \<exists>x' \<in> set ?rows. ob_id x' = ob_id x \<and> (\<forall>m :: 'b kafka_message. row_published x' m = row_published x m)"
      proof
        fix x assume "x \<in> set rs"
        with Cons.prems(3) obtain x' where x': "x' \<in> set rows" "ob_id x' = ob_id x"
          "\<forall>m :: 'b kafka_message. row_published x' m = row_published x m" by auto
        then show "\<exists>x' \<in> set ?rows. ob_id x' = ob_id x \<and> (\<forall>m :: 'b kafka_message. row_published x' m = row_published x m)"
          by (intro bexI [of _ "if ob_id x' = ob_id r then x'\<lparr>ob_status := SENT\<rparr> else x'"])
            (auto simp: mark_sent_def row_published_sent)
      qed
      from Cons.IH [OF inv _ this run] Cons.prems(2) show ?thesis by simp
    next
      case SendFails
      then show ?thesis using Cons.prems pub Inr by (auto simp: delivery_inv_def)
    next
      case DiesAfterSend
      then show ?thesis using Cons.prems pub Inr r' by (auto simp: delivery_inv_def)
    qed
  qed
qed

lemma pending_subset: "set (pending_rows rows) \<subseteq> {r \<in> set rows. ob_status r = PENDING}"
  unfolding pending_rows_def by (auto dest: in_set_takeD)

lemma poll_reach_inv: "poll_reach rg st \<Longrightarrow> delivery_inv st \<and> distinct (map ob_id (fst st))"
proof (induction rule: poll_reach.induct)
  case poll_start
  then show ?case by (simp add: delivery_inv_def)
next
  case (poll_append rows bk r)
  then show ?case by (auto simp: delivery_inv_def)
next
  case (poll_poll st fault res st')
  obtain rows bk where st: "st = (rows, bk)" by (cases st)
  obtain res1 rows' bk' where run: "poll_rows rg fault (pending_rows rows) (rows, bk) = (res1, rows', bk')"
    by (metis prod_cases3)
  with poll_poll.hyps(2) have st': "st' = (rows', bk')"
    by (auto simp: pollOnce_def st split: sum.splits)
  from poll_rows_inv [OF _ _ _ run] poll_poll.IH pending_subset [of rows] show ?case
    by (fastforce simp: st st' distinct_map)
next
  case (poll_restart rows bk)
  then show ?case by (simp add: delivery_inv_def)
qed

text \<open>
  C18: At-least-once publication. However pollers run, fail and crash between publishing a row and
  marking it, a row marked sent has been published with its topic, its partition key and its
  envelope's headers, and nothing was ever published that is not a row of the outbox.
\<close>

theorem outbox_at_least_once:
  assumes "poll_reach rg (rows, bk)"
  shows "(\<forall>r \<in> set rows. ob_status r = SENT \<longrightarrow> (\<exists>m \<in> set (bk_log bk). row_published r m))
    \<and> (\<forall>m \<in> set (bk_log bk). \<exists>r \<in> set rows. row_published r m)"
  using poll_reach_inv [OF assms] by (simp add: delivery_inv_def)

definition sample_row :: outbox_row where
  "sample_row = \<lparr>ob_id = ''e1'', ob_tenantId = ''berlin'', ob_topic = ORDER_EVENTS, ob_partitionKey = ''berlin:o1'',
     ob_eventType = OrderCancelled, ob_payload = sample_envelope, ob_status = PENDING, ob_createdAt = 5\<rparr>"

definition sent_row :: outbox_row where
  "sent_row = sample_row\<lparr>ob_status := SENT\<rparr>"

definition sample_message :: "payload kafka_message" where
  "sample_message = \<lparr>km_topic = ORDER_EVENTS, km_key = ''berlin:o1'', km_value = Some (e_payload sample_envelope),
     km_headers = Some (buildHeaders sample_envelope)\<rparr>"

lemma sample_poll:
  "pollOnce identity_registry (\<lambda>r. PollOk) ([sample_row], \<lparr>bk_log = [], bk_cache = Map.empty\<rparr>)
   = (Inr 1, [sent_row], \<lparr>bk_log = [sample_message],
        bk_cache = [''order-events-com.flashbite.events.OrderCancelled'' \<mapsto> 1]\<rparr>)"
  by (simp add: pollOnce_def pending_rows_def BATCH_def sample_row_def sent_row_def sample_message_def mark_sent_def
      publishEnvelope_def encodePayload_def resolveSchemaId_def identity_registry_def subject_of_def SUBJECTS_def
      subjectFor_def AVRO_NAMESPACE_def sample_envelope_def)

theorem outbox_at_least_once_witness:
  "\<exists>bk :: payload broker. \<exists>m \<in> set (bk_log bk). row_published sent_row m"
proof -
  have "poll_reach identity_registry ([] @ [sample_row], \<lparr>bk_log = [], bk_cache = Map.empty\<rparr>)"
    by (rule poll_reach.poll_append [OF poll_reach.poll_start]) (simp_all add: sample_row_def)
  then have "poll_reach identity_registry ([sent_row], \<lparr>bk_log = [sample_message],
        bk_cache = [''order-events-com.flashbite.events.OrderCancelled'' \<mapsto> 1]\<rparr>)"
    using sample_poll by (auto intro: poll_reach.poll_poll)
  from outbox_at_least_once [OF this] have "\<exists>m \<in> set [sample_message]. row_published sent_row m"
    by (simp add: sent_row_def)
  then show ?thesis by (intro exI [of _ "\<lparr>bk_log = [sample_message], bk_cache = Map.empty\<rparr>"]) simp
qed

section \<open>Order, progress and blocking\<close>

lemma poll_rows_in_order:
  "poll_rows rg fault rs (rows, bk) = (res, rows', bk') \<Longrightarrow>
   \<exists>k msgs. bk_log bk' = bk_log bk @ msgs \<and> list_all2 row_published (take k rs) msgs
     \<and> (is_ok res \<longrightarrow> k = length rs)"
proof (induction rs arbitrary: rows bk)
  case Nil
  then show ?case by (intro exI [of _ 0] exI [of _ "[]"]) simp
next
  case (Cons r rs)
  obtain p c where pub: "publishEnvelope rg (ob_topic r) (ob_partitionKey r) (ob_payload r) (bk_cache bk) = (p, c)"
    by fastforce
  show ?case
  proof (cases p)
    case (Inl e)
    with Cons.prems pub show ?thesis by (auto intro!: exI [of _ 0] exI [of _ "[]"])
  next
    case (Inr msg)
    from publish_row [OF pub [unfolded Inr]] have rp: "row_published r msg" by (simp add: row_published_def)
    show ?thesis
    proof (cases "fault r")
      case PollOk
      with Cons.prems pub Inr have "poll_rows rg fault rs (mark_sent (ob_id r) rows,
          bk\<lparr>bk_log := bk_log bk @ [msg], bk_cache := c\<rparr>) = (res, rows', bk')" by simp
      from Cons.IH [OF this] obtain k msgs where "bk_log bk' = bk_log bk @ msg # msgs"
        "list_all2 row_published (take k rs) msgs" "is_ok res \<longrightarrow> k = length rs" by auto
      then show ?thesis using rp by (intro exI [of _ "Suc k"] exI [of _ "msg # msgs"]) simp
    next
      case SendFails
      then show ?thesis using Cons.prems pub Inr by (auto intro!: exI [of _ 0] exI [of _ "[]"])
    next
      case DiesAfterSend
      then show ?thesis using Cons.prems pub Inr rp by (auto intro!: exI [of _ 1] exI [of _ "[msg]"])
    qed
  qed
qed

text \<open>
  The poller publishes in order of age. One poll, however it fails, appends to the broker's log
  exactly the messages of a prefix of its batch - the hundred oldest pending rows by creation time -
  in that order, and of the whole batch when it succeeds, when it also reports its size.
\<close>

theorem poll_publishes_in_order:
  "case pollOnce rg fault (rows, bk) of (res, rows', bk') \<Rightarrow>
     (\<exists>k msgs. bk_log bk' = bk_log bk @ msgs \<and> list_all2 row_published (take k (pending_rows rows)) msgs
        \<and> (is_ok res \<longrightarrow> k = length (pending_rows rows) \<and> res = Inr (length (pending_rows rows))))
     \<and> sorted (map ob_createdAt (pending_rows rows)) \<and> length (pending_rows rows) \<le> 100"
proof -
  obtain res1 rows' bk' where run: "poll_rows rg fault (pending_rows rows) (rows, bk) = (res1, rows', bk')"
    by (metis prod_cases3)
  have "sorted (map ob_createdAt (pending_rows rows))"
    by (simp add: pending_rows_def take_map [symmetric] sorted_wrt_take)
  moreover have "length (pending_rows rows) \<le> 100" by (simp add: pending_rows_def BATCH_def)
  ultimately show ?thesis using poll_rows_in_order [OF run] run
    by (cases res1) (auto simp: pollOnce_def Let_def)
qed

theorem poll_publishes_in_order_witness:
  "bk_log (snd (snd (pollOnce identity_registry (\<lambda>r. PollOk) ([sample_row], \<lparr>bk_log = [], bk_cache = Map.empty\<rparr>))))
     \<noteq> []"
proof -
  have one: "length (pending_rows [sample_row]) = 1" by (simp add: pending_rows_def BATCH_def sample_row_def)
  have "\<exists>msgs. bk_log (snd (snd (pollOnce identity_registry (\<lambda>r. PollOk) ([sample_row], \<lparr>bk_log = [], bk_cache = Map.empty\<rparr>)))) = msgs
      \<and> list_all2 row_published (take 1 (pending_rows [sample_row])) msgs"
    using poll_publishes_in_order [where rg = identity_registry and fault = "\<lambda>r. PollOk" and rows = "[sample_row]"
        and bk = "\<lparr>bk_log = [], bk_cache = Map.empty\<rparr>"] one
    unfolding sample_poll by auto
  then show ?thesis using one by (auto simp: list_all2_conv_all_nth)
qed

text \<open>
  One unpublishable row stops the outbox. When the oldest pending row has no Avro subject, every
  poll throws on it before publishing anything, so however often the poller is restarted nothing is
  ever published again and no row's status changes.
\<close>

theorem poison_row_blocks_outbox:
  assumes "pending_rows rows = r # rs" and "subject_of (e_eventType (ob_payload r)) = None"
  shows "((\<lambda>st. snd (pollOnce rg fault st)) ^^ n) (rows, bk) = (rows, bk)
    \<and> \<not> is_ok (fst (pollOnce rg fault (rows, bk)))"
proof -
  have once: "pollOnce rg fault (rows, bk) = (Inl (''No Avro subject for eventType ''
      @ event_type_name (e_eventType (ob_payload r))), rows, bk)"
    using assms by (simp add: pollOnce_def publishEnvelope_def)
  have "((\<lambda>st. snd (pollOnce rg fault st)) ^^ n) (rows, bk) = (rows, bk)"
    by (induction n) (simp_all add: once)
  with once show ?thesis by simp
qed

definition poison_row :: outbox_row where
  "poison_row = sample_row\<lparr>ob_id := ''e0'', ob_createdAt := 1,
     ob_payload := sample_envelope\<lparr>e_eventType := UnknownEvent ''Legacy''\<rparr>\<rparr>"

theorem poison_row_blocks_outbox_witness:
  "((\<lambda>st. snd (pollOnce identity_registry (\<lambda>r. PollOk) st)) ^^ 7) ([sample_row, poison_row], \<lparr>bk_log = [], bk_cache = Map.empty\<rparr>)
     = ([sample_row, poison_row], \<lparr>bk_log = [], bk_cache = Map.empty\<rparr>)"
proof -
  have "pending_rows [sample_row, poison_row] = [poison_row, sample_row]"
    by (simp add: pending_rows_def BATCH_def sample_row_def poison_row_def)
  from poison_row_blocks_outbox [where rg = identity_registry and fault = "\<lambda>r. PollOk" and n = 7, OF this] show ?thesis
    by (simp add: poison_row_def subject_of_def SUBJECTS_def)
qed

end
