(* ===== verification/Projection.thy ===== *)
theory Projection
  imports Dispatch_Aggregate Messaging Inbox "HOL-Library.List_Lexorder" "HOL-Library.Product_Lexorder" "HOL-Library.Char_ord"
begin

text \<open>
  The read models (\<open>apps/projection-worker/src\<close>): \<open>applyEvent\<close> for orders, \<open>applyDispatchEvent\<close> for
  dispatches, the consumers' handlers and the rebuild. MongoDB is the record \<open>mongo\<close> of its three
  collections. Both projections are interpretations of the locale \<open>inbox_consumer\<close>, which gives that
  redelivery, restarts and crashes between the upsert and the inbox do not change what a stream
  projects to; the documents are then shown to be the write model's folded state.
\<close>

section \<open>Collections\<close>

record mongo =
  mg_orders :: "string \<rightharpoonup> order_view"
  mg_dispatches :: "string \<rightharpoonup> dispatch_view"
  mg_processed :: "string list"

definition empty_mongo :: mongo where
  "empty_mongo = \<lparr>mg_orders = Map.empty, mg_dispatches = Map.empty, mg_processed = []\<rparr>"

datatype apply_result = Applied | Skipped

definition inbox_id :: "string \<Rightarrow> envelope \<Rightarrow> string" where
  "inbox_id consumer env = e_tenantId env @ '':'' @ consumer @ '':'' @ e_eventId env"

text \<open>The document id \<open>${tenantId}:${payload.orderId}\<close>; an absent id prints as \<open>undefined\<close>.\<close>

definition doc_id :: "envelope \<Rightarrow> string" where
  "doc_id env = colon_key (e_tenantId env) (nullish (pl_orderId (e_payload env)) ''undefined'')"

section \<open>The order projection\<close>

text \<open>
  The document after the guarded write of one event, from the document found: \<open>$set\<close> keeps the fields
  it does not name.
\<close>

definition order_doc :: "envelope \<Rightarrow> order_view option \<Rightarrow> order_view option" where
  "order_doc env existing =
     (case e_eventType env of
        OrderPlaced \<Rightarrow>
          (if existing = None \<or> ov_version (the existing) < e_version env
           then Some \<lparr>ov_tenantId = e_tenantId env, ov_orderId = pl_orderId (e_payload env),
                ov_customerId = pl_customerId (e_payload env), ov_items = pl_items (e_payload env),
                ov_totalAmount = pl_totalAmount (e_payload env), ov_status = PLACED,
                ov_version = e_version env, ov_updatedAt = e_occurredAt env,
                ov_cancelReason = (case existing of None \<Rightarrow> None | Some v \<Rightarrow> ov_cancelReason v)\<rparr>
           else existing)
      | OrderAccepted \<Rightarrow>
          (case existing of
             Some v \<Rightarrow>
               if ov_version v < e_version env
               then Some (v\<lparr>ov_status := ACCEPTED, ov_version := e_version env, ov_updatedAt := e_occurredAt env\<rparr>)
               else existing
           | None \<Rightarrow> None)
      | OrderCancelled \<Rightarrow>
          (case existing of
             Some v \<Rightarrow>
               if ov_version v < e_version env
               then Some (v\<lparr>ov_status := CANCELLED, ov_version := e_version env, ov_updatedAt := e_occurredAt env,
                    ov_cancelReason := (case pl_reason (e_payload env) of
                       Some r \<Rightarrow> Some r | None \<Rightarrow> ov_cancelReason v)\<rparr>)
               else existing
           | None \<Rightarrow> None)
      | _ \<Rightarrow> existing)"

definition PROJECTION_CONSUMER :: string where "PROJECTION_CONSUMER = ''projection-worker''"

text \<open>\<open>applyEvent\<close> in its two writes; a crash between them leaves the first one alone.\<close>

definition order_write :: "envelope \<Rightarrow> mongo \<Rightarrow> mongo" where
  "order_write env db = db\<lparr>mg_orders := (mg_orders db)(doc_id env := order_doc env (mg_orders db (doc_id env)))\<rparr>"

definition inbox_insert :: "string \<Rightarrow> mongo \<Rightarrow> mongo" where
  "inbox_insert i db = (if i \<in> set (mg_processed db) then db else db\<lparr>mg_processed := mg_processed db @ [i]\<rparr>)"

definition applyEvent :: "envelope \<Rightarrow> mongo \<Rightarrow> apply_result \<times> mongo" where
  "applyEvent env db =
     (if inbox_id PROJECTION_CONSUMER env \<in> set (mg_processed db) then (Skipped, db)
      else (Applied, inbox_insert (inbox_id PROJECTION_CONSUMER env) (order_write env db)))"

definition applyEvent_crash :: "envelope \<Rightarrow> mongo \<Rightarrow> mongo" where
  "applyEvent_crash env db =
     (if inbox_id PROJECTION_CONSUMER env \<in> set (mg_processed db) then db else order_write env db)"

section \<open>The dispatch projection\<close>

text \<open>
  The fields the event sets, over the document found; \<open>None\<close> for an event type it does not know.
  \<open>toISOString()\<close> throws on \<open>NaN\<close> and beyond the range of \<open>Date\<close>, an error before any write.
\<close>

definition MAX_TIME :: int where "MAX_TIME = 8640000000000000"

definition dispatch_base :: "envelope \<Rightarrow> dispatch_status \<Rightarrow> dispatch_view option \<Rightarrow> dispatch_view" where
  "dispatch_base env status existing =
     \<lparr>dv_tenantId = e_tenantId env, dv_orderId = pl_orderId (e_payload env), dv_status = status,
      dv_driverId = (case existing of None \<Rightarrow> None | Some v \<Rightarrow> dv_driverId v),
      dv_offeredDriverId = (case existing of None \<Rightarrow> None | Some v \<Rightarrow> dv_offeredDriverId v),
      dv_reason = (case existing of None \<Rightarrow> None | Some v \<Rightarrow> dv_reason v),
      dv_version = e_version env, dv_updatedAt = e_occurredAt env,
      dv_offerExpiresAt = (case existing of None \<Rightarrow> None | Some v \<Rightarrow> dv_offerExpiresAt v)\<rparr>"

definition offer_expiry :: "nat \<Rightarrow> envelope \<Rightarrow> datestr option" where
  "offer_expiry offerTimeoutSeconds env =
     (case date_parse (e_occurredAt env) of
        None \<Rightarrow> None
      | Some t \<Rightarrow>
          if \<bar>t + int offerTimeoutSeconds * 1000\<bar> \<le> MAX_TIME then Some (ISO (t + int offerTimeoutSeconds * 1000))
          else None)"

definition dispatch_set ::
    "nat \<Rightarrow> envelope \<Rightarrow> (string, (dispatch_view option \<Rightarrow> dispatch_view) option) result" where
  "dispatch_set offerTimeoutSeconds env =
     (case e_eventType env of
        DriverOffered \<Rightarrow>
          (case offer_expiry offerTimeoutSeconds env of
             None \<Rightarrow> Inl ''RangeError: Invalid time value''
           | Some expiry \<Rightarrow> Inr (Some (\<lambda>found. (dispatch_base env OFFERED found)
               \<lparr>dv_offeredDriverId := pl_driverId (e_payload env), dv_offerExpiresAt := Some expiry\<rparr>)))
      | DispatchAccepted \<Rightarrow> Inr (Some (\<lambda>found. (dispatch_base env DISPATCHED found)
               \<lparr>dv_driverId := pl_driverId (e_payload env)\<rparr>))
      | OrderPickedUp \<Rightarrow> Inr (Some (dispatch_base env PICKED_UP))
      | OrderDelivered \<Rightarrow> Inr (Some (dispatch_base env DELIVERED))
      | DispatchFailed \<Rightarrow> Inr (Some (\<lambda>found. (dispatch_base env FAILED found)
               \<lparr>dv_reason := pl_reason (e_payload env)\<rparr>))
      | _ \<Rightarrow> Inr None)"

definition dispatch_doc ::
    "(dispatch_view option \<Rightarrow> dispatch_view) option \<Rightarrow> envelope \<Rightarrow> dispatch_view option \<Rightarrow> dispatch_view option" where
  "dispatch_doc setter env existing =
     (case setter of
        None \<Rightarrow> existing
      | Some f \<Rightarrow>
          if existing = None \<or> dv_version (the existing) < e_version env then Some (f existing) else existing)"

definition DISPATCH_CONSUMER :: string where "DISPATCH_CONSUMER = consumer_group_name CG_DISPATCH_PROJECTION"

definition dispatch_write ::
    "(dispatch_view option \<Rightarrow> dispatch_view) option \<Rightarrow> envelope \<Rightarrow> mongo \<Rightarrow> mongo" where
  "dispatch_write setter env db = db\<lparr>mg_dispatches :=
     (mg_dispatches db)(doc_id env := dispatch_doc setter env (mg_dispatches db (doc_id env)))\<rparr>"

definition applyDispatchEvent :: "nat \<Rightarrow> envelope \<Rightarrow> mongo \<Rightarrow> (string, apply_result) result \<times> mongo" where
  "applyDispatchEvent offerTimeoutSeconds env db =
     (if inbox_id DISPATCH_CONSUMER env \<in> set (mg_processed db) then (Inr Skipped, db)
      else (case dispatch_set offerTimeoutSeconds env of
         Inl e \<Rightarrow> (Inl e, db)
       | Inr setter \<Rightarrow> (Inr Applied, inbox_insert (inbox_id DISPATCH_CONSUMER env) (dispatch_write setter env db))))"

definition applyDispatchEvent_crash :: "nat \<Rightarrow> envelope \<Rightarrow> mongo \<Rightarrow> mongo" where
  "applyDispatchEvent_crash offerTimeoutSeconds env db =
     (if inbox_id DISPATCH_CONSUMER env \<in> set (mg_processed db) then db
      else (case dispatch_set offerTimeoutSeconds env of Inl e \<Rightarrow> db | Inr setter \<Rightarrow> dispatch_write setter env db))"

section \<open>Consumers\<close>

text \<open>
  \<open>eachMessage\<close> of the two consumers: a message without a value is passed over, what reading or
  applying throws is thrown on (and the message delivered again). A version that is no number is
  outside the model.
\<close>

datatype consumed = Ignored | Consumed apply_result | NaNVersion

definition run_consumer_message ::
    "'b registry \<Rightarrow> string \<Rightarrow> 'b kafka_message \<Rightarrow> mongo \<Rightarrow> (string, consumed) result \<times> mongo" where
  "run_consumer_message rg freshId m db =
     (case readEnvelope rg freshId m of
        Inl e \<Rightarrow> (Inl e, db)
      | Inr None \<Rightarrow> (Inr Ignored, db)
      | Inr (Some mp) \<Rightarrow>
          (case envelope_of mp of
             None \<Rightarrow> (Inr NaNVersion, db)
           | Some env \<Rightarrow> (case applyEvent env db of (r, db') \<Rightarrow> (Inr (Consumed r), db'))))"

definition run_dispatch_consumer_message ::
    "'b registry \<Rightarrow> string \<Rightarrow> nat \<Rightarrow> 'b kafka_message \<Rightarrow> mongo \<Rightarrow> (string, consumed) result \<times> mongo" where
  "run_dispatch_consumer_message rg freshId offerTimeoutSeconds m db =
     (case readEnvelope rg freshId m of
        Inl e \<Rightarrow> (Inl e, db)
      | Inr None \<Rightarrow> (Inr Ignored, db)
      | Inr (Some mp) \<Rightarrow>
          (case envelope_of mp of
             None \<Rightarrow> (Inr NaNVersion, db)
           | Some env \<Rightarrow>
               (case applyDispatchEvent offerTimeoutSeconds env db of
                  (Inl e, db') \<Rightarrow> (Inl e, db')
                | (Inr r, db') \<Rightarrow> (Inr (Consumed r), db'))))"

section \<open>Rebuild\<close>

definition DEFAULT_OFFER_TIMEOUT :: nat where "DEFAULT_OFFER_TIMEOUT = 30"

definition rebuild_envelope :: "(event_row \<Rightarrow> string) \<Rightarrow> event_row \<Rightarrow> envelope" where
  "rebuild_envelope fresh r =
     \<lparr>e_tenantId = ev_tenantId r, e_eventId = ev_id r, e_eventType = ev_eventType r, e_version = ev_version r,
      e_occurredAt = ISO (ev_occurredAt r), e_correlationId = fresh r, e_payload = ev_payload r\<rparr>"

definition rebuild_row :: "(event_row \<Rightarrow> string) \<Rightarrow> event_row \<Rightarrow> mongo \<Rightarrow> (string, unit) result \<times> mongo" where
  "rebuild_row fresh r db =
     (if ev_aggregateType r = DISPATCH
      then (case applyDispatchEvent DEFAULT_OFFER_TIMEOUT (rebuild_envelope fresh r) db of
              (Inl e, db') \<Rightarrow> (Inl e, db')
            | (Inr _, db') \<Rightarrow> (Inr (), db'))
      else (Inr (), snd (applyEvent (rebuild_envelope fresh r) db)))"

fun rebuild_rows :: "(event_row \<Rightarrow> string) \<Rightarrow> event_row list \<Rightarrow> mongo \<Rightarrow> (string, unit) result \<times> mongo" where
  "rebuild_rows fresh [] db = (Inr (), db)"
| "rebuild_rows fresh (r # rs) db =
     (case rebuild_row fresh r db of
        (Inl e, db') \<Rightarrow> (Inl e, db')
      | (Inr _, db') \<Rightarrow> rebuild_rows fresh rs db')"

definition rebuildProjection ::
    "(event_row \<Rightarrow> string) \<Rightarrow> pg_state \<Rightarrow> mongo \<Rightarrow> (string, nat) result \<times> mongo" where
  "rebuildProjection fresh pg db =
     (let rows = sort_key (\<lambda>r. (ev_tenantId r, ev_aggregateId r, ev_version r)) (pg_events pg) in
      case rebuild_rows fresh rows empty_mongo of
        (Inl e, db') \<Rightarrow> (Inl e, db')
      | (Inr _, db') \<Rightarrow> (Inr (length rows), db'))"


section \<open>Both consumers at work on one database\<close>

text \<open>
  A delivery of a message to one of the consumers, which handles it to the end or, when the flag is
  off, dies between its upsert and its inbox entry.
\<close>

datatype projection_msg = OrderMsg bool envelope | DispatchMsg bool envelope

fun project_msg :: "nat \<Rightarrow> projection_msg \<Rightarrow> mongo \<Rightarrow> mongo" where
  "project_msg T (OrderMsg finishes e) db = (if finishes then snd (applyEvent e db) else applyEvent_crash e db)"
| "project_msg T (DispatchMsg finishes e) db =
     (if finishes then snd (applyDispatchEvent T e db) else applyDispatchEvent_crash T e db)"

fun order_event_of :: "projection_msg \<Rightarrow> envelope option" where
  "order_event_of (OrderMsg _ e) = Some e"
| "order_event_of (DispatchMsg _ e) = None"

fun dispatch_event_of :: "projection_msg \<Rightarrow> envelope option" where
  "dispatch_event_of (OrderMsg _ e) = None"
| "dispatch_event_of (DispatchMsg _ e) = Some e"

fun inbox_entry :: "projection_msg \<Rightarrow> string" where
  "inbox_entry (OrderMsg _ e) = inbox_id PROJECTION_CONSUMER e"
| "inbox_entry (DispatchMsg _ e) = inbox_id DISPATCH_CONSUMER e"

definition order_at :: "string \<Rightarrow> mongo \<Rightarrow> order_view option" where "order_at k db = mg_orders db k"
definition dispatch_at :: "string \<Rightarrow> mongo \<Rightarrow> dispatch_view option" where "dispatch_at k db = mg_dispatches db k"
definition processed :: "string \<Rightarrow> mongo \<Rightarrow> bool" where "processed i db \<longleftrightarrow> i \<in> set (mg_processed db)"

definition dispatch_step :: "nat \<Rightarrow> envelope \<Rightarrow> dispatch_view option \<Rightarrow> dispatch_view option" where
  "dispatch_step T e found =
     (case dispatch_set T e of Inl _ \<Rightarrow> found | Inr setter \<Rightarrow> dispatch_doc setter e found)"

lemma inbox_insert_simps [proj_simps]:
  "mg_orders (inbox_insert i db) = mg_orders db" "mg_dispatches (inbox_insert i db) = mg_dispatches db"
  "processed j (inbox_insert i db) \<longleftrightarrow> j = i \<or> processed j db"
  by (auto simp: inbox_insert_def processed_def)

lemma order_write_simps [proj_simps]:
  "mg_orders (order_write e db) =
     (mg_orders db)(doc_id e := order_doc e (mg_orders db (doc_id e)))"
  "mg_dispatches (order_write e db) = mg_dispatches db" "processed j (order_write e db) = processed j db"
  by (simp_all add: order_write_def processed_def)

lemma dispatch_write_simps [proj_simps]:
  "mg_dispatches (dispatch_write f e db) =
     (mg_dispatches db)(doc_id e := dispatch_doc f e (mg_dispatches db (doc_id e)))"
  "mg_orders (dispatch_write f e db) = mg_orders db" "processed j (dispatch_write f e db) = processed j db"
  by (simp_all add: dispatch_write_def processed_def)

lemma order_at_msg [proj_simps]:
  "order_at k (project_msg T (OrderMsg c e) db) =
     (if doc_id e = k \<and> \<not> processed (inbox_id PROJECTION_CONSUMER e) db
      then order_doc e (order_at k db) else order_at k db)"
  "order_at k (project_msg T (DispatchMsg c e) db) = order_at k db"
  by (auto simp: applyEvent_def applyEvent_crash_def applyDispatchEvent_def applyDispatchEvent_crash_def
      order_at_def processed_def proj_simps split: sum.splits)

lemma dispatch_at_msg [proj_simps]:
  "dispatch_at k (project_msg T (DispatchMsg c e) db) =
     (if doc_id e = k \<and> \<not> processed (inbox_id DISPATCH_CONSUMER e) db
      then dispatch_step T e (dispatch_at k db) else dispatch_at k db)"
  "dispatch_at k (project_msg T (OrderMsg c e) db) = dispatch_at k db"
  by (auto simp: applyEvent_def applyEvent_crash_def applyDispatchEvent_def applyDispatchEvent_crash_def
      dispatch_step_def dispatch_at_def processed_def proj_simps split: sum.splits)

lemma processed_msg:
  "processed i (project_msg T m db) \<Longrightarrow> i = inbox_entry m \<or> processed i db"
  by (cases m) (auto simp: applyEvent_def applyEvent_crash_def applyDispatchEvent_def
      applyDispatchEvent_crash_def proj_simps split: sum.splits if_splits)

lemma order_doc_old: "e_version e \<le> ov_version d \<Longrightarrow> order_doc e (Some d) = Some d"
  by (simp add: order_doc_def split: event_type.splits)

lemma order_doc_stamp: "order_doc e x = x \<or> (\<exists>d. order_doc e x = Some d \<and> ov_version d = e_version e)"
  by (auto simp: order_doc_def split: event_type.splits option.splits)

lemma dispatch_step_old: "e_version e \<le> dv_version d \<Longrightarrow> dispatch_step T e (Some d) = Some d"
  by (simp add: dispatch_step_def dispatch_doc_def split: sum.splits option.splits)

lemma dispatch_set_version:
  "dispatch_set T e = Inr (Some f) \<Longrightarrow> dv_version (f x) = e_version e"
  by (auto simp: dispatch_set_def dispatch_base_def split: event_type.splits option.splits)

lemma dispatch_step_stamp:
  "dispatch_step T e x = x \<or> (\<exists>d. dispatch_step T e x = Some d \<and> dv_version d = e_version e)"
  by (auto simp: dispatch_step_def dispatch_doc_def dispatch_set_version split: sum.splits option.splits)

interpretation op: inbox_consumer "project_msg T" order_event_of inbox_entry order_at processed
  doc_id "inbox_id PROJECTION_CONSUMER" order_doc ov_version e_version for T
proof unfold_locales
  show "order_at k (project_msg T m s) = order_at k s" if "order_event_of m = None" for m k s
    using that by (cases m) (simp_all add: proj_simps del: project_msg.simps)
  show "order_at k (project_msg T m s) =
      (if doc_id e = k \<and> \<not> processed (inbox_id PROJECTION_CONSUMER e) s then order_doc e (order_at k s)
       else order_at k s)" if "order_event_of m = Some e" for m e k s
    using that by (cases m) (simp_all add: proj_simps del: project_msg.simps)
  show "inbox_entry m = inbox_id PROJECTION_CONSUMER e" if "order_event_of m = Some e" for m e
    using that by (cases m) simp_all
qed (use processed_msg order_doc_old order_doc_stamp in blast)+

interpretation dp: inbox_consumer "project_msg T" dispatch_event_of inbox_entry dispatch_at processed
  doc_id "inbox_id DISPATCH_CONSUMER" "dispatch_step T" dv_version e_version for T
proof unfold_locales
  show "dispatch_at k (project_msg T m s) = dispatch_at k s" if "dispatch_event_of m = None" for m k s
    using that by (cases m) (simp_all add: proj_simps del: project_msg.simps)
  show "dispatch_at k (project_msg T m s) =
      (if doc_id e = k \<and> \<not> processed (inbox_id DISPATCH_CONSUMER e) s then dispatch_step T e (dispatch_at k s)
       else dispatch_at k s)" if "dispatch_event_of m = Some e" for m e k s
    using that by (cases m) (simp_all add: proj_simps del: project_msg.simps)
  show "inbox_entry m = inbox_id DISPATCH_CONSUMER e" if "dispatch_event_of m = Some e" for m e
    using that by (cases m) simp_all
qed (use processed_msg dispatch_step_old dispatch_step_stamp in blast)+


section \<open>The read models are the folded write models\<close>

text \<open>The message an outbox row of the event row becomes; its time and correlation id are free.\<close>

definition carries :: "event_row \<Rightarrow> envelope \<Rightarrow> bool" where
  "carries r e \<longleftrightarrow> e_tenantId e = ev_tenantId r \<and> e_eventId e = ev_id r \<and> e_eventType e = ev_eventType r
     \<and> e_version e = ev_version r \<and> e_payload e = ev_payload r"

definition env_fold_event :: "envelope \<Rightarrow> fold_event" where
  "env_fold_event e = \<lparr>fe_eventType = e_eventType e, fe_payload = e_payload e, fe_version = e_version e\<rparr>"

lemma carries_stream:
  assumes "store_inv pg" and "list_all2 carries (stream pg t a) es"
  shows "sorted_wrt (<) (map e_version es)" and "distinct (map (inbox_id c) es)"
    and "map e_version es = [1..<Suc (length es)]"
    and "map env_fold_event es = events_of pg t a"
proof -
  have len: "length es = length (stream pg t a)" using assms(2) by (simp add: list_all2_lengthD)
  have all: "carries (stream pg t a ! i) (es ! i)" if "i < length es" for i
    using assms(2) that by (simp add: list_all2_conv_all_nth)
  have "map e_version es = map ev_version (stream pg t a)"
    using len all by (auto simp: carries_def intro!: nth_equalityI)
  then show v: "map e_version es = [1..<Suc (length es)]"
    using stream_contiguous [OF assms(1)] len by simp
  show "sorted_wrt (<) (map e_version es)" by (simp only: v strict_sorted_iff sorted_upt distinct_upt)
  have "map e_eventId es = map ev_id (stream pg t a)"
    using len all by (auto simp: carries_def intro!: nth_equalityI)
  moreover have "distinct (map ev_id (stream pg t a))"
    using assms(1) by (simp add: store_inv_def stream_def distinct_map_filter)
  moreover have tn: "e_tenantId e = t" if "e \<in> set es" for e
  proof -
    from that obtain i where "i < length es" "e = es ! i" by (auto simp: in_set_conv_nth)
    moreover from this have "stream pg t a ! i \<in> set (stream pg t a)" by (simp add: len)
    ultimately show ?thesis using all [of i] by (simp add: carries_def mem_stream)
  qed
  ultimately have "distinct (map e_eventId es)" by simp
  then show "distinct (map (inbox_id c) es)"
    using tn by (auto simp: inbox_id_def distinct_map inj_on_def)
  show "map env_fold_event es = events_of pg t a"
    using len all by (auto simp: carries_def events_of_def fold_event_of_def env_fold_event_def intro!: nth_equalityI)
qed

definition order_abs :: "order_view \<Rightarrow> order_state" where
  "order_abs v = \<lparr>os_status = Some (ov_status v), os_customerId = ov_customerId v, os_items = ov_items v,
     os_totalAmount = ov_totalAmount v, os_cancelReason = ov_cancelReason v\<rparr>"

lemma order_project:
  assumes "order_legal (map env_fold_event es)" and "map e_version es = [1..<Suc (length es)]"
  shows "map_option (\<lambda>v. (order_abs v, ov_version v)) (project_events order_doc es) =
    (if es = [] then None else Some (order_fold (map env_fold_event es), length es))"
  using assms(1)
proof (cases rule: order_legal_cases)
  case 1
  then show ?thesis by simp
next
  case (2 p)
  then obtain e where "es = [e]" "e_eventType e = OrderPlaced" by (auto simp: env_fold_event_def)
  with assms(2) show ?thesis
    by (simp add: project_events_def order_doc_def order_fold_def foldOrder_def env_fold_event_def order_abs_def)
next
  case (3 p a)
  then obtain e f where "es = [e, f]" "e_eventType e = OrderPlaced" "e_eventType f = OrderAccepted"
    by (auto simp: env_fold_event_def)
  with assms(2) show ?thesis
    by (simp add: project_events_def order_doc_def order_fold_def foldOrder_def env_fold_event_def order_abs_def)
next
  case (4 p c)
  then obtain e f where "es = [e, f]" "e_eventType e = OrderPlaced" "e_eventType f = OrderCancelled"
    by (auto simp: env_fold_event_def)
  with assms(2) show ?thesis
    by (simp add: project_events_def order_doc_def order_fold_def foldOrder_def env_fold_event_def order_abs_def
        split: option.splits)
qed

lemma order_legal_take: "order_legal es \<Longrightarrow> order_legal (take n es)"
  by (cases rule: order_legal_cases, assumption)
    (auto simp: order_legal_def order_lifecycles_def take_Cons' )

lemma order_prefix_doc:
  assumes "writers_reach order_machine pg ws" and "\<not> is_dispatch_id a"
    and "list_all2 carries (stream pg t a) es" and "n \<le> length es"
  shows "map_option (\<lambda>v. (order_abs v, ov_version v)) (project_events order_doc (take n es))
    = (if n = 0 then None else Some (order_fold (take n (events_of pg t a)), n))"
proof -
  note c = carries_stream [OF om.reach_store_inv [OF assms(1)] assms(3)]
  have legal: "order_legal (map env_fold_event es)"
    using om.reach_legal [OF assms(1), of a t] assms(2) c(4) by simp
  have "map e_version (take n es) = [1..<Suc (length (take n es))]"
    using assms(4) by (simp add: take_map [symmetric] c(3) take_upt del: upt_Suc)
  from order_project [OF _ this] have "order_legal (take n (events_of pg t a)) \<Longrightarrow> ?thesis"
    using assms(4) by (auto simp: take_map [symmetric] c(4))
  then show ?thesis using order_legal_take [OF legal, of n] c(4) by simp
qed

lemma order_read_model:
  assumes "writers_reach order_machine pg ws" and "\<not> is_dispatch_id a"
    and "list_all2 carries (stream pg t a) es" and "\<forall>e \<in> set es. doc_id e = k"
    and "progress order_event_of (\<lambda>e. doc_id e = k) es 0 ms = Some n"
    and "\<forall>m \<in> set ms. (\<forall>e. order_event_of m = Some e \<longrightarrow> doc_id e \<noteq> k) \<longrightarrow>
      inbox_entry m \<notin> inbox_id PROJECTION_CONSUMER ` set es"
  shows "map_option (\<lambda>v. (order_abs v, ov_version v)) (mg_orders (run_log (project_msg T) ms empty_mongo) k)
    = (if n = 0 then None else Some (order_fold (take n (events_of pg t a)), n))"
proof -
  note c = carries_stream [OF om.reach_store_inv [OF assms(1)] assms(3)]
  have run: "order_at k (run_log (project_msg T) ms empty_mongo) = project_events order_doc (take n es)"
    and n: "n \<le> length es"
    by (rule op.run_project [where s = empty_mongo, OF assms(5) _ _ c(1,2)];
        use assms(6) in \<open>auto simp: empty_mongo_def order_at_def processed_def\<close>)+
  then show ?thesis using order_prefix_doc [OF assms(1-3) n] by (simp add: order_at_def)
qed

text \<open>
  The order read model refines the order aggregate. Take an order's stream in any reachable
  store, and any log of what the projection worker receives in which the stream's messages come at
  least once and in order - duplicated, interleaved with the messages of every other order and of the
  dispatch consumer, with crashes between upsert and inbox. Then the document is the aggregate's
  state folded over the events delivered so far, at their version.
\<close>

theorem order_read_model_refines:
  assumes "writers_reach order_machine pg ws" and "\<not> is_dispatch_id a"
    and "list_all2 carries (stream pg t a) es" and "\<forall>e \<in> set es. doc_id e = k"
    and "progress order_event_of (\<lambda>e. doc_id e = k) es 0 ms = Some n"
    and "\<forall>m \<in> set ms. (\<forall>e. order_event_of m = Some e \<longrightarrow> doc_id e \<noteq> k) \<longrightarrow>
      inbox_entry m \<notin> inbox_id PROJECTION_CONSUMER ` set es"
  shows "map_option (\<lambda>v. (order_abs v, ov_version v)) (mg_orders (run_log (project_msg T) ms empty_mongo) k)
    = (if n = 0 then None else Some (order_fold (take n (events_of pg t a)), n))"
  by (rule order_read_model [OF assms])

definition dispatch_abs :: "dispatch_view \<Rightarrow> dispatch_state" where
  "dispatch_abs v = \<lparr>ds_status = Some (dv_status v), ds_offeredDriverId = dv_offeredDriverId v,
     ds_driverId = dv_driverId v, ds_reason = dv_reason v\<rparr>"

lemma dispatch_step_fold:
  assumes "status_after (e_eventType e) \<noteq> None" and "is_ok (dispatch_set T e)"
    and "\<And>v. found = Some v \<Longrightarrow> dv_version v < e_version e"
    and "(case found of None \<Rightarrow> st = INITIAL_DISPATCH_STATE | Some v \<Rightarrow> dispatch_abs v = st)"
  shows "map_option (\<lambda>v. (dispatch_abs v, dv_version v)) (dispatch_step T e found) =
    Some (foldDispatch st (env_fold_event e), e_version e)"
  using assms
  by (cases found; cases "e_eventType e"; cases "offer_expiry T e")
    (auto simp: dispatch_step_def dispatch_set_def dispatch_doc_def dispatch_base_def foldDispatch_def
      env_fold_event_def dispatch_abs_def INITIAL_DISPATCH_STATE_def)

lemma dispatch_project:
  assumes "\<forall>e \<in> set es. status_after (e_eventType e) \<noteq> None \<and> is_ok (dispatch_set T e)"
    and "map e_version es = [1..<Suc (length es)]"
  shows "map_option (\<lambda>v. (dispatch_abs v, dv_version v)) (project_events (dispatch_step T) es) =
    (if es = [] then None else Some (dispatch_fold (map env_fold_event es), length es))"
  using assms
proof (induction es rule: rev_induct)
  case Nil
  then show ?case by simp
next
  case (snoc e es)
  have v: "map e_version es = [1..<Suc (length es)]" "e_version e = Suc (length es)"
    using snoc.prems(2) by simp_all
  let ?found = "project_events (dispatch_step T) es"
  have IH: "map_option (\<lambda>v. (dispatch_abs v, dv_version v)) ?found =
    (if es = [] then None else Some (dispatch_fold (map env_fold_event es), length es))"
    using snoc.IH snoc.prems(1) v(1) by simp
  have "map_option (\<lambda>v. (dispatch_abs v, dv_version v)) (dispatch_step T e ?found) =
    Some (foldDispatch (dispatch_fold (map env_fold_event es)) (env_fold_event e), e_version e)"
  proof (rule dispatch_step_fold)
    show "dv_version w < e_version e" if "?found = Some w" for w
      using IH that v(2) by (auto split: if_splits)
    show "case ?found of None \<Rightarrow> dispatch_fold (map env_fold_event es) = INITIAL_DISPATCH_STATE
        | Some v \<Rightarrow> dispatch_abs v = dispatch_fold (map env_fold_event es)"
      using IH by (auto simp: dispatch_fold_def split: option.splits if_splits)
  qed (use snoc.prems(1) in simp_all)
  then show ?case by (simp add: v(2) dispatch_fold_snoc)
qed

lemma dispatch_legal_types:
  assumes "dispatch_legal es" and "e \<in> set es"
  shows "status_after (fe_eventType e) \<noteq> None"
proof -
  from assms obtain n rest where "fe_eventType e \<in> set (replicate n DriverOffered @ rest)"
    and "rest \<in> set (dispatch_endings n)"
    by (metis dispatch_legal_def image_eqI set_map)
  then show ?thesis by (auto simp: dispatch_endings_def split: if_splits)
qed

lemma dispatch_prefix_doc:
  assumes "writers_reach dispatch_machine pg ws" and "is_dispatch_id a"
    and "list_all2 carries (stream pg t a) es" and "\<forall>e \<in> set es. is_ok (dispatch_set T e)" and "n \<le> length es"
  shows "map_option (\<lambda>v. (dispatch_abs v, dv_version v)) (project_events (dispatch_step T) (take n es))
    = (if n = 0 then None else Some (dispatch_fold (take n (events_of pg t a)), n))"
proof -
  note c = carries_stream [OF dm.reach_store_inv [OF assms(1)] assms(3)]
  have legal: "dispatch_legal (map env_fold_event es)"
    using dm.reach_legal [OF assms(1), of a t] assms(2) c(4) by simp
  have v: "map e_version (take n es) = [1..<Suc (length (take n es))]"
    using assms(5) by (simp add: take_map [symmetric] c(3) take_upt del: upt_Suc)
  have "\<forall>e \<in> set (take n es). status_after (e_eventType e) \<noteq> None \<and> is_ok (dispatch_set T e)"
  proof
    fix e assume "e \<in> set (take n es)"
    then have "e \<in> set es" by (rule in_set_takeD)
    then show "status_after (e_eventType e) \<noteq> None \<and> is_ok (dispatch_set T e)"
      using assms(4) dispatch_legal_types [OF legal, of "env_fold_event e"] by (simp add: env_fold_event_def)
  qed
  from dispatch_project [OF this v] show ?thesis
    using assms(5) by (auto simp: take_map [symmetric] c(4))
qed

lemma dispatch_read_model:
  assumes "writers_reach dispatch_machine pg ws" and "is_dispatch_id a"
    and "list_all2 carries (stream pg t a) es" and "\<forall>e \<in> set es. doc_id e = k \<and> is_ok (dispatch_set T e)"
    and "progress dispatch_event_of (\<lambda>e. doc_id e = k) es 0 ms = Some n"
    and "\<forall>m \<in> set ms. (\<forall>e. dispatch_event_of m = Some e \<longrightarrow> doc_id e \<noteq> k) \<longrightarrow>
      inbox_entry m \<notin> inbox_id DISPATCH_CONSUMER ` set es"
  shows "map_option (\<lambda>v. (dispatch_abs v, dv_version v)) (mg_dispatches (run_log (project_msg T) ms empty_mongo) k)
    = (if n = 0 then None else Some (dispatch_fold (take n (events_of pg t a)), n))"
proof -
  note c = carries_stream [OF dm.reach_store_inv [OF assms(1)] assms(3)]
  have run: "dispatch_at k (run_log (project_msg T) ms empty_mongo) = project_events (dispatch_step T) (take n es)"
    and n: "n \<le> length es"
    by (rule dp.run_project [where s = empty_mongo, OF assms(5) _ _ c(1,2)];
        use assms(6) in \<open>auto simp: empty_mongo_def dispatch_at_def processed_def\<close>)+
  then show ?thesis using dispatch_prefix_doc [OF assms(1-3) _ n] assms(4) by (simp add: dispatch_at_def)
qed

text \<open>
  The dispatch read model refines the dispatch aggregate, under the same conditions as for orders,
  provided the offers' times are dates (an offer whose time is not makes the projection throw): status,
  offered driver, accepted driver and reason are those of the folded events delivered so far.
\<close>

theorem dispatch_read_model_refines:
  assumes "writers_reach dispatch_machine pg ws" and "is_dispatch_id a"
    and "list_all2 carries (stream pg t a) es" and "\<forall>e \<in> set es. doc_id e = k \<and> is_ok (dispatch_set T e)"
    and "progress dispatch_event_of (\<lambda>e. doc_id e = k) es 0 ms = Some n"
    and "\<forall>m \<in> set ms. (\<forall>e. dispatch_event_of m = Some e \<longrightarrow> doc_id e \<noteq> k) \<longrightarrow>
      inbox_entry m \<notin> inbox_id DISPATCH_CONSUMER ` set es"
  shows "map_option (\<lambda>v. (dispatch_abs v, dv_version v)) (mg_dispatches (run_log (project_msg T) ms empty_mongo) k)
    = (if n = 0 then None else Some (dispatch_fold (take n (events_of pg t a)), n))"
  by (rule dispatch_read_model [OF assms])


section \<open>Rebuilding\<close>

definition row_msg :: "(event_row \<Rightarrow> string) \<Rightarrow> event_row \<Rightarrow> projection_msg" where
  "row_msg fresh r = (if ev_aggregateType r = DISPATCH then DispatchMsg True (rebuild_envelope fresh r)
     else OrderMsg True (rebuild_envelope fresh r))"

definition replay_order :: "pg_state \<Rightarrow> event_row list" where
  "replay_order pg = sort_key (\<lambda>r. (ev_tenantId r, ev_aggregateId r, ev_version r)) (pg_events pg)"

definition dated :: "event_row \<Rightarrow> bool" where
  "dated r \<longleftrightarrow> \<bar>ev_occurredAt r + int DEFAULT_OFFER_TIMEOUT * 1000\<bar> \<le> MAX_TIME"

lemma dispatch_set_dated: "dated r \<Longrightarrow> is_ok (dispatch_set DEFAULT_OFFER_TIMEOUT (rebuild_envelope fresh r))"
  by (simp add: dispatch_set_def offer_expiry_def dated_def rebuild_envelope_def split: event_type.splits)

lemma rebuild_row_msg:
  assumes "dated r"
  shows "rebuild_row fresh r db = (Inr (), project_msg DEFAULT_OFFER_TIMEOUT (row_msg fresh r) db)"
proof (cases "dispatch_set DEFAULT_OFFER_TIMEOUT (rebuild_envelope fresh r)")
  case (Inl e)
  with dispatch_set_dated [OF assms, of fresh] show ?thesis by simp
next
  case (Inr f)
  then show ?thesis by (simp add: rebuild_row_def row_msg_def applyDispatchEvent_def)
qed

lemma rebuild_rows_log:
  "\<forall>r \<in> set rs. dated r \<Longrightarrow>
   rebuild_rows fresh rs db = (Inr (), run_log (project_msg DEFAULT_OFFER_TIMEOUT) (map (row_msg fresh) rs) db)"
  by (induction rs arbitrary: db) (simp_all add: rebuild_row_msg)

lemma rebuild_log:
  assumes "\<forall>r \<in> set (pg_events pg). dated r"
  shows "rebuildProjection fresh pg db = (Inr (length (pg_events pg)),
    run_log (project_msg DEFAULT_OFFER_TIMEOUT) (map (row_msg fresh) (replay_order pg)) empty_mongo)"
  using rebuild_rows_log [of "replay_order pg" fresh empty_mongo] assms
  by (simp add: rebuildProjection_def replay_order_def)

lemma replay_stream:
  assumes "store_inv pg"
  shows "filter (\<lambda>r. ev_tenantId r = t \<and> ev_aggregateId r = a) (replay_order pg) = stream pg t a"
proof -
  have "sorted (map ev_version (stream pg t a))"
    by (simp add: stream_contiguous [OF assms] del: upt_Suc)
  then have "sorted_wrt (\<lambda>r s. ev_version r \<le> ev_version s) (stream pg t a)" by (simp add: sorted_map)
  then have "sorted (map (\<lambda>r. (ev_tenantId r, ev_aggregateId r, ev_version r)) (stream pg t a))"
    unfolding sorted_map by (rule sorted_wrt_mono_rel [rotated]) (auto simp: mem_stream)
  then show ?thesis by (simp add: replay_order_def filter_sort sort_key_id_if_sorted flip: stream_def)
qed

lemma progress_exact:
  assumes "filter mine (List.map_filter event ms) = drop n es" and "distinct es" and "n \<le> length es"
  shows "progress event mine es n ms = Some (length es)"
  using assms(1,3)
proof (induction ms arbitrary: n)
  case Nil
  then show ?case by simp
next
  case (Cons m ms)
  show ?case
  proof (cases "\<exists>e. event m = Some e \<and> mine e")
    case False
    then show ?thesis using Cons by (auto simp: List.map_filter_def split: option.splits)
  next
    case True
    then obtain e where e: "event m = Some e" "mine e" by blast
    with Cons.prems have d: "drop n es = e # filter mine (List.map_filter event ms)"
      by (simp add: List.map_filter_simps)
    then have n: "n < length es" by (metis drop_all list.distinct(1) not_le)
    then have "e = es ! n" "filter mine (List.map_filter event ms) = drop (Suc n) es"
      using d by (auto simp: Cons_nth_drop_Suc [symmetric])
    moreover have "es ! n \<notin> set (take n es)"
      using assms(2) n by (auto simp: in_set_conv_nth nth_eq_iff_index_eq)
    ultimately show ?thesis using e n Cons.IH [of "Suc n"] by simp
  qed
qed


text \<open>
  A row as the services write it: the aggregate id is the order id of the payload, prefixed for a
  dispatch; the tenant's slug has no colon; the time is one \<open>Date\<close> can hold.
\<close>

definition well_stored :: "event_row \<Rightarrow> bool" where
  "well_stored r \<longleftrightarrow> CHR '':'' \<notin> set (ev_tenantId r) \<and> dated r \<and>
     (case pl_orderId (ev_payload r) of None \<Rightarrow> False | Some oid \<Rightarrow> \<not> is_dispatch_id oid \<and>
        ev_aggregateId r = (if ev_aggregateType r = DISPATCH then dispatchAggregateId oid else oid))"

lemma inbox_id_inject:
  assumes "CHR '':'' \<notin> set (e_tenantId e)" "CHR '':'' \<notin> set (e_tenantId f)"
    and "CHR '':'' \<notin> set c" "CHR '':'' \<notin> set d"
  shows "inbox_id c e = inbox_id d f \<longleftrightarrow> e_tenantId e = e_tenantId f \<and> c = d \<and> e_eventId e = e_eventId f"
  using assms by (simp add: inbox_id_def append_sep_inject)

lemma consumer_names:
  "CHR '':'' \<notin> set PROJECTION_CONSUMER" "CHR '':'' \<notin> set DISPATCH_CONSUMER"
  "PROJECTION_CONSUMER \<noteq> DISPATCH_CONSUMER"
  by (simp_all add: PROJECTION_CONSUMER_def DISPATCH_CONSUMER_def)

lemma rebuild_envelope_simps [simp]:
  "e_tenantId (rebuild_envelope fresh r) = ev_tenantId r" "e_eventId (rebuild_envelope fresh r) = ev_id r"
  "e_eventType (rebuild_envelope fresh r) = ev_eventType r" "e_version (rebuild_envelope fresh r) = ev_version r"
  "e_payload (rebuild_envelope fresh r) = ev_payload r" "carries r (rebuild_envelope fresh r)"
  by (simp_all add: rebuild_envelope_def carries_def)

lemma dispatchAggregateId_inject [simp]: "dispatchAggregateId a = dispatchAggregateId b \<longleftrightarrow> a = b"
  by (simp add: dispatchAggregateId_def)

lemma well_stored_doc:
  assumes "well_stored r" and "CHR '':'' \<notin> set t" and "\<not> is_dispatch_id oid"
  shows "doc_id (rebuild_envelope fresh r) = colon_key t oid \<longleftrightarrow> ev_tenantId r = t \<and>
    (if ev_aggregateType r = DISPATCH then ev_aggregateId r = dispatchAggregateId oid
     else ev_aggregateId r = oid)"
  using assms by (auto simp: well_stored_def doc_id_def colon_key_inject split: option.splits)

lemma well_stored_kind:
  "well_stored r \<Longrightarrow> is_dispatch_id (ev_aggregateId r) \<longleftrightarrow> ev_aggregateType r = DISPATCH"
  by (auto simp: well_stored_def split: option.splits if_splits)

text \<open>The replayed log delivers every stream to its end, and the inbox entries of a log do not clash.\<close>

lemma replay_progress:
  assumes "store_inv pg"
    and "\<And>r. r \<in> set (pg_events pg) \<Longrightarrow> (case event (row_msg fresh r) of
        Some e \<Rightarrow> e = rebuild_envelope fresh r \<and> (mine e \<longleftrightarrow> ev_tenantId r = t \<and> ev_aggregateId r = a)
      | None \<Rightarrow> \<not> (ev_tenantId r = t \<and> ev_aggregateId r = a))"
  shows "progress event mine (map (rebuild_envelope fresh) (stream pg t a)) 0
      (map (row_msg fresh) (replay_order pg)) = Some (length (stream pg t a))"
proof -
  have "filter mine (List.map_filter event (map (row_msg fresh) rs)) =
      map (rebuild_envelope fresh) (filter (\<lambda>r. ev_tenantId r = t \<and> ev_aggregateId r = a) rs)"
    if "set rs \<subseteq> set (pg_events pg)" for rs
    using that
  proof (induction rs)
    case (Cons r rs)
    with assms(2) [of r] show ?case by (auto simp: List.map_filter_simps split: option.splits)
  qed (simp add: List.map_filter_simps)
  from this [of "replay_order pg"] replay_stream [OF assms(1)]
  have "filter mine (List.map_filter event (map (row_msg fresh) (replay_order pg))) =
      drop 0 (map (rebuild_envelope fresh) (stream pg t a))"
    by (simp add: replay_order_def)
  moreover have "distinct (map e_eventId (map (rebuild_envelope fresh) (stream pg t a)))"
    using assms(1) by (simp add: store_inv_def stream_def distinct_map_filter comp_def)
  then have "distinct (map (rebuild_envelope fresh) (stream pg t a))" by (simp only: distinct_map)
  ultimately have "progress event mine (map (rebuild_envelope fresh) (stream pg t a)) 0
      (map (row_msg fresh) (replay_order pg)) = Some (length (map (rebuild_envelope fresh) (stream pg t a)))"
    by (rule progress_exact) simp
  then show ?thesis by simp
qed

lemma replay_entries:
  assumes "store_inv pg" and "\<forall>r \<in> set (pg_events pg). well_stored r" and "r \<in> set (pg_events pg)"
    and "inbox_entry (row_msg fresh r) \<in> inbox_id c ` set (map (rebuild_envelope fresh) (stream pg t a))"
    and "c \<in> {DISPATCH_CONSUMER, PROJECTION_CONSUMER}"
  shows "r \<in> set (stream pg t a) \<and>
    c = (if ev_aggregateType r = DISPATCH then DISPATCH_CONSUMER else PROJECTION_CONSUMER)"
proof -
  from assms(4) obtain s where s: "s \<in> set (stream pg t a)"
    and eq: "inbox_entry (row_msg fresh r) = inbox_id c (rebuild_envelope fresh s)" by auto
  have "s \<in> set (pg_events pg)" using s by (simp add: mem_stream)
  moreover have "CHR '':'' \<notin> set (ev_tenantId r)" "CHR '':'' \<notin> set (ev_tenantId s)"
    using assms(2,3) calculation by (simp_all add: well_stored_def)
  ultimately have "ev_id r = ev_id s \<and>
      c = (if ev_aggregateType r = DISPATCH then DISPATCH_CONSUMER else PROJECTION_CONSUMER)"
    using eq assms(5) consumer_names by (auto simp: row_msg_def inbox_id_inject split: if_splits)
  moreover have "r = s" if "ev_id r = ev_id s"
    using that assms(1,3) \<open>s \<in> set (pg_events pg)\<close>
    by (auto simp: store_inv_def distinct_map inj_on_def)
  ultimately show ?thesis using s by auto
qed


lemma set_row_msgs:
  "m \<in> set (map (row_msg fresh) (replay_order pg)) \<longleftrightarrow> (\<exists>r \<in> set (pg_events pg). m = row_msg fresh r)"
  by (auto simp: replay_order_def)

lemma carries_rebuild: "list_all2 carries rs (map (rebuild_envelope fresh) rs)"
  by (simp add: list_all2_conv_all_nth)

lemma rebuild_order_doc:
  assumes "writers_reach order_machine pg ws" and "\<forall>r \<in> set (pg_events pg). well_stored r"
    and "CHR '':'' \<notin> set t" and "\<not> is_dispatch_id a"
  shows "map_option (\<lambda>v. (order_abs v, ov_version v)) (mg_orders (run_log (project_msg T)
      (map (row_msg fresh) (replay_order pg)) empty_mongo) (colon_key t a))
    = (if events_of pg t a = [] then None else Some (order_fold (events_of pg t a), length (events_of pg t a)))"
proof -
  note inv = om.reach_store_inv [OF assms(1)]
  let ?es = "map (rebuild_envelope fresh) (stream pg t a)"
  have own: "doc_id (rebuild_envelope fresh r) = colon_key t a \<longleftrightarrow> ev_tenantId r = t \<and> ev_aggregateId r = a"
    if "r \<in> set (pg_events pg)" "ev_aggregateType r \<noteq> DISPATCH \<or> ev_aggregateId r = a" for r
    using that assms(2-4) well_stored_doc [of r t a fresh] well_stored_kind [of r] by (auto split: if_splits)
  have kind: "ev_aggregateType r = DISPATCH \<longleftrightarrow> is_dispatch_id (ev_aggregateId r)" if "r \<in> set (pg_events pg)" for r
    using that assms(2) well_stored_kind [of r] by simp
  have prog: "progress order_event_of (\<lambda>e. doc_id e = colon_key t a) ?es 0
      (map (row_msg fresh) (replay_order pg)) = Some (length (stream pg t a))"
    by (rule replay_progress [OF inv]) (use own kind assms(4) in \<open>auto simp: row_msg_def\<close>)
  have docs: "\<forall>e \<in> set ?es. doc_id e = colon_key t a"
    using own by (auto simp: mem_stream)
  have "\<forall>m \<in> set (map (row_msg fresh) (replay_order pg)).
      (\<forall>e. order_event_of m = Some e \<longrightarrow> doc_id e \<noteq> colon_key t a) \<longrightarrow>
      inbox_entry m \<notin> inbox_id PROJECTION_CONSUMER ` set ?es"
  proof (intro ballI impI notI)
    fix m assume m: "m \<in> set (map (row_msg fresh) (replay_order pg))"
      and other: "\<forall>e. order_event_of m = Some e \<longrightarrow> doc_id e \<noteq> colon_key t a"
      and clash: "inbox_entry m \<in> inbox_id PROJECTION_CONSUMER ` set ?es"
    from m obtain r where r: "r \<in> set (pg_events pg)" "m = row_msg fresh r" unfolding set_row_msgs by blast
    from replay_entries [OF inv assms(2) r(1) clash [unfolded r(2)]] consumer_names(3)
    have "r \<in> set (stream pg t a)" "ev_aggregateType r \<noteq> DISPATCH" by (auto split: if_splits)
    then show False using other own [OF r(1)] by (simp add: r(2) row_msg_def mem_stream)
  qed
  from order_read_model [OF assms(1,4) carries_rebuild docs prog this]
  show ?thesis by (simp add: length_events_of [symmetric])
qed
lemma rebuild_dispatch_doc:
  assumes "writers_reach dispatch_machine pg ws" and "\<forall>r \<in> set (pg_events pg). well_stored r"
    and "CHR '':'' \<notin> set t" and "\<not> is_dispatch_id a"
  shows "map_option (\<lambda>v. (dispatch_abs v, dv_version v)) (mg_dispatches (run_log (project_msg DEFAULT_OFFER_TIMEOUT)
      (map (row_msg fresh) (replay_order pg)) empty_mongo) (colon_key t a))
    = (if events_of pg t (dispatchAggregateId a) = [] then None else Some (dispatch_fold (events_of pg t (dispatchAggregateId a)), length (events_of pg t (dispatchAggregateId a))))"
proof -
  note inv = dm.reach_store_inv [OF assms(1)]
  let ?es = "map (rebuild_envelope fresh) (stream pg t (dispatchAggregateId a))"
  have own: "doc_id (rebuild_envelope fresh r) = colon_key t a \<longleftrightarrow> ev_tenantId r = t \<and> ev_aggregateId r = dispatchAggregateId a"
    if "r \<in> set (pg_events pg)" "ev_aggregateType r = DISPATCH \<or> ev_aggregateId r = dispatchAggregateId a" for r
    using that assms(2-4) well_stored_doc [of r t a fresh] well_stored_kind [of r] by (auto split: if_splits)
  have kind: "ev_aggregateType r = DISPATCH \<longleftrightarrow> is_dispatch_id (ev_aggregateId r)" if "r \<in> set (pg_events pg)" for r
    using that assms(2) well_stored_kind [of r] by simp
  have prog: "progress dispatch_event_of (\<lambda>e. doc_id e = colon_key t a) ?es 0
      (map (row_msg fresh) (replay_order pg)) = Some (length (stream pg t (dispatchAggregateId a)))"
    by (rule replay_progress [OF inv]) (use own kind assms(4) in \<open>auto simp: row_msg_def\<close>)
  have docs: "\<forall>e \<in> set ?es. doc_id e = colon_key t a \<and> is_ok (dispatch_set DEFAULT_OFFER_TIMEOUT e)"
    using own assms(2) by (auto simp: mem_stream well_stored_def intro: dispatch_set_dated)
  have "\<forall>m \<in> set (map (row_msg fresh) (replay_order pg)).
      (\<forall>e. dispatch_event_of m = Some e \<longrightarrow> doc_id e \<noteq> colon_key t a) \<longrightarrow>
      inbox_entry m \<notin> inbox_id DISPATCH_CONSUMER ` set ?es"
  proof (intro ballI impI notI)
    fix m assume m: "m \<in> set (map (row_msg fresh) (replay_order pg))"
      and other: "\<forall>e. dispatch_event_of m = Some e \<longrightarrow> doc_id e \<noteq> colon_key t a"
      and clash: "inbox_entry m \<in> inbox_id DISPATCH_CONSUMER ` set ?es"
    from m obtain r where r: "r \<in> set (pg_events pg)" "m = row_msg fresh r" unfolding set_row_msgs by blast
    from replay_entries [OF inv assms(2) r(1) clash [unfolded r(2)]] consumer_names(3)
    have "r \<in> set (stream pg t (dispatchAggregateId a))" "ev_aggregateType r = DISPATCH" by (auto split: if_splits)
    then show False using other own [OF r(1)] by (simp add: r(2) row_msg_def mem_stream)
  qed
  from dispatch_read_model [OF assms(1) is_dispatch_id_dispatchAggregateId carries_rebuild docs prog this]
  show ?thesis by (simp add: length_events_of [symmetric])
qed

text \<open>
  C17: Rebuilding the read models from the event store restores them: every order document and every
  dispatch document is the aggregate's state folded over its whole stream, at the stream's version -
  what the live projection reaches when all messages have been delivered. Up to the expiry of offers
  and the time of the last update, which the rebuild derives from the database's clock.
\<close>

theorem rebuild_restores_read_models:
  assumes "writers_reach order_machine pg ws" and "writers_reach dispatch_machine pg ws'"
    and "\<forall>r \<in> set (pg_events pg). well_stored r"
  shows "\<exists>db'. rebuildProjection fresh pg db = (Inr (length (pg_events pg)), db') \<and>
    (\<forall>t a. CHR '':'' \<notin> set t \<and> \<not> is_dispatch_id a \<longrightarrow>
      map_option (\<lambda>v. (order_abs v, ov_version v)) (mg_orders db' (colon_key t a)) =
        (if events_of pg t a = [] then None
         else Some (order_fold (events_of pg t a), length (events_of pg t a)))
      \<and> map_option (\<lambda>v. (dispatch_abs v, dv_version v)) (mg_dispatches db' (colon_key t a)) =
        (if events_of pg t (dispatchAggregateId a) = [] then None
         else Some (dispatch_fold (events_of pg t (dispatchAggregateId a)),
           length (events_of pg t (dispatchAggregateId a)))))"
  using rebuild_log [of pg fresh db] rebuild_order_doc [OF assms(1,3)] rebuild_dispatch_doc [OF assms(2,3)]
    assms(3) by (simp add: well_stored_def)


definition sample_row_envelope :: envelope where
  "sample_row_envelope = rebuild_envelope (\<lambda>_. ''corr'') (append_event_row None (sample_draws ''e1'') sample_append)"

text \<open>The worker dies before the inbox entry, then gets the message twice again.\<close>

definition sample_log :: "projection_msg list" where
  "sample_log = [OrderMsg False sample_row_envelope, OrderMsg True sample_row_envelope,
     OrderMsg True sample_row_envelope]"

lemma sample_row_doc: "doc_id sample_row_envelope = ''berlin:o1''"
  by (simp add: sample_row_envelope_def doc_id_def store_simps sample_append_def payload_defs colon_key_def)

theorem order_read_model_refines_witness:
  "map_option (\<lambda>v. (order_abs v, ov_version v))
      (mg_orders (run_log (project_msg 30) sample_log empty_mongo) ''berlin:o1'')
    = Some (order_fold (events_of sample_pg ''berlin'' ''o1''), 1)"
proof -
  have "progress order_event_of (\<lambda>e. doc_id e = ''berlin:o1'') [sample_row_envelope] 0 sample_log = Some 1"
    by (simp add: sample_log_def sample_row_doc)
  from order_read_model_refines [OF sample_pg_reach _ _ _ this, of "''o1''" "''berlin''" 30]
  show ?thesis
    by (simp add: sample_stream sample_row_doc is_dispatch_id_def sample_log_def events_of_def)
      (simp add: sample_pg_def sample_row_envelope_def)
qed

definition sample_offer_envelope :: envelope where
  "sample_offer_envelope = rebuild_envelope (\<lambda>_. ''corr'') (append_event_row None (sample_draws ''e1'') sample_offer)"

lemma sample_offer_doc: "doc_id sample_offer_envelope = ''berlin:o1''"
  by (simp add: sample_offer_envelope_def doc_id_def store_simps sample_offer_def payload_defs colon_key_def)

lemma sample_offer_stream: "stream sample_dispatch_pg ''berlin'' ''dispatch:o1'' = pg_events sample_dispatch_pg"
  by (simp add: stream_def sample_dispatch_pg_def store_simps) (simp add: sample_offer_def)

lemma sample_offer_dated: "is_ok (dispatch_set 30 sample_offer_envelope)"
  using dispatch_set_dated [of "append_event_row None (sample_draws ''e1'') sample_offer"]
  by (simp add: sample_offer_envelope_def dated_def append_event_row_def sample_draws_def DEFAULT_OFFER_TIMEOUT_def
      MAX_TIME_def)

theorem dispatch_read_model_refines_witness:
  "map_option (\<lambda>v. (dispatch_abs v, dv_version v)) (mg_dispatches (run_log (project_msg 30)
      [DispatchMsg False sample_offer_envelope, DispatchMsg True sample_offer_envelope] empty_mongo) ''berlin:o1'')
    = Some (dispatch_fold (events_of sample_dispatch_pg ''berlin'' ''dispatch:o1''), 1)"
proof -
  have "progress dispatch_event_of (\<lambda>e. doc_id e = ''berlin:o1'') [sample_offer_envelope] 0
      [DispatchMsg False sample_offer_envelope, DispatchMsg True sample_offer_envelope] = Some 1"
    by (simp add: sample_offer_doc)
  from dispatch_read_model_refines [OF sample_dispatch_reach _ _ _ this, of "''dispatch:o1''" "''berlin''" 30]
  show ?thesis
    by (simp add: sample_offer_stream sample_offer_doc is_dispatch_id_def events_of_def sample_offer_dated)
      (simp add: sample_dispatch_pg_def sample_offer_envelope_def)
qed

theorem rebuild_restores_read_models_witness:
  "\<exists>db'. rebuildProjection (\<lambda>_. ''corr'') sample_pg empty_mongo = (Inr 1, db') \<and>
    map_option (\<lambda>v. (order_abs v, ov_version v)) (mg_orders db' ''berlin:o1'') =
      Some (order_fold (events_of sample_pg ''berlin'' ''o1''), 1)"
proof -
  have "writers_reach dispatch_machine sample_pg []"
    by (rule writers_reach.foreign [OF writers_reach.start _ _ sample_append_ok])
      (simp_all add: is_dispatch_id_def sample_append_def)
  moreover have "\<forall>r \<in> set (pg_events sample_pg). well_stored r"
    by (simp add: sample_pg_def well_stored_def store_simps)
      (simp add: sample_append_def payload_defs is_dispatch_id_def dated_def sample_draws_def append_event_row_def
        DEFAULT_OFFER_TIMEOUT_def MAX_TIME_def)
  ultimately have "\<exists>db'. rebuildProjection (\<lambda>_. ''corr'') sample_pg empty_mongo = (Inr (length (pg_events sample_pg)), db')
      \<and> map_option (\<lambda>v. (order_abs v, ov_version v)) (mg_orders db' (colon_key ''berlin'' ''o1'')) =
        (if events_of sample_pg ''berlin'' ''o1'' = [] then None
         else Some (order_fold (events_of sample_pg ''berlin'' ''o1''), length (events_of sample_pg ''berlin'' ''o1'')))"
    using rebuild_restores_read_models [OF sample_pg_reach, of "[]" "\<lambda>_. ''corr''" empty_mongo]
    by (fastforce simp: is_dispatch_id_def)
  moreover have "length (pg_events sample_pg) = 1" by (simp add: sample_pg_def)
  moreover from this have "length (events_of sample_pg ''berlin'' ''o1'') = 1"
    by (simp only: length_events_of sample_stream)
  moreover from this have "events_of sample_pg ''berlin'' ''o1'' \<noteq> []" by auto
  ultimately show ?thesis by (simp add: colon_key_def del: map_option_eq_Some)
qed

end
