(* ===== verification/Delivery.thy ===== *)
theory Delivery
  imports Outbox_Poller Projection
begin

text \<open>
  From the event store to the read models: handlers append, the outbox poller publishes, the projection
  worker's two consumers read the log of each partition key and keep the documents - all interleaved,
  with failing and dying pollers, consumers that die between their two writes, and positions that are set
  back. The development's parts are put together here: in every reachable state each document is a prefix
  of its stream, folded, and once the pipeline is drained it is the whole of it.

  A poll is one step, although handlers append while it runs: it works on the rows it has read, and what it
  changes does not meet what they add.
\<close>

section \<open>The pipeline\<close>

text \<open>The positions are those of the projection worker's consumers, per topic and partition key.\<close>

record 'b pipeline =
  pp_pg :: pg_state
  pp_broker :: "'b broker"
  pp_pos :: "topic \<Rightarrow> string \<Rightarrow> nat"
  pp_db :: mongo

definition empty_pipeline :: "'b pipeline" where
  "empty_pipeline = \<lparr>pp_pg = empty_pg, pp_broker = \<lparr>bk_log = [], bk_cache = Map.empty\<rparr>,
     pp_pos = (\<lambda>tp k. 0), pp_db = empty_mongo\<rparr>"

definition key_log :: "topic \<Rightarrow> string \<Rightarrow> 'b kafka_message list \<Rightarrow> 'b kafka_message list" where
  "key_log tp k ms = filter (\<lambda>m. km_topic m = tp \<and> km_key m = k) ms"

definition poll_pipeline :: "'b registry \<Rightarrow> (outbox_row \<Rightarrow> poll_fault) \<Rightarrow> 'b pipeline \<Rightarrow> 'b pipeline" where
  "poll_pipeline rg fault st =
     (case pollOnce rg fault (pg_outbox (pp_pg st), pp_broker st) of
        (_, rows, bk) \<Rightarrow> st\<lparr>pp_pg := (pp_pg st)\<lparr>pg_outbox := rows\<rparr>, pp_broker := bk\<rparr>)"

text \<open>\<open>eachMessage\<close> of the consumer of the topic, on the next message of the key; it stays when it throws.\<close>

definition eachMessage ::
    "'b registry \<Rightarrow> string \<Rightarrow> nat \<Rightarrow> topic \<Rightarrow> 'b kafka_message \<Rightarrow> mongo \<Rightarrow> (string, consumed) result \<times> mongo" where
  "eachMessage rg fresh T tp m db =
     (if tp = DISPATCH_EVENTS then run_dispatch_consumer_message rg fresh T m db
      else run_consumer_message rg fresh m db)"

definition consume_next :: "'b registry \<Rightarrow> string \<Rightarrow> nat \<Rightarrow> topic \<Rightarrow> string \<Rightarrow> 'b pipeline \<Rightarrow> 'b pipeline" where
  "consume_next rg fresh T tp k st =
     (let ms = key_log tp k (bk_log (pp_broker st)); p = pp_pos st tp k in
      if p < length ms
      then (case eachMessage rg fresh T tp (ms ! p) (pp_db st) of
              (r, db) \<Rightarrow> st\<lparr>pp_db := db, pp_pos := (\<lambda>tp' k'. if tp' = tp \<and> k' = k \<and> is_ok r then Suc p
                                                      else pp_pos st tp' k')\<rparr>)
      else st)"

text \<open>The consumer dies after the document's upsert.\<close>

definition crash_next :: "'b registry \<Rightarrow> string \<Rightarrow> nat \<Rightarrow> topic \<Rightarrow> string \<Rightarrow> 'b pipeline \<Rightarrow> 'b pipeline" where
  "crash_next rg fresh T tp k st =
     (let ms = key_log tp k (bk_log (pp_broker st)); p = pp_pos st tp k in
      if p < length ms
      then (case readEnvelope rg fresh (ms ! p) of
              Inr (Some mp) \<Rightarrow>
                (case envelope_of mp of
                   Some env \<Rightarrow> st\<lparr>pp_db := (if tp = DISPATCH_EVENTS then applyDispatchEvent_crash T env (pp_db st)
                                            else applyEvent_crash env (pp_db st))\<rparr>
                 | None \<Rightarrow> st)
            | _ \<Rightarrow> st)
      else st)"

text \<open>
  What the services append: events of known types with well-formed envelopes, for tenants whose slug has no
  colon, in the order's own stream and topic or in its dispatch's, with a clock in the range of \<open>Date\<close>.
\<close>

definition service_append :: "nat \<Rightarrow> obs_context option \<Rightarrow> draws \<Rightarrow> append_args \<Rightarrow> bool" where
  "service_append T obs su args \<longleftrightarrow> CHR '':'' \<notin> set (aa_tenantId args)
     \<and> wellformed (append_envelope obs su args) \<and> aa_eventType args \<in> set known_event_types
     \<and> \<bar>su_now su + int T * 1000\<bar> \<le> MAX_TIME
     \<and> (case pl_orderId (aa_payload args) of
          None \<Rightarrow> False
        | Some oid \<Rightarrow>
            (aa_aggregateId args = oid \<and> \<not> is_dispatch_id oid \<and> aa_topic args = None)
            \<or> (aa_aggregateId args = dispatchAggregateId oid \<and> aa_topic args = Some DISPATCH_EVENTS))"

text \<open>
  The rows of one stream are written one after the other, each by a transaction that begins after its
  predecessor's has committed, since its version was loaded from it: their creation times ascend.
\<close>

definition later_than_stream :: "draws \<Rightarrow> append_args \<Rightarrow> pg_state \<Rightarrow> bool" where
  "later_than_stream su args pg \<longleftrightarrow>
     (\<forall>b \<in> set (pg_outbox pg). ob_partitionKey b = colon_key (aa_tenantId args) (aa_aggregateId args) \<longrightarrow>
        ob_createdAt b < su_dbNow su)"

inductive pipeline_reach :: "'b registry \<Rightarrow> nat \<Rightarrow> 'b pipeline \<Rightarrow> bool" for rg T where
  pipe_start: "pipeline_reach rg T empty_pipeline"
| pipe_append: "pipeline_reach rg T st \<Longrightarrow> service_append T obs su args \<Longrightarrow> later_than_stream su args (pp_pg st) \<Longrightarrow>
     appendWithExpectedVersion role obs su args (pp_pg st) = (r, pg') \<Longrightarrow>
     writers_reach order_machine pg' ws \<Longrightarrow> writers_reach dispatch_machine pg' ws' \<Longrightarrow>
     pipeline_reach rg T (st\<lparr>pp_pg := pg'\<rparr>)"
| pipe_poll: "pipeline_reach rg T st \<Longrightarrow> pipeline_reach rg T (poll_pipeline rg fault st)"
| pipe_restart: "pipeline_reach rg T st \<Longrightarrow>
     pipeline_reach rg T (st\<lparr>pp_broker := (pp_broker st)\<lparr>bk_cache := Map.empty\<rparr>\<rparr>)"
| pipe_consume: "pipeline_reach rg T st \<Longrightarrow> pipeline_reach rg T (consume_next rg fresh T tp k st)"
| pipe_crash: "pipeline_reach rg T st \<Longrightarrow> pipeline_reach rg T (crash_next rg fresh T tp k st)"
| pipe_rewind: "pipeline_reach rg T st \<Longrightarrow> \<forall>tp k. pos tp k \<le> pp_pos st tp k \<Longrightarrow>
     pipeline_reach rg T (st\<lparr>pp_pos := pos\<rparr>)"


section \<open>The outbox and the log of a key\<close>

definition in_key :: "topic \<Rightarrow> string \<Rightarrow> outbox_row \<Rightarrow> bool" where
  "in_key tp k r \<longleftrightarrow> ob_topic r = tp \<and> ob_partitionKey r = k"

definition key_rows :: "topic \<Rightarrow> string \<Rightarrow> outbox_row list \<Rightarrow> outbox_row list" where
  "key_rows tp k rows = filter (in_key tp k) rows"

definition key_events :: "topic \<Rightarrow> string \<Rightarrow> outbox_row list \<Rightarrow> envelope list" where
  "key_events tp k rows = map ob_payload (key_rows tp k rows)"

definition decode :: "'b registry \<Rightarrow> 'b kafka_message \<Rightarrow> envelope option" where
  "decode rg m = (case readEnvelope rg [] m of Inr (Some mp) \<Rightarrow> envelope_of mp | _ \<Rightarrow> None)"

definition readable :: "'b registry \<Rightarrow> 'b kafka_message \<Rightarrow> bool" where
  "readable rg m \<longleftrightarrow> (\<exists>env. decode rg m = Some env
     \<and> (\<forall>fresh. readEnvelope rg fresh m = Inr (Some (meta_of env, e_payload env))))"

definition codec_law :: "'b registry \<Rightarrow> bool" where
  "codec_law rg \<longleftrightarrow> (\<forall>i p b. rg_encode rg i p = Some b \<longrightarrow> rg_decode rg b = Some p)"

definition row_ok :: "nat \<Rightarrow> outbox_row \<Rightarrow> bool" where
  "row_ok T r \<longleftrightarrow> CHR '':'' \<notin> set (ob_tenantId r) \<and> wellformed (ob_payload r)
     \<and> e_eventType (ob_payload r) \<in> set known_event_types \<and> is_ok (dispatch_set T (ob_payload r))
     \<and> e_tenantId (ob_payload r) = ob_tenantId r \<and> e_eventId (ob_payload r) = ob_id r
     \<and> (\<exists>oid. pl_orderId (e_payload (ob_payload r)) = Some oid
          \<and> (ob_partitionKey r = colon_key (ob_tenantId r) oid \<and> \<not> is_dispatch_id oid \<and> ob_topic r = ORDER_EVENTS
             \<or> ob_partitionKey r = colon_key (ob_tenantId r) (dispatchAggregateId oid) \<and> ob_topic r = DISPATCH_EVENTS))"

definition rows_ok :: "nat \<Rightarrow> outbox_row list \<Rightarrow> bool" where
  "rows_ok T rows \<longleftrightarrow> distinct (map ob_id rows) \<and> list_all (row_ok T) rows
     \<and> (\<forall>tp k. sorted_wrt (<) (map ob_createdAt (key_rows tp k rows)))"

text \<open>
  The sent rows of a key come before its pending ones, and the log of the key has brought the sent ones, at
  most one more - which was published by a poller that died before its update -, and nothing else.
\<close>

definition relayed :: "'b registry \<Rightarrow> topic \<Rightarrow> string \<Rightarrow> outbox_row list \<Rightarrow> 'b kafka_message list \<Rightarrow> bool" where
  "relayed rg tp k rows ms \<longleftrightarrow> (\<exists>A B n. key_rows tp k rows = A @ B
     \<and> (\<forall>r \<in> set A. ob_status r = SENT) \<and> (\<forall>r \<in> set B. ob_status r = PENDING)
     \<and> progress (decode rg) (\<lambda>_. True) (key_events tp k rows) 0 (key_log tp k ms) = Some n
     \<and> length A \<le> n \<and> n \<le> Suc (length A))"

lemma key_log_append [simp]: "key_log tp k (xs @ ys) = key_log tp k xs @ key_log tp k ys"
  by (simp add: key_log_def)

lemma key_rows_append [simp]: "key_rows tp k (xs @ ys) = key_rows tp k xs @ key_rows tp k ys"
  by (simp add: key_rows_def)

lemma in_key_restatus [simp]: "in_key tp k (b\<lparr>ob_status := x\<rparr>) = in_key tp k b"
  by (simp add: in_key_def)

lemma key_rows_restatus [simp]:
  "key_rows tp k (map (\<lambda>b. b\<lparr>ob_status := f b\<rparr>) rows) = map (\<lambda>b. b\<lparr>ob_status := f b\<rparr>) (key_rows tp k rows)"
  by (simp add: key_rows_def filter_map comp_def)

lemma key_events_restatus [simp]:
  "key_events tp k (map (\<lambda>b. b\<lparr>ob_status := f b\<rparr>) rows) = key_events tp k rows"
  by (simp add: key_events_def comp_def)

lemma mark_sent_restatus:
  "mark_sent i rows = map (\<lambda>b. b\<lparr>ob_status := if ob_id b = i then SENT else ob_status b\<rparr>) rows"
  by (simp add: mark_sent_def)

lemma row_ok_restatus [simp]: "row_ok T (b\<lparr>ob_status := x\<rparr>) = row_ok T b"
  by (simp add: row_ok_def)

lemma rows_ok_restatus [simp]: "rows_ok T (map (\<lambda>b. b\<lparr>ob_status := f b\<rparr>) rows) = rows_ok T rows"
  by (simp add: rows_ok_def comp_def list_all_iff)

lemma mark_sent_absent: "i \<notin> ob_id ` set rows \<Longrightarrow> mark_sent i rows = rows"
  by (auto simp: mark_sent_def intro!: map_idI)

lemma publish_readable:
  assumes "codec_law rg" and "row_ok T r"
    and "publishEnvelope rg (ob_topic r) (ob_partitionKey r) (ob_payload r) c = (Inr m, c')"
  shows "km_topic m = ob_topic r" "km_key m = ob_partitionKey r" "decode rg m = Some (ob_payload r)" "readable rg m"
proof -
  have w: "wellformed (ob_payload r)" using assms(2) by (simp add: row_ok_def)
  note pub = publish_read [OF w assms(3)]
  show "km_topic m = ob_topic r" "km_key m = ob_partitionKey r"
    using pub(1,2) assms(1) by (simp_all add: codec_law_def)
  have "readEnvelope rg fresh m = Inr (Some (meta_of (ob_payload r), e_payload (ob_payload r)))" for fresh
    using pub(4) assms(1) by (simp add: codec_law_def)
  then show "decode rg m = Some (ob_payload r)" "readable rg m"
    by (simp_all add: decode_def readable_def)
qed

text \<open>Publishing the first pending row of a key, and then marking it.\<close>

lemma relay_publish:
  assumes rel: "relayed rg tp k rows ms" and ok: "rows_ok T rows"
    and pend: "filter (\<lambda>r. ob_status r = PENDING) (key_rows tp k rows) = r # rest"
    and m: "km_topic m = tp" "km_key m = k" "decode rg m = Some (ob_payload r)"
  shows "relayed rg tp k rows (ms @ [m]) \<and> relayed rg tp k (mark_sent (ob_id r) rows) (ms @ [m])
    \<and> filter (\<lambda>r. ob_status r = PENDING) (key_rows tp k (mark_sent (ob_id r) rows)) = rest"
proof -
  from rel obtain A B n where AB: "key_rows tp k rows = A @ B" "\<forall>r \<in> set A. ob_status r = SENT"
      "\<forall>r \<in> set B. ob_status r = PENDING"
    and n: "progress (decode rg) (\<lambda>_. True) (key_events tp k rows) 0 (key_log tp k ms) = Some n"
      "length A \<le> n" "n \<le> Suc (length A)"
    by (auto simp: relayed_def)
  have "filter (\<lambda>r. ob_status r = PENDING) (A @ B) = B" using AB(2,3) by (auto simp: filter_id_conv filter_empty_conv)
  with pend have B: "B = r # rest" by (simp add: AB(1))
  have dist: "distinct (map ob_id (A @ r # rest))"
    using ok AB(1) B by (metis distinct_map_filter key_rows_def rows_ok_def)
  have pay: "e_eventId (ob_payload x) = ob_id x" if "x \<in> set (A @ r # rest)" for x
  proof -
    have "x \<in> set (key_rows tp k rows)" using that by (simp add: AB(1) B)
    then show ?thesis using ok by (simp add: key_rows_def rows_ok_def list_all_iff row_ok_def)
  qed
  let ?es = "map ob_payload A @ ob_payload r # map ob_payload rest"
  have es: "key_events tp k rows = ?es" by (simp add: key_events_def AB(1) B)
  have notin: "ob_payload r \<notin> ob_payload ` set A"
  proof
    assume "ob_payload r \<in> ob_payload ` set A"
    then obtain a where a: "a \<in> set A" "ob_payload r = ob_payload a" by auto
    with pay [of r] pay [of a] have "ob_id r = ob_id a" by simp
    with a(1) dist show False by auto
  qed
  have "progress (decode rg) (\<lambda>_. True) ?es 0 (key_log tp k ms @ [m]) = Some (Suc (length A))"
  proof (cases "n = length A")
    case True
    then show ?thesis using n(1) m(3) notin
      by (simp add: progress_append es nth_append)
  next
    case False
    with n(2,3) have "n = Suc (length A)" by simp
    then show ?thesis using n(1) m(3) by (simp add: progress_append es)
  qed
  then have prog: "progress (decode rg) (\<lambda>_. True) ?es 0 (key_log tp k (ms @ [m])) = Some (Suc (length A))"
    using m(1,2) by (simp add: key_log_def)
  have marked: "key_rows tp k (mark_sent (ob_id r) rows) = (A @ [r\<lparr>ob_status := SENT\<rparr>]) @ rest"
  proof -
    have "key_rows tp k (mark_sent (ob_id r) rows) = mark_sent (ob_id r) (A @ r # rest)"
      by (simp only: mark_sent_restatus key_rows_restatus AB(1) B)
    also have "\<dots> = mark_sent (ob_id r) A @ [r\<lparr>ob_status := SENT\<rparr>] @ mark_sent (ob_id r) rest"
      by (simp add: mark_sent_def)
    also have "\<dots> = A @ [r\<lparr>ob_status := SENT\<rparr>] @ rest"
      using dist by (simp add: mark_sent_absent)
    finally show ?thesis by simp
  qed
  have "relayed rg tp k rows (ms @ [m])"
    unfolding relayed_def es prog by (intro exI [of _ A] exI [of _ B] exI [of _ "Suc (length A)"]) (use AB in simp)
  moreover have "relayed rg tp k (mark_sent (ob_id r) rows) (ms @ [m])"
    unfolding relayed_def
  proof (rule exI [of _ "A @ [r\<lparr>ob_status := SENT\<rparr>]"], rule exI [of _ rest], rule exI [of _ "Suc (length A)"],
      intro conjI)
    show "progress (decode rg) (\<lambda>_. True) (key_events tp k (mark_sent (ob_id r) rows)) 0 (key_log tp k (ms @ [m]))
        = Some (Suc (length A))"
      using prog es by (simp only: mark_sent_restatus key_events_restatus)
  qed (use AB B marked in auto)
  moreover have "filter (\<lambda>r. ob_status r = PENDING) (key_rows tp k (mark_sent (ob_id r) rows)) = rest"
    unfolding marked using AB B by (auto simp: filter_id_conv filter_empty_conv)
  ultimately show ?thesis by blast
qed

lemma relayed_other:
  assumes "\<not> in_key tp k r" and "km_topic m = ob_topic r" and "km_key m = ob_partitionKey r"
    and "r' \<in> set rows" and "ob_id r' = ob_id r" and "in_key tp k r' \<longleftrightarrow> in_key tp k r" and "distinct (map ob_id rows)"
  shows "relayed rg tp k rows (ms @ [m]) = relayed rg tp k rows ms"
    and "relayed rg tp k (mark_sent (ob_id r) rows) (ms @ [m]) = relayed rg tp k rows ms"
    and "key_rows tp k (mark_sent (ob_id r) rows) = key_rows tp k rows"
proof -
  have log: "key_log tp k [m] = []" using assms(1-3) by (auto simp: key_log_def in_key_def)
  have "ob_id r \<notin> ob_id ` set (key_rows tp k rows)"
  proof
    assume "ob_id r \<in> ob_id ` set (key_rows tp k rows)"
    then obtain x where "x \<in> set rows" "in_key tp k x" "ob_id x = ob_id r" by (auto simp: key_rows_def)
    moreover from this assms(4,5,7) have "x = r'" by (metis distinct_map inj_on_def)
    ultimately show False using assms(1,6) by simp
  qed
  then have "mark_sent (ob_id r) (key_rows tp k rows) = key_rows tp k rows" by (rule mark_sent_absent)
  then show rows: "key_rows tp k (mark_sent (ob_id r) rows) = key_rows tp k rows"
    by (simp only: mark_sent_restatus key_rows_restatus)
  show "relayed rg tp k rows (ms @ [m]) = relayed rg tp k rows ms" by (simp add: relayed_def log)
  show "relayed rg tp k (mark_sent (ob_id r) rows) (ms @ [m]) = relayed rg tp k rows ms"
    by (simp add: relayed_def log rows key_events_def)
qed


section \<open>What a poll does\<close>

text \<open>The rows still to be published are, key by key, the first of the pending ones.\<close>

definition pending_key :: "topic \<Rightarrow> string \<Rightarrow> outbox_row list \<Rightarrow> outbox_row list" where
  "pending_key tp k rows = filter (\<lambda>r. ob_status r = PENDING) (key_rows tp k rows)"

definition batch_of :: "outbox_row list \<Rightarrow> outbox_row list \<Rightarrow> bool" where
  "batch_of rs rows \<longleftrightarrow> (\<forall>tp k. \<exists>j. key_rows tp k rs = take j (pending_key tp k rows))"

lemma filter_take_prefix: "\<exists>j. filter P (take n xs) = take j (filter P xs)"
proof -
  have "filter P xs = filter P (take n xs) @ filter P (drop n xs)"
    by (simp add: filter_append [symmetric] del: filter_append)
  then have "take (length (filter P (take n xs))) (filter P xs) = filter P (take n xs)" by simp
  then show ?thesis by metis
qed

lemma pending_batch:
  assumes "rows_ok T rows"
  shows "batch_of (pending_rows rows) rows"
  unfolding batch_of_def
proof (intro allI)
  fix tp k
  have pk: "filter (in_key tp k) (filter (\<lambda>r. ob_status r = PENDING) rows) = pending_key tp k rows"
    by (simp add: pending_key_def key_rows_def conj_commute)
  have "sorted_wrt (<) (map ob_createdAt (key_rows tp k rows))" using assms by (simp add: rows_ok_def)
  then have "sorted (map ob_createdAt (pending_key tp k rows))"
    unfolding pending_key_def sorted_wrt_map
    by (intro sorted_wrt_filter) (auto elim: sorted_wrt_mono_rel [rotated])
  then have "filter (in_key tp k) (sort_key ob_createdAt (filter (\<lambda>r. ob_status r = PENDING) rows))
      = pending_key tp k rows"
    by (simp only: filter_sort pk sort_key_id_if_sorted)
  then show "\<exists>j. key_rows tp k (pending_rows rows) = take j (pending_key tp k rows)"
    using filter_take_prefix [of "in_key tp k"] by (metis key_rows_def pending_rows_def)
qed

text \<open>
  Publishing the next row of the batch leaves every key relayed, before and after the row is marked, and
  what remains of the batch is a batch again.
\<close>

lemma publish_step:
  assumes ok: "rows_ok T rows" and batch: "batch_of (r # rs) rows"
    and rel: "\<forall>tp k. relayed rg tp k rows ms"
    and m: "km_topic m = ob_topic r" "km_key m = ob_partitionKey r" "decode rg m = Some (ob_payload r)"
  shows "\<forall>tp k. relayed rg tp k rows (ms @ [m])" and "\<forall>tp k. relayed rg tp k (mark_sent (ob_id r) rows) (ms @ [m])"
    and "batch_of rs (mark_sent (ob_id r) rows)" and "r \<in> set rows"
proof -
  let ?tp = "ob_topic r" and ?k = "ob_partitionKey r"
  have mine: "in_key ?tp ?k r" by (simp add: in_key_def)
  from batch obtain j where j: "r # key_rows ?tp ?k rs = take j (pending_key ?tp ?k rows)"
    unfolding batch_of_def by (metis key_rows_def filter.simps(2) mine)
  then obtain rest where pend: "pending_key ?tp ?k rows = r # rest" and rs: "key_rows ?tp ?k rs = take (j - 1) rest"
    by (cases "pending_key ?tp ?k rows"; cases j) auto
  have "r \<in> set (pending_key ?tp ?k rows)" by (simp add: pend)
  then show r: "r \<in> set rows" by (simp add: pending_key_def key_rows_def)
  have dist: "distinct (map ob_id rows)" using ok by (simp add: rows_ok_def)
  note own = relay_publish [OF rel [rule_format] ok pend [unfolded pending_key_def] m]
  note other = relayed_other [OF _ m(1,2) r refl refl dist]
  have key: "(tp = ?tp \<and> k = ?k) \<longleftrightarrow> in_key tp k r" for tp k by (auto simp: in_key_def)
  show "\<forall>tp k. relayed rg tp k rows (ms @ [m])" using own other(1) rel key by metis
  show "\<forall>tp k. relayed rg tp k (mark_sent (ob_id r) rows) (ms @ [m])" using own other(2) rel key by metis
  show "batch_of rs (mark_sent (ob_id r) rows)"
    unfolding batch_of_def
  proof (intro allI)
    fix tp k
    show "\<exists>j. key_rows tp k rs = take j (pending_key tp k (mark_sent (ob_id r) rows))"
    proof (cases "in_key tp k r")
      case True
      then have "tp = ?tp" "k = ?k" by (simp_all add: in_key_def)
      then show ?thesis using own rs by (auto simp: pending_key_def)
    next
      case False
      then have "key_rows tp k (r # rs) = key_rows tp k rs" by (simp add: key_rows_def)
      with batch other(3) [OF False] show ?thesis by (metis batch_of_def pending_key_def)
    qed
  qed
qed

lemma restatus_compose:
  "map (\<lambda>b. b\<lparr>ob_status := g b\<rparr>) (map (\<lambda>b. b\<lparr>ob_status := f b\<rparr>) rows) =
   map (\<lambda>b. b\<lparr>ob_status := g (b\<lparr>ob_status := f b\<rparr>)\<rparr>) rows"
  by simp

lemma poll_rows_relay:
  assumes "codec_law rg"
  shows "rows_ok T rows \<Longrightarrow> batch_of rs rows \<Longrightarrow> \<forall>tp k. relayed rg tp k rows (bk_log bk) \<Longrightarrow>
   \<forall>m \<in> set (bk_log bk). readable rg m \<Longrightarrow> poll_rows rg fault rs (rows, bk) = (res, rows', bk') \<Longrightarrow>
   (\<exists>f. rows' = map (\<lambda>b. b\<lparr>ob_status := f b\<rparr>) rows) \<and> (\<exists>ms. bk_log bk' = bk_log bk @ ms)
   \<and> (\<forall>tp k. relayed rg tp k rows' (bk_log bk')) \<and> (\<forall>m \<in> set (bk_log bk'). readable rg m)"
proof (induction rs arbitrary: rows bk)
  case Nil
  have "\<exists>f. rows = map (\<lambda>b. b\<lparr>ob_status := f b\<rparr>) rows" by (rule exI [of _ ob_status]) simp
  with Nil show ?case by auto
next
  case (Cons r rs)
  have same: "\<exists>f. rows = map (\<lambda>b. b\<lparr>ob_status := f b\<rparr>) rows" by (rule exI [of _ ob_status]) simp
  obtain p c where pub: "publishEnvelope rg (ob_topic r) (ob_partitionKey r) (ob_payload r) (bk_cache bk) = (p, c)"
    by fastforce
  show ?case
  proof (cases p)
    case (Inl e)
    with Cons.prems pub same show ?thesis by auto
  next
    case (Inr m)
    have "r \<in> set rows"
    proof -
      have "r \<in> set (key_rows (ob_topic r) (ob_partitionKey r) (r # rs))" by (simp add: key_rows_def in_key_def)
      with Cons.prems(2) show ?thesis
        by (metis batch_of_def filter_is_subset in_set_takeD key_rows_def pending_key_def subsetD)
    qed
    then have "row_ok T r" using Cons.prems(1) by (simp add: rows_ok_def list_all_iff)
    note m = publish_readable [OF assms this pub [unfolded Inr]]
    note step = publish_step [OF Cons.prems(1-3) m(1-3)]
    show ?thesis
    proof (cases "fault r")
      case PollOk
      let ?rows = "mark_sent (ob_id r) rows" and ?bk = "bk\<lparr>bk_log := bk_log bk @ [m], bk_cache := c\<rparr>"
      have run: "poll_rows rg fault rs (?rows, ?bk) = (res, rows', bk')"
        using Cons.prems(5) pub Inr PollOk by simp
      have "rows_ok T ?rows" using Cons.prems(1) by (simp add: mark_sent_restatus)
      then have "(\<exists>f. rows' = map (\<lambda>b. b\<lparr>ob_status := f b\<rparr>) ?rows) \<and> (\<exists>ms. bk_log bk' = bk_log ?bk @ ms)
          \<and> (\<forall>tp k. relayed rg tp k rows' (bk_log bk')) \<and> (\<forall>m \<in> set (bk_log bk'). readable rg m)"
        by (rule Cons.IH [OF _ step(3) _ _ run]) (use step(2) m(4) Cons.prems(4) in auto)
      then show ?thesis unfolding mark_sent_restatus restatus_compose by auto
    next
      case SendFails
      then show ?thesis using Cons.prems pub Inr same by auto
    next
      case DiesAfterSend
      then show ?thesis using Cons.prems pub Inr same step(1) m(4) by auto
    qed
  qed
qed

end
