(* ===== verification/Order_Journey.thy ===== *)
theory Order_Journey
  imports Web_Cart Saga_Properties Delivery
begin

text \<open>
  One order from the cart to the charge: the request the checkout sends, the event the write service
  appends for it, the workflow the saga worker starts when it reads that event, and the payment the
  workflow makes. The parts are those of \<open>Web_Cart\<close>, \<open>Write_Api\<close>, \<open>Messaging\<close>, \<open>Order_Saga\<close> and
  \<open>Payments\<close>; this theory only puts them together.
\<close>

section \<open>What a workflow touches\<close>

text \<open>
  The world \<open>w\<close> differs from \<open>w0\<close> at most in this order's two streams, this order's payment, whose
  amount is \<open>amount\<close>, and the tenant's own busy set.
\<close>

definition footprint :: "string \<Rightarrow> string \<Rightarrow> int \<Rightarrow> world \<Rightarrow> world \<Rightarrow> bool" where
  "footprint t oid amount w0 w \<longleftrightarrow> world_inv w
     \<and> (\<forall>key. key \<noteq> (t, oid) \<longrightarrow> wd_pay w key = wd_pay w0 key)
     \<and> (\<forall>row. wd_pay w (t, oid) = Some row \<longrightarrow> pm_amount row = amount)
     \<and> (\<forall>t' a. (t', a) \<noteq> (t, oid) \<longrightarrow> (t', a) \<noteq> (t, dispatchAggregateId oid) \<longrightarrow>
          events_of (wd_pg w) t' a = events_of (wd_pg w0) t' a)
     \<and> (\<forall>k. k \<noteq> driverBusyKey t \<longrightarrow> wd_busy w k = wd_busy w0 k)"

lemma footprint_time:
  "footprint t oid amount w0 w \<Longrightarrow> footprint t oid amount w0 (w\<lparr>wd_tick := n, wd_clock := c\<rparr>)"
  by (simp add: footprint_def world_inv_def)

lemma footprint_start:
  "world_inv w \<Longrightarrow> wd_pay w (t, oid) = None \<Longrightarrow> footprint t oid amount w w"
  by (simp add: footprint_def)

lemma record_effect_footprint:
  assumes "footprint t oid amount w0 w" and "a \<in> {oid, dispatchAggregateId oid}"
    and "record_effect t a ty res w (r, w')"
  shows "footprint t oid amount w0 w'"
  using assms by (auto simp: record_effect_def footprint_def world_inv_def dest!: same_but_pgD)

lemma record_order_footprint:
  assumes "footprint t oid amount w0 w" and "record_order_event t oid ty build corr e w = (r, w')"
  shows "footprint t oid amount w0 w'"
proof -
  from assms(1) have inv: "store_inv (wd_pg w)" by (simp add: footprint_def world_inv_def)
  have "record_effect t oid ty (build (ord_of t oid w)) w (r, w')"
    using record_order_event_effect [OF inv, of t oid ty build corr e] assms(2) by (simp add: ord_of_def)
  from record_effect_footprint [OF assms(1) _ this] show ?thesis by simp
qed

lemma dispatch_append_footprint:
  assumes "footprint t oid amount w0 w" and "dispatch_append t oid ty build corr e w = (r, w')"
  shows "footprint t oid amount w0 w'"
proof -
  from assms(1) have inv: "store_inv (wd_pg w)" by (simp add: footprint_def world_inv_def)
  have "record_effect t (dispatchAggregateId oid) ty (build (dsp_of t oid w)) w (r, w')"
    using dispatch_append_effect [OF inv, of t oid ty build corr e] assms(2) by (simp add: dsp_of_def)
  from record_effect_footprint [OF assms(1) _ this] show ?thesis by simp
qed

lemma select_footprint:
  "footprint t oid amount w0 w \<Longrightarrow> selectNearestAvailableDriver t ex e w = (r, w') \<Longrightarrow> footprint t oid amount w0 w'"
  by (auto simp: selectNearestAvailableDriver_def footprint_def world_inv_def
      split: prod.splits sum.splits option.splits)

lemma busy_footprint:
  "footprint t oid amount w0 w \<Longrightarrow> markBusy t d e w = (r, w') \<Longrightarrow> footprint t oid amount w0 w'"
  "footprint t oid amount w0 w \<Longrightarrow> clearBusy t d e w = (r, w') \<Longrightarrow> footprint t oid amount w0 w'"
  by (auto simp: markBusy_def clearBusy_def footprint_def world_inv_def)

lemma authorize_footprint:
  assumes "footprint t oid amount w0 w" and "authorizePayment t oid amount e w = (r, w')"
  shows "footprint t oid amount w0 w'"
  using assms by (auto simp: authorizePayment_def post_evals pay_simps footprint_def world_inv_def
      split: if_splits option.splits)

lemma settle_footprint:
  "footprint t oid amount w0 w \<Longrightarrow> capturePayment t oid e w = (r, w') \<Longrightarrow> footprint t oid amount w0 w'"
  "footprint t oid amount w0 w \<Longrightarrow> voidPayment t oid e w = (r, w') \<Longrightarrow> footprint t oid amount w0 w'"
  by (auto simp: capturePayment_def voidPayment_def post_evals pay_simps footprint_def world_inv_def
      split: option.splits payment_status.splits)

lemmas footprint_bodies = authorize_footprint settle_footprint record_order_footprint dispatch_append_footprint
  select_footprint busy_footprint

lemma proxied_footprint:
  assumes "\<And>e w r w'. footprint t oid amount w0 w \<Longrightarrow> body e w = (r, w') \<Longrightarrow> footprint t oid amount w0 w'"
    and "footprint t oid amount w0 w"
  shows "footprint t oid amount w0 (snd (proxied (attempt body) w))"
  by (rule proxied_keeps [where P = "footprint t oid amount w0"]) (fact assms footprint_time)+

interpretation dfp: dispatch_frame worker_dispatch_activities tid oid "footprint tid oid amount w0"
  for tid oid amount w0
  by (unfold_locales; simp only: worker_dispatch_simps recordDriverOffered_def recordDispatchAccepted_def
        recordOrderPickedUp_def recordOrderDelivered_def recordDispatchFailed_def)
    (simp add: advance_to_def footprint_def world_inv_def, (erule proxied_footprint [rotated], erule (1) footprint_bodies)+)

interpretation ofp: order_frame "worker_order_activities dq" args
    "footprint (sa_tenantId args) (sa_orderId args) (sa_totalAmount args) w0"
  for dq args w0
  by (unfold_locales; simp only: worker_order_simps recordOrderAccepted_def recordOrderCancelled_def)
    (simp add: advance_to_def footprint_def world_inv_def,
     (erule proxied_footprint [rotated], erule (1) footprint_bodies)+,
     rule dfp.workflow_keeps, simp_all add: child_args_def)

text \<open>
  C8: A workflow touches only its own order. Whatever signals arrive and whatever attempts are lost, a
  run of the order-lifecycle workflow with the dispatch it starts leaves every other order's payment,
  every other stream of events and every other tenant's set of busy drivers exactly as they were; and
  if a payment exists for its order afterwards, it is over exactly the amount it was started with.
\<close>

theorem workflow_touches_only_its_order:
  assumes "world_inv w" and "wd_pay w (sa_tenantId args, sa_orderId args) = None"
    and "orderLifecycleWorkflow (worker_order_activities dq) args q w = (r, w')"
  shows "footprint (sa_tenantId args) (sa_orderId args) (sa_totalAmount args) w w'"
  using ofp.workflow_keeps [OF footprint_start [OF assms(1,2)], of dq q] assms(3) by simp

theorem workflow_touches_only_its_order_witness:
  "\<exists>r w'. orderLifecycleWorkflow (worker_order_activities job_signals) sample_args sample_signals
       (sample_world lose_captures) = (r, w')
     \<and> footprint ''berlin'' ''o1'' 500 (sample_world lose_captures) w'"
proof -
  obtain r w' where run: "orderLifecycleWorkflow (worker_order_activities job_signals) sample_args sample_signals
      (sample_world lose_captures) = (r, w')" by fastforce
  have "wd_pay (sample_world lose_captures) (sa_tenantId sample_args, sa_orderId sample_args) = None"
    by (simp add: sample_world_def)
  from workflow_touches_only_its_order [OF sample_world_inv this run] run show ?thesis
    by (simp add: sample_args_def)
qed

section \<open>From the cart to the charge\<close>

text \<open>Handling the published placement starts the order's workflow, or finds it started.\<close>

lemma placement_starts_workflow:
  assumes "e_eventType env = OrderPlaced" and "wellformed env"
    and "publishEnvelope rg tp key env cache = (Inr msg, cache')" and "codec_law rg"
    and "rejects_duplicates start started" and "started s (order_wid env) = None"
    and "order_consumer_message start cfg rg fresh msg s = (Inr (), s')"
  shows "started s' (order_wid env) = Some (saga_start_args cfg env)"
proof -
  have "readEnvelope rg fresh msg = Inr (Some (meta_of env, e_payload env))"
    using publish_read(4) [OF assms(2,3)] assms(4) by (simp add: codec_law_def)
  then have "start_workflow start cfg env s = (Inr (), s')"
    using assms(7) by (simp add: order_consumer_message_def)
  from start_workflow_effect(1) [OF assms(5) this] show ?thesis using assms(1,6) by (simp add: is_ok_def)
qed

text \<open>
  C7: The customer is charged what the cart showed. Take any cart put together from the menu and not
  empty; place the checkout's request under a fresh order id; publish the event the write service
  appended and let the saga worker consume it. Then the order's workflow is started, and however it
  runs - whatever signals arrive, whatever attempts are lost - it ends as its specification says, and
  any payment made for the order is over exactly the cart's total: in particular an order that was
  delivered has that amount captured.
\<close>

theorem cart_total_is_charged:
  assumes cart: "list_all (from_menu t) ops" "run_cart ops = items" "items \<noteq> []"
    and placed: "create_order (place_json (checkout_request uuid name items)) = Some dto"
      "store_inv pg" "events_of pg t uuid = []" "\<not> id_taken (su_eventId su) pg"
      "placeOrder role obs su t dto pg = (r, pg')"
    and published: "env = ob_payload (last (pg_outbox pg'))" "wellformed env" "codec_law rg"
      "publishEnvelope rg ORDER_EVENTS (colon_key t uuid) env cache = (Inr msg, cache')"
    and consumed: "rejects_duplicates start started" "started s (order_workflow_id t uuid) = None"
      "order_consumer_message start cfg rg fresh msg s = (Inr (), s')"
  shows "\<exists>args. started s' (order_workflow_id t uuid) = Some args \<and>
    (\<forall>dq q w res w'. wd_pg w = pg' \<longrightarrow> wd_pay w (t, uuid) = None \<longrightarrow>
       orderLifecycleWorkflow (worker_order_activities dq) args q w = (res, w') \<longrightarrow>
         saga_outcome res (ord_of t uuid w') (pay_of t uuid w')
         \<and> (\<forall>row. wd_pay w' (t, uuid) = Some row \<longrightarrow> pm_amount row = totalCents items)
         \<and> (res = Inr R_DELIVERED \<longrightarrow>
              (\<exists>row. wd_pay w' (t, uuid) = Some row \<and> pm_status row = PAY_CAPTURED \<and> pm_amount row = totalCents items)))"
proof -
  have dto: "dto = \<lparr>co_orderId = uuid, co_customerId = (if trim name = [] then ''guest'' else trim name),
      co_items = map line_item items, co_totalAmount = totalCents items\<rparr>"
    using checkout_valid [OF cart(1,2), of uuid name] cart(3) placed(1) by auto
  then have oid: "co_orderId dto = uuid" by simp
  note new = placeOrder_new [OF placed(2) _ placed(4,5), unfolded oid, OF placed(3)]
  have env: "env = append_envelope obs su (place_args t dto)"
    using published(1) new(3) by (simp add: append_outbox_row_def)
  then have fields: "e_eventType env = OrderPlaced" "e_tenantId env = t" "e_payload env = dto_payload dto"
    by (simp_all add: append_envelope_def buildEnvelope_def place_args_def)
  have payload: "pl_orderId (dto_payload dto) = Some uuid" "pl_totalAmount (dto_payload dto) = Some (totalCents items)"
    by (simp_all add: dto dto_payload_def order_placed_payload_def)
  define args where "args = saga_start_args cfg env"
  have args: "sa_tenantId args = t" "sa_orderId args = uuid" "sa_totalAmount args = totalCents items"
    by (simp_all add: args_def saga_start_args_def fields payload)
  have wid: "order_wid env = order_workflow_id t uuid" by (simp add: order_wid_def fields payload)
  have started: "started s' (order_workflow_id t uuid) = Some args"
    using placement_starts_workflow [OF fields(1) published(2,4,3) consumed(1) _ consumed(3)] consumed(2)
    by (simp add: wid args_def)
  have "saga_outcome res (ord_of t uuid w') (pay_of t uuid w') \<and> footprint t uuid (totalCents items) w w'"
    if "wd_pg w = pg'" "wd_pay w (t, uuid) = None"
      "orderLifecycleWorkflow (worker_order_activities dq) args q w = (res, w')" for dq q w res w'
  proof -
    have w: "world_inv w" "os_status (ord_of t uuid w) = Some PLACED" "pay_of t uuid w = None"
      using new(2,4) that(1,2) by (simp_all add: world_inv_def ord_of_def pay_of_def status_of_def)
    show ?thesis
      using osw.workflow_outcome [OF w args(1,2) that(3)]
        ofp.workflow_keeps [of args w w dq q] footprint_start [OF w(1) that(2)] that(3) by (simp add: args)
  qed
  with started show ?thesis
    by (intro exI [of _ args]) (fastforce simp: footprint_def pay_of_def status_of_def)
qed

section \<open>A journey\<close>

definition journey_ops :: "cart_op list" where
  "journey_ops = [ClickAdd (hd (getMenu ''berlin'')), ClickAdd (getMenu ''berlin'' ! 2), SetQty ''fries'' 2]"

definition journey_items :: "cart_line list" where
  "journey_items = [\<lparr>cn_sku = ''pizza'', cn_name = ''Pizza Margherita'', cn_priceCents = 1200, cn_qty = 1\<rparr>,
     \<lparr>cn_sku = ''fries'', cn_name = ''Fries'', cn_priceCents = 400, cn_qty = 2\<rparr>]"

definition journey_dto :: create_order_dto where
  "journey_dto = \<lparr>co_orderId = ''o1'', co_customerId = ''Ann'', co_items = map line_item journey_items,
     co_totalAmount = 2000\<rparr>"

definition journey_pg :: pg_state where
  "journey_pg = snd (placeOrder AppRole None (sample_draws ''e1'') ''berlin'' journey_dto empty_pg)"

definition journey_envelope :: envelope where
  "journey_envelope = append_envelope None (sample_draws ''e1'') (place_args ''berlin'' journey_dto)"

definition journey_message :: "payload kafka_message" where
  "journey_message = \<lparr>km_topic = ORDER_EVENTS, km_key = colon_key ''berlin'' ''o1'',
     km_value = Some (dto_payload journey_dto), km_headers = Some (buildHeaders journey_envelope)\<rparr>"

definition journey_world :: world where
  "journey_world = (sample_world (\<lambda>n. Deliver))\<lparr>wd_pg := journey_pg\<rparr>"

definition journey_args :: saga_args where
  "journey_args = saga_start_args sample_saga_config journey_envelope"

lemma journey_cart: "list_all (from_menu ''berlin'') journey_ops" "run_cart journey_ops = journey_items"
  by (simp add: journey_ops_def from_menu_def getMenu_def MENUS_def, code_simp)

lemma journey_request: "create_order (place_json (checkout_request ''o1'' ''Ann'' journey_items)) = Some journey_dto"
  by code_simp

lemma journey_envelope_fields:
  "e_tenantId journey_envelope = ''berlin''" "e_eventId journey_envelope = ''e1''"
  "e_eventType journey_envelope = OrderPlaced" "e_correlationId journey_envelope = ''corr''"
  "e_payload journey_envelope = dto_payload journey_dto" 
  by (simp_all add: journey_envelope_def append_envelope_def buildEnvelope_def place_args_def sample_draws_def)

lemma journey_wellformed: "wellformed journey_envelope"
proof -
  have "event_type_of (event_type_name OrderPlaced) = OrderPlaced"
    by (rule known_event_type_proper) (simp add: known_event_types_def)
  then show ?thesis by (simp add: wellformed_def journey_envelope_fields proper_event_type_def)
qed

lemma journey_published:
  "\<exists>c. publishEnvelope identity_registry ORDER_EVENTS (colon_key ''berlin'' ''o1'') journey_envelope Map.empty =
     (Inr journey_message, c)"
  by (simp add: publishEnvelope_def journey_envelope_fields subject_of_def SUBJECTS_def encodePayload_def
      resolveSchemaId_def identity_registry_def journey_message_def)

lemma journey_wid: "order_wid journey_envelope = order_workflow_id ''berlin'' ''o1''"
  by (simp add: order_wid_def journey_envelope_fields dto_payload_def order_placed_payload_def journey_dto_def)

lemma journey_consumed:
  "order_consumer_message sample_start sample_saga_config identity_registry [] journey_message (Map.empty, 1) =
     (Inr (), [order_workflow_id ''berlin'' ''o1'' \<mapsto> journey_args], 2)"
proof -
  have "readEnvelope identity_registry [] journey_message = Inr (Some (meta_of journey_envelope, e_payload journey_envelope))"
    by (simp add: readEnvelope_def journey_message_def parse_build [OF journey_wellformed] decodePayload_def
        identity_registry_def journey_envelope_fields)
  moreover have "start_workflow sample_start sample_saga_config journey_envelope (Map.empty, 1) =
      (Inr (), [order_wid journey_envelope \<mapsto> saga_start_args sample_saga_config journey_envelope], 2)"
    using journey_envelope_fields(3) by (simp add: start_workflow_def sample_start_def order_wid_def)
  ultimately show ?thesis
    using envelope_of_meta [of journey_envelope] by (simp add: order_consumer_message_def journey_wid journey_args_def del: envelope_of_meta)
qed

text \<open>The cart's two lines come to 2000 cents, and that is what the delivered order's payment captured.\<close>

theorem cart_total_is_charged_witness:
  "\<exists>w' row. orderLifecycleWorkflow (worker_order_activities job_signals) journey_args sample_signals journey_world
       = (Inr R_DELIVERED, w')
     \<and> wd_pay w' (''berlin'', ''o1'') = Some row \<and> pm_status row = PAY_CAPTURED \<and> pm_amount row = 2000"
proof -
  obtain res w' where run: "orderLifecycleWorkflow (worker_order_activities job_signals) journey_args sample_signals
      journey_world = (res, w')" by fastforce
  have "fst (orderLifecycleWorkflow (worker_order_activities job_signals) journey_args sample_signals journey_world)
      = Inr R_DELIVERED" by code_simp
  with run have res: "res = Inr R_DELIVERED" by simp
  obtain r pg' where placed: "placeOrder AppRole None (sample_draws ''e1'') ''berlin'' journey_dto empty_pg = (r, pg')"
    by fastforce
  then have pg': "pg' = journey_pg" by (simp add: journey_pg_def)
  have none: "events_of empty_pg ''berlin'' ''o1'' = []" "\<not> id_taken (su_eventId (sample_draws ''e1'')) empty_pg"
    by (simp_all add: events_of_def stream_def id_taken_def empty_pg_def)
  have env: "journey_envelope = ob_payload (last (pg_outbox pg'))"
    using placeOrder_new(3) [of empty_pg "''berlin''" journey_dto "sample_draws ''e1''", OF _ _ none(2) placed] none(1)
    by (simp add: journey_envelope_def append_outbox_row_def journey_dto_def)
  obtain c where pub: "publishEnvelope identity_registry ORDER_EVENTS (colon_key ''berlin'' ''o1'')
      journey_envelope Map.empty = (Inr journey_message, c)" using journey_published by blast
  have codec: "codec_law identity_registry" by (simp add: codec_law_def identity_registry_def)
  have cart: "journey_items \<noteq> []" and fresh: "fst (Map.empty :: string \<rightharpoonup> saga_args, 1 :: nat) (order_workflow_id ''berlin'' ''o1'') = None"
    by (simp_all add: journey_items_def)
  have w: "wd_pg journey_world = pg'" "wd_pay journey_world (''berlin'', ''o1'') = None"
    by (simp_all add: journey_world_def sample_world_def pg')
  note charged = cart_total_is_charged [OF journey_cart cart journey_request store_inv_empty none placed env
      journey_wellformed codec pub sample_start_law fresh journey_consumed]
  show ?thesis
  proof (rule exE [OF charged], elim conjE)
    fix args
    assume "fst ([order_workflow_id ''berlin'' ''o1'' \<mapsto> journey_args], 2 :: nat) (order_workflow_id ''berlin'' ''o1'') = Some args"
      and ends: "\<forall>dq q w res w'. wd_pg w = pg' \<longrightarrow> wd_pay w (''berlin'', ''o1'') = None \<longrightarrow>
       orderLifecycleWorkflow (worker_order_activities dq) args q w = (res, w') \<longrightarrow>
         saga_outcome res (ord_of ''berlin'' ''o1'' w') (pay_of ''berlin'' ''o1'' w')
         \<and> (\<forall>row. wd_pay w' (''berlin'', ''o1'') = Some row \<longrightarrow> pm_amount row = totalCents journey_items)
         \<and> (res = Inr R_DELIVERED \<longrightarrow> (\<exists>row. wd_pay w' (''berlin'', ''o1'') = Some row
              \<and> pm_status row = PAY_CAPTURED \<and> pm_amount row = totalCents journey_items))"
    then have "args = journey_args" by simp
    with ends [rule_format, OF w, of job_signals sample_signals res w'] run res
    have "\<exists>row. wd_pay w' (''berlin'', ''o1'') = Some row \<and> pm_status row = PAY_CAPTURED
        \<and> pm_amount row = totalCents journey_items" by simp
    with run res show ?thesis by (simp add: journey_items_def totalCents_def)
  qed
qed

end
