(* ===== verification/Schemas.thy ===== *)
theory Schemas
  imports Write_Api Outbox_Poller
begin

text \<open>
  The Avro schemas of the events (\<open>packages/contracts/avro\<close>) and what they mean for the services: every
  event the write side appends has the fields of its schema, with one exception, quantities beyond
  32 bits, which the write service lets through; such an event can never be published, and the poller
  never gets past it.
\<close>

section \<open>Schemas and values\<close>

text \<open>A field is its name, its type and its default.\<close>

datatype avro =
    AvNull | AvString | AvInt | AvDouble
  | AvUnion "avro list"
  | AvArray avro
  | AvRecord string "(string \<times> avro \<times> json option) list"

text \<open>The Avro specification's ranges: an \<open>int\<close> has 32 bits; a missing field needs a default.\<close>

fun avro_fits :: "avro \<Rightarrow> json \<Rightarrow> bool" where
  "avro_fits AvNull v = (v = JNull)"
| "avro_fits AvString v = (case v of JStr _ \<Rightarrow> True | _ \<Rightarrow> False)"
| "avro_fits AvInt v = (case v of JInt i \<Rightarrow> - (2 ^ 31) \<le> i \<and> i < 2 ^ 31 | _ \<Rightarrow> False)"
| "avro_fits AvDouble v = (case v of JInt _ \<Rightarrow> True | JFrac _ \<Rightarrow> True | _ \<Rightarrow> False)"
| "avro_fits (AvUnion ts) v = list_ex (\<lambda>t. avro_fits t v) ts"
| "avro_fits (AvArray t) v = (case v of JArr vs \<Rightarrow> list_all (avro_fits t) vs | _ \<Rightarrow> False)"
| "avro_fits (AvRecord n fs) v =
     (case v of JObj kvs \<Rightarrow>
        list_all (\<lambda>(k, t, d). case map_of kvs k of Some x \<Rightarrow> avro_fits t x | None \<Rightarrow> d \<noteq> None) fs
      | _ \<Rightarrow> False)"

definition required :: "string \<Rightarrow> avro \<Rightarrow> string \<times> avro \<times> json option" where
  "required k t = (k, t, None)"

definition order_placed_avsc :: avro where
  "order_placed_avsc = AvRecord ''OrderPlaced''
     [required ''orderId'' AvString, required ''customerId'' AvString,
      required ''items'' (AvArray (AvRecord ''OrderItem''
        [required ''sku'' AvString, required ''qty'' AvInt, required ''price'' AvDouble])),
      required ''totalAmount'' AvDouble]"

definition order_accepted_avsc :: avro where
  "order_accepted_avsc = AvRecord ''OrderAccepted'' [required ''orderId'' AvString]"

definition order_cancelled_avsc :: avro where
  "order_cancelled_avsc = AvRecord ''OrderCancelled'' [required ''orderId'' AvString, required ''reason'' AvString]"

definition driver_telemetry_avsc :: avro where
  "driver_telemetry_avsc = AvRecord ''DriverTelemetry''
     [required ''driverId'' AvString, (''orderId'', AvUnion [AvNull, AvString], Some JNull),
      required ''lng'' AvDouble, required ''lat'' AvDouble]"

definition driver_offered_avsc :: avro where
  "driver_offered_avsc = AvRecord ''DriverOffered'' [required ''orderId'' AvString, required ''driverId'' AvString]"

definition dispatch_accepted_avsc :: avro where
  "dispatch_accepted_avsc = AvRecord ''DispatchAccepted'' [required ''orderId'' AvString, required ''driverId'' AvString]"

definition order_picked_up_avsc :: avro where
  "order_picked_up_avsc = AvRecord ''OrderPickedUp'' [required ''orderId'' AvString]"

definition order_delivered_avsc :: avro where
  "order_delivered_avsc = AvRecord ''OrderDelivered'' [required ''orderId'' AvString]"

definition dispatch_failed_avsc :: avro where
  "dispatch_failed_avsc = AvRecord ''DispatchFailed'' [required ''orderId'' AvString, required ''reason'' AvString]"

lemmas avsc_defs = order_placed_avsc_def order_accepted_avsc_def order_cancelled_avsc_def driver_telemetry_avsc_def
  driver_offered_avsc_def dispatch_accepted_avsc_def order_picked_up_avsc_def order_delivered_avsc_def
  dispatch_failed_avsc_def required_def

text \<open>\<open>loadAvsc\<close> reads a file of the directory; a file that is not there throws.\<close>

definition AVRO_DIR :: "(string \<times> avro) list" where
  "AVRO_DIR = [(''order-placed.avsc'', order_placed_avsc), (''order-accepted.avsc'', order_accepted_avsc),
     (''order-cancelled.avsc'', order_cancelled_avsc), (''driver-telemetry.avsc'', driver_telemetry_avsc),
     (''driver-offered.avsc'', driver_offered_avsc), (''dispatch-accepted.avsc'', dispatch_accepted_avsc),
     (''order-picked-up.avsc'', order_picked_up_avsc), (''order-delivered.avsc'', order_delivered_avsc),
     (''dispatch-failed.avsc'', dispatch_failed_avsc)]"

definition loadAvsc :: "string \<Rightarrow> avro option" where
  "loadAvsc file = map_of AVRO_DIR file"

definition schema_of :: "event_type \<Rightarrow> avro option" where
  "schema_of ty = (case subject_of ty of None \<Rightarrow> None | Some e \<Rightarrow> loadAvsc (sub_avsc e))"

text \<open>The object a payload is: its present fields.\<close>

definition item_value :: "order_item \<Rightarrow> json" where
  "item_value i = JObj [(''sku'', JStr (sku i)), (''qty'', JInt (qty i)), (''price'', JInt (price i))]"

definition present :: "string \<Rightarrow> ('a \<Rightarrow> json) \<Rightarrow> 'a option \<Rightarrow> (string \<times> json) list" where
  "present k f x = (case x of None \<Rightarrow> [] | Some a \<Rightarrow> [(k, f a)])"

definition payload_value :: "payload \<Rightarrow> json" where
  "payload_value p = JObj (present ''orderId'' JStr (pl_orderId p) @ present ''customerId'' JStr (pl_customerId p)
     @ present ''items'' (\<lambda>is. JArr (map item_value is)) (pl_items p) @ present ''totalAmount'' JInt (pl_totalAmount p)
     @ present ''reason'' JStr (pl_reason p) @ present ''driverId'' JStr (pl_driverId p)
     @ present ''lng'' JFrac (pl_lng p) @ present ''lat'' JFrac (pl_lat p))"

definition quantities_fit :: "payload \<Rightarrow> bool" where
  "quantities_fit p \<longleftrightarrow> list_all (\<lambda>i. qty i < 2 ^ 31) (nullish (pl_items p) [])"

section \<open>What the services append\<close>

text \<open>
  The stores the write side can produce, as far as the contents of events go: \<open>placeOrder\<close> on a validated
  request, and what the aggregates decide for the saga worker's activities, from whatever state and version
  was loaded; and the relaying of the outbox.
\<close>

inductive service_reach :: "pg_state \<Rightarrow> bool" where
  srv_start: "service_reach empty_pg"
| srv_place: "service_reach pg \<Longrightarrow> create_order body = Some dto \<Longrightarrow>
     placeOrder_commit role obs su t dto st v pg = (r, pg') \<Longrightarrow> service_reach pg'"
| srv_order: "service_reach pg \<Longrightarrow> order_decide c st = Some (ty, pl) \<Longrightarrow> ty \<noteq> OrderPlaced \<Longrightarrow>
     appendWithExpectedVersion role obs su \<lparr>aa_tenantId = t, aa_aggregateType = ORDER, aa_aggregateId = a,
       aa_expectedVersion = v, aa_eventType = ty, aa_payload = pl, aa_topic = None, aa_correlationId = corr\<rparr> pg
       = (r', pg') \<Longrightarrow> service_reach pg'"
| srv_dispatch: "service_reach pg \<Longrightarrow> dispatch_decide d ds = Some (ty, pl) \<Longrightarrow>
     appendWithExpectedVersion role obs su \<lparr>aa_tenantId = t, aa_aggregateType = DISPATCH, aa_aggregateId = a,
       aa_expectedVersion = v, aa_eventType = ty, aa_payload = pl, aa_topic = Some DISPATCH_EVENTS,
       aa_correlationId = corr\<rparr> pg = (r', pg') \<Longrightarrow> service_reach pg'"
| srv_relay: "service_reach pg \<Longrightarrow> service_reach (restatus f pg)"

text \<open>A payload is typed as an event when it fits the event's schema but for its quantities.\<close>

definition typed :: "event_type \<Rightarrow> payload \<Rightarrow> bool" where
  "typed ty p \<longleftrightarrow> (\<exists>sc. schema_of ty = Some sc \<and> (avro_fits sc (payload_value p) \<longleftrightarrow> quantities_fit p))"

definition row_typed :: "outbox_row \<Rightarrow> bool" where
  "row_typed b \<longleftrightarrow> typed (e_eventType (ob_payload b)) (e_payload (ob_payload b))
     \<and> map_option sub_topic (subject_of (e_eventType (ob_payload b))) = Some (ob_topic b)"

lemma append_outbox:
  "appendWithExpectedVersion role obs su args pg = (r, pg') \<Longrightarrow>
   pg_outbox pg' = pg_outbox pg \<or> pg_outbox pg' = pg_outbox pg @ [append_outbox_row obs su args]"
  by (auto simp: appendWithExpectedVersion_def withTenantTransaction_def insert_event_def insert_outbox_def
      split: prod.splits sum.splits if_splits db_error.splits)

lemma schema_simps [simp]:
  "schema_of OrderPlaced = Some order_placed_avsc" "schema_of OrderAccepted = Some order_accepted_avsc"
  "schema_of OrderCancelled = Some order_cancelled_avsc" "schema_of DriverOffered = Some driver_offered_avsc"
  "schema_of DispatchAccepted = Some dispatch_accepted_avsc" "schema_of OrderPickedUp = Some order_picked_up_avsc"
  "schema_of OrderDelivered = Some order_delivered_avsc" "schema_of DispatchFailed = Some dispatch_failed_avsc"
  by (simp_all add: schema_of_def subject_of_def SUBJECTS_def loadAvsc_def AVRO_DIR_def)

lemma subject_topics [simp]:
  "map_option sub_topic (subject_of OrderPlaced) = Some ORDER_EVENTS"
  "map_option sub_topic (subject_of OrderAccepted) = Some ORDER_EVENTS"
  "map_option sub_topic (subject_of OrderCancelled) = Some ORDER_EVENTS"
  "map_option sub_topic (subject_of DriverOffered) = Some DISPATCH_EVENTS"
  "map_option sub_topic (subject_of DispatchAccepted) = Some DISPATCH_EVENTS"
  "map_option sub_topic (subject_of OrderPickedUp) = Some DISPATCH_EVENTS"
  "map_option sub_topic (subject_of OrderDelivered) = Some DISPATCH_EVENTS"
  "map_option sub_topic (subject_of DispatchFailed) = Some DISPATCH_EVENTS"
  by (simp_all add: subject_of_def SUBJECTS_def)

lemma value_simps [simp]:
  "payload_value (order_id_payload oid) = JObj [(''orderId'', JStr oid)]"
  "payload_value (reason_payload oid r) = JObj [(''orderId'', JStr oid), (''reason'', JStr r)]"
  "payload_value (driver_payload oid d) = JObj [(''orderId'', JStr oid), (''driverId'', JStr d)]"
  "payload_value (order_placed_payload oid c is n) = JObj [(''orderId'', JStr oid), (''customerId'', JStr c),
     (''items'', JArr (map item_value is)), (''totalAmount'', JInt n)]"
  by (simp_all add: payload_value_def present_def payload_defs)

lemma quantities_simps [simp]:
  "quantities_fit (order_id_payload oid)" "quantities_fit (reason_payload oid r)" "quantities_fit (driver_payload oid d)"
  "quantities_fit (order_placed_payload oid c is n) \<longleftrightarrow> list_all (\<lambda>i. qty i < 2 ^ 31) is"
  by (simp_all add: quantities_fit_def payload_defs)

lemma placement_typed:
  assumes "create_order body = Some dto"
  shows "typed OrderPlaced (dto_payload dto)"
proof -
  have it: "item_dto j = Some i \<Longrightarrow> 1 \<le> qty i" for j i
    by (auto simp: item_dto_def split: option.splits if_splits)
  have "all_some (map item_dto js) = Some is \<Longrightarrow> list_all (\<lambda>i. 1 \<le> qty i) is" for js "is"
    by (induction js arbitrary: "is") (auto split: option.splits dest: it)
  with assms have "list_all (\<lambda>i. 1 \<le> qty i) (co_items dto)"
    by (auto simp: create_order_def split: option.splits json.splits if_splits)
  then have "list_all (avro_fits (AvRecord ''OrderItem'' [required ''sku'' AvString, required ''qty'' AvInt,
      required ''price'' AvDouble])) (map item_value (co_items dto)) \<longleftrightarrow> list_all (\<lambda>i. qty i < 2 ^ 31) (co_items dto)"
    by (induction "co_items dto") (auto simp: list_all_iff item_value_def required_def)
  then show ?thesis by (simp add: typed_def dto_payload_def order_placed_avsc_def required_def)
qed

lemma typed_events [simp]:
  "typed OrderAccepted (order_id_payload oid)" "typed OrderCancelled (reason_payload oid r)"
  "typed DriverOffered (driver_payload oid d)" "typed DispatchAccepted (driver_payload oid d)"
  "typed OrderPickedUp (order_id_payload oid)" "typed OrderDelivered (order_id_payload oid)"
  "typed DispatchFailed (reason_payload oid r)"
  by (simp_all add: typed_def avsc_defs)

lemma order_decide_typed:
  assumes "order_decide c st = Some (ty, pl)" and "ty \<noteq> OrderPlaced"
  shows "typed ty pl \<and> map_option sub_topic (subject_of ty) = Some ORDER_EVENTS"
  using assms by (cases c) (auto simp: accept_def cancel_def split: if_splits)

lemma dispatch_decide_typed:
  assumes "dispatch_decide c st = Some (ty, pl)"
  shows "typed ty pl \<and> map_option sub_topic (subject_of ty) = Some DISPATCH_EVENTS"
  using assms by (cases c) (auto simp: dispatch_decide_def dispatch_cmd_defs split: if_splits)

lemma append_typed:
  assumes "appendWithExpectedVersion role obs su args pg = (r, pg')" and "list_all row_typed (pg_outbox pg)"
    and "typed (aa_eventType args) (aa_payload args)"
    and "map_option sub_topic (subject_of (aa_eventType args)) = Some (nullish (aa_topic args) ORDER_EVENTS)"
  shows "list_all row_typed (pg_outbox pg')"
proof -
  have "row_typed (append_outbox_row obs su args)"
    using assms(3,4) by (simp add: row_typed_def append_outbox_row_def append_envelope_def buildEnvelope_def)
  then show ?thesis using append_outbox [OF assms(1)] assms(2) by auto
qed

lemma service_rows_typed: "service_reach pg \<Longrightarrow> list_all row_typed (pg_outbox pg)"
proof (induction rule: service_reach.induct)
  case srv_start
  then show ?case by (simp add: empty_pg_def)
next
  case (srv_place pg body dto role obs su t st v r pg')
  show ?case
  proof (cases "place st (dto_payload dto)")
    case None
    with srv_place show ?thesis by (simp add: placeOrder_commit_def)
  next
    case (Some pl)
    then have pl: "pl = dto_payload dto" by (simp add: place_def split: if_splits)
    let ?args = "\<lparr>aa_tenantId = t, aa_aggregateType = ORDER, aa_aggregateId = co_orderId dto,
      aa_expectedVersion = v, aa_eventType = OrderPlaced, aa_payload = pl, aa_topic = None, aa_correlationId = None\<rparr>"
    obtain r1 pg1 where app: "appendWithExpectedVersion role obs su ?args pg = (r1, pg1)" by fastforce
    then have "pg' = pg1"
      using srv_place.hyps(3) Some by (auto simp: placeOrder_commit_def split: sum.splits store_error.splits)
    then show ?thesis using append_typed [OF app srv_place.IH] placement_typed [OF srv_place.hyps(2)] pl by simp
  qed
next
  case (srv_order pg c st ty pl role obs su t a v corr r' pg')
  note ok = order_decide_typed [OF srv_order.hyps(2,3)]
  show ?case by (rule append_typed [OF srv_order.hyps(4) srv_order.IH]) (use ok in simp_all)
next
  case (srv_dispatch pg d ds ty pl role obs su t a v corr r' pg')
  note ok = dispatch_decide_typed [OF srv_dispatch.hyps(2)]
  show ?case by (rule append_typed [OF srv_dispatch.hyps(3) srv_dispatch.IH]) (use ok in simp_all)
next
  case (srv_relay pg f)
  then show ?case by (simp add: restatus_def list_all_iff row_typed_def)
qed

text \<open>
  C19: Every event is typed. Whatever requests are placed and whatever commands are decided, from
  whatever states handlers have loaded, each event in the outbox has a schema, is filed under the topic
  its schema is registered for, and fits that schema, required fields, types and all - unless it is a
  placement with a quantity beyond 32 bits, which the write service's validation accepts and the schema
  does not.
\<close>

theorem appended_events_are_typed:
  assumes "service_reach pg" and "b \<in> set (pg_outbox pg)"
  shows "\<exists>entry sc. subject_of (e_eventType (ob_payload b)) = Some entry \<and> sub_topic entry = ob_topic b
    \<and> loadAvsc (sub_avsc entry) = Some sc
    \<and> (avro_fits sc (payload_value (e_payload (ob_payload b))) \<longleftrightarrow> quantities_fit (e_payload (ob_payload b)))"
  using service_rows_typed [OF assms(1)] assms(2)
  by (auto simp: list_all_iff row_typed_def typed_def schema_of_def split: option.splits)

section \<open>A registry with these schemas\<close>

text \<open>
  What \<open>registerAllSchemas\<close> leaves and the codec is documented to do: each subject's latest schema is that
  of its file, and encoding checks the value against it.
\<close>

definition schemas_registered :: "'b registry \<Rightarrow> bool" where
  "schemas_registered rg \<longleftrightarrow> (\<forall>e \<in> set SUBJECTS. \<exists>i sc. rg_latest rg (entry_subject e) = Some i
     \<and> loadAvsc (sub_avsc e) = Some sc \<and> (\<forall>p. rg_encode rg i p \<noteq> None \<longleftrightarrow> avro_fits sc (payload_value p)))"

definition cache_ok :: "'b registry \<Rightarrow> id_cache \<Rightarrow> bool" where
  "cache_ok rg c \<longleftrightarrow> (\<forall>s i. c s = Some i \<longrightarrow> rg_latest rg s = Some i)"

lemma publish_cache: "cache_ok rg c \<Longrightarrow> publishEnvelope rg tp key env c = (r, c') \<Longrightarrow> cache_ok rg c'"
  by (auto simp: publishEnvelope_def encodePayload_def resolveSchemaId_def cache_ok_def
      split: option.splits prod.splits sum.splits if_splits)

lemma publish_typed:
  assumes "schemas_registered rg" and "cache_ok rg c" and "row_typed b"
    and "publishEnvelope rg (ob_topic b) key (ob_payload b) c = (r, c')"
  shows "is_ok r \<longleftrightarrow> quantities_fit (e_payload (ob_payload b))"
proof -
  let ?ty = "e_eventType (ob_payload b)" and ?p = "e_payload (ob_payload b)"
  from assms(3) obtain e sc where e: "subject_of ?ty = Some e" "sub_topic e = ob_topic b"
    and sc: "loadAvsc (sub_avsc e) = Some sc" "avro_fits sc (payload_value ?p) \<longleftrightarrow> quantities_fit ?p"
    by (auto simp: row_typed_def typed_def schema_of_def split: option.splits)
  from e(1) have "e \<in> set SUBJECTS" by (auto simp: subject_of_def dest: find_SomeD)
  then obtain i where i: "rg_latest rg (entry_subject e) = Some i" "rg_encode rg i ?p \<noteq> None \<longleftrightarrow> quantities_fit ?p"
    using assms(1) sc by (fastforce simp: schemas_registered_def)
  have "fst (resolveSchemaId rg (subjectFor (ob_topic b) (sub_recordName e)) c) = Inr i"
    using i(1) e(2) assms(2) by (auto simp: resolveSchemaId_def entry_subject_def cache_ok_def split: option.splits)
  then show ?thesis
    using assms(4) e(1) i(2) by (auto simp: publishEnvelope_def encodePayload_def split: prod.splits option.splits)
qed

section \<open>A row that cannot be published\<close>

definition unpublishable :: "'b registry \<Rightarrow> outbox_row \<Rightarrow> bool" where
  "unpublishable rg b \<longleftrightarrow> (\<forall>c. cache_ok rg c \<longrightarrow>
     \<not> is_ok (fst (publishEnvelope rg (ob_topic b) (ob_partitionKey b) (ob_payload b) c)))"

definition mark_all :: "string set \<Rightarrow> outbox_row list \<Rightarrow> outbox_row list" where
  "mark_all S rows = map (\<lambda>r. if ob_id r \<in> S then r\<lparr>ob_status := SENT\<rparr> else r) rows"

lemma mark_all_simps [simp]:
  "mark_all {} rows = rows" "map ob_id (mark_all S rows) = map ob_id rows"
  "mark_all S (mark_sent i rows) = mark_all (insert i S) rows"
  by (auto simp: mark_all_def mark_sent_def comp_def)

text \<open>A poll over rows in order marks none that comes after an unpublishable one.\<close>

lemma poll_rows_blocked:
  assumes "poll_rows rg fault rs (rows, bk) = (res, rows', bk')" and "cache_ok rg (bk_cache bk)"
    and "sorted (map ob_createdAt rs)" and "distinct (map ob_id rs)" and "unpublishable rg b"
    and "b \<in> set rs \<or> (\<forall>r \<in> set rs. ob_createdAt r \<le> ob_createdAt b) \<and> ob_id b \<notin> ob_id ` set rs"
  shows "cache_ok rg (bk_cache bk') \<and> (\<exists>S. rows' = mark_all S rows \<and> ob_id b \<notin> S
    \<and> S \<subseteq> ob_id ` {r \<in> set rs. ob_createdAt r \<le> ob_createdAt b})"
  using assms
proof (induction rs arbitrary: rows bk)
  case Nil
  then show ?case by (auto intro: exI [of _ "{}"])
next
  case (Cons r rs)
  obtain p c where pub: "publishEnvelope rg (ob_topic r) (ob_partitionKey r) (ob_payload r) (bk_cache bk) = (p, c)"
    by fastforce
  have c: "cache_ok rg c" using publish_cache [OF Cons.prems(2) pub] .
  show ?case
  proof (cases "is_ok p \<and> fault r = PollOk")
    case False
    then have "rows' = mark_all {} rows" "bk_cache bk' = c"
      using Cons.prems(1) pub by (auto split: sum.splits poll_fault.splits)
    then show ?thesis using c by (intro conjI exI [of _ "{}"]) auto
  next
    case True
    then obtain msg where p: "p = Inr msg" by (cases p) auto
    have "r \<noteq> b" using Cons.prems(2,5) pub p by (auto simp: unpublishable_def)
    then have b: "b \<in> set rs \<or> (\<forall>r \<in> set rs. ob_createdAt r \<le> ob_createdAt b) \<and> ob_id b \<notin> ob_id ` set rs"
      and r: "ob_createdAt r \<le> ob_createdAt b" "ob_id b \<noteq> ob_id r"
      using Cons.prems(3,4,6) by (auto simp: image_iff)
    have "poll_rows rg fault rs (mark_sent (ob_id r) rows, bk\<lparr>bk_log := bk_log bk @ [msg], bk_cache := c\<rparr>)
        = (res, rows', bk')"
      using Cons.prems(1) pub p True by simp
    from Cons.IH [OF this _ _ _ Cons.prems(5) b] c Cons.prems(3,4)
    obtain S where S: "cache_ok rg (bk_cache bk')" "rows' = mark_all (insert (ob_id r) S) rows" "ob_id b \<notin> S"
      "S \<subseteq> ob_id ` {r \<in> set rs. ob_createdAt r \<le> ob_createdAt b}" by auto
    then show ?thesis using r by (intro conjI exI [of _ "insert (ob_id r) S"]) auto
  qed
qed

lemma sorted_take_rest:
  assumes "sorted (map f xs)" and "b \<in> set xs" and "b \<notin> set (take n xs)" and "r \<in> set (take n xs)"
  shows "f r \<le> (f b :: int)"
proof -
  from assms(2,3) have "b \<in> set (drop n xs)" by (metis Un_iff append_take_drop_id set_append)
  moreover from assms(1) have "sorted (map f (take n xs) @ map f (drop n xs))"
    by (metis append_take_drop_id map_append)
  ultimately show ?thesis using assms(4) by (auto simp: sorted_append)
qed

lemma poll_blocked:
  assumes "pollOnce rg fault (rows, bk) = (res, rows', bk')" and "cache_ok rg (bk_cache bk)"
    and "distinct (map ob_id rows)" and "unpublishable rg b" and "b \<in> set rows" and "ob_status b = PENDING"
  shows "cache_ok rg (bk_cache bk') \<and> (\<exists>S. rows' = mark_all S rows \<and> ob_id b \<notin> S
    \<and> S \<subseteq> ob_id ` {r \<in> set rows. ob_createdAt r \<le> ob_createdAt b})"
proof -
  let ?all = "sort_key ob_createdAt (filter (\<lambda>r. ob_status r = PENDING) rows)"
  let ?L = "pending_rows rows"
  have L: "?L = take BATCH ?all" by (simp add: pending_rows_def)
  have sub: "set ?L \<subseteq> set rows" using set_take_subset [of BATCH ?all] by (auto simp: L)
  have dist: "distinct (map ob_id ?all)"
    using assms(3) by (simp add: distinct_map_filter distinct_map inj_on_def)
  have b: "b \<in> set ?all" using assms(5,6) by simp
  have "ob_id b \<notin> ob_id ` set ?L" if "b \<notin> set ?L"
    using that sub assms(3,5) by (auto simp: distinct_map dest!: inj_onD)
  then have at: "b \<in> set ?L \<or> (\<forall>r \<in> set ?L. ob_createdAt r \<le> ob_createdAt b) \<and> ob_id b \<notin> ob_id ` set ?L"
    using sorted_take_rest [OF _ b, where n = BATCH and f = ob_createdAt] by (auto simp: L)
  have run: "\<exists>q. poll_rows rg fault ?L (rows, bk) = (q, rows', bk')"
    using assms(1) by (auto simp: pollOnce_def Let_def split: prod.splits sum.splits)
  have "sorted (map ob_createdAt ?L)" by (simp add: L sorted_wrt_take flip: take_map)
  moreover have "distinct (map ob_id ?L)" using dist by (simp add: L distinct_take flip: take_map)
  ultimately show ?thesis
    using run poll_rows_blocked [OF _ assms(2) _ _ assms(4) at] sub by fastforce
qed

text \<open>Everything that can happen to outbox and broker: appends, polls with any faults, restarts.\<close>

inductive poll_later :: "'b registry \<Rightarrow> outbox_row list \<times> 'b broker \<Rightarrow> outbox_row list \<times> 'b broker \<Rightarrow> bool" for rg st where
  later_now: "poll_later rg st st"
| later_append: "poll_later rg st (rows, bk) \<Longrightarrow> ob_status r = PENDING \<Longrightarrow> ob_id r \<notin> ob_id ` set rows \<Longrightarrow>
     poll_later rg st (rows @ [r], bk)"
| later_poll: "poll_later rg st st' \<Longrightarrow> pollOnce rg fault st' = (res, st'') \<Longrightarrow> poll_later rg st st''"
| later_restart: "poll_later rg st (rows, bk) \<Longrightarrow> poll_later rg st (rows, bk\<lparr>bk_cache := Map.empty\<rparr>)"

definition blocked_by :: "'b registry \<Rightarrow> outbox_row list \<Rightarrow> outbox_row \<Rightarrow> outbox_row list \<times> 'b broker \<Rightarrow> bool" where
  "blocked_by rg rows0 b st \<longleftrightarrow> cache_ok rg (bk_cache (snd st)) \<and> distinct (map ob_id (fst st)) \<and> b \<in> set (fst st)
     \<and> (\<forall>x \<in> set (fst st). ob_createdAt b < ob_createdAt x \<longrightarrow> x \<in> set rows0 \<or> ob_status x = PENDING)"

lemma poll_later_blocked:
  assumes "poll_later rg st0 st" and "blocked_by rg (fst st0) b st0" and "unpublishable rg b" and "ob_status b = PENDING"
  shows "blocked_by rg (fst st0) b st"
  using assms(1)
proof induction
  case later_now
  then show ?case by (rule assms(2))
next
  case (later_append rows bk r)
  then show ?case by (auto simp: blocked_by_def)
next
  case (later_poll st' fault res st'')
  obtain rows bk rows' bk' where st: "st' = (rows, bk)" "st'' = (rows', bk')" by (metis surj_pair)
  have bl: "blocked_by rg (fst st0) b (rows, bk)" using later_poll.IH st by simp
  from poll_blocked [of rg fault rows bk res rows' bk' b] bl later_poll.hyps(2) assms(3,4) st
  obtain S where S: "cache_ok rg (bk_cache bk')" "rows' = mark_all S rows" "ob_id b \<notin> S"
    "S \<subseteq> ob_id ` {r \<in> set rows. ob_createdAt r \<le> ob_createdAt b}" by (auto simp: blocked_by_def)
  have keep: "ob_id x \<notin> S" if "x \<in> set rows" "ob_createdAt b < ob_createdAt x" for x
  proof
    have inj: "inj_on ob_id (set rows)" using bl by (simp add: blocked_by_def distinct_map)
    assume "ob_id x \<in> S"
    then obtain r where "r \<in> set rows" "ob_createdAt r \<le> ob_createdAt b" "ob_id x = ob_id r" using S(4) by auto
    with inj_onD [OF inj _ that(1)] that(2) show False by fastforce
  qed
  have "\<forall>x \<in> set rows'. ob_createdAt b < ob_createdAt x \<longrightarrow> x \<in> set (fst st0) \<or> ob_status x = PENDING"
    using bl keep by (auto simp: S(2) mark_all_def blocked_by_def split: if_splits)
  moreover have "b \<in> set rows'" using bl S(3) by (force simp: S(2) mark_all_def blocked_by_def)
  ultimately show ?case using bl S(1,2) by (simp add: blocked_by_def st(2))
next
  case (later_restart rows bk)
  then show ?case by (simp add: blocked_by_def cache_ok_def)
qed

lemma poll_rows_throws:
  assumes "cache_ok rg (bk_cache bk)" and "b \<in> set rs" and "unpublishable rg b"
  shows "\<not> is_ok (fst (poll_rows rg fault rs (rows, bk)))"
  using assms(1,2)
proof (induction rs arbitrary: rows bk)
  case (Cons r rs)
  obtain p c where pub: "publishEnvelope rg (ob_topic r) (ob_partitionKey r) (ob_payload r) (bk_cache bk) = (p, c)"
    by fastforce
  show ?case
  proof (cases p)
    case (Inr msg)
    then have "r \<noteq> b" using assms(3) Cons.prems(1) pub by (auto simp: unpublishable_def)
    then have "\<not> is_ok (fst (poll_rows rg fault rs (mark_sent (ob_id r) rows,
        bk\<lparr>bk_log := bk_log bk @ [msg], bk_cache := c\<rparr>)))"
      using Cons.IH Cons.prems(2) publish_cache [OF Cons.prems(1) pub] by simp
    then show ?thesis using pub Inr by (simp split: poll_fault.splits)
  qed (use pub in simp)
qed simp

lemma pollOnce_throws:
  assumes "cache_ok rg (bk_cache bk)" and "b \<in> set (pending_rows rows)" and "unpublishable rg b"
  shows "\<not> is_ok (fst (pollOnce rg fault (rows, bk)))"
  using poll_rows_throws [OF assms, of fault rows]
  by (auto simp: pollOnce_def Let_def split: prod.splits sum.splits)

lemma store_ids: "store_inv pg \<Longrightarrow> distinct (map ob_id (pg_outbox pg))"
proof -
  have "list_all2 outbox_matches es bs \<Longrightarrow> map ob_id bs = map ev_id es" for es bs
    by (induction rule: list_all2_induct) (auto simp: outbox_matches_def)
  then show "store_inv pg \<Longrightarrow> distinct (map ob_id (pg_outbox pg))" by (auto simp: store_inv_def)
qed

text \<open>
  C20: One order can stop the platform. The write service accepts a quantity of any size; an order with
  a quantity of \<open>2 ^ 31\<close> or more passes its validation and is placed, and the customer is told so, but the
  schema's \<open>int\<close> cannot hold it. From then on, whatever is appended and however often the poller polls and
  is restarted, the order's row stays pending; every poll that reaches it throws, which ends the process;
  and no row created after it, of any tenant, is ever sent.
\<close>

theorem oversized_order_halts_outbox:
  assumes "schemas_registered rg" and "create_order body = Some dto" and "\<exists>i \<in> set (co_items dto). 2 ^ 31 \<le> qty i"
    and "store_inv pg" and "events_of pg t (co_orderId dto) = []" and "\<not> id_taken (su_eventId su) pg"
    and "placeOrder role obs su t dto pg = (r, pg')"
    and "cache_ok rg (bk_cache bk)" and "poll_later rg (pg_outbox pg', bk) (rows, bk')"
    and "b = append_outbox_row obs su (place_args t dto)"
  shows "r = Inr (co_orderId dto) \<and> b \<in> set rows \<and> ob_status b = PENDING
    \<and> (b \<in> set (pending_rows rows) \<longrightarrow> \<not> is_ok (fst (pollOnce rg fault (rows, bk'))))
    \<and> (\<forall>x \<in> set rows. ob_createdAt b < ob_createdAt x \<longrightarrow> x \<in> set (pg_outbox pg') \<or> ob_status x = PENDING)"
proof -
  note new = placeOrder_new [OF assms(4-7)]
  have b: "ob_status b = PENDING" "b \<in> set (pg_outbox pg')" using new(3) by (simp_all add: assms(10) append_outbox_row_def)
  have "typed OrderPlaced (dto_payload dto)" by (rule placement_typed [OF assms(2)])
  then have ty: "row_typed b"
    by (simp add: row_typed_def assms(10) append_outbox_row_def append_envelope_def buildEnvelope_def place_args_def)
  have "\<not> quantities_fit (e_payload (ob_payload b))"
    using assms(3) by (force simp: assms(10) append_outbox_row_def append_envelope_def buildEnvelope_def place_args_def
        dto_payload_def list_all_iff)
  then have un: "unpublishable rg b"
    unfolding unpublishable_def using publish_typed [OF assms(1) _ ty] by (metis prod.collapse)
  have "blocked_by rg (fst (pg_outbox pg', bk)) b (pg_outbox pg', bk)"
    using store_ids [OF new(2)] b(2) assms(8) by (simp add: blocked_by_def)
  from poll_later_blocked [OF assms(9) this un b(1)]
  show ?thesis using new(1) b(1) pollOnce_throws [OF _ _ un] by (auto simp: blocked_by_def)
qed

text \<open>A registry as described, and an order of this kind ahead of another tenant's.\<close>

definition avro_registry :: "payload registry" where
  "avro_registry = \<lparr>
     rg_latest = (\<lambda>s. map_of (zip (map entry_subject SUBJECTS) [0..<length SUBJECTS]) s),
     rg_encode = (\<lambda>i p. case loadAvsc (sub_avsc (SUBJECTS ! i)) of
        Some sc \<Rightarrow> (if avro_fits sc (payload_value p) then Some p else None) | None \<Rightarrow> None),
     rg_decode = Some\<rparr>"

definition huge_body :: json where
  "huge_body = JObj [(''orderId'', JStr ''o7''), (''customerId'', JStr ''eve''),
     (''items'', JArr [JObj [(''sku'', JStr ''pizza''), (''qty'', JInt 2147483648), (''price'', JInt 1)]]),
     (''totalAmount'', JInt 1)]"

definition huge_dto :: create_order_dto where
  "huge_dto = \<lparr>co_orderId = ''o7'', co_customerId = ''eve'', co_items = [\<lparr>sku = ''pizza'', qty = 2147483648, price = 1\<rparr>],
     co_totalAmount = 1\<rparr>"

definition later_row :: outbox_row where
  "later_row = (append_outbox_row None (sample_draws ''e2'') sample_append)\<lparr>ob_tenantId := ''tokyo'', ob_createdAt := 2000\<rparr>"

lemma avro_registry_ok: "schemas_registered avro_registry"
  by (simp add: schemas_registered_def avro_registry_def SUBJECTS_def entry_subject_def subjectFor_def AVRO_NAMESPACE_def
      loadAvsc_def AVRO_DIR_def)

definition huge_pg :: pg_state where
  "huge_pg = snd (placeOrder AppRole None (sample_draws ''e1'') ''berlin'' huge_dto empty_pg)"

lemma huge_request: "create_order huge_body = Some huge_dto"
  by code_simp

lemma huge_placed: "placeOrder AppRole None (sample_draws ''e1'') ''berlin'' huge_dto empty_pg = (Inr ''o7'', huge_pg)"
  "pg_outbox huge_pg = [append_outbox_row None (sample_draws ''e1'') (place_args ''berlin'' huge_dto)]"
proof -
  have none: "events_of empty_pg ''berlin'' (co_orderId huge_dto) = []" "\<not> id_taken (su_eventId (sample_draws ''e1'')) empty_pg"
    by (simp_all add: events_of_def stream_def id_taken_def empty_pg_def)
  obtain r pg' where run: "placeOrder AppRole None (sample_draws ''e1'') ''berlin'' huge_dto empty_pg = (r, pg')" by fastforce
  note new = placeOrder_new [OF store_inv_empty none run]
  from run have pg': "pg' = huge_pg" by (simp add: huge_pg_def)
  show "placeOrder AppRole None (sample_draws ''e1'') ''berlin'' huge_dto empty_pg = (Inr ''o7'', huge_pg)"
    using run new(1) pg' by (simp add: huge_dto_def)
  show "pg_outbox huge_pg = [append_outbox_row None (sample_draws ''e1'') (place_args ''berlin'' huge_dto)]"
    using new(3) pg' by (simp add: empty_pg_def)
qed

theorem oversized_order_halts_outbox_witness:
  "\<exists>rows bk. poll_later avro_registry (pg_outbox huge_pg, \<lparr>bk_log = [], bk_cache = Map.empty\<rparr>) (rows, bk)
     \<and> later_row \<in> set rows \<and> \<not> is_ok (fst (pollOnce avro_registry (\<lambda>r. PollOk) (rows, bk)))"
proof -
  let ?b = "append_outbox_row None (sample_draws ''e1'') (place_args ''berlin'' huge_dto)"
  let ?bk = "\<lparr>bk_log = [], bk_cache = Map.empty\<rparr> :: payload broker"
  have none: "events_of empty_pg ''berlin'' (co_orderId huge_dto) = []" "\<not> id_taken (su_eventId (sample_draws ''e1'')) empty_pg"
    by (simp_all add: events_of_def stream_def id_taken_def empty_pg_def)
  have later: "poll_later avro_registry (pg_outbox huge_pg, ?bk) (pg_outbox huge_pg @ [later_row], ?bk)"
    by (rule later_append [OF later_now])
      (simp_all add: huge_placed later_row_def append_outbox_row_def append_envelope_def buildEnvelope_def sample_draws_def)
  have b: "?b \<in> set (pending_rows (pg_outbox huge_pg @ [later_row]))"
    by (simp add: pending_rows_def huge_placed BATCH_def later_row_def append_outbox_row_def sample_draws_def)
  have "\<exists>i \<in> set (co_items huge_dto). 2 ^ 31 \<le> qty i" by (simp add: huge_dto_def)
  from oversized_order_halts_outbox [OF avro_registry_ok huge_request this store_inv_empty none huge_placed(1)
      _ later refl, of "\<lambda>r. PollOk"] b
  show ?thesis using later by (intro exI [of _ "pg_outbox huge_pg @ [later_row]"] exI [of _ ?bk])
    (simp add: cache_ok_def)
qed

theorem appended_events_are_typed_witness:
  "\<exists>b \<in> set (pg_outbox huge_pg). \<exists>sc. schema_of (e_eventType (ob_payload b)) = Some sc
     \<and> \<not> avro_fits sc (payload_value (e_payload (ob_payload b)))"
proof -
  let ?b = "append_outbox_row None (sample_draws ''e1'') (place_args ''berlin'' huge_dto)"
  obtain st v where "loadAggregate AppRole ''berlin'' (co_orderId huge_dto) foldOrder INITIAL_ORDER_STATE empty_pg = (st, v)"
    by fastforce
  with huge_placed(1) have "placeOrder_commit AppRole None (sample_draws ''e1'') ''berlin'' huge_dto st v empty_pg
      = (Inr ''o7'', huge_pg)" by (simp add: placeOrder_def)
  from srv_place [OF srv_start huge_request this] have "service_reach huge_pg" .
  moreover have b: "?b \<in> set (pg_outbox huge_pg)" by (simp add: huge_placed)
  ultimately obtain entry sc where e: "subject_of (e_eventType (ob_payload ?b)) = Some entry"
    "loadAvsc (sub_avsc entry) = Some sc"
    "avro_fits sc (payload_value (e_payload (ob_payload ?b))) \<longleftrightarrow> quantities_fit (e_payload (ob_payload ?b))"
    using appended_events_are_typed [of huge_pg ?b] by blast
  have "\<not> quantities_fit (e_payload (ob_payload ?b))"
    by (simp add: append_outbox_row_def append_envelope_def buildEnvelope_def place_args_def dto_payload_def huge_dto_def)
  with e have "schema_of (e_eventType (ob_payload ?b)) = Some sc \<and> \<not> avro_fits sc (payload_value (e_payload (ob_payload ?b)))"
    by (simp add: schema_of_def)
  then show ?thesis using b by blast
qed

end
