(* ===== verification/Delivery_Properties.thy ===== *)
theory Delivery_Properties
  imports Delivery
begin

text \<open>
  The invariant of the delivery pipeline and what follows from it: every document is a folded prefix of its
  stream, the whole of it once the pipeline is drained, and draining it takes as many polls and readings as
  there are rows and messages.
\<close>

section \<open>Rows, streams and inbox entries\<close>

definition stream_topic :: "string \<Rightarrow> topic" where
  "stream_topic a = (if is_dispatch_id a then DISPATCH_EVENTS else ORDER_EVENTS)"

lemma stream_topic_simps [simp]:
  "\<not> is_dispatch_id a \<Longrightarrow> stream_topic a = ORDER_EVENTS" "stream_topic (dispatchAggregateId oid) = DISPATCH_EVENTS"
  by (simp_all add: stream_topic_def)

lemma row_key:
  assumes "outbox_matches e b" and "row_ok T b" and "CHR '':'' \<notin> set t"
  shows "in_key (stream_topic a) (colon_key t a) b \<longleftrightarrow> ev_tenantId e = t \<and> ev_aggregateId e = a"
  using assms by (auto simp: outbox_matches_def row_ok_def in_key_def colon_key_inject)

lemma stream_events:
  assumes "store_inv pg" and "rows_ok T (pg_outbox pg)" and "CHR '':'' \<notin> set t"
  shows "list_all2 carries (stream pg t a) (key_events (stream_topic a) (colon_key t a) (pg_outbox pg))"
proof -
  have "list_all2 outbox_matches (pg_events pg) (pg_outbox pg)" and "\<forall>b \<in> set (pg_outbox pg). row_ok T b"
    using assms(1,2) by (auto simp: store_inv_def rows_ok_def list_all_iff)
  then show ?thesis
    unfolding stream_def key_events_def key_rows_def
  proof (induction rule: list_all2_induct)
    case (Cons e es b bs)
    have "carries e (ob_payload b)" using Cons.hyps(1) by (simp add: outbox_matches_def carries_def)
    then show ?case using Cons row_key [OF Cons.hyps(1) _ assms(3), of T a] by simp
  qed simp
qed

definition topic_consumer :: "topic \<Rightarrow> string" where
  "topic_consumer tp = (if tp = DISPATCH_EVENTS then DISPATCH_CONSUMER else PROJECTION_CONSUMER)"

definition row_entry :: "outbox_row \<Rightarrow> string" where
  "row_entry r = inbox_id (topic_consumer (ob_topic r)) (ob_payload r)"

lemma topic_consumer_plain: "CHR '':'' \<notin> set (topic_consumer tp)" "DISPATCH_CONSUMER \<noteq> PROJECTION_CONSUMER"
  by (simp_all add: topic_consumer_def DISPATCH_CONSUMER_def PROJECTION_CONSUMER_def)

lemma rows_entry:
  assumes "rows_ok T rows" and "r \<in> set rows" and "r' \<in> set rows"
  shows "inbox_id (topic_consumer tp) (ob_payload r) = inbox_id (topic_consumer tp') (ob_payload r') \<longleftrightarrow>
    r = r' \<and> topic_consumer tp = topic_consumer tp'"
proof -
  have "row_ok T r" "row_ok T r'" "distinct (map ob_id rows)" using assms by (auto simp: rows_ok_def list_all_iff)
  moreover from this(3) assms have "ob_id r = ob_id r' \<Longrightarrow> r = r'" by (metis distinct_map inj_on_def)
  ultimately show ?thesis
    by (auto simp: row_ok_def inbox_id_inject topic_consumer_plain)
qed

lemma order_row_doc: "row_ok T r \<Longrightarrow> in_key ORDER_EVENTS k r \<Longrightarrow> doc_id (ob_payload r) = k"
  by (auto simp: row_ok_def in_key_def doc_id_def)

lemma dispatch_row_doc:
  "row_ok T r \<Longrightarrow> in_key DISPATCH_EVENTS (colon_key t (dispatchAggregateId oid)) r \<Longrightarrow> CHR '':'' \<notin> set t \<Longrightarrow>
   doc_id (ob_payload r) = colon_key t oid"
  by (auto simp: row_ok_def in_key_def doc_id_def colon_key_inject dispatchAggregateId_def)

lemma progress_mem:
  "progress event mine es n ms = Some n' \<Longrightarrow> m \<in> set ms \<Longrightarrow> event m = Some e \<Longrightarrow> mine e \<Longrightarrow> e \<in> set es"
proof (induction ms arbitrary: n)
  case (Cons x ms)
  then show ?case by (auto split: option.splits if_splits dest: in_set_takeD)
qed simp

section \<open>The consumers\<close>

definition order_reader ::
    "'b registry \<Rightarrow> outbox_row list \<Rightarrow> 'b kafka_message list \<Rightarrow> (topic \<Rightarrow> string \<Rightarrow> nat) \<Rightarrow> mongo \<Rightarrow> string \<Rightarrow> string \<Rightarrow> bool" where
  "order_reader rg rows ms pos db t a \<longleftrightarrow>
     op.reads (decode rg) (colon_key t a) (key_events ORDER_EVENTS (colon_key t a) rows)
       (pos ORDER_EVENTS (colon_key t a)) (key_log ORDER_EVENTS (colon_key t a) ms) db"

definition dispatch_reader ::
    "'b registry \<Rightarrow> nat \<Rightarrow> outbox_row list \<Rightarrow> 'b kafka_message list \<Rightarrow> (topic \<Rightarrow> string \<Rightarrow> nat) \<Rightarrow> mongo \<Rightarrow> string \<Rightarrow> string \<Rightarrow> bool" where
  "dispatch_reader rg T rows ms pos db t oid \<longleftrightarrow>
     (let k = colon_key t (dispatchAggregateId oid) in
      dp.reads T (decode rg) (colon_key t oid) (key_events DISPATCH_EVENTS k rows)
        (pos DISPATCH_EVENTS k) (key_log DISPATCH_EVENTS k ms) db)"

definition readers ::
    "'b registry \<Rightarrow> nat \<Rightarrow> outbox_row list \<Rightarrow> 'b kafka_message list \<Rightarrow> (topic \<Rightarrow> string \<Rightarrow> nat) \<Rightarrow> mongo \<Rightarrow> bool" where
  "readers rg T rows ms pos db \<longleftrightarrow>
     (\<forall>t a. CHR '':'' \<notin> set t \<longrightarrow> \<not> is_dispatch_id a \<longrightarrow> order_reader rg rows ms pos db t a)
     \<and> (\<forall>t oid. CHR '':'' \<notin> set t \<longrightarrow> dispatch_reader rg T rows ms pos db t oid)
     \<and> (\<forall>i. processed i db \<longrightarrow> (\<exists>r \<in> set rows. i = row_entry r))"

definition bump :: "topic \<Rightarrow> string \<Rightarrow> (topic \<Rightarrow> string \<Rightarrow> nat) \<Rightarrow> topic \<Rightarrow> string \<Rightarrow> nat" where
  "bump tp k pos = (\<lambda>tp' k'. if tp' = tp \<and> k' = k then Suc (pos tp k) else pos tp' k')"

definition row_message :: "bool \<Rightarrow> outbox_row \<Rightarrow> projection_msg" where
  "row_message f r = (if ob_topic r = DISPATCH_EVENTS then DispatchMsg f (ob_payload r) else OrderMsg f (ob_payload r))"

lemma row_message_entry [simp]: "inbox_entry (row_message f r) = row_entry r"
  by (simp add: row_message_def row_entry_def topic_consumer_def)

text \<open>A row's inbox entry is none of another key's, and its message is about no other document.\<close>

lemma entry_other:
  assumes "rows_ok T rows" and "r \<in> set rows" and "\<not> in_key tp k r"
  shows "row_entry r \<notin> inbox_id (topic_consumer tp) ` set (key_events tp k rows)"
proof
  assume "row_entry r \<in> inbox_id (topic_consumer tp) ` set (key_events tp k rows)"
  then obtain r' where "r' \<in> set rows" "in_key tp k r'"
    "row_entry r = inbox_id (topic_consumer tp) (ob_payload r')"
    by (auto simp: key_events_def key_rows_def)
  with rows_entry [OF assms(1,2), of r' "ob_topic r" tp] assms(3) show False by (simp add: row_entry_def)
qed

lemma order_event_row:
  "row_ok T r \<Longrightarrow> order_event_of (row_message f r) = Some e \<Longrightarrow> doc_id e = k \<Longrightarrow> in_key ORDER_EVENTS k r"
  using order_row_doc [of T r "ob_partitionKey r"] by (auto simp: row_message_def row_ok_def in_key_def split: if_splits)

lemma dispatch_event_row:
  "row_ok T r \<Longrightarrow> dispatch_event_of (row_message f r) = Some e \<Longrightarrow> doc_id e = colon_key t oid \<Longrightarrow>
   CHR '':'' \<notin> set t \<Longrightarrow> in_key DISPATCH_EVENTS (colon_key t (dispatchAggregateId oid)) r"
  by (auto simp: row_message_def row_ok_def in_key_def doc_id_def colon_key_inject split: if_splits)

text \<open>Handing the consumers the message of a row that is next in the log of its key.\<close>

lemma deliver_order:
  assumes rd: "order_reader rg (pg_outbox pg) ms pos db t a" and inv: "store_inv pg" and ok: "rows_ok T (pg_outbox pg)"
    and rel: "\<forall>tp k. relayed rg tp k (pg_outbox pg) ms"
    and p: "pos tp k < length (key_log tp k ms)" and dec: "decode rg (key_log tp k ms ! pos tp k) = Some (ob_payload r)"
    and r: "r \<in> set (pg_outbox pg)" "in_key tp k r" and t: "CHR '':'' \<notin> set t" and a: "\<not> is_dispatch_id a"
  shows "order_reader rg (pg_outbox pg) ms pos (project_msg T (row_message f r) db) t a
    \<and> order_reader rg (pg_outbox pg) ms (bump tp k pos) (project_msg T (row_message f r) db) t a"
proof -
  let ?k = "colon_key t a" and ?m = "row_message f r"
  let ?es = "key_events ORDER_EVENTS ?k (pg_outbox pg)" and ?L = "key_log ORDER_EVENTS ?k ms"
    and ?p = "pos ORDER_EVENTS ?k"
  have row: "row_ok T r" and rows: "\<forall>x \<in> set (pg_outbox pg). row_ok T x"
    using ok r(1) by (auto simp: rows_ok_def list_all_iff)
  have now: "op.reads (decode rg) ?k ?es ?p ?L db" using rd by (simp add: order_reader_def)
  show ?thesis
  proof (cases "in_key ORDER_EVENTS ?k r")
    case True
    then have eq: "tp = ORDER_EVENTS" "k = ?k" using r(2) by (simp_all add: in_key_def)
    note facts = carries_stream [OF inv stream_events [OF inv ok t, of a]]
    have "op.reads (decode rg) ?k ?es (Suc ?p) ?L (project_msg T ?m db) \<and> op.reads (decode rg) ?k ?es ?p ?L (project_msg T ?m db)"
    proof (rule op.reads_deliver [OF now])
      show "progress (decode rg) (\<lambda>_. True) ?es 0 ?L \<noteq> None" using rel by (force simp: relayed_def)
      show "order_event_of ?m = Some (ob_payload r)" using True by (simp add: row_message_def in_key_def)
      show "\<forall>x \<in> set ?es. doc_id x = ?k" using order_row_doc rows by (auto simp: key_events_def key_rows_def)
      show "sorted_wrt (<) (map e_version ?es)" "distinct (map (inbox_id PROJECTION_CONSUMER) ?es)"
        using facts(1,2) a by simp_all
    qed (use p dec eq in simp_all)
    then show ?thesis by (simp add: order_reader_def bump_def eq)
  next
    case False
    have "op.reads (decode rg) ?k ?es ?p ?L (project_msg T ?m db)"
      by (rule op.reads_other [OF now])
        (use False order_event_row [OF row] entry_other [OF ok r(1) False] in \<open>auto simp: topic_consumer_def\<close>)
    moreover have "\<not> (ORDER_EVENTS = tp \<and> ?k = k)" using False r(2) by (auto simp: in_key_def)
    ultimately show ?thesis by (auto simp: order_reader_def bump_def)
  qed
qed

lemma deliver_dispatch:
  assumes rd: "dispatch_reader rg T (pg_outbox pg) ms pos db t oid" and inv: "store_inv pg" and ok: "rows_ok T (pg_outbox pg)"
    and rel: "\<forall>tp k. relayed rg tp k (pg_outbox pg) ms"
    and p: "pos tp k < length (key_log tp k ms)" and dec: "decode rg (key_log tp k ms ! pos tp k) = Some (ob_payload r)"
    and r: "r \<in> set (pg_outbox pg)" "in_key tp k r" and t: "CHR '':'' \<notin> set t"
  shows "dispatch_reader rg T (pg_outbox pg) ms pos (project_msg T (row_message f r) db) t oid
    \<and> dispatch_reader rg T (pg_outbox pg) ms (bump tp k pos) (project_msg T (row_message f r) db) t oid"
proof -
  let ?k = "colon_key t (dispatchAggregateId oid)" and ?d = "colon_key t oid" and ?m = "row_message f r"
  let ?es = "key_events DISPATCH_EVENTS ?k (pg_outbox pg)" and ?L = "key_log DISPATCH_EVENTS ?k ms"
    and ?p = "pos DISPATCH_EVENTS ?k"
  have row: "row_ok T r" and rows: "\<forall>x \<in> set (pg_outbox pg). row_ok T x"
    using ok r(1) by (auto simp: rows_ok_def list_all_iff)
  have now: "dp.reads T (decode rg) ?d ?es ?p ?L db" using rd by (simp add: dispatch_reader_def Let_def)
  show ?thesis
  proof (cases "in_key DISPATCH_EVENTS ?k r")
    case True
    then have eq: "tp = DISPATCH_EVENTS" "k = ?k" using r(2) by (simp_all add: in_key_def)
    note facts = carries_stream [OF inv stream_events [OF inv ok t, of "dispatchAggregateId oid"]]
    have "dp.reads T (decode rg) ?d ?es (Suc ?p) ?L (project_msg T ?m db) \<and> dp.reads T (decode rg) ?d ?es ?p ?L (project_msg T ?m db)"
    proof (rule dp.reads_deliver [OF now])
      show "progress (decode rg) (\<lambda>_. True) ?es 0 ?L \<noteq> None" using rel by (force simp: relayed_def)
      show "dispatch_event_of ?m = Some (ob_payload r)" using True by (simp add: row_message_def in_key_def)
      show "\<forall>x \<in> set ?es. doc_id x = ?d" using dispatch_row_doc [OF _ _ t] rows by (auto simp: key_events_def key_rows_def)
      show "sorted_wrt (<) (map e_version ?es)" "distinct (map (inbox_id DISPATCH_CONSUMER) ?es)"
        using facts(1,2) by simp_all
    qed (use p dec eq in simp_all)
    then show ?thesis by (simp add: dispatch_reader_def bump_def eq Let_def)
  next
    case False
    have "dp.reads T (decode rg) ?d ?es ?p ?L (project_msg T ?m db)"
      by (rule dp.reads_other [OF now])
        (use False dispatch_event_row [OF row _ _ t] entry_other [OF ok r(1) False] in \<open>auto simp: topic_consumer_def\<close>)
    moreover have "\<not> (DISPATCH_EVENTS = tp \<and> ?k = k)" using False r(2) by (auto simp: in_key_def)
    ultimately show ?thesis by (auto simp: dispatch_reader_def bump_def Let_def)
  qed
qed

lemma deliver_readers:
  assumes rd: "readers rg T (pg_outbox pg) ms pos db" and "store_inv pg" and "rows_ok T (pg_outbox pg)"
    and "\<forall>tp k. relayed rg tp k (pg_outbox pg) ms"
    and "pos tp k < length (key_log tp k ms)" and "decode rg (key_log tp k ms ! pos tp k) = Some (ob_payload r)"
    and "r \<in> set (pg_outbox pg)" and "in_key tp k r"
  shows "readers rg T (pg_outbox pg) ms pos (project_msg T (row_message f r) db)"
    and "readers rg T (pg_outbox pg) ms (bump tp k pos) (project_msg T (row_message f r) db)"
proof -
  have "processed i (project_msg T (row_message f r) db) \<Longrightarrow> \<exists>r \<in> set (pg_outbox pg). i = row_entry r" for i
    using processed_msg [of i T "row_message f r" db] rd assms(7) by (auto simp: readers_def)
  then show "readers rg T (pg_outbox pg) ms pos (project_msg T (row_message f r) db)"
    and "readers rg T (pg_outbox pg) ms (bump tp k pos) (project_msg T (row_message f r) db)"
    using rd deliver_order [where pos = pos and tp = tp and k = k and rg = rg and ms = ms and r = r, OF _ assms(2-8)]
      deliver_dispatch [where pos = pos and tp = tp and k = k and rg = rg and ms = ms and r = r, OF _ assms(2-8)]
    by (simp_all add: readers_def)
qed


section \<open>The invariant\<close>

definition pipeline_inv :: "'b registry \<Rightarrow> nat \<Rightarrow> 'b pipeline \<Rightarrow> bool" where
  "pipeline_inv rg T st \<longleftrightarrow>
     (\<exists>ws. writers_reach order_machine (pp_pg st) ws) \<and> (\<exists>ws. writers_reach dispatch_machine (pp_pg st) ws)
     \<and> rows_ok T (pg_outbox (pp_pg st))
     \<and> (\<forall>tp k. relayed rg tp k (pg_outbox (pp_pg st)) (bk_log (pp_broker st)))
     \<and> (\<forall>m \<in> set (bk_log (pp_broker st)). readable rg m)
     \<and> readers rg T (pg_outbox (pp_pg st)) (bk_log (pp_broker st)) (pp_pos st) (pp_db st)"

lemma inv_store: "pipeline_inv rg T st \<Longrightarrow> store_inv (pp_pg st)"
  using om.reach_store_inv by (auto simp: pipeline_inv_def)

lemma empty_pipeline_inv: "pipeline_inv rg T empty_pipeline"
proof -
  have "processed i empty_mongo = False" "order_at k empty_mongo = None" "dispatch_at k empty_mongo = None" for i k
    by (simp_all add: empty_mongo_def processed_def order_at_def dispatch_at_def)
  then have "readers rg T [] [] (\<lambda>tp k. 0) empty_mongo"
    by (simp add: readers_def order_reader_def dispatch_reader_def op.reads_def dp.reads_def op.synced_def dp.synced_def
        key_rows_def key_events_def key_log_def)
  moreover have "relayed rg tp k [] []" for tp k by (simp add: relayed_def key_rows_def key_events_def key_log_def)
  ultimately show ?thesis
    using writers_reach.start [of order_machine] writers_reach.start [of dispatch_machine]
    by (auto simp: pipeline_inv_def empty_pipeline_def rows_ok_def key_rows_def) (auto simp: empty_pg_def)
qed

lemma append_row_ok:
  assumes "service_append T obs su args"
  shows "row_ok T (append_outbox_row obs su args)"
proof -
  from assms obtain oid where oid: "pl_orderId (aa_payload args) = Some oid"
    by (auto simp: service_append_def split: option.splits)
  have "is_ok (dispatch_set T (append_envelope obs su args))"
    using assms by (simp add: service_append_def dispatch_set_def offer_expiry_def append_envelope_def buildEnvelope_def
        split: event_type.splits)
  then show ?thesis
    using assms oid by (auto simp: service_append_def row_ok_def append_outbox_row_def append_envelope_def buildEnvelope_def)
qed

lemma outbox_ids: "list_all2 outbox_matches es obs \<Longrightarrow> map ob_id obs = map ev_id es"
  by (induction rule: list_all2_induct) (auto simp: outbox_matches_def)

lemma append_rows_ok:
  assumes "rows_ok T (pg_outbox pg)" and "service_append T obs su args" and "later_than_stream su args pg"
    and "store_inv (pg\<lparr>pg_events := es, pg_outbox := pg_outbox pg @ [append_outbox_row obs su args]\<rparr>)"
  shows "rows_ok T (pg_outbox pg @ [append_outbox_row obs su args])"
proof -
  let ?r = "append_outbox_row obs su args"
  have "map ob_id (pg_outbox pg @ [?r]) = map ev_id es"
    using assms(4) outbox_ids unfolding store_inv_def by force
  then have "distinct (map ob_id (pg_outbox pg @ [?r]))" using assms(4) by (simp add: store_inv_def)
  moreover have "sorted_wrt (<) (map ob_createdAt (key_rows tp k (pg_outbox pg @ [?r])))" for tp k
  proof (cases "in_key tp k ?r")
    case True
    then have "k = colon_key (aa_tenantId args) (aa_aggregateId args)" by (simp add: in_key_def append_outbox_row_def)
    then have "\<forall>b \<in> set (key_rows tp k (pg_outbox pg)). ob_createdAt b < ob_createdAt ?r"
      using assms(3) by (simp add: later_than_stream_def key_rows_def in_key_def append_outbox_row_def)
    then show ?thesis using assms(1) by (auto simp: rows_ok_def sorted_wrt_append key_rows_def)
  next
    case False
    then show ?thesis using assms(1) by (simp add: rows_ok_def key_rows_def)
  qed
  ultimately show ?thesis using assms(1) append_row_ok [OF assms(2)] by (simp add: rows_ok_def)
qed

lemma relayed_append_row:
  assumes "relayed rg tp k rows ms" and "ob_status r = PENDING"
  shows "relayed rg tp k (rows @ [r]) ms"
proof -
  from assms(1) obtain A B n where AB: "key_rows tp k rows = A @ B" "\<forall>r \<in> set A. ob_status r = SENT"
      "\<forall>r \<in> set B. ob_status r = PENDING"
    and n: "progress (decode rg) (\<lambda>_. True) (key_events tp k rows) 0 (key_log tp k ms) = Some n"
      "length A \<le> n" "n \<le> Suc (length A)"
    by (auto simp: relayed_def)
  have p: "progress (decode rg) (\<lambda>_. True) (key_events tp k (rows @ [r])) 0 (key_log tp k ms) = Some n"
    using progress_extend [OF n(1)] by (simp add: key_events_def)
  show ?thesis unfolding relayed_def p
    by (rule exI [where x = A], rule exI [where x = "B @ key_rows tp k [r]"], rule exI [where x = n])
      (use AB n(2,3) assms(2) in \<open>auto simp: key_rows_def\<close>)
qed

lemma readers_append_row:
  assumes "readers rg T rows ms pos db" and "rows_ok T (rows @ [r])"
  shows "readers rg T (rows @ [r]) ms pos db"
proof -
  have new: "\<not> processed (inbox_id (topic_consumer tp) (ob_payload r)) db" for tp
  proof
    assume "processed (inbox_id (topic_consumer tp) (ob_payload r)) db"
    with assms(1) obtain r' where r': "r' \<in> set rows" "inbox_id (topic_consumer tp) (ob_payload r) = row_entry r'"
      by (auto simp: readers_def)
    then have "r = r'" using rows_entry [OF assms(2), of r r' tp "ob_topic r'"] by (simp add: row_entry_def)
    with r'(1) assms(2) show False by (auto simp: rows_ok_def)
  qed
  have events: "key_events tp k (rows @ [r]) = key_events tp k rows @ (if in_key tp k r then [ob_payload r] else [])" for tp k
    by (simp add: key_events_def key_rows_def)
  have consumers: "topic_consumer ORDER_EVENTS = PROJECTION_CONSUMER" "topic_consumer DISPATCH_EVENTS = DISPATCH_CONSUMER"
    by (simp_all add: topic_consumer_def)
  have "order_reader rg (rows @ [r]) ms pos db t a" if "order_reader rg rows ms pos db t a" for t a
    using op.reads_extend [OF that [unfolded order_reader_def], of "if in_key ORDER_EVENTS (colon_key t a) r then [ob_payload r] else []" "[]"]
      new [of ORDER_EVENTS] by (simp add: order_reader_def events consumers)
  moreover have "dispatch_reader rg T (rows @ [r]) ms pos db t oid" if "dispatch_reader rg T rows ms pos db t oid" for t oid
    using dp.reads_extend [OF that [unfolded dispatch_reader_def Let_def],
        of "if in_key DISPATCH_EVENTS (colon_key t (dispatchAggregateId oid)) r then [ob_payload r] else []" "[]"]
      new [of DISPATCH_EVENTS] by (simp add: dispatch_reader_def events consumers Let_def)
  ultimately show ?thesis using assms(1) by (auto simp: readers_def)
qed

lemma append_inv:
  assumes inv: "pipeline_inv rg T st" and sv: "service_append T obs su args" and later: "later_than_stream su args (pp_pg st)"
    and app: "appendWithExpectedVersion role obs su args (pp_pg st) = (r, pg')"
    and reach: "writers_reach order_machine pg' ws" "writers_reach dispatch_machine pg' ws'"
  shows "pipeline_inv rg T (st\<lparr>pp_pg := pg'\<rparr>)"
proof (cases "pg' = pp_pg st")
  case True
  then show ?thesis using inv by simp
next
  case False
  let ?r = "append_outbox_row obs su args"
  from append_adds [OF app] False
  have pg': "pg' = (pp_pg st)\<lparr>pg_events := pg_events (pp_pg st) @ [append_event_row obs su args],
      pg_outbox := pg_outbox (pp_pg st) @ [?r]\<rparr>" by blast
  have "store_inv pg'" by (rule om.reach_store_inv [OF reach(1)])
  with append_rows_ok [OF _ sv later] inv have ok: "rows_ok T (pg_outbox (pp_pg st) @ [?r])"
    by (simp add: pg' pipeline_inv_def)
  have "ob_status ?r = PENDING" by (simp add: append_outbox_row_def)
  then have "relayed rg tp k (pg_outbox (pp_pg st) @ [?r]) (bk_log (pp_broker st))" for tp k
    using inv by (intro relayed_append_row) (simp_all add: pipeline_inv_def)
  moreover have "readers rg T (pg_outbox (pp_pg st) @ [?r]) (bk_log (pp_broker st)) (pp_pos st) (pp_db st)"
    using inv ok by (intro readers_append_row) (simp_all add: pipeline_inv_def)
  ultimately show ?thesis using inv ok reach by (auto simp: pipeline_inv_def pg')
qed

lemma readers_longer_log:
  assumes "readers rg T rows ms pos db"
  shows "readers rg T (map (\<lambda>b. b\<lparr>ob_status := f b\<rparr>) rows) (ms @ ms') pos db"
proof -
  have "order_reader rg (map (\<lambda>b. b\<lparr>ob_status := f b\<rparr>) rows) (ms @ ms') pos db t a"
    if "order_reader rg rows ms pos db t a" for t a
    using op.reads_extend [OF that [unfolded order_reader_def], of "[]"] by (simp add: order_reader_def)
  moreover have "dispatch_reader rg T (map (\<lambda>b. b\<lparr>ob_status := f b\<rparr>) rows) (ms @ ms') pos db t oid"
    if "dispatch_reader rg T rows ms pos db t oid" for t oid
    using dp.reads_extend [OF that [unfolded dispatch_reader_def Let_def], of "[]"]
    by (simp add: dispatch_reader_def Let_def)
  moreover have "row_entry (b\<lparr>ob_status := x\<rparr>) = row_entry b" for b x by (simp add: row_entry_def)
  ultimately show ?thesis using assms by (auto simp: readers_def)
qed

lemma poll_inv:
  assumes "codec_law rg" and inv: "pipeline_inv rg T st"
  shows "pipeline_inv rg T (poll_pipeline rg fault st)"
proof -
  obtain res rows bk where run: "poll_rows rg fault (pending_rows (pg_outbox (pp_pg st))) (pg_outbox (pp_pg st), pp_broker st)
      = (res, rows, bk)" by (rule prod_cases3)
  have ok: "rows_ok T (pg_outbox (pp_pg st))" using inv by (simp add: pipeline_inv_def)
  from poll_rows_relay [OF assms(1) ok pending_batch [OF ok] _ _ run] inv
  have eff: "\<exists>f. rows = map (\<lambda>b. b\<lparr>ob_status := f b\<rparr>) (pg_outbox (pp_pg st))" "\<exists>ms. bk_log bk = bk_log (pp_broker st) @ ms"
    "\<forall>tp k. relayed rg tp k rows (bk_log bk)" "\<forall>m \<in> set (bk_log bk). readable rg m"
    by (simp_all add: pipeline_inv_def)
  then obtain f ms where f: "rows = map (\<lambda>b. b\<lparr>ob_status := f b\<rparr>) (pg_outbox (pp_pg st))"
    and ms: "bk_log bk = bk_log (pp_broker st) @ ms" by blast
  have st': "poll_pipeline rg fault st = st\<lparr>pp_pg := restatus f (pp_pg st), pp_broker := bk\<rparr>"
    using run f by (auto simp: poll_pipeline_def pollOnce_def restatus_def Let_def split: sum.splits)
  have pg: "pg_outbox (restatus f (pp_pg st)) = rows" by (simp add: restatus_def f)
  have "readers rg T rows (bk_log bk) (pp_pos st) (pp_db st)"
    using inv readers_longer_log by (auto simp: f ms pipeline_inv_def)
  moreover have "\<exists>ws. writers_reach order_machine (restatus f (pp_pg st)) ws"
    "\<exists>ws. writers_reach dispatch_machine (restatus f (pp_pg st)) ws"
    using inv by (auto simp: pipeline_inv_def intro: writers_reach.relay)
  moreover have "rows_ok T rows" using ok by (simp add: f)
  ultimately show ?thesis using eff(3,4) by (simp add: pipeline_inv_def st' pg)
qed

text \<open>The next message of a key is that of a row of the key, and every consumer can read it.\<close>

lemma next_message:
  assumes "pipeline_inv rg T st" and "p < length (key_log tp k (bk_log (pp_broker st)))"
  obtains r where "r \<in> set (pg_outbox (pp_pg st))" and "in_key tp k r"
    and "decode rg (key_log tp k (bk_log (pp_broker st)) ! p) = Some (ob_payload r)"
    and "\<And>fresh. readEnvelope rg fresh (key_log tp k (bk_log (pp_broker st)) ! p)
           = Inr (Some (meta_of (ob_payload r), e_payload (ob_payload r)))"
proof -
  let ?ms = "key_log tp k (bk_log (pp_broker st))"
  have m: "?ms ! p \<in> set ?ms" using assms(2) by simp
  then have "readable rg (?ms ! p)" using assms(1) by (auto simp: pipeline_inv_def key_log_def)
  then obtain env where env: "decode rg (?ms ! p) = Some env"
    "\<And>fresh. readEnvelope rg fresh (?ms ! p) = Inr (Some (meta_of env, e_payload env))" by (auto simp: readable_def)
  have "relayed rg tp k (pg_outbox (pp_pg st)) (bk_log (pp_broker st))" using assms(1) by (simp add: pipeline_inv_def)
  then have "env \<in> set (key_events tp k (pg_outbox (pp_pg st)))"
    using progress_mem [where event = "decode rg" and ms = ?ms and m = "?ms ! p" and mine = "\<lambda>_. True", OF _ m env(1)]
    by (auto simp: relayed_def)
  then obtain r where "r \<in> set (pg_outbox (pp_pg st))" "in_key tp k r" "env = ob_payload r"
    by (auto simp: key_events_def key_rows_def)
  with env that show ?thesis by blast
qed

lemma row_topic: "row_ok T r \<Longrightarrow> ob_topic r = ORDER_EVENTS \<or> ob_topic r = DISPATCH_EVENTS"
  by (auto simp: row_ok_def)

lemma eachMessage_row:
  assumes "readEnvelope rg fresh m = Inr (Some (meta_of (ob_payload r), e_payload (ob_payload r)))" and "row_ok T r"
  shows "\<exists>x. eachMessage rg fresh T (ob_topic r) m db = (Inr x, project_msg T (row_message True r) db)"
proof -
  from assms(2) obtain setter where "dispatch_set T (ob_payload r) = Inr setter"
    by (cases "dispatch_set T (ob_payload r)") (auto simp: row_ok_def)
  then show ?thesis
    using row_topic [OF assms(2)]
    by (cases "inbox_id DISPATCH_CONSUMER (ob_payload r) \<in> set (mg_processed db)")
      (auto simp: eachMessage_def run_consumer_message_def run_dispatch_consumer_message_def assms(1) row_message_def
        applyDispatchEvent_def split: prod.splits)
qed

text \<open>Consuming the next message succeeds and moves the position.\<close>

lemma consume_step:
  assumes inv: "pipeline_inv rg T st" and p: "pp_pos st tp k < length (key_log tp k (bk_log (pp_broker st)))"
  obtains r where "r \<in> set (pg_outbox (pp_pg st))" and "in_key tp k r"
    and "decode rg (key_log tp k (bk_log (pp_broker st)) ! pp_pos st tp k) = Some (ob_payload r)"
    and "consume_next rg fresh T tp k st =
           st\<lparr>pp_db := project_msg T (row_message True r) (pp_db st), pp_pos := bump tp k (pp_pos st)\<rparr>"
    and "crash_next rg fresh T tp k st = st\<lparr>pp_db := project_msg T (row_message False r) (pp_db st)\<rparr>"
proof -
  from next_message [OF inv p] obtain r where r: "r \<in> set (pg_outbox (pp_pg st))" "in_key tp k r"
    "decode rg (key_log tp k (bk_log (pp_broker st)) ! pp_pos st tp k) = Some (ob_payload r)"
    "\<And>fresh. readEnvelope rg fresh (key_log tp k (bk_log (pp_broker st)) ! pp_pos st tp k)
       = Inr (Some (meta_of (ob_payload r), e_payload (ob_payload r)))" by metis
  then have ok: "row_ok T r" using inv by (auto simp: pipeline_inv_def rows_ok_def list_all_iff)
  have tp: "ob_topic r = tp" using r(2) by (simp add: in_key_def)
  from eachMessage_row [OF r(4) ok, where db = "pp_db st"]
  have "\<exists>x. eachMessage rg fresh T tp (key_log tp k (bk_log (pp_broker st)) ! pp_pos st tp k) (pp_db st)
      = (Inr x, project_msg T (row_message True r) (pp_db st))"
    by (simp add: tp)
  then have "consume_next rg fresh T tp k st =
      st\<lparr>pp_db := project_msg T (row_message True r) (pp_db st), pp_pos := bump tp k (pp_pos st)\<rparr>"
    using p by (auto simp: consume_next_def bump_def fun_eq_iff)
  moreover have "crash_next rg fresh T tp k st = st\<lparr>pp_db := project_msg T (row_message False r) (pp_db st)\<rparr>"
    using p by (simp add: crash_next_def r(4) row_message_def tp)
  ultimately show ?thesis using that r(1-3) by blast
qed

lemma consume_inv:
  assumes inv: "pipeline_inv rg T st"
  shows "pipeline_inv rg T (consume_next rg fresh T tp k st)" and "pipeline_inv rg T (crash_next rg fresh T tp k st)"
proof -
  have "pipeline_inv rg T (consume_next rg fresh T tp k st) \<and> pipeline_inv rg T (crash_next rg fresh T tp k st)"
  proof (cases "pp_pos st tp k < length (key_log tp k (bk_log (pp_broker st)))")
    case False
    then show ?thesis using inv by (simp add: consume_next_def crash_next_def Let_def)
  next
    case True
    from consume_step [OF inv this] obtain r where r: "r \<in> set (pg_outbox (pp_pg st))" "in_key tp k r"
      "decode rg (key_log tp k (bk_log (pp_broker st)) ! pp_pos st tp k) = Some (ob_payload r)"
      and eff: "consume_next rg fresh T tp k st =
        st\<lparr>pp_db := project_msg T (row_message True r) (pp_db st), pp_pos := bump tp k (pp_pos st)\<rparr>"
      "crash_next rg fresh T tp k st = st\<lparr>pp_db := project_msg T (row_message False r) (pp_db st)\<rparr>"
      by metis
    note rd = deliver_readers [where pos = "pp_pos st" and rg = rg and ms = "bk_log (pp_broker st)" and tp = tp and k = k
        and r = r, OF _ inv_store [OF inv] _ _ True r(3,1,2)]
    show ?thesis using inv rd unfolding eff by (simp add: pipeline_inv_def)
  qed
  then show "pipeline_inv rg T (consume_next rg fresh T tp k st)" "pipeline_inv rg T (crash_next rg fresh T tp k st)"
    by simp_all
qed

lemma readers_rewind:
  assumes "readers rg T rows ms pos db" and "\<forall>tp k. pos' tp k \<le> pos tp k"
  shows "readers rg T rows ms pos' db"
proof -
  have "order_reader rg rows ms pos' db t a" if "order_reader rg rows ms pos db t a" for t a
    unfolding order_reader_def by (rule op.reads_rewind [OF that [unfolded order_reader_def]]) (simp add: assms(2))
  moreover have "dispatch_reader rg T rows ms pos' db t oid" if "dispatch_reader rg T rows ms pos db t oid" for t oid
    unfolding dispatch_reader_def Let_def
    by (rule dp.reads_rewind [OF that [unfolded dispatch_reader_def Let_def]]) (simp add: assms(2))
  ultimately show ?thesis using assms(1) by (simp add: readers_def)
qed

lemma pipeline_reach_inv:
  assumes "codec_law rg" and "pipeline_reach rg T st"
  shows "pipeline_inv rg T st"
  using assms(2)
proof (induction rule: pipeline_reach.induct)
  case pipe_start
  show ?case by (rule empty_pipeline_inv)
next
  case (pipe_append st obs su args role r pg' ws ws')
  then show ?case by (blast intro: append_inv)
next
  case (pipe_poll st fault)
  then show ?case by (blast intro: poll_inv [OF assms(1)])
next
  case (pipe_restart st)
  then show ?case by (simp add: pipeline_inv_def)
next
  case (pipe_consume st fresh tp k)
  then show ?case by (blast intro: consume_inv)
next
  case (pipe_crash st fresh tp k)
  then show ?case by (blast intro: consume_inv)
next
  case (pipe_rewind st pos)
  then show ?case using readers_rewind by (auto simp: pipeline_inv_def)
qed


section \<open>The documents\<close>

lemma order_document:
  assumes inv: "pipeline_inv rg T st" and t: "CHR '':'' \<notin> set t" and a: "\<not> is_dispatch_id a"
    and n: "n \<le> length (events_of (pp_pg st) t a)"
    and doc: "order_at k (pp_db st)
      = project_events order_doc (take n (key_events ORDER_EVENTS (colon_key t a) (pg_outbox (pp_pg st))))"
  shows "map_option (\<lambda>v. (order_abs v, ov_version v)) (mg_orders (pp_db st) k)
    = (if n = 0 then None else Some (order_fold (take n (events_of (pp_pg st) t a)), n))"
proof -
  from inv obtain ws where ws: "writers_reach order_machine (pp_pg st) ws" and ok: "rows_ok T (pg_outbox (pp_pg st))"
    by (auto simp: pipeline_inv_def)
  have es: "list_all2 carries (stream (pp_pg st) t a) (key_events ORDER_EVENTS (colon_key t a) (pg_outbox (pp_pg st)))"
    using stream_events [OF inv_store [OF inv] ok t, of a] a by simp
  then have "n \<le> length (key_events ORDER_EVENTS (colon_key t a) (pg_outbox (pp_pg st)))"
    using n by (simp add: length_events_of list_all2_lengthD)
  from order_prefix_doc [OF ws a es this] doc show ?thesis by (simp add: order_at_def)
qed

lemma dispatch_document:
  assumes inv: "pipeline_inv rg T st" and t: "CHR '':'' \<notin> set t"
    and n: "n \<le> length (events_of (pp_pg st) t (dispatchAggregateId oid))"
    and doc: "dispatch_at k (pp_db st) = project_events (dispatch_step T)
      (take n (key_events DISPATCH_EVENTS (colon_key t (dispatchAggregateId oid)) (pg_outbox (pp_pg st))))"
  shows "map_option (\<lambda>v. (dispatch_abs v, dv_version v)) (mg_dispatches (pp_db st) k)
    = (if n = 0 then None else Some (dispatch_fold (take n (events_of (pp_pg st) t (dispatchAggregateId oid))), n))"
proof -
  let ?es = "key_events DISPATCH_EVENTS (colon_key t (dispatchAggregateId oid)) (pg_outbox (pp_pg st))"
  from inv obtain ws where ws: "writers_reach dispatch_machine (pp_pg st) ws" and ok: "rows_ok T (pg_outbox (pp_pg st))"
    by (auto simp: pipeline_inv_def)
  have es: "list_all2 carries (stream (pp_pg st) t (dispatchAggregateId oid)) ?es"
    using stream_events [OF inv_store [OF inv] ok t, of "dispatchAggregateId oid"] by simp
  have dated: "\<forall>e \<in> set ?es. is_ok (dispatch_set T e)"
    using ok by (auto simp: key_events_def key_rows_def rows_ok_def list_all_iff row_ok_def)
  have "n \<le> length ?es" using n es by (simp add: length_events_of list_all2_lengthD)
  from dispatch_prefix_doc [OF ws _ es dated this] doc show ?thesis by (simp add: dispatch_at_def)
qed

lemma events_length:
  assumes "pipeline_inv rg T st" and "CHR '':'' \<notin> set t"
  shows "length (key_events (stream_topic a) (colon_key t a) (pg_outbox (pp_pg st))) = length (events_of (pp_pg st) t a)"
  using stream_events [OF inv_store [OF assms(1)] _ assms(2), of T a] assms(1)
  by (simp add: pipeline_inv_def length_events_of list_all2_lengthD)

text \<open>
  C13: What readers see is always a past state of the aggregate. However the services' appends, the outbox
  poller with its failures and crashes, and the projection's consumers with theirs interleave, every
  order's document is the order aggregate folded over a prefix of the order's events, at that prefix's
  version, and every dispatch's document likewise - provided the codec decodes what it encodes.
\<close>

theorem read_models_follow_streams:
  assumes "codec_law rg" and "pipeline_reach rg T st" and "CHR '':'' \<notin> set t" and "\<not> is_dispatch_id oid"
  shows "(\<exists>n \<le> length (events_of (pp_pg st) t oid).
      map_option (\<lambda>v. (order_abs v, ov_version v)) (mg_orders (pp_db st) (colon_key t oid))
        = (if n = 0 then None else Some (order_fold (take n (events_of (pp_pg st) t oid)), n)))
    \<and> (\<exists>n \<le> length (events_of (pp_pg st) t (dispatchAggregateId oid)).
      map_option (\<lambda>v. (dispatch_abs v, dv_version v)) (mg_dispatches (pp_db st) (colon_key t oid))
        = (if n = 0 then None
           else Some (dispatch_fold (take n (events_of (pp_pg st) t (dispatchAggregateId oid))), n)))"
proof -
  have inv: "pipeline_inv rg T st" by (rule pipeline_reach_inv [OF assms(1,2)])
  then have "order_reader rg (pg_outbox (pp_pg st)) (bk_log (pp_broker st)) (pp_pos st) (pp_db st) t oid"
    and "dispatch_reader rg T (pg_outbox (pp_pg st)) (bk_log (pp_broker st)) (pp_pos st) (pp_db st) t oid"
    using assms(3,4) by (auto simp: pipeline_inv_def readers_def)
  then obtain n m where "n \<le> length (events_of (pp_pg st) t oid)"
    "order_at (colon_key t oid) (pp_db st)
      = project_events order_doc (take n (key_events ORDER_EVENTS (colon_key t oid) (pg_outbox (pp_pg st))))"
    "m \<le> length (events_of (pp_pg st) t (dispatchAggregateId oid))"
    "dispatch_at (colon_key t oid) (pp_db st) = project_events (dispatch_step T)
      (take m (key_events DISPATCH_EVENTS (colon_key t (dispatchAggregateId oid)) (pg_outbox (pp_pg st))))"
    using op.reads_progress dp.reads_progress events_length [OF inv assms(3), of oid]
      events_length [OF inv assms(3), of "dispatchAggregateId oid"] assms(4)
    unfolding order_reader_def dispatch_reader_def Let_def by (metis stream_topic_simps)
  then show ?thesis
    using order_document [OF inv assms(3,4)] dispatch_document [OF inv assms(3)] by blast
qed

section \<open>Draining\<close>

definition poll_all :: "'b registry \<Rightarrow> nat \<Rightarrow> 'b pipeline \<Rightarrow> 'b pipeline" where
  "poll_all rg n st = (poll_pipeline rg (\<lambda>r. PollOk) ^^ n) st"

definition read_all :: "'b registry \<Rightarrow> string \<Rightarrow> nat \<Rightarrow> topic \<Rightarrow> string \<Rightarrow> 'b pipeline \<Rightarrow> 'b pipeline" where
  "read_all rg fresh T tp k st =
     (consume_next rg fresh T tp k ^^ (length (key_log tp k (bk_log (pp_broker st))) - pp_pos st tp k)) st"

text \<open>As many polls as there are rows, and then as many readings as there are messages of the key left.\<close>

definition catch_up :: "'b registry \<Rightarrow> string \<Rightarrow> nat \<Rightarrow> topic \<Rightarrow> string \<Rightarrow> 'b pipeline \<Rightarrow> 'b pipeline" where
  "catch_up rg fresh T tp k st = read_all rg fresh T tp k (poll_all rg (length (pg_outbox (pp_pg st))) st)"

definition registry_up :: "'b registry \<Rightarrow> bool" where
  "registry_up rg \<longleftrightarrow> (\<forall>s. rg_latest rg s \<noteq> None) \<and> (\<forall>i p. rg_encode rg i p \<noteq> None)"

lemma publish_up:
  assumes "registry_up rg" and "row_ok T r"
  shows "\<exists>m c'. publishEnvelope rg (ob_topic r) (ob_partitionKey r) (ob_payload r) c = (Inr m, c')"
proof -
  from assms(2) have "e_eventType (ob_payload r) \<in> set known_event_types" by (simp add: row_ok_def)
  then have "subject_of (e_eventType (ob_payload r)) \<noteq> None" by (rule subject_known [THEN iffD2])
  then obtain entry where entry: "subject_of (e_eventType (ob_payload r)) = Some entry" by blast
  obtain i where "rg_latest rg (subjectFor (ob_topic r) (sub_recordName entry)) = Some i"
    using assms(1) by (metis option.exhaust registry_up_def)
  then obtain j c' where schema: "resolveSchemaId rg (subjectFor (ob_topic r) (sub_recordName entry)) c = (Inr j, c')"
    by (cases "c (subjectFor (ob_topic r) (sub_recordName entry))") (auto simp: resolveSchemaId_def)
  obtain b where "rg_encode rg j (e_payload (ob_payload r)) = Some b"
    using assms(1) by (metis option.exhaust registry_up_def)
  with entry schema show ?thesis by (simp add: publishEnvelope_def encodePayload_def)
qed

lemma poll_rows_up:
  assumes "registry_up rg"
  shows "list_all (row_ok T) rs \<Longrightarrow> \<exists>bk'. poll_rows rg (\<lambda>r. PollOk) rs (rows, bk) =
    (Inr (), map (\<lambda>b. if ob_id b \<in> ob_id ` set rs then b\<lparr>ob_status := SENT\<rparr> else b) rows, bk')"
proof (induction rs arbitrary: rows bk)
  case Nil
  then show ?case by simp
next
  case (Cons r rs)
  then obtain m c where pub: "publishEnvelope rg (ob_topic r) (ob_partitionKey r) (ob_payload r) (bk_cache bk) = (Inr m, c)"
    using publish_up [OF assms] by fastforce
  let ?mark = "\<lambda>i b. if ob_id b \<in> i then b\<lparr>ob_status := SENT\<rparr> else b"
  have "list_all (row_ok T) rs" using Cons.prems by simp
  from Cons.IH [OF this, of "mark_sent (ob_id r) rows" "bk\<lparr>bk_log := bk_log bk @ [m], bk_cache := c\<rparr>"]
  obtain bk' where "poll_rows rg (\<lambda>r. PollOk) rs (mark_sent (ob_id r) rows, bk\<lparr>bk_log := bk_log bk @ [m], bk_cache := c\<rparr>)
      = (Inr (), map (?mark (ob_id ` set rs)) (mark_sent (ob_id r) rows), bk')" by blast
  moreover have "map (?mark (ob_id ` set rs)) (mark_sent (ob_id r) rows) = map (?mark (ob_id ` set (r # rs))) rows"
    by (simp add: mark_sent_def)
  ultimately show ?case using pub by simp
qed

definition pending_count :: "'b pipeline \<Rightarrow> nat" where
  "pending_count st = length (filter (\<lambda>r. ob_status r = PENDING) (pg_outbox (pp_pg st)))"

lemma poll_up_decreases:
  assumes up: "registry_up rg" and inv: "pipeline_inv rg T st" and some: "pending_count st \<noteq> 0"
  shows "pending_count (poll_pipeline rg (\<lambda>r. PollOk) st) < pending_count st"
proof -
  let ?rows = "pg_outbox (pp_pg st)" and ?rs = "pending_rows (pg_outbox (pp_pg st))"
  let ?mark = "\<lambda>b. if ob_id b \<in> ob_id ` set ?rs then b\<lparr>ob_status := SENT\<rparr> else b"
  have sub: "set ?rs \<subseteq> {r \<in> set ?rows. ob_status r = PENDING}" by (rule pending_subset)
  have "list_all (row_ok T) ?rs" using sub inv by (auto simp: pipeline_inv_def rows_ok_def list_all_iff)
  from poll_rows_up [OF up this] obtain bk'
    where "poll_rows rg (\<lambda>r. PollOk) ?rs (?rows, pp_broker st) = (Inr (), map ?mark ?rows, bk')" by blast
  then have new: "pg_outbox (pp_pg (poll_pipeline rg (\<lambda>r. PollOk) st)) = map ?mark ?rows"
    by (simp add: poll_pipeline_def pollOnce_def Let_def)
  have "filter (\<lambda>r. ob_status r = PENDING) ?rows \<noteq> []" using some by (auto simp: pending_count_def)
  then have "sort_key ob_createdAt (filter (\<lambda>r. ob_status r = PENDING) ?rows) \<noteq> []"
    by (metis length_0_conv length_sort)
  then have "?rs \<noteq> []" by (simp add: pending_rows_def BATCH_def)
  then obtain r where "r \<in> set ?rs" by (cases ?rs) auto
  with sub have r: "r \<in> set ?rows" "ob_status r = PENDING" "ob_id r \<in> ob_id ` set ?rs" by auto
  have "length (filter (\<lambda>b. ob_status (?mark b) = PENDING) ?rows) < length (filter (\<lambda>b. ob_status b = PENDING) ?rows)"
  proof -
    have "filter (\<lambda>b. ob_status (?mark b) = PENDING) ?rows
        = filter (\<lambda>b. ob_id b \<notin> ob_id ` set ?rs) (filter (\<lambda>b. ob_status b = PENDING) ?rows)"
      by (auto intro!: filter_cong)
    moreover have "r \<in> set (filter (\<lambda>b. ob_status b = PENDING) ?rows)" using r by simp
    from length_filter_less [OF this, of "\<lambda>b. ob_id b \<notin> ob_id ` set ?rs"] r(3)
    have "length (filter (\<lambda>b. ob_id b \<notin> ob_id ` set ?rs) (filter (\<lambda>b. ob_status b = PENDING) ?rows))
        < length (filter (\<lambda>b. ob_status b = PENDING) ?rows)" by blast
    ultimately show ?thesis by (simp only:)
  qed
  then show ?thesis by (simp add: pending_count_def new filter_map comp_def)
qed

lemma poll_all_up:
  assumes "registry_up rg" and "codec_law rg"
  shows "pipeline_inv rg T st \<Longrightarrow> pending_count st \<le> n \<Longrightarrow>
    pipeline_inv rg T (poll_all rg n st) \<and> pending_count (poll_all rg n st) = 0"
proof (induction n arbitrary: st)
  case 0
  then show ?case by (simp add: poll_all_def)
next
  case (Suc n)
  let ?st = "poll_pipeline rg (\<lambda>r. PollOk) st"
  have inv: "pipeline_inv rg T ?st" by (rule poll_inv [OF assms(2) Suc.prems(1)])
  have "pending_count ?st \<le> n"
  proof (cases "pending_count st = 0")
    case True
    then have "filter (\<lambda>r. ob_status r = PENDING) (pg_outbox (pp_pg st)) = []" by (simp add: pending_count_def)
    then have "pending_rows (pg_outbox (pp_pg st)) = []" by (simp add: pending_rows_def)
    then have "?st = st" by (simp add: poll_pipeline_def pollOnce_def)
    with True show ?thesis by simp
  next
    case False
    with poll_up_decreases [OF assms(1) Suc.prems(1)] Suc.prems(2) show ?thesis by simp
  qed
  from Suc.IH [OF inv this] show ?case by (simp add: poll_all_def funpow_Suc_right del: funpow.simps)
qed

lemma poll_all_events: "pg_events (pp_pg (poll_all rg n st)) = pg_events (pp_pg st)"
proof -
  have "pg_events (pp_pg (poll_pipeline rg f st)) = pg_events (pp_pg st)" for f st
    by (simp add: poll_pipeline_def split: prod.splits)
  then show ?thesis by (induction n) (simp_all add: poll_all_def)
qed

text \<open>A log without pending rows has brought every event of a key.\<close>

lemma log_complete:
  assumes "pipeline_inv rg T st" and "pending_count st = 0"
  shows "progress (decode rg) (\<lambda>_. True) (key_events tp k (pg_outbox (pp_pg st))) 0 (key_log tp k (bk_log (pp_broker st)))
    = Some (length (key_events tp k (pg_outbox (pp_pg st))))"
proof -
  let ?rows = "pg_outbox (pp_pg st)"
  have "relayed rg tp k ?rows (bk_log (pp_broker st))" using assms(1) by (simp add: pipeline_inv_def)
  then obtain A B n where AB: "key_rows tp k ?rows = A @ B" "\<forall>r \<in> set B. ob_status r = PENDING"
    and n: "progress (decode rg) (\<lambda>_. True) (key_events tp k ?rows) 0 (key_log tp k (bk_log (pp_broker st))) = Some n"
      "length A \<le> n" by (auto simp: relayed_def)
  have "set B \<subseteq> set ?rows"
    using AB(1) by (metis filter_is_subset key_rows_def le_sup_iff set_append)
  moreover have "\<forall>r \<in> set ?rows. ob_status r \<noteq> PENDING" using assms(2) by (simp add: pending_count_def filter_empty_conv)
  ultimately have "B = []" using AB(2) by (cases B) auto
  then have "length A = length (key_events tp k ?rows)" by (simp add: key_events_def AB(1))
  with n progress_bounds [OF n(1)] show ?thesis by simp
qed

lemma read_all_spec:
  "pipeline_inv rg T st \<Longrightarrow> pp_pos st tp k \<le> length (key_log tp k (bk_log (pp_broker st))) \<Longrightarrow>
   pipeline_inv rg T (read_all rg fresh T tp k st) \<and> pp_pg (read_all rg fresh T tp k st) = pp_pg st
   \<and> pp_broker (read_all rg fresh T tp k st) = pp_broker st
   \<and> pp_pos (read_all rg fresh T tp k st) tp k = length (key_log tp k (bk_log (pp_broker st)))"
proof (induction "length (key_log tp k (bk_log (pp_broker st))) - pp_pos st tp k" arbitrary: st)
  case 0
  then show ?case by (simp add: read_all_def)
next
  case (Suc n)
  then have p: "pp_pos st tp k < length (key_log tp k (bk_log (pp_broker st)))" by simp
  let ?st = "consume_next rg fresh T tp k st"
  obtain db where st': "?st = st\<lparr>pp_db := db, pp_pos := bump tp k (pp_pos st)\<rparr>"
    by (rule consume_step [OF Suc.prems(1) p, of fresh])
  have inv: "pipeline_inv rg T ?st" by (rule consume_inv(1) [OF Suc.prems(1)])
  have left: "n = length (key_log tp k (bk_log (pp_broker ?st))) - pp_pos ?st tp k"
    using Suc.hyps(2) p by (simp add: st' bump_def)
  have "read_all rg fresh T tp k st = read_all rg fresh T tp k ?st"
    unfolding read_all_def Suc.hyps(2) [symmetric] left [symmetric] by (simp add: funpow_Suc_right del: funpow.simps)
  with Suc.hyps(1) [OF left inv] p show ?case by (simp add: st' bump_def)
qed

lemma caught_up:
  assumes "codec_law rg" and "registry_up rg" and "pipeline_inv rg T st"
    and "\<And>st'. pipeline_inv rg T st' \<Longrightarrow> pp_pos st' tp k \<le> length (key_log tp k (bk_log (pp_broker st')))"
  shows "pipeline_inv rg T (catch_up rg fresh T tp k st)"
    and "events_of (pp_pg (catch_up rg fresh T tp k st)) t a = events_of (pp_pg st) t a"
    and "pp_pos (catch_up rg fresh T tp k st) tp k
      = length (key_log tp k (bk_log (pp_broker (catch_up rg fresh T tp k st))))"
    and "progress (decode rg) (\<lambda>_. True) (key_events tp k (pg_outbox (pp_pg (catch_up rg fresh T tp k st)))) 0
        (key_log tp k (bk_log (pp_broker (catch_up rg fresh T tp k st))))
      = Some (length (key_events tp k (pg_outbox (pp_pg (catch_up rg fresh T tp k st)))))"
proof -
  let ?st = "poll_all rg (length (pg_outbox (pp_pg st))) st" and ?late = "catch_up rg fresh T tp k st"
  have "pending_count st \<le> length (pg_outbox (pp_pg st))" by (simp add: pending_count_def)
  then have polled: "pipeline_inv rg T ?st" "pending_count ?st = 0"
    using poll_all_up [OF assms(2,1,3)] by simp_all
  note fin = read_all_spec [OF polled(1) assms(4) [OF polled(1)], of fresh, folded catch_up_def]
  then show inv: "pipeline_inv rg T ?late" and "pp_pos ?late tp k = length (key_log tp k (bk_log (pp_broker ?late)))"
    by simp_all
  show "events_of (pp_pg ?late) t a = events_of (pp_pg st) t a"
    using fin by (simp add: events_of_def stream_def poll_all_events)
  have "pending_count ?late = 0" using fin polled(2) by (simp add: pending_count_def)
  then show "progress (decode rg) (\<lambda>_. True) (key_events tp k (pg_outbox (pp_pg ?late))) 0 (key_log tp k (bk_log (pp_broker ?late)))
      = Some (length (key_events tp k (pg_outbox (pp_pg ?late))))"
    by (rule log_complete [OF inv])
qed

lemma order_catches_up:
  assumes "codec_law rg" and "registry_up rg" and "pipeline_inv rg T st" and t: "CHR '':'' \<notin> set t" and a: "\<not> is_dispatch_id a"
  shows "map_option (\<lambda>v. (order_abs v, ov_version v))
      (mg_orders (pp_db (catch_up rg fresh T ORDER_EVENTS (colon_key t a) st)) (colon_key t a))
    = (if events_of (pp_pg st) t a = [] then None
       else Some (order_fold (events_of (pp_pg st) t a), length (events_of (pp_pg st) t a)))"
proof -
  let ?late = "catch_up rg fresh T ORDER_EVENTS (colon_key t a) st"
  have read: "order_reader rg (pg_outbox (pp_pg st')) (bk_log (pp_broker st')) (pp_pos st') (pp_db st') t a"
    if "pipeline_inv rg T st'" for st'
    using that t a by (auto simp: pipeline_inv_def readers_def)
  then have pos: "pp_pos st' ORDER_EVENTS (colon_key t a)
      \<le> length (key_log ORDER_EVENTS (colon_key t a) (bk_log (pp_broker st')))" if "pipeline_inv rg T st'" for st'
    using that by (fastforce simp: order_reader_def op.reads_def)
  note fin = caught_up [OF assms(1-3) pos, where fresh = fresh]
  have "order_at (colon_key t a) (pp_db ?late)
      = project_events order_doc (key_events ORDER_EVENTS (colon_key t a) (pg_outbox (pp_pg ?late)))"
    using read [OF fin(1)] fin(3) op.reads_end [OF _ fin(4)] by (simp add: order_reader_def)
  then show ?thesis
    using order_document [OF fin(1) t a, of "length (events_of (pp_pg st) t a)" "colon_key t a"]
      events_length [OF fin(1) t, of a] a fin(2) by simp
qed

lemma dispatch_catches_up:
  assumes "codec_law rg" and "registry_up rg" and "pipeline_inv rg T st" and t: "CHR '':'' \<notin> set t"
  shows "map_option (\<lambda>v. (dispatch_abs v, dv_version v))
      (mg_dispatches (pp_db (catch_up rg fresh T DISPATCH_EVENTS (colon_key t (dispatchAggregateId oid)) st)) (colon_key t oid))
    = (if events_of (pp_pg st) t (dispatchAggregateId oid) = [] then None
       else Some (dispatch_fold (events_of (pp_pg st) t (dispatchAggregateId oid)),
                  length (events_of (pp_pg st) t (dispatchAggregateId oid))))"
proof -
  let ?k = "colon_key t (dispatchAggregateId oid)" and ?a = "dispatchAggregateId oid"
  let ?late = "catch_up rg fresh T DISPATCH_EVENTS ?k st"
  have read: "dispatch_reader rg T (pg_outbox (pp_pg st')) (bk_log (pp_broker st')) (pp_pos st') (pp_db st') t oid"
    if "pipeline_inv rg T st'" for st'
    using that t by (auto simp: pipeline_inv_def readers_def)
  then have pos: "pp_pos st' DISPATCH_EVENTS ?k \<le> length (key_log DISPATCH_EVENTS ?k (bk_log (pp_broker st')))"
    if "pipeline_inv rg T st'" for st'
    using that by (fastforce simp: dispatch_reader_def dp.reads_def Let_def)
  note fin = caught_up [OF assms(1-3) pos, where fresh = fresh]
  have "dispatch_at (colon_key t oid) (pp_db ?late)
      = project_events (dispatch_step T) (key_events DISPATCH_EVENTS ?k (pg_outbox (pp_pg ?late)))"
    using read [OF fin(1)] fin(3) dp.reads_end [OF _ fin(4)] by (simp add: dispatch_reader_def Let_def)
  then show ?thesis
    using dispatch_document [OF fin(1) t, of "length (events_of (pp_pg st) t ?a)" oid "colon_key t oid"]
      events_length [OF fin(1) t, of ?a] fin(2) by simp
qed


lemma catch_up_reach: "pipeline_reach rg T st \<Longrightarrow> pipeline_reach rg T (catch_up rg fresh T tp k st)"
proof -
  assume st: "pipeline_reach rg T st"
  have "pipeline_reach rg T ((poll_pipeline rg (\<lambda>r. PollOk) ^^ n) st)" for n
    using st by (induction n) (auto intro: pipe_poll)
  moreover have "pipeline_reach rg T st' \<Longrightarrow> pipeline_reach rg T ((consume_next rg fresh T tp k ^^ n) st')" for n st'
    by (induction n) (auto intro: pipe_consume)
  ultimately show ?thesis by (simp add: catch_up_def read_all_def poll_all_def)
qed

definition placed_pipeline :: "payload pipeline" where
  "placed_pipeline = empty_pipeline\<lparr>pp_pg := sample_pg\<rparr>"

lemma placed_pipeline_reach: "pipeline_reach identity_registry 30 placed_pipeline"
proof -
  have app: "appendWithExpectedVersion AppRole None (sample_draws ''e1'') sample_append empty_pg
      = (Inr (append_envelope None (sample_draws ''e1'') sample_append), sample_pg)"
    by (rule sample_append_ok)
  have "writers_reach dispatch_machine sample_pg []"
    by (rule writers_reach.foreign [OF writers_reach.start _ _ app]) (simp_all add: sample_append_def is_dispatch_id_def)
  moreover have "service_append 30 None (sample_draws ''e1'') sample_append"
    using known_event_type_proper [of OrderPlaced]
    by (simp add: service_append_def sample_append_def sample_draws_def wellformed_def append_envelope_def buildEnvelope_def
        proper_event_type_def known_event_types_def MAX_TIME_def payload_defs is_dispatch_id_def)
  ultimately show ?thesis
    unfolding placed_pipeline_def
    by (intro pipe_append [OF pipe_start, where args = sample_append and su = "sample_draws ''e1''" and obs = None
          and role = AppRole and ws = "[]" and ws' = "[]"])
      (use app sample_pg_reach in \<open>auto simp: later_than_stream_def empty_pipeline_def, simp_all add: empty_pg_def\<close>)
qed

lemma identity_registry_laws: "codec_law identity_registry" "registry_up identity_registry"
  by (simp_all add: codec_law_def registry_up_def identity_registry_def)

lemma sample_events: "events_of sample_pg ''berlin'' ''o1'' = map fold_event_of (pg_events sample_pg)"
  by (simp add: events_of_def sample_stream)

theorem read_models_follow_streams_witness:
  "let st = catch_up identity_registry ''fresh'' 30 ORDER_EVENTS (colon_key ''berlin'' ''o1'') placed_pipeline in
   \<exists>n \<le> length (events_of (pp_pg st) ''berlin'' ''o1'').
     map_option (\<lambda>v. (order_abs v, ov_version v)) (mg_orders (pp_db st) (colon_key ''berlin'' ''o1''))
       = (if n = 0 then None else Some (order_fold (take n (events_of (pp_pg st) ''berlin'' ''o1'')), n))"
  unfolding Let_def
  by (rule read_models_follow_streams [OF identity_registry_laws(1) catch_up_reach [OF placed_pipeline_reach],
        THEN conjunct1]) (simp_all add: is_dispatch_id_def)


end
