(* ===== verification/Read_Api.thy ===== *)
theory Read_Api
  imports Projection Write_Api
begin

text \<open>
  The read service (\<open>apps/read-api/src\<close>): tenant scoping, the order and dispatch queries with the order
  cache, drivers' locations and presence, the operator's queries, and the live streams with the
  consumer that feeds them; and the telemetry worker. Redis is the record \<open>redis\<close>; its GEOSEARCH is a
  parameter. The handlers run under the authentication context the request pipeline established.
\<close>

section \<open>Tenant scope\<close>

definition currentTenant :: "auth_context \<Rightarrow> string" where "currentTenant c = ac_tenantId c"
definition currentSub :: "auth_context \<Rightarrow> string" where "currentSub c = ac_sub c"
definition scopedId :: "auth_context \<Rightarrow> string \<Rightarrow> string" where "scopedId c i = colon_key (ac_tenantId c) i"
definition scopedKey :: "auth_context \<Rightarrow> string list \<Rightarrow> string" where "scopedKey c parts = tenantKey (ac_tenantId c) parts"
definition scopedGeoKey :: "auth_context \<Rightarrow> string" where "scopedGeoKey c = driverGeoKey (ac_tenantId c)"

text \<open>\<open>tenantFilter()\<close> as the test a document passes.\<close>

definition tenantFilter :: "auth_context \<Rightarrow> string \<Rightarrow> bool" where
  "tenantFilter c docTenant \<longleftrightarrow> docTenant = ac_tenantId c"

section \<open>Redis\<close>

text \<open>Cached values with the time they expire, sets, and geo sets with the position of each member.\<close>

record redis =
  rd_views :: "string \<rightharpoonup> order_view \<times> int"
  rd_sets :: "string \<Rightarrow> string set"
  rd_geo :: "string \<Rightarrow> string \<rightharpoonup> real \<times> real"

definition redis_get :: "int \<Rightarrow> string \<Rightarrow> redis \<Rightarrow> order_view option" where
  "redis_get now k r = (case rd_views r k of
     Some (v, expires) \<Rightarrow> if now < expires then Some v else None | None \<Rightarrow> None)"

section \<open>Orders\<close>

definition CACHE_TTL_SECONDS :: int where "CACHE_TTL_SECONDS = 10"

text \<open>\<open>JSON.parse(JSON.stringify(view))\<close> drops undefined fields, which is no difference here.\<close>

definition getOrder :: "auth_context \<Rightarrow> int \<Rightarrow> string \<Rightarrow> mongo \<Rightarrow> redis \<Rightarrow> order_view option \<times> redis" where
  "getOrder c now orderId db r =
     (let cacheKey = scopedKey c [''order'', orderId, ''view''] in
      case redis_get now cacheKey r of
        Some v \<Rightarrow> (Some v, r)
      | None \<Rightarrow>
          (case mg_orders db (scopedId c orderId) of
             None \<Rightarrow> (None, r)
           | Some v \<Rightarrow> (Some v, r\<lparr>rd_views := (rd_views r)(cacheKey \<mapsto> (v, now + CACHE_TTL_SECONDS * 1000))\<rparr>)))"

text \<open>
  \<open>sort({ updatedAt: -1 }).limit(n)\<close> over the collection in natural order; times that are no dates are
  outside the model.
\<close>

definition time_key :: "datestr \<Rightarrow> int" where
  "time_key d = (case d of ISO t \<Rightarrow> - t | NotDate _ \<Rightarrow> 0)"

definition recent :: "nat \<Rightarrow> order_view list \<Rightarrow> order_view list" where
  "recent n docs = take n (sort_key (\<lambda>v. time_key (ov_updatedAt v)) docs)"

definition listRecentOrders :: "auth_context \<Rightarrow> order_view list \<Rightarrow> order_view list" where
  "listRecentOrders c docs = recent 100 (filter (\<lambda>v. tenantFilter c (ov_tenantId v)) docs)"

definition get_order :: "auth_context \<Rightarrow> int \<Rightarrow> string \<Rightarrow> mongo \<Rightarrow> redis \<Rightarrow> (http_error, order_view) result \<times> redis" where
  "get_order c now orderId db r =
     (case getOrder c now orderId db r of
        (None, r') \<Rightarrow> (Inl (NotFound (''Order '' @ orderId @ '' not found'')), r')
      | (Some v, r') \<Rightarrow> (Inr v, r'))"

text \<open>The service's own payments client, which differs from the write service's in what it logs.\<close>

definition getPayment ::
    "(http_error, string \<times> payment_status \<times> int) result option \<Rightarrow> (string, payment_status option) result" where
  "getPayment reply =
     (case reply of
        None \<Rightarrow> Inl ''fetch failed''
      | Some (Inr (_, s, _)) \<Rightarrow> Inr (Some s)
      | Some (Inl e) \<Rightarrow>
          if http_status e = 404 then Inr None
          else Inl (''payments GET failed: '' @ show_nat (http_status e)))"

definition get_payment ::
    "(http_error, string \<times> payment_status \<times> int) result option \<Rightarrow> (http_error, payment_status option) result" where
  "get_payment reply = (case getPayment reply of Inl e \<Rightarrow> Inl (InternalError e) | Inr s \<Rightarrow> Inr s)"

section \<open>Dispatches\<close>

record delivery_view =
  lv_tenantId :: string
  lv_orderId :: "string option"
  lv_status :: dispatch_status
  lv_reason :: "string option"
  lv_version :: nat
  lv_updatedAt :: datestr

definition toDeliveryView :: "dispatch_view \<Rightarrow> delivery_view" where
  "toDeliveryView v = \<lparr>lv_tenantId = dv_tenantId v, lv_orderId = dv_orderId v, lv_status = dv_status v,
     lv_reason = dv_reason v, lv_version = dv_version v, lv_updatedAt = dv_updatedAt v\<rparr>"

definition byOrder :: "string \<Rightarrow> string \<Rightarrow> mongo \<Rightarrow> dispatch_view option" where
  "byOrder tenantId orderId db = mg_dispatches db (colon_key tenantId orderId)"

definition allForTenant :: "string \<Rightarrow> dispatch_view list \<Rightarrow> dispatch_view list" where
  "allForTenant tenantId docs = filter (\<lambda>v. dv_tenantId v = tenantId) docs"

definition forDriver :: "string \<Rightarrow> string \<Rightarrow> dispatch_view list \<Rightarrow> dispatch_view option" where
  "forDriver tenantId driverId docs = find (\<lambda>v. dv_tenantId v = tenantId \<and>
     (dv_status v = OFFERED \<and> dv_offeredDriverId v = Some driverId \<or>
      dv_status v \<in> {DISPATCHED, PICKED_UP} \<and> dv_driverId v = Some driverId)) docs"

definition driverLocationVisible :: "dispatch_status \<Rightarrow> bool" where
  "driverLocationVisible s \<longleftrightarrow> s = DISPATCHED \<or> s = PICKED_UP"

definition get_order_dispatch :: "auth_context \<Rightarrow> string \<Rightarrow> mongo \<Rightarrow> delivery_view option" where
  "get_order_dispatch c orderId db = map_option toDeliveryView (byOrder (currentTenant c) orderId db)"

definition get_driver_dispatch :: "auth_context \<Rightarrow> string \<Rightarrow> dispatch_view list \<Rightarrow> dispatch_view option" where
  "get_driver_dispatch c driverId docs = forDriver (currentTenant c) driverId docs"

definition driver_location :: "auth_context \<Rightarrow> string \<Rightarrow> mongo \<Rightarrow> redis \<Rightarrow> (real \<times> real) option" where
  "driver_location c orderId db r =
     (case byOrder (currentTenant c) orderId db of
        None \<Rightarrow> None
      | Some d \<Rightarrow>
          (case dv_driverId d of
             None \<Rightarrow> None
           | Some i \<Rightarrow>
               if i = [] \<or> \<not> driverLocationVisible (dv_status d) then None
               else rd_geo r (driverGeoKey (currentTenant c)) i))"

section \<open>Drivers\<close>

definition jnum :: "json option \<Rightarrow> real option" where
  "jnum j = (case j of Some (JInt n) \<Rightarrow> Some (of_int n) | Some (JFrac x) \<Rightarrow> Some x | _ \<Rightarrow> None)"

record location_dto =
  ld_lng :: real
  ld_lat :: real
  ld_orderId :: "string option"

text \<open>\<open>IsOptional\<close> passes over an absent and a null \<open>orderId\<close>.\<close>

definition location_of :: "json \<Rightarrow> location_dto option" where
  "location_of body =
     (case (jnum (jget ''lng'' body), jnum (jget ''lat'' body)) of
        (Some x, Some y) \<Rightarrow>
          if -180 \<le> x \<and> x \<le> 180 \<and> -90 \<le> y \<and> y \<le> 90
          then (case jget ''orderId'' body of
             None \<Rightarrow> Some \<lparr>ld_lng = x, ld_lat = y, ld_orderId = None\<rparr>
           | Some JNull \<Rightarrow> Some \<lparr>ld_lng = x, ld_lat = y, ld_orderId = None\<rparr>
           | Some (JStr s) \<Rightarrow> Some \<lparr>ld_lng = x, ld_lat = y, ld_orderId = Some s\<rparr>
           | _ \<Rightarrow> None)
          else None
      | _ \<Rightarrow> None)"

definition telemetry_publish ::
    "'b registry \<Rightarrow> obs_context option \<Rightarrow> draws \<Rightarrow> string \<Rightarrow> string \<Rightarrow> location_dto \<Rightarrow> id_cache
     \<Rightarrow> (string, 'b kafka_message) result \<times> id_cache" where
  "telemetry_publish rg obs su tenantId driverId dto cache =
     publishEnvelope rg TELEMETRY_STREAMS (colon_key tenantId driverId)
       (buildEnvelope obs su tenantId DriverTelemetryStreamed 1
          (telemetry_payload driverId (ld_orderId dto) (ld_lng dto) (ld_lat dto)) None None None) cache"

text \<open>The driver comes from the path, whoever the caller is.\<close>

definition report_location ::
    "'b registry \<Rightarrow> auth_context \<Rightarrow> obs_context option \<Rightarrow> draws \<Rightarrow> string \<Rightarrow> json \<Rightarrow> id_cache
     \<Rightarrow> (http_error, 'b kafka_message) result \<times> id_cache" where
  "report_location rg c obs su driverId body cache =
     (case location_of body of
        None \<Rightarrow> (Inl (BadRequest ''validation''), cache)
      | Some dto \<Rightarrow>
          (case telemetry_publish rg obs su (currentTenant c) driverId dto cache of
             (Inl e, cache') \<Rightarrow> (Inl (InternalError e), cache')
           | (Inr m, cache') \<Rightarrow> (Inr m, cache')))"

definition redis_sadd :: "string \<Rightarrow> string \<Rightarrow> redis \<Rightarrow> redis" where
  "redis_sadd k m r = r\<lparr>rd_sets := (rd_sets r)(k := insert m (rd_sets r k))\<rparr>"

definition redis_srem :: "string \<Rightarrow> string \<Rightarrow> redis \<Rightarrow> redis" where
  "redis_srem k m r = r\<lparr>rd_sets := (rd_sets r)(k := rd_sets r k - {m})\<rparr>"

definition isOnline :: "auth_context \<Rightarrow> string \<Rightarrow> redis \<Rightarrow> bool" where
  "isOnline c driverId r \<longleftrightarrow> driverId \<in> rd_sets r (driverOnlineKey (currentTenant c))"

definition goOnline :: "auth_context \<Rightarrow> string \<Rightarrow> redis \<Rightarrow> redis" where
  "goOnline c driverId r = redis_sadd (driverOnlineKey (currentTenant c)) driverId r"

definition goOffline :: "auth_context \<Rightarrow> string \<Rightarrow> redis \<Rightarrow> redis" where
  "goOffline c driverId r = redis_srem (driverOnlineKey (currentTenant c)) driverId r"

text \<open>
  \<open>GEOSEARCH ... ASC WITHDIST WITHCOORD\<close> on a geo set, from a centre within a radius: the members with
  their distances and coordinates.
\<close>

type_synonym geosearch =
  "(string \<rightharpoonup> real \<times> real) \<Rightarrow> string \<Rightarrow> string \<Rightarrow> string \<Rightarrow> (string \<times> real \<times> real \<times> real) list"

definition to_nearby :: "string \<times> real \<times> real \<times> real \<Rightarrow> nearby_driver" where
  "to_nearby x = (case x of (d, km, lng, lat) \<Rightarrow>
     \<lparr>nd_driverId = d, nd_distanceKm = km, nd_lng = lng, nd_lat = lat\<rparr>)"

definition nearby ::
    "geosearch \<Rightarrow> auth_context \<Rightarrow> string \<Rightarrow> string \<Rightarrow> string option \<Rightarrow> redis \<Rightarrow> nearby_driver list" where
  "nearby search c lng lat radiusKm r =
     map to_nearby (search (rd_geo r (scopedGeoKey c)) lng lat (nullish radiusKm ''5''))"

section \<open>Telemetry\<close>

text \<open>\<open>GEOADD\<close>: the latest position of a member wins. The schema requires all three fields.\<close>

definition applyTelemetry :: "envelope \<Rightarrow> redis \<Rightarrow> redis" where
  "applyTelemetry env r =
     (case (pl_lng (e_payload env), pl_lat (e_payload env), pl_driverId (e_payload env)) of
        (Some x, Some y, Some d) \<Rightarrow>
          r\<lparr>rd_geo := (rd_geo r)(driverGeoKey (e_tenantId env) :=
              (rd_geo r (driverGeoKey (e_tenantId env)))(d \<mapsto> (x, y)))\<rparr>
      | _ \<Rightarrow> r)"

definition run_telemetry_message ::
    "'b registry \<Rightarrow> string \<Rightarrow> 'b kafka_message \<Rightarrow> redis \<Rightarrow> (string, unit) result \<times> redis" where
  "run_telemetry_message rg freshId m r =
     (case readEnvelope rg freshId m of
        Inl e \<Rightarrow> (Inl e, r)
      | Inr None \<Rightarrow> (Inr (), r)
      | Inr (Some mp) \<Rightarrow>
          (case envelope_of mp of None \<Rightarrow> (Inr (), r) | Some env \<Rightarrow> (Inr (), applyTelemetry env r)))"

section \<open>The operator\<close>

definition ADMIN_NEARBY_RADIUS_KM :: string where "ADMIN_NEARBY_RADIUS_KM = ''50''"

definition listAllOrders :: "order_view list \<Rightarrow> order_view list" where
  "listAllOrders docs = recent 200 docs"

text \<open>\<open>String(x)\<close> of a coordinate is the parameter \<open>num\<close>.\<close>

definition listAllDrivers ::
    "geosearch \<Rightarrow> (real \<Rightarrow> string) \<Rightarrow> tenant_view list \<Rightarrow> redis \<Rightarrow> (string \<times> nearby_driver) list" where
  "listAllDrivers search num tenants r =
     concat (map (\<lambda>t. map (\<lambda>x. (tv_slug t, to_nearby x))
       (search (rd_geo r (driverGeoKey (tv_slug t))) (num (tv_lng t)) (num (tv_lat t)) ADMIN_NEARBY_RADIUS_KM)) tenants)"

section \<open>Live streams\<close>

record stream_event =
  se_orderId :: string
  se_eventType :: event_type
  se_status :: order_status
  se_cancelReason :: "string option"

definition toStreamEvent :: "envelope \<Rightarrow> stream_event" where
  "toStreamEvent env =
     \<lparr>se_orderId = nullish (pl_orderId (e_payload env)) [], se_eventType = e_eventType env, se_status = PLACED,
      se_cancelReason = (if e_eventType env = OrderCancelled then pl_reason (e_payload env) else None)\<rparr>"

definition toDispatchView :: "nat \<Rightarrow> envelope \<Rightarrow> (string, dispatch_view option) result" where
  "toDispatchView offerTimeoutSeconds env =
     (let base = \<lparr>dv_tenantId = e_tenantId env, dv_orderId = pl_orderId (e_payload env), dv_status = OFFERED,
            dv_driverId = None, dv_offeredDriverId = None, dv_reason = None, dv_version = e_version env,
            dv_updatedAt = e_occurredAt env, dv_offerExpiresAt = None\<rparr>
      in case e_eventType env of
        DriverOffered \<Rightarrow>
          (case offer_expiry offerTimeoutSeconds env of
             None \<Rightarrow> Inl ''RangeError: Invalid time value''
           | Some expiry \<Rightarrow> Inr (Some (base\<lparr>dv_offeredDriverId := pl_driverId (e_payload env),
               dv_offerExpiresAt := Some expiry\<rparr>)))
      | DispatchAccepted \<Rightarrow> Inr (Some (base\<lparr>dv_status := DISPATCHED, dv_driverId := pl_driverId (e_payload env)\<rparr>))
      | OrderPickedUp \<Rightarrow> Inr (Some (base\<lparr>dv_status := PICKED_UP\<rparr>))
      | OrderDelivered \<Rightarrow> Inr (Some (base\<lparr>dv_status := DELIVERED\<rparr>))
      | DispatchFailed \<Rightarrow> Inr (Some (base\<lparr>dv_status := FAILED, dv_reason := pl_reason (e_payload env)\<rparr>))
      | _ \<Rightarrow> Inr None)"

text \<open>What the feeder publishes, tagged with the tenant whose subject it goes to.\<close>

datatype feed = OrderFeed string stream_event | DispatchFeed string dispatch_view

definition feed_message ::
    "'b registry \<Rightarrow> string \<Rightarrow> nat \<Rightarrow> 'b kafka_message \<Rightarrow> (string, feed list) result" where
  "feed_message rg freshId offerTimeoutSeconds m =
     (case readEnvelope rg freshId m of
        Inl e \<Rightarrow> Inl e
      | Inr None \<Rightarrow> Inr []
      | Inr (Some mp) \<Rightarrow>
          (case envelope_of mp of
             None \<Rightarrow> Inr []
           | Some env \<Rightarrow>
               if km_topic m = DISPATCH_EVENTS
               then (case toDispatchView offerTimeoutSeconds env of
                  Inl e \<Rightarrow> Inl e
                | Inr None \<Rightarrow> Inr []
                | Inr (Some v) \<Rightarrow> Inr [DispatchFeed (e_tenantId env) v])
               else Inr [OrderFeed (e_tenantId env) (toStreamEvent env)]))"

text \<open>A subject per tenant: what a subscriber of a tenant's subject gets of what is published after it.\<close>

fun order_stream :: "string \<Rightarrow> feed list \<Rightarrow> stream_event list" where
  "order_stream t [] = []"
| "order_stream t (OrderFeed u e # fs) = (if u = t then e # order_stream t fs else order_stream t fs)"
| "order_stream t (DispatchFeed u v # fs) = order_stream t fs"

fun dispatch_stream :: "string \<Rightarrow> feed list \<Rightarrow> dispatch_view list" where
  "dispatch_stream t [] = []"
| "dispatch_stream t (OrderFeed u e # fs) = dispatch_stream t fs"
| "dispatch_stream t (DispatchFeed u v # fs) = (if u = t then v # dispatch_stream t fs else dispatch_stream t fs)"

definition merchant_orders_stream :: "auth_context \<Rightarrow> feed list \<Rightarrow> stream_event list" where
  "merchant_orders_stream c fs = order_stream (currentTenant c) fs"

definition merchant_dispatch_snapshot :: "auth_context \<Rightarrow> dispatch_view list \<Rightarrow> delivery_view list" where
  "merchant_dispatch_snapshot c docs = map toDeliveryView (allForTenant (currentTenant c) docs)"

definition merchant_dispatch_stream :: "auth_context \<Rightarrow> feed list \<Rightarrow> delivery_view list" where
  "merchant_dispatch_stream c fs = map toDeliveryView (dispatch_stream (currentTenant c) fs)"

text \<open>The operator's stream merges the subjects of the catalog's tenants; one subject keeps its order.\<close>

definition admin_orders_stream :: "tenant_view list \<Rightarrow> feed list \<Rightarrow> (string \<times> stream_event) list" where
  "admin_orders_stream tenants fs = concat (map (\<lambda>f. case f of
     OrderFeed u e \<Rightarrow> map (\<lambda>t. (tv_slug t, e)) (filter (\<lambda>t. tv_slug t = u) tenants)
   | DispatchFeed _ _ \<Rightarrow> []) fs)"

definition isForDriver :: "dispatch_view \<Rightarrow> string \<Rightarrow> bool" where
  "isForDriver v driverId \<longleftrightarrow> dv_offeredDriverId v = Some driverId \<or> dv_driverId v = Some driverId"

definition acceptForDriver ::
    "string option list \<Rightarrow> dispatch_view \<Rightarrow> string \<Rightarrow> bool \<times> string option list" where
  "acceptForDriver owned v driverId =
     (let owned' = (if dv_driverId v = Some driverId then List.insert (dv_orderId v) owned else owned)
      in (isForDriver v driverId \<or> dv_orderId v \<in> set owned', owned'))"

definition stamp_driver :: "string \<Rightarrow> dispatch_view \<Rightarrow> dispatch_view" where
  "stamp_driver driverId v =
     (case dv_driverId v of
        None \<Rightarrow> v\<lparr>dv_driverId := Some driverId\<rparr>
      | Some d \<Rightarrow> if d = [] then v\<lparr>dv_driverId := Some driverId\<rparr> else v)"

fun driver_emit :: "string \<Rightarrow> string option list \<Rightarrow> dispatch_view list \<Rightarrow> dispatch_view list" where
  "driver_emit driverId owned [] = []"
| "driver_emit driverId owned (v # vs) =
     (case acceptForDriver owned v driverId of
        (True, owned') \<Rightarrow> stamp_driver driverId v # driver_emit driverId owned' vs
      | (False, owned') \<Rightarrow> driver_emit driverId owned' vs)"

text \<open>
  The driver's stream: the snapshot, then the live tail. What is published while the snapshot query
  runs is lost (\<open>concat\<close> subscribes late), so \<open>fs\<close> is what is published after it.
\<close>

definition driver_stream :: "auth_context \<Rightarrow> dispatch_view list \<Rightarrow> feed list \<Rightarrow> dispatch_view list" where
  "driver_stream c docs fs =
     (let tenantId = currentTenant c; driverId = currentSub c in
      driver_emit driverId []
        ((case forDriver tenantId driverId docs of None \<Rightarrow> [] | Some v \<Rightarrow> [v]) @ dispatch_stream tenantId fs))"


section \<open>The order cache\<close>

record order_get =
  og_ctx :: auth_context
  og_now :: int
  og_orderId :: string
  og_db :: mongo

text \<open>The cache after a history of order queries, oldest first, each over the database of its time.\<close>

definition run_gets :: "order_get list \<Rightarrow> redis \<Rightarrow> redis" where
  "run_gets hist r = foldl (\<lambda>r g. snd (getOrder (og_ctx g) (og_now g) (og_orderId g) (og_db g) r)) r hist"

definition empty_redis :: redis where
  "empty_redis = \<lparr>rd_views = Map.empty, rd_sets = (\<lambda>_. {}), rd_geo = (\<lambda>_. Map.empty)\<rparr>"

definition order_key :: "string \<Rightarrow> string \<Rightarrow> string" where
  "order_key t oid = tenantKey t [''order'', oid, ''view'']"

lemma order_key_inject:
  assumes "CHR ''}'' \<notin> set t" and "CHR ''}'' \<notin> set u" and "order_key t a = order_key u b"
  shows "t = u \<and> a = b"
proof -
  have k: "order_key t a = ''tenant:{'' @ t @ CHR ''}'' # ('':order:'' @ a @ '':view'')" for t a
    by (simp add: order_key_def tenantKey_nonempty)
  from assms(3) have "t @ CHR ''}'' # ('':order:'' @ a @ '':view'') = u @ CHR ''}'' # ('':order:'' @ b @ '':view'')"
    by (simp add: k)
  then show ?thesis using append_sep_inject [OF assms(1,2)] by auto
qed

definition cache_inv :: "order_get list \<Rightarrow> redis \<Rightarrow> bool" where
  "cache_inv hist r \<longleftrightarrow> (\<forall>t oid v expires. CHR ''}'' \<notin> set t \<and> rd_views r (order_key t oid) = Some (v, expires) \<longrightarrow>
     (\<exists>g \<in> set hist. ac_tenantId (og_ctx g) = t \<and> og_orderId g = oid \<and> expires = og_now g + 10000
        \<and> mg_orders (og_db g) (colon_key t oid) = Some v))"

lemma getOrder_key:
  "getOrder c now oid db r =
    (case redis_get now (order_key (ac_tenantId c) oid) r of
       Some v \<Rightarrow> (Some v, r)
     | None \<Rightarrow>
         (case mg_orders db (colon_key (ac_tenantId c) oid) of
            None \<Rightarrow> (None, r)
          | Some v \<Rightarrow> (Some v, r\<lparr>rd_views := (rd_views r)(order_key (ac_tenantId c) oid \<mapsto> (v, now + 10000))\<rparr>)))"
  by (simp add: getOrder_def scopedKey_def scopedId_def order_key_def CACHE_TTL_SECONDS_def Let_def split: option.splits)

lemma cache_step:
  assumes "cache_inv hist r" and "CHR ''}'' \<notin> set (ac_tenantId (og_ctx g))"
  shows "cache_inv (hist @ [g]) (snd (getOrder (og_ctx g) (og_now g) (og_orderId g) (og_db g) r))"
proof -
  have mono: "cache_inv (hist @ [g]) r" using assms(1) unfolding cache_inv_def by fastforce
  show ?thesis
  proof (cases "redis_get (og_now g) (order_key (ac_tenantId (og_ctx g)) (og_orderId g)) r")
    case (Some v)
    with mono show ?thesis by (simp add: getOrder_key)
  next
    case None
    show ?thesis
    proof (cases "mg_orders (og_db g) (colon_key (ac_tenantId (og_ctx g)) (og_orderId g))")
      case None
      with \<open>redis_get _ _ _ = None\<close> mono show ?thesis by (simp add: getOrder_key)
    next
      case (Some v)
      let ?k = "order_key (ac_tenantId (og_ctx g)) (og_orderId g)"
      have "\<exists>h \<in> set (hist @ [g]). ac_tenantId (og_ctx h) = t \<and> og_orderId h = oid \<and> expires = og_now h + 10000
          \<and> mg_orders (og_db h) (colon_key t oid) = Some w"
        if "CHR ''}'' \<notin> set t" "((rd_views r)(?k \<mapsto> (v, og_now g + 10000))) (order_key t oid) = Some (w, expires)"
        for t oid w expires
      proof (cases "order_key t oid = ?k")
        case True
        with order_key_inject [OF that(1) assms(2) True] that(2) Some show ?thesis by auto
      next
        case False
        with that mono show ?thesis unfolding cache_inv_def by auto
      qed
      with None Some show ?thesis by (simp add: getOrder_key cache_inv_def del: fun_upd_apply)
    qed
  qed
qed

lemma run_gets_inv:
  "(\<forall>g \<in> set hist. CHR ''}'' \<notin> set (ac_tenantId (og_ctx g))) \<Longrightarrow> cache_inv hist (run_gets hist empty_redis)"
proof (induction hist rule: rev_induct)
  case Nil
  then show ?case by (simp add: run_gets_def cache_inv_def empty_redis_def)
next
  case (snoc g hist)
  then show ?case using cache_step [of hist "run_gets hist empty_redis" g] by (simp add: run_gets_def)
qed

text \<open>Every order document is filed under its tenant and an id, and slugs have no colon.\<close>

definition filed :: "mongo \<Rightarrow> bool" where
  "filed db \<longleftrightarrow> (\<forall>k v. mg_orders db k = Some v \<longrightarrow>
     CHR '':'' \<notin> set (ov_tenantId v) \<and> (\<exists>i. k = colon_key (ov_tenantId v) i))"

text \<open>
  C33: Order queries are tenant-isolated and at most ten seconds stale. After any history of queries by
  any tenants over a changing read model, the view a query returns is one of the caller's own tenant,
  and is the document that tenant's order had at that moment or at an earlier query of the history
  made less than ten seconds ago by the clock; a query answers 404 only when the document is absent.
\<close>

theorem order_query_isolated_and_fresh:
  assumes "\<forall>g \<in> set hist. CHR ''}'' \<notin> set (ac_tenantId (og_ctx g)) \<and> filed (og_db g)"
    and "filed db" and "CHR ''}'' \<notin> set (ac_tenantId c)" and "CHR '':'' \<notin> set (ac_tenantId c)"
    and "get_order c now oid db (run_gets hist empty_redis) = (res, r')"
  shows "case res of
      Inr v \<Rightarrow> ov_tenantId v = ac_tenantId c \<and>
        (\<exists>g \<in> set (hist @ [\<lparr>og_ctx = c, og_now = now, og_orderId = oid, og_db = db\<rparr>]).
           mg_orders (og_db g) (scopedId c oid) = Some v \<and> now < og_now g + 10000)
    | Inl e \<Rightarrow> mg_orders db (scopedId c oid) = None \<and> http_status e = 404"
proof -
  let ?r = "run_gets hist empty_redis" and ?t = "ac_tenantId c"
  have own: "ov_tenantId v = ?t" if "filed d" "mg_orders d (colon_key ?t oid) = Some v" for d v
    using that assms(4) unfolding filed_def by (metis colon_key_inject)
  show ?thesis
  proof (cases "redis_get now (order_key ?t oid) ?r")
    case (Some v)
    then obtain expires where e: "rd_views ?r (order_key ?t oid) = Some (v, expires)" "now < expires"
      by (auto simp: redis_get_def split: option.splits if_splits)
    obtain g where g: "g \<in> set hist" "expires = og_now g + 10000" "mg_orders (og_db g) (colon_key ?t oid) = Some v"
      using run_gets_inv [of hist] assms(1,3) e(1) unfolding cache_inv_def by blast
    with own assms(1) have "ov_tenantId v = ?t" by blast
    moreover have "\<exists>g \<in> set (hist @ [\<lparr>og_ctx = c, og_now = now, og_orderId = oid, og_db = db\<rparr>]).
        mg_orders (og_db g) (scopedId c oid) = Some v \<and> now < og_now g + 10000"
      using g e(2) by (auto simp: scopedId_def)
    ultimately show ?thesis using assms(5) Some by (auto simp: get_order_def getOrder_key)
  next
    case None
    with assms(2,5) own show ?thesis
      by (cases "mg_orders db (colon_key ?t oid)") (auto simp: get_order_def getOrder_key scopedId_def)
  qed
qed

section \<open>The live views mirror the projection\<close>

text \<open>
  The live dispatch view is the view the projection stores for a new order. For every event,
  the feeder's \<open>toDispatchView\<close> fails, ignores or produces exactly as the projection's \<open>switch\<close> does, and
  what it produces is the document the projection would insert for an order it has not seen; a guarded
  upsert of the same event into any older document ends in the same status and version.
\<close>

theorem live_view_mirrors_projection:
  "toDispatchView T env =
     (case dispatch_set T env of
        Inl e \<Rightarrow> Inl e | Inr None \<Rightarrow> Inr None | Inr (Some f) \<Rightarrow> Inr (Some (f None)))
   \<and> (case toDispatchView T env of
        Inr (Some w) \<Rightarrow> dispatch_step T env None = Some w
          \<and> map_option (\<lambda>v. (dv_status v, dv_version v)) (dispatch_step T env (Some (old\<lparr>dv_version := e_version env - n\<rparr>)))
            = Some (if n = 0 \<or> e_version env = 0 then (dv_status old, e_version env) else (dv_status w, dv_version w))
      | _ \<Rightarrow> dispatch_step T env found = found)"
  by (cases "e_eventType env"; cases "offer_expiry T env")
    (auto simp: toDispatchView_def dispatch_set_def dispatch_base_def dispatch_step_def dispatch_doc_def Let_def)

section \<open>The driver's stream\<close>

text \<open>
  The reference: a view concerns a driver when it names them, or when an earlier view (or itself)
  assigned its order to them.
\<close>

definition concerns :: "string \<Rightarrow> dispatch_view list \<Rightarrow> nat \<Rightarrow> bool" where
  "concerns d vs i \<longleftrightarrow> isForDriver (vs ! i) d \<or>
     list_ex (\<lambda>v. dv_driverId v = Some d \<and> dv_orderId v = dv_orderId (vs ! i)) (take (Suc i) vs)"

lemma driver_emit_spec:
  "driver_emit d owned vs = map (\<lambda>i. stamp_driver d (vs ! i))
     (filter (\<lambda>i. concerns d vs i \<or> dv_orderId (vs ! i) \<in> set owned) [0..<length vs])"
proof (induction vs arbitrary: owned)
  case Nil
  then show ?case by simp
next
  case (Cons v vs)
  let ?owned' = "if dv_driverId v = Some d then List.insert (dv_orderId v) owned else owned"
  have ixs: "[0..<length (v # vs)] = 0 # map Suc [0..<length vs]"
    by (simp add: map_Suc_upt upt_conv_Cons del: upt_Suc)
  have head: "concerns d (v # vs) 0 \<or> dv_orderId v \<in> set owned \<longleftrightarrow> isForDriver v d \<or> dv_orderId v \<in> set ?owned'"
    by (auto simp: concerns_def isForDriver_def)
  have tail: "concerns d (v # vs) (Suc i) \<or> dv_orderId (vs ! i) \<in> set owned
      \<longleftrightarrow> concerns d vs i \<or> dv_orderId (vs ! i) \<in> set ?owned'" for i
    by (auto simp: concerns_def)
  show ?case
    unfolding ixs using head tail Cons.IH [of ?owned']
    by (simp add: acceptForDriver_def Let_def filter_map comp_def)
qed

text \<open>
  A driver's stream holds exactly what concerns the driver, in order. It is the sequence of those
  views, of the snapshot and the tenant's live views, that name the driver as offered or assigned or
  belong to an order assigned to the driver earlier on this connection; so follow-ups that carry no
  driver reach the driver of the order, and no view of another tenant and no other driver's job does.
\<close>

theorem driver_stream_exact:
  "driver_stream c docs fs =
    (let vs = (case forDriver (ac_tenantId c) (ac_sub c) docs of None \<Rightarrow> [] | Some v \<Rightarrow> [v])
              @ dispatch_stream (ac_tenantId c) fs
     in map (\<lambda>i. stamp_driver (ac_sub c) (vs ! i)) (filter (concerns (ac_sub c) vs) [0..<length vs]))"
  by (simp add: driver_stream_def currentTenant_def currentSub_def driver_emit_spec Let_def)

section \<open>A sample history\<close>

definition sample_order_view :: order_view where
  "sample_order_view = \<lparr>ov_tenantId = ''berlin'', ov_orderId = Some ''o1'', ov_customerId = Some ''c1'', ov_items = None,
     ov_totalAmount = Some 5, ov_status = PLACED, ov_version = 1, ov_updatedAt = ISO 0, ov_cancelReason = None\<rparr>"

definition sample_read_db :: mongo where
  "sample_read_db = \<lparr>mg_orders = [''berlin:o1'' \<mapsto> sample_order_view], mg_dispatches = Map.empty, mg_processed = []\<rparr>"

definition sample_reader :: auth_context where
  "sample_reader = \<lparr>ac_tenantId = ''berlin'', ac_role = ROLE_CUSTOMER, ac_sub = ''c1''\<rparr>"

text \<open>The order was queried at time 0 and its document is gone at time 5000.\<close>

theorem order_query_isolated_and_fresh_witness:
  "case fst (get_order sample_reader 5000 ''o1'' empty_mongo (run_gets
      [\<lparr>og_ctx = sample_reader, og_now = 0, og_orderId = ''o1'', og_db = sample_read_db\<rparr>] empty_redis)) of
     Inr v \<Rightarrow> ov_tenantId v = ''berlin'' | Inl e \<Rightarrow> False"
proof -
  let ?g = "\<lparr>og_ctx = sample_reader, og_now = 0, og_orderId = ''o1'', og_db = sample_read_db\<rparr>"
  have k: "filed sample_read_db" "filed empty_mongo"
    by (auto simp: filed_def sample_read_db_def sample_order_view_def empty_mongo_def colon_key_def)
  obtain res r' where run: "get_order sample_reader 5000 ''o1'' empty_mongo (run_gets [?g] empty_redis) = (res, r')"
    by (rule prod.exhaust)
  have hit: "\<exists>v. res = Inr v"
    using run by (auto simp: get_order_def getOrder_key run_gets_def redis_get_def empty_redis_def sample_read_db_def
        sample_reader_def colon_key_def)
  from order_query_isolated_and_fresh [of "[?g]", OF _ k(2) _ _ run] k(1) hit run
  show ?thesis by (auto simp: sample_reader_def)
qed

end
