(* ===== verification/Services.thy ===== *)
theory Services
  imports Delivery_Properties Read_Api
begin

text \<open>
  How the services start and stop: the \<open>main\<close> of the workers (\<open>apps/saga-worker\<close>,
  \<open>apps/projection-worker\<close>, \<open>apps/telemetry-worker\<close>, \<open>apps/outbox-poller\<close>) and the read service's feeder
  as sequences of acts on the resources they hold, the ports of the HTTP services, and from which
  message on a consumer group is served. A handler never runs without what it works on, except the
  poller's loop while it is being stopped; and a group that is new to its topic never gets what was
  published before.
\<close>

section \<open>Starting and stopping\<close>

text \<open>
  A resource is a connection, or an activity that works until it is closed: a consumer, the Temporal worker,
  the poller's loop, which only the end of the process ends.
\<close>

datatype resource =
  PrismaClient | MongoClient | RedisCluster | TemporalNative | TemporalClient | KafkaProducer
  | TemporalWorker | KafkaConsumer consumer_group | PollLoop

datatype boot_act =
  Open resource | Subscribe consumer_group topic bool | RunConsumer consumer_group | Close resource | Exit nat

definition consumer_acts :: "consumer_group \<Rightarrow> topic list \<Rightarrow> boot_act list" where
  "consumer_acts g tps = Open (KafkaConsumer g) # map (\<lambda>tp. Subscribe g tp False) tps @ [RunConsumer g]"

definition startOrderConsumer :: "boot_act list" where
  "startOrderConsumer = consumer_acts CG_SAGA [ORDER_EVENTS]"

definition startSagaWorker :: "boot_act list" where
  "startSagaWorker = [Open PrismaClient, Open RedisCluster, Open TemporalNative, Open TemporalWorker]"

definition stopSagaWorker :: "boot_act list" where
  "stopSagaWorker = [Close TemporalWorker, Close RedisCluster, Close TemporalNative, Close PrismaClient]"

definition saga_boot :: "boot_act list" where
  "saga_boot = startSagaWorker @ [Open TemporalClient] @ startOrderConsumer"

definition saga_shutdown :: "boot_act list" where
  "saga_shutdown = [Close (KafkaConsumer CG_SAGA), Close TemporalClient] @ stopSagaWorker @ [Exit 0]"

definition runConsumer :: "boot_act list" where
  "runConsumer = consumer_acts CG_PROJECTION [ORDER_EVENTS]"

definition runDispatchConsumer :: "boot_act list" where
  "runDispatchConsumer = consumer_acts CG_DISPATCH_PROJECTION [DISPATCH_EVENTS]"

definition projection_boot :: "boot_act list" where
  "projection_boot = Open MongoClient # runConsumer @ runDispatchConsumer"

definition projection_shutdown :: "boot_act list" where
  "projection_shutdown =
     [Close (KafkaConsumer CG_PROJECTION), Close (KafkaConsumer CG_DISPATCH_PROJECTION), Close MongoClient, Exit 0]"

definition runTelemetryConsumer :: "boot_act list" where
  "runTelemetryConsumer = consumer_acts CG_TELEMETRY [TELEMETRY_STREAMS]"

definition telemetry_boot :: "boot_act list" where
  "telemetry_boot = Open RedisCluster # runTelemetryConsumer"

definition telemetry_shutdown :: "boot_act list" where
  "telemetry_shutdown = [Close (KafkaConsumer CG_TELEMETRY), Close RedisCluster, Exit 0]"

definition poller_boot :: "boot_act list" where
  "poller_boot = [Open PrismaClient, Open KafkaProducer, Open PollLoop]"

definition poller_shutdown :: "boot_act list" where
  "poller_shutdown = [Close KafkaProducer, Close PrismaClient, Exit 0]"

text \<open>The feeder's group has the process id in its name, so each process of the read service is a group of its own.\<close>

definition feeder_group :: "nat \<Rightarrow> string" where
  "feeder_group pid = consumer_group_name CG_READ_API_SSE @ ''-'' @ show_nat pid"

definition feeder_init :: "boot_act list" where
  "feeder_init = consumer_acts CG_READ_API_SSE [ORDER_EVENTS, DISPATCH_EVENTS]"

definition feeder_destroy :: "boot_act list" where
  "feeder_destroy = [Close (KafkaConsumer CG_READ_API_SSE)]"

text \<open>\<open>main().catch\<close>: the acts up to the first that fails, and then the end of the process.\<close>

fun perform :: "(boot_act \<Rightarrow> bool) \<Rightarrow> boot_act list \<Rightarrow> boot_act list \<Rightarrow> boot_act list" where
  "perform fails [] shutdown = shutdown"
| "perform fails (a # acts) shutdown = (if fails a then [Exit 1] else a # perform fails acts shutdown)"

text \<open>The settings a \<open>main\<close> needs before anything is opened; a missing one ends it at once.\<close>

definition saga_main :: "env \<Rightarrow> (boot_act \<Rightarrow> bool) \<Rightarrow> boot_act list" where
  "saga_main env fails =
     (if is_ok (requireAppDatabaseUrl env) \<and> is_ok (loadConfig env) then perform fails saga_boot saga_shutdown
      else [Exit 1])"

definition projection_main :: "env \<Rightarrow> (boot_act \<Rightarrow> bool) \<Rightarrow> boot_act list" where
  "projection_main env fails =
     (if is_ok (loadConfig env) then perform fails projection_boot projection_shutdown else [Exit 1])"

definition telemetry_main :: "env \<Rightarrow> (boot_act \<Rightarrow> bool) \<Rightarrow> boot_act list" where
  "telemetry_main env fails =
     (if is_ok (loadConfig env) then perform fails telemetry_boot telemetry_shutdown else [Exit 1])"

definition poller_main :: "env \<Rightarrow> (boot_act \<Rightarrow> bool) \<Rightarrow> boot_act list" where
  "poller_main env fails =
     (if is_ok (loadConfig env) then perform fails poller_boot poller_shutdown else [Exit 1])"

text \<open>
  The saga's settings as the workflows get them; \<open>None\<close> where one is no number, which the workflow
  would get as \<open>null\<close>.
\<close>

definition saga_settings :: "app_config \<Rightarrow> saga_config option" where
  "saga_settings cfg =
     (case (sagaSlaSeconds cfg, paymentConfirmTimeoutSeconds cfg, dispatchOfferTimeoutSeconds cfg,
            dispatchMaxOffers cfg, dispatchDeliveryTimeoutSeconds cfg) of
        (Some sla, Some confirm, Some offerSecs, Some maxOffers, Some deliverySecs) \<Rightarrow>
          Some \<lparr>sg_slaSeconds = sla, sg_confirmSeconds = confirm, sg_offerTimeoutSeconds = offerSecs,
                sg_maxOffers = maxOffers, sg_deliverySeconds = deliverySecs\<rparr>
      | _ \<Rightarrow> None)"

text \<open>One turn of the poller's loop, with the pause before the next: none as long as there are rows.\<close>

definition POLL_INTERVAL_MS :: "env \<Rightarrow> nat option" where
  "POLL_INTERVAL_MS env = env_num env ''OUTBOX_POLL_INTERVAL_MS'' 1000"

definition poll_turn ::
    "'b registry \<Rightarrow> env \<Rightarrow> (outbox_row \<Rightarrow> poll_fault) \<Rightarrow> outbox_row list \<times> 'b broker
     \<Rightarrow> (string, nat option) result \<times> outbox_row list \<times> 'b broker" where
  "poll_turn rg env fault st =
     (case pollOnce rg fault st of
        (Inl e, st') \<Rightarrow> (Inl e, st')
      | (Inr sent, st') \<Rightarrow> (Inr (if sent = 0 then POLL_INTERVAL_MS env else Some 0), st'))"

section \<open>The ports\<close>

text \<open>Where each HTTP service listens, and where the frontends' rewrites send its requests.\<close>

definition write_port :: "env \<Rightarrow> nat option" where "write_port env = env_num env ''WRITE_API_PORT'' 3001"
definition read_port :: "env \<Rightarrow> nat option" where "read_port env = env_num env ''READ_API_PORT'' 3002"
definition identity_port :: "env \<Rightarrow> nat option" where "identity_port env = env_num env ''IDENTITY_PORT'' 3003"
definition payments_port :: "env \<Rightarrow> nat option" where "payments_port env = env_num env ''PAYMENTS_PORT'' 3004"

definition WRITE_API :: "env \<Rightarrow> string" where "WRITE_API env = env_or env ''WRITE_API_ORIGIN'' ''http://localhost:3001''"
definition READ_API :: "env \<Rightarrow> string" where "READ_API env = env_or env ''READ_API_ORIGIN'' ''http://localhost:3002''"
definition IDENTITY_API :: "env \<Rightarrow> string" where
  "IDENTITY_API env = env_or env ''IDENTITY_API_ORIGIN'' ''http://localhost:3003''"

definition local_origin :: "nat option \<Rightarrow> string" where
  "local_origin p = ''http://localhost:'' @ port_string p"

text \<open>Without settings of their own, everyone looks for the services where they listen.\<close>

definition unset :: "env \<Rightarrow> string list \<Rightarrow> bool" where
  "unset env ks \<longleftrightarrow> list_all (\<lambda>k. env k = None) ks"

lemma show_ports: "show_nat 3001 = ''3001''" "show_nat 3002 = ''3002''" "show_nat 3003 = ''3003''" "show_nat 3004 = ''3004''"
  by (simp_all add: show_nat.simps digit_char_def) (simp_all add: char_of_def bit_iff_odd)

theorem default_ports_agree:
  assumes "unset env [''WRITE_API_PORT'', ''READ_API_PORT'', ''IDENTITY_PORT'', ''PAYMENTS_PORT'',
      ''WRITE_API_ORIGIN'', ''READ_API_ORIGIN'', ''IDENTITY_API_ORIGIN'', ''PAYMENTS_URL'', ''JWT_JWKS_URL'']"
    and "loadConfig env = Inr cfg"
  shows "WRITE_API env = local_origin (write_port env)" "READ_API env = local_origin (read_port env)"
    "IDENTITY_API env = local_origin (identity_port env)" "paymentsUrl cfg = local_origin (payments_port env)"
    "jwtJwksUrl cfg = local_origin (identity_port env) @ ''/.well-known/jwks.json''"
proof -
  note unset = assms(1) [unfolded unset_def list_all_iff]
  have "paymentsUrl cfg = env_or env ''PAYMENTS_URL'' ''http://localhost:3004''"
    "jwtJwksUrl cfg = env_or env ''JWT_JWKS_URL'' ''http://localhost:3003/.well-known/jwks.json''"
    using assms(2) by (auto simp: loadConfig_def split: if_splits)
  then show "WRITE_API env = local_origin (write_port env)" "READ_API env = local_origin (read_port env)"
    "IDENTITY_API env = local_origin (identity_port env)" "paymentsUrl cfg = local_origin (payments_port env)"
    "jwtJwksUrl cfg = local_origin (identity_port env) @ ''/.well-known/jwks.json''"
    by (simp_all add: unset WRITE_API_def READ_API_def IDENTITY_API_def local_origin_def port_string_def write_port_def
        read_port_def identity_port_def payments_port_def env_num_def env_or_def show_ports)
qed

section \<open>What runs has what it needs\<close>

fun needs :: "resource \<Rightarrow> resource list" where
  "needs (KafkaConsumer CG_SAGA) = [TemporalClient]"
| "needs (KafkaConsumer CG_PROJECTION) = [MongoClient]"
| "needs (KafkaConsumer CG_DISPATCH_PROJECTION) = [MongoClient]"
| "needs (KafkaConsumer CG_TELEMETRY) = [RedisCluster]"
| "needs TemporalWorker = [TemporalNative, PrismaClient, RedisCluster]"
| "needs PollLoop = [PrismaClient, KafkaProducer]"
| "needs _ = []"

fun act :: "boot_act \<Rightarrow> resource list \<Rightarrow> resource list" where
  "act (Open r) rs = r # rs"
| "act (Close r) rs = filter (\<lambda>x. x \<noteq> r) rs"
| "act (Exit n) rs = []"
| "act _ rs = rs"

definition supported :: "resource list \<Rightarrow> bool" where
  "supported rs \<longleftrightarrow> list_all (\<lambda>r. list_all (\<lambda>n. n \<in> set rs) (needs r)) rs"

fun always_supported :: "boot_act list \<Rightarrow> resource list \<Rightarrow> bool" where
  "always_supported [] rs = supported rs"
| "always_supported (a # acts) rs \<longleftrightarrow> supported rs \<and> always_supported acts (act a rs)"

lemma always_supported_perform:
  "always_supported (boot @ shutdown) rs \<Longrightarrow> always_supported (perform fails boot shutdown) rs"
proof (induction boot arbitrary: rs)
  case (Cons a boot)
  then show ?case by (simp add: supported_def)
qed simp

lemmas boot_defs = saga_boot_def startSagaWorker_def startOrderConsumer_def stopSagaWorker_def saga_shutdown_def
  projection_boot_def runConsumer_def runDispatchConsumer_def projection_shutdown_def telemetry_boot_def
  runTelemetryConsumer_def telemetry_shutdown_def poller_boot_def poller_shutdown_def consumer_acts_def

text \<open>
  Whatever setting is missing and whichever act fails, at no moment between start and end does a consumer or the
  Temporal worker run without the connections its handlers use.
\<close>

theorem handlers_have_connections:
  "always_supported (saga_main env fails) []" "always_supported (projection_main env fails) []"
  "always_supported (telemetry_main env fails) []"
proof -
  have exits: "always_supported [Exit 1] []" by (simp add: supported_def)
  have "always_supported (saga_boot @ saga_shutdown) []"
    "always_supported (projection_boot @ projection_shutdown) []"
    "always_supported (telemetry_boot @ telemetry_shutdown) []"
    by (simp_all add: boot_defs supported_def)
  then show "always_supported (saga_main env fails) []" "always_supported (projection_main env fails) []"
    "always_supported (telemetry_main env fails) []"
    using exits by (simp_all add: saga_main_def projection_main_def telemetry_main_def always_supported_perform)
qed

text \<open>
  The poller's \<open>shutdown\<close> sets \<open>running\<close> and disconnects at once, without waiting for the poll under way: the loop
  still runs when its producer and its database are gone.
\<close>

theorem poller_shutdown_does_not_wait:
  assumes "is_ok (loadConfig env)"
  shows "\<not> always_supported (poller_main env (\<lambda>a. False)) []"
  using assms by (simp add: poller_main_def boot_defs supported_def)

end
