(* ===== verification/First_Start.thy ===== *)
theory First_Start
  imports Services
begin

text \<open>
  From which message on a consumer group is served. Every subscription of the program has
  \<open>fromBeginning: false\<close>: a group with no committed position starts at the end of the log. So an order
  whose placement the poller has already published when the projection's and the saga's groups first
  start never gets a document nor a workflow from them, whatever is published, repeated and redelivered
  afterwards.
\<close>

section \<open>What a group is served\<close>

text \<open>The position a subscription begins at, \<open>len\<close> being the end of the log at that time.\<close>

definition first_offset :: "bool \<Rightarrow> nat option \<Rightarrow> nat \<Rightarrow> nat" where
  "first_offset fromBeginning committed len =
     (case committed of Some p \<Rightarrow> p | None \<Rightarrow> if fromBeginning then 0 else len)"

definition subscribed :: "boot_act list \<Rightarrow> consumer_group \<Rightarrow> nat option \<Rightarrow> nat \<Rightarrow> nat \<times> 'b kafka_message \<Rightarrow> bool" where
  "subscribed acts g committed len im \<longleftrightarrow>
     list_ex (\<lambda>a. case a of
        Subscribe g' tp fromBeginning \<Rightarrow> g' = g \<and> tp = km_topic (snd im) \<and> first_offset fromBeginning committed len \<le> fst im
      | _ \<Rightarrow> False) acts"

lemma subscribedD:
  assumes "subscribed acts g committed len im"
  obtains fromBeginning where "Subscribe g (km_topic (snd im)) fromBeginning \<in> set acts"
    and "first_offset fromBeginning committed len \<le> fst im"
proof -
  from assms obtain a where "a \<in> set acts" "case a of
      Subscribe g' tp fromBeginning \<Rightarrow> g' = g \<and> tp = km_topic (snd im) \<and> first_offset fromBeginning committed len \<le> fst im
    | _ \<Rightarrow> False" by (auto simp: subscribed_def list_ex_iff)
  with that show ?thesis by (cases a) auto
qed

text \<open>The messages of the log that a group may be handed, any number of times: those of its topics from there on.\<close>

definition served ::
    "boot_act list \<Rightarrow> consumer_group \<Rightarrow> nat option \<Rightarrow> nat \<Rightarrow> 'b kafka_message list \<Rightarrow> 'b kafka_message list" where
  "served acts g committed len ms = map snd (filter (subscribed acts g committed len) (enumerate 0 ms))"

definition all_subscriptions :: "(consumer_group \<times> boot_act list) list" where
  "all_subscriptions = [(CG_SAGA, saga_boot), (CG_PROJECTION, projection_boot), (CG_DISPATCH_PROJECTION, projection_boot),
     (CG_TELEMETRY, telemetry_boot), (CG_READ_API_SSE, feeder_init)]"

text \<open>No new group of the program gets a message from before its first start.\<close>

lemma served_new_group:
  assumes "(g, acts) \<in> set all_subscriptions" and "m \<in> set (served acts g None len ms)"
  shows "m \<in> set (drop len ms)"
proof -
  have acts: "list_all (\<lambda>a. case a of Subscribe g' tp fromBeginning \<Rightarrow> \<not> fromBeginning | _ \<Rightarrow> True) acts"
    using assms(1) by (auto simp: all_subscriptions_def boot_defs feeder_init_def)
  from assms(2) obtain i where i: "i < length ms" "m = ms ! i" "subscribed acts g None len (i, m)"
    by (auto simp: served_def in_set_enumerate_eq)
  from i(3) obtain fromBeginning where sub: "Subscribe g (km_topic m) fromBeginning \<in> set acts"
    "first_offset fromBeginning None len \<le> i" by (rule subscribedD) simp
  have "\<not> fromBeginning" using acts sub(1) by (auto simp: list_all_iff split: boot_act.splits)
  with sub(2) have "len \<le> i" by (simp add: first_offset_def)
  with i(1,2) have "m = drop len ms ! (i - len)" "i - len < length (drop len ms)" by auto
  then show ?thesis by (metis nth_mem)
qed

lemma served_topic:
  assumes "m \<in> set (served acts g committed len ms)"
  shows "\<exists>fromBeginning. Subscribe g (km_topic m) fromBeginning \<in> set acts" and "m \<in> set ms"
proof -
  from assms obtain i where i: "i < length ms" "m = ms ! i" "subscribed acts g committed len (i, m)"
    by (auto simp: served_def in_set_enumerate_eq)
  then show "m \<in> set ms" by simp
  from i(3) show "\<exists>fromBeginning. Subscribe g (km_topic m) fromBeginning \<in> set acts" by (rule subscribedD) auto
qed

section \<open>The system goes on\<close>

text \<open>
  What happens after a state: appends, polls with their faults, restarts of the poller. The other groups'
  consumers change neither the store nor the broker and are left out.
\<close>

inductive pipeline_later :: "'b registry \<Rightarrow> nat \<Rightarrow> 'b pipeline \<Rightarrow> 'b pipeline \<Rightarrow> bool" for rg T st0 where
  later_now: "pipeline_later rg T st0 st0"
| later_append: "pipeline_later rg T st0 st \<Longrightarrow> service_append T obs su args \<Longrightarrow> later_than_stream su args (pp_pg st) \<Longrightarrow>
     appendWithExpectedVersion role obs su args (pp_pg st) = (r, pg') \<Longrightarrow>
     writers_reach order_machine pg' ws \<Longrightarrow> writers_reach dispatch_machine pg' ws' \<Longrightarrow>
     pipeline_later rg T st0 (st\<lparr>pp_pg := pg'\<rparr>)"
| later_poll: "pipeline_later rg T st0 st \<Longrightarrow> pipeline_later rg T st0 (poll_pipeline rg fault st)"
| later_restart: "pipeline_later rg T st0 st \<Longrightarrow>
     pipeline_later rg T st0 (st\<lparr>pp_broker := (pp_broker st)\<lparr>bk_cache := Map.empty\<rparr>\<rparr>)"

lemma later_reach: "pipeline_later rg T st0 st \<Longrightarrow> pipeline_reach rg T st0 \<Longrightarrow> pipeline_reach rg T st"
  by (induction rule: pipeline_later.induct) (auto intro: pipeline_reach.intros)

text \<open>A poll publishes rows it found pending, under their own keys.\<close>

lemma poll_rows_publishes:
  assumes "codec_law rg"
  shows "list_all (row_ok T) rs \<Longrightarrow> poll_rows rg fault rs (rows, bk) = (res, rows', bk') \<Longrightarrow>
    (\<exists>ms. bk_log bk' = bk_log bk @ ms \<and> (\<forall>m \<in> set ms. \<exists>r \<in> set rs. decode rg m = Some (ob_payload r)))
    \<and> (\<exists>f. rows' = map (\<lambda>b. b\<lparr>ob_status := f b\<rparr>) rows \<and> (\<forall>b. ob_status b = SENT \<longrightarrow> f b = SENT))"
proof (induction rs arbitrary: rows bk)
  case Nil
  have "\<exists>f. rows = map (\<lambda>b. b\<lparr>ob_status := f b\<rparr>) rows \<and> (\<forall>b. ob_status b = SENT \<longrightarrow> f b = SENT)"
    by (rule exI [of _ ob_status]) simp
  with Nil show ?case by auto
next
  case (Cons r rs)
  have same: "\<exists>f. rows = map (\<lambda>b. b\<lparr>ob_status := f b\<rparr>) rows \<and> (\<forall>b. ob_status b = SENT \<longrightarrow> f b = SENT)"
    by (rule exI [of _ ob_status]) simp
  obtain p c where pub: "publishEnvelope rg (ob_topic r) (ob_partitionKey r) (ob_payload r) (bk_cache bk) = (p, c)"
    by fastforce
  show ?case
  proof (cases p)
    case (Inl e)
    with Cons.prems pub same show ?thesis by auto
  next
    case (Inr m)
    have dec: "decode rg m = Some (ob_payload r)"
    proof (rule publish_readable(3) [OF assms])
      show "row_ok T r" using Cons.prems(1) by simp
    qed (use pub Inr in simp)
    let ?mark = "\<lambda>b. if ob_id b = ob_id r then SENT else ob_status b"
    show ?thesis
    proof (cases "fault r")
      case PollOk
      then have run: "poll_rows rg fault rs (mark_sent (ob_id r) rows, bk\<lparr>bk_log := bk_log bk @ [m], bk_cache := c\<rparr>)
          = (res, rows', bk')" using Cons.prems(2) pub Inr by simp
      from Cons.IH [OF _ run] Cons.prems(1) obtain ms f where
        ms: "bk_log bk' = bk_log bk @ [m] @ ms" "\<forall>m \<in> set ms. \<exists>r \<in> set rs. decode rg m = Some (ob_payload r)"
        and f: "rows' = map (\<lambda>b. b\<lparr>ob_status := f b\<rparr>) (mark_sent (ob_id r) rows)" "\<forall>b. ob_status b = SENT \<longrightarrow> f b = SENT"
        by auto
      have "rows' = map (\<lambda>b. b\<lparr>ob_status := f (b\<lparr>ob_status := ?mark b\<rparr>)\<rparr>) rows"
        by (simp add: f(1) mark_sent_restatus)
      moreover have "\<forall>b. ob_status b = SENT \<longrightarrow> f (b\<lparr>ob_status := ?mark b\<rparr>) = SENT" using f(2) by simp
      ultimately have "\<exists>g. rows' = map (\<lambda>b. b\<lparr>ob_status := g b\<rparr>) rows \<and> (\<forall>b. ob_status b = SENT \<longrightarrow> g b = SENT)"
        by (intro exI [of _ "\<lambda>b. f (b\<lparr>ob_status := ?mark b\<rparr>)"] conjI)
      moreover have "\<exists>ms. bk_log bk' = bk_log bk @ ms \<and> (\<forall>m \<in> set ms. \<exists>x \<in> set (r # rs). decode rg m = Some (ob_payload x))"
        by (rule exI [of _ "m # ms"]) (use ms dec in auto)
      ultimately show ?thesis by blast
    qed (use Cons.prems pub Inr dec same in auto)
  qed
qed

text \<open>What is published after a row was sent is never that row's event again.\<close>

definition past :: "'b registry \<Rightarrow> 'b pipeline \<Rightarrow> outbox_row \<Rightarrow> 'b pipeline \<Rightarrow> bool" where
  "past rg st0 r st \<longleftrightarrow>
     (\<exists>x \<in> set (pg_outbox (pp_pg st)). ob_status x = SENT \<and> ob_id x = ob_id r \<and> ob_payload x = ob_payload r
        \<and> ob_topic x = ob_topic r \<and> ob_partitionKey x = ob_partitionKey r)
     \<and> (\<exists>ms. bk_log (pp_broker st) = bk_log (pp_broker st0) @ ms \<and> (\<forall>m \<in> set ms. decode rg m \<noteq> Some (ob_payload r)))"

lemma append_keeps_rows:
  assumes "appendWithExpectedVersion role obs su args pg = (r, pg')" and "x \<in> set (pg_outbox pg)"
  shows "x \<in> set (pg_outbox pg')"
  using assms append_adds by fastforce

lemma poll_past:
  assumes codec: "codec_law rg" and inv: "pipeline_inv rg T st" and past: "past rg st0 r st"
  shows "past rg st0 r (poll_pipeline rg fault st)"
proof -
  let ?rows = "pg_outbox (pp_pg st)" and ?rs = "pending_rows (pg_outbox (pp_pg st))"
  obtain res rows bk where run: "poll_rows rg fault ?rs (?rows, pp_broker st) = (res, rows, bk)" by (metis prod_cases3)
  have ok: "rows_ok T ?rows" using inv by (simp add: pipeline_inv_def)
  have rows: "\<forall>y \<in> set ?rows. row_ok T y" using ok by (simp add: rows_ok_def list_all_iff)
  have sub: "set ?rs \<subseteq> {y \<in> set ?rows. ob_status y = PENDING}" by (rule pending_subset)
  from past obtain x ms where x: "x \<in> set ?rows" "ob_status x = SENT" "ob_id x = ob_id r" "ob_payload x = ob_payload r"
    "ob_topic x = ob_topic r" "ob_partitionKey x = ob_partitionKey r"
    and ms: "bk_log (pp_broker st) = bk_log (pp_broker st0) @ ms" "\<forall>m \<in> set ms. decode rg m \<noteq> Some (ob_payload r)"
    by (auto simp: past_def)
  have "list_all (row_ok T) ?rs" using sub rows by (auto simp: list_all_iff)
  from poll_rows_publishes [OF codec this run] obtain ms' f where
    ms': "bk_log bk = bk_log (pp_broker st) @ ms'" "\<forall>m \<in> set ms'. \<exists>y \<in> set ?rs. decode rg m = Some (ob_payload y)"
    and f: "rows = map (\<lambda>b. b\<lparr>ob_status := f b\<rparr>) ?rows" "\<forall>b. ob_status b = SENT \<longrightarrow> f b = SENT"
    by blast
  have "decode rg m \<noteq> Some (ob_payload r)" if m: "m \<in> set ms'" for m
  proof
    assume "decode rg m = Some (ob_payload r)"
    with ms'(2) m sub obtain y where y: "y \<in> set ?rows" "ob_status y = PENDING" "ob_payload y = ob_payload x"
      using x(4) by fastforce
    with rows x(1) have "ob_id y = ob_id x" by (metis row_ok_def)
    moreover have "distinct (map ob_id ?rows)" using ok by (simp add: rows_ok_def)
    ultimately have "y = x" using y(1) x(1) by (metis distinct_map inj_on_def)
    with y(2) x(2) show False by simp
  qed
  with ms ms'(1) have log: "\<exists>ms. bk_log bk = bk_log (pp_broker st0) @ ms \<and> (\<forall>m \<in> set ms. decode rg m \<noteq> Some (ob_payload r))"
    by (intro exI [of _ "ms @ ms'"]) auto
  have "\<exists>y \<in> set rows. ob_status y = SENT \<and> ob_id y = ob_id r \<and> ob_payload y = ob_payload r
      \<and> ob_topic y = ob_topic r \<and> ob_partitionKey y = ob_partitionKey r"
  proof
    show "x\<lparr>ob_status := f x\<rparr> \<in> set rows" using x(1) f(1) by auto
  qed (use x f(2) in simp)
  moreover have "pg_outbox (pp_pg (poll_pipeline rg fault st)) = rows" "pp_broker (poll_pipeline rg fault st) = bk"
    using run by (auto simp: poll_pipeline_def pollOnce_def Let_def split: sum.splits)
  ultimately show ?thesis using log by (simp add: past_def)
qed

lemma later_past:
  assumes codec: "codec_law rg" and "pipeline_later rg T st0 st" and "pipeline_reach rg T st0"
    and "r \<in> set (pg_outbox (pp_pg st0))" and "ob_status r = SENT"
  shows "past rg st0 r st"
  using assms(2)
proof (induction rule: pipeline_later.induct)
  case later_now
  then show ?case using assms(4,5) by (auto simp: past_def)
next
  case (later_append st obs su args role x pg' ws ws')
  then show ?case using append_keeps_rows [OF later_append.hyps(4)] by (fastforce simp: past_def)
next
  case (later_poll st fault)
  have "pipeline_inv rg T st" by (rule pipeline_reach_inv [OF codec later_reach [OF later_poll.hyps assms(3)]])
  from poll_past [OF codec this later_poll.IH] show ?case .
next
  case (later_restart st)
  then show ?case by (simp add: past_def)
qed

section \<open>The placement is not among what comes\<close>

lemma one_placement:
  assumes "order_legal (map env_fold_event es)" and "a \<in> set es" and "b \<in> set es"
    and "e_eventType a = OrderPlaced" and "e_eventType b = OrderPlaced"
  shows "a = b"
proof -
  have "map fe_eventType (map env_fold_event es) = map e_eventType es" by (simp add: env_fold_event_def comp_def)
  with assms(1) have "map e_eventType es \<in> {[], [OrderPlaced], [OrderPlaced, OrderAccepted], [OrderPlaced, OrderCancelled]}"
    unfolding order_legal_def order_lifecycles_def by (simp only: list.set)
  then show ?thesis using assms(2-5) by (auto simp: map_eq_Cons_conv)
qed

text \<open>The row of the placement of an order.\<close>

definition places :: "string \<Rightarrow> string \<Rightarrow> outbox_row \<Rightarrow> bool" where
  "places t oid r \<longleftrightarrow> e_eventType (ob_payload r) = OrderPlaced \<and> ob_tenantId r = t
     \<and> pl_orderId (e_payload (ob_payload r)) = Some oid \<and> ob_topic r = ORDER_EVENTS"

lemma placed_row:
  assumes "row_ok T r" and "places t oid r"
  shows "in_key ORDER_EVENTS (colon_key t oid) r" and "\<not> is_dispatch_id oid" and "CHR '':'' \<notin> set t"
  using assms by (auto simp: places_def row_ok_def in_key_def)

lemma later_message:
  assumes codec: "codec_law rg" and reach: "pipeline_reach rg T st0" and later: "pipeline_later rg T st0 st"
    and r: "r \<in> set (pg_outbox (pp_pg st0))" "ob_status r = SENT" "places t oid r"
    and m: "m \<in> set (drop (length (bk_log (pp_broker st0))) (bk_log (pp_broker st)))" "km_topic m = ORDER_EVENTS"
  obtains env where "\<And>fresh. readEnvelope rg fresh m = Inr (Some (meta_of env, e_payload env))"
    and "\<not> (e_eventType env = OrderPlaced \<and> doc_id env = colon_key t oid)"
proof -
  note inv = pipeline_reach_inv [OF codec later_reach [OF later reach]]
  have r_ok: "row_ok T r"
    using pipeline_reach_inv [OF codec reach] r(1) by (auto simp: pipeline_inv_def rows_ok_def list_all_iff)
  let ?rows = "pg_outbox (pp_pg st)" and ?k = "colon_key t oid"
  have ok: "rows_ok T ?rows" using inv by (simp add: pipeline_inv_def)
  then have rows: "\<forall>x \<in> set ?rows. row_ok T x" by (simp add: rows_ok_def list_all_iff)
  from later_past [OF codec later reach r(1,2)] obtain x where x: "x \<in> set ?rows" "ob_payload x = ob_payload r"
      "ob_topic x = ob_topic r" "ob_partitionKey x = ob_partitionKey r"
    and new: "decode rg m \<noteq> Some (ob_payload r)"
    using m(1) by (auto simp: past_def)
  have "m \<in> set (key_log ORDER_EVENTS (km_key m) (bk_log (pp_broker st)))"
    using in_set_dropD [OF m(1)] m(2) by (simp add: key_log_def)
  then obtain p where p: "p < length (key_log ORDER_EVENTS (km_key m) (bk_log (pp_broker st)))"
    "m = key_log ORDER_EVENTS (km_key m) (bk_log (pp_broker st)) ! p"
    by (metis in_set_conv_nth)
  from next_message [OF inv p(1)] obtain y where y: "y \<in> set ?rows" "in_key ORDER_EVENTS (km_key m) y"
    "decode rg m = Some (ob_payload y)"
    "\<And>fresh. readEnvelope rg fresh m = Inr (Some (meta_of (ob_payload y), e_payload (ob_payload y)))"
    unfolding p(2) [symmetric] by metis
  have "\<not> (e_eventType (ob_payload y) = OrderPlaced \<and> doc_id (ob_payload y) = ?k)"
  proof
    assume placed: "e_eventType (ob_payload y) = OrderPlaced \<and> doc_id (ob_payload y) = ?k"
    have xk: "in_key ORDER_EVENTS ?k x" "\<not> is_dispatch_id oid" "CHR '':'' \<notin> set t"
      using placed_row [OF r_ok r(3)] x(3,4) by (auto simp: in_key_def)
    have yk: "in_key ORDER_EVENTS ?k y" using placed y(1,2) rows order_row_doc by (auto simp: in_key_def)
    obtain ws where ws: "writers_reach order_machine (pp_pg st) ws" using inv by (auto simp: pipeline_inv_def)
    let ?es = "key_events ORDER_EVENTS ?k ?rows"
    have "list_all2 carries (stream (pp_pg st) t oid) ?es"
      using stream_events [OF inv_store [OF inv] ok xk(3), of oid] xk(2) by simp
    from carries_stream(4) [OF inv_store [OF inv] this] om.reach_legal [OF ws, of oid t] xk(2)
    have "order_legal (map env_fold_event ?es)" by simp
    moreover have "ob_payload x \<in> set ?es" "ob_payload y \<in> set ?es"
      using x(1) y(1) xk(1) yk by (auto simp: key_events_def key_rows_def)
    ultimately have "ob_payload y = ob_payload x"
      using one_placement placed r(3) x(2) by (auto simp: places_def)
    with new y(3) x(2) show False by simp
  qed
  with y(4) that show ?thesis by blast
qed

lemma own_topics:
  "Subscribe CG_PROJECTION tp b \<in> set projection_boot \<longleftrightarrow> tp = ORDER_EVENTS \<and> \<not> b"
  "Subscribe CG_SAGA tp b \<in> set saga_boot \<longleftrightarrow> tp = ORDER_EVENTS \<and> \<not> b"
  by (auto simp: boot_defs)

lemma foldl_keeps: "(\<And>m s. m \<in> set ms \<Longrightarrow> P s \<Longrightarrow> P (f s m)) \<Longrightarrow> P s \<Longrightarrow> P (foldl f s ms)"
  by (induction ms arbitrary: s) simp_all

text \<open>What the projection and the saga make of such messages.\<close>

lemma projection_skips:
  assumes "\<And>fresh. readEnvelope rg fresh m = Inr (Some (meta_of env, e_payload env))"
    and "\<not> (e_eventType env = OrderPlaced \<and> doc_id env = k)" and "mg_orders db k = None"
  shows "mg_orders (snd (run_consumer_message rg fresh m db)) k = None"
  using assms(2,3)
  by (auto simp: run_consumer_message_def assms(1) applyEvent_def order_write_def inbox_insert_def order_doc_def
      split: event_type.splits)

lemma saga_skips:
  assumes "\<And>fresh. readEnvelope rg fresh m = Inr (Some (meta_of env, e_payload env))"
    and "\<not> (e_eventType env = OrderPlaced \<and> doc_id env = order_workflow_id t oid)" and "rejects_duplicates start started"
    and "started s (order_workflow_id t oid) = None"
  shows "started (snd (order_consumer_message start cfg rg fresh m s)) (order_workflow_id t oid) = None"
proof -
  obtain q s' where run: "start_workflow start cfg env s = (q, s')" by fastforce
  have "order_wid env = doc_id env" by (simp add: order_wid_def doc_id_def order_workflow_id_def)
  with start_workflow_effect(1) [OF assms(3) run] assms(2,4)
  have "started s' (order_workflow_id t oid) = None" by auto
  then show ?thesis by (simp add: order_consumer_message_def assms(1) run)
qed

text \<open>
  C21: What was published before a group's first start is lost to it. Once the placement of an order has been
  published and marked, a projection and a saga worker whose groups start then for the first time never
  show the order and never start its workflow: whatever the services append and the poller publishes
  later, however often and in whatever order the groups are handed the messages they are served, the
  order has no document - its acceptance or cancellation finds none to update - and no workflow asks
  for its payment. The reason is \<open>fromBeginning: false\<close> in every subscription.
\<close>

theorem history_before_first_start_is_lost:
  assumes "codec_law rg" and "pipeline_reach rg T st0" and "pipeline_later rg T st0 st"
    and "r \<in> set (pg_outbox (pp_pg st0))" and "ob_status r = SENT" and "places t oid r"
    and "set got \<subseteq> set (served projection_boot CG_PROJECTION None (length (bk_log (pp_broker st0))) (bk_log (pp_broker st)))"
    and "set got' \<subseteq> set (served saga_boot CG_SAGA None (length (bk_log (pp_broker st0))) (bk_log (pp_broker st)))"
    and "rejects_duplicates start started" and "started s (order_workflow_id t oid) = None"
  shows "mg_orders (foldl (\<lambda>db m. snd (run_consumer_message rg fresh m db)) empty_mongo got) (colon_key t oid) = None
    \<and> started (foldl (\<lambda>s m. snd (order_consumer_message start cfg rg fresh m s)) s got') (order_workflow_id t oid) = None"
proof -
  have new: "m \<in> set (drop (length (bk_log (pp_broker st0))) (bk_log (pp_broker st)))" "km_topic m = ORDER_EVENTS"
    if "(g, acts) \<in> {(CG_PROJECTION, projection_boot), (CG_SAGA, saga_boot)}"
      and m: "m \<in> set (served acts g None (length (bk_log (pp_broker st0))) (bk_log (pp_broker st)))" for g acts m
  proof -
    have "(g, acts) \<in> set all_subscriptions" using that(1) by (auto simp: all_subscriptions_def)
    from served_new_group [OF this m] show "m \<in> set (drop (length (bk_log (pp_broker st0))) (bk_log (pp_broker st)))" .
    show "km_topic m = ORDER_EVENTS" using served_topic(1) [OF m] that(1) own_topics by auto
  qed
  have proj: "mg_orders (snd (run_consumer_message rg fresh m db)) (colon_key t oid) = None"
    if "m \<in> set got" "mg_orders db (colon_key t oid) = None" for m db
  proof -
    have "m \<in> set (served projection_boot CG_PROJECTION None (length (bk_log (pp_broker st0))) (bk_log (pp_broker st)))"
      using that(1) assms(7) by blast
    note here = new [OF _ this, simplified]
    from later_message [OF assms(1-6) here] obtain env where
      "\<And>fresh. readEnvelope rg fresh m = Inr (Some (meta_of env, e_payload env))"
      "\<not> (e_eventType env = OrderPlaced \<and> doc_id env = colon_key t oid)" by metis
    from projection_skips [OF this that(2)] show ?thesis .
  qed
  have saga: "started (snd (order_consumer_message start cfg rg fresh m s)) (order_workflow_id t oid) = None"
    if "m \<in> set got'" "started s (order_workflow_id t oid) = None" for m s
  proof -
    have "m \<in> set (served saga_boot CG_SAGA None (length (bk_log (pp_broker st0))) (bk_log (pp_broker st)))"
      using that(1) assms(8) by blast
    note here = new [OF _ this, simplified]
    from later_message [OF assms(1-6) here] obtain env where
      "\<And>fresh. readEnvelope rg fresh m = Inr (Some (meta_of env, e_payload env))"
      "\<not> (e_eventType env = OrderPlaced \<and> doc_id env = order_workflow_id t oid)" unfolding order_workflow_id_def by metis
    from saga_skips [OF this assms(9) that(2)] show ?thesis .
  qed
  show ?thesis
    using foldl_keeps [where P = "\<lambda>db. mg_orders db (colon_key t oid) = None" and ms = got, OF proj]
      foldl_keeps [where P = "\<lambda>s. started s (order_workflow_id t oid) = None" and ms = got', OF saga] assms(10)
    by (simp add: empty_mongo_def)
qed

section \<open>An order accepted after the first start\<close>

text \<open>The order is placed and published, the groups start, and then the merchant accepts.\<close>

definition started_at :: "payload pipeline" where
  "started_at = poll_pipeline identity_registry (\<lambda>r. PollOk) placed_pipeline"

definition accept_args :: append_args where
  "accept_args = writer_args order_machine (sample_writer (CmdAccept ''o1'')) OrderAccepted (order_id_payload ''o1'') None"

definition accept_draws :: draws where "accept_draws = (sample_draws ''e2'')\<lparr>su_dbNow := 2000\<rparr>"

definition accepted_append :: "(store_error, envelope) result \<times> pg_state" where
  "accepted_append = appendWithExpectedVersion AppRole None accept_draws accept_args (pp_pg started_at)"

definition accepted_later :: "payload pipeline" where
  "accepted_later =
     poll_pipeline identity_registry (\<lambda>r. PollOk) (started_at\<lparr>pp_pg := snd accepted_append\<rparr>)"

definition late_messages :: "payload kafka_message list" where
  "late_messages = served projection_boot CG_PROJECTION None (length (bk_log (pp_broker started_at)))
     (bk_log (pp_broker accepted_later))"

lemma started_restatus: "pp_pg started_at = restatus (\<lambda>b. SENT) sample_pg"
proof -
  have "pg_events (pp_pg started_at) = pg_events sample_pg \<and> pg_outbox (pp_pg started_at) = pg_outbox (restatus (\<lambda>b. SENT) sample_pg)"
    by code_simp
  then show ?thesis by (simp add: restatus_def)
qed

lemma accepted_reach:
  "writers_reach order_machine (snd accepted_append) []" "writers_reach dispatch_machine (snd accepted_append) []"
proof -
  obtain r pg' where app: "accepted_append = (r, pg')" by fastforce
  have "writers_reach order_machine sample_pg ([] @ sample_writer (CmdAccept ''o1'') # [])"
    unfolding sample_writer_def
    by simp (rule writers_reach.load [where role = AppRole], rule sample_pg_reach, simp_all add: is_dispatch_id_def sample_load)
  from writers_reach.relay [OF this] have "writers_reach order_machine (pp_pg started_at) ([] @ sample_writer (CmdAccept ''o1'') # [])"
    by (simp add: started_restatus)
  from writers_reach.commit [OF this _ app [unfolded accepted_append_def accept_args_def]]
  show "writers_reach order_machine (snd accepted_append) []"
    by (simp add: app sample_writer_def accept_def placed_state_def)
  have "writers_reach dispatch_machine sample_pg []"
    by (rule writers_reach.foreign [OF writers_reach.start _ _ sample_append_ok]) (simp_all add: sample_append_def is_dispatch_id_def)
  from writers_reach.relay [OF this] have "writers_reach dispatch_machine (pp_pg started_at) []" by (simp add: started_restatus)
  moreover have "\<not> m_owns dispatch_machine (aa_aggregateId accept_args)"
    "aa_expectedVersion accept_args \<le> length (stream (pp_pg started_at) (aa_tenantId accept_args) (aa_aggregateId accept_args))"
    by code_simp+
  ultimately show "writers_reach dispatch_machine (snd accepted_append) []"
    unfolding app snd_conv by (rule writers_reach.foreign [OF _ _ _ app [unfolded accepted_append_def]])
qed

lemma accepted_is_later: "pipeline_later identity_registry 30 started_at accepted_later"
proof -
  obtain r pg' where app: "accepted_append = (r, pg')" by fastforce
  have svc: "service_append 30 None accept_draws accept_args"
    using known_event_type_proper [of OrderAccepted]
    by (simp add: service_append_def accept_args_def accept_draws_def writer_args_def sample_writer_def sample_draws_def
        wellformed_def append_envelope_def buildEnvelope_def proper_event_type_def known_event_types_def MAX_TIME_def
        payload_defs is_dispatch_id_def)
  have later: "later_than_stream accept_draws accept_args (pp_pg started_at)" by code_simp
  show ?thesis
    unfolding accepted_later_def app snd_conv
    by (rule later_poll, rule later_append [OF later_now svc later app [unfolded accepted_append_def]])
      (use accepted_reach in \<open>simp_all add: app\<close>)
qed

theorem history_before_first_start_is_lost_witness:
  "length late_messages = 1
    \<and> mg_orders (foldl (\<lambda>db m. snd (run_consumer_message identity_registry ''fresh'' m db)) empty_mongo late_messages)
        (colon_key ''berlin'' ''o1'') = None
    \<and> fst (foldl (\<lambda>s m. snd (order_consumer_message sample_start sample_saga_config identity_registry ''fresh'' m s))
        (Map.empty, 1) late_messages) (order_workflow_id ''berlin'' ''o1'') = None"
proof -
  let ?r = "hd (pg_outbox (pp_pg started_at))"
  have reach: "pipeline_reach identity_registry 30 started_at"
    unfolding started_at_def by (rule pipe_poll [OF placed_pipeline_reach])
  have r: "?r \<in> set (pg_outbox (pp_pg started_at))" "ob_status ?r = SENT" "places ''berlin'' ''o1'' ?r" by code_simp+
  have same: "late_messages = served saga_boot CG_SAGA None (length (bk_log (pp_broker started_at)))
      (bk_log (pp_broker accepted_later))" by code_simp
  have "length late_messages = 1" by code_simp
  moreover have "mg_orders (foldl (\<lambda>db m. snd (run_consumer_message identity_registry ''fresh'' m db)) empty_mongo late_messages)
        (colon_key ''berlin'' ''o1'') = None
    \<and> fst (foldl (\<lambda>s m. snd (order_consumer_message sample_start sample_saga_config identity_registry ''fresh'' m s))
        (Map.empty, 1) late_messages) (order_workflow_id ''berlin'' ''o1'') = None"
    by (rule history_before_first_start_is_lost [OF identity_registry_laws(1) reach accepted_is_later r _ _ sample_start_law])
      (use same in \<open>auto simp: late_messages_def\<close>)
  ultimately show ?thesis by blast
qed

end
