(* ===== verification/Web_Orders.thy ===== *)
theory Web_Orders
  imports Web_Api Read_Api
begin

text \<open>
  The order views of the merchant's and the operator's consoles: the reducers of
  \<open>packages/web-shared/src/orders/order-events.ts\<close>, the stream hook \<open>use-order-stream.ts\<close>, the merchant's
  dashboard (\<open>apps/web-merchant/app/page.tsx\<close>) and the operator's data hook
  (\<open>apps/web-admin/hooks/use-admin-data.ts\<close>). A string that \<open>JSON.parse\<close> is applied to is the parsed
  value, or \<open>None\<close> when parsing throws.
\<close>

section \<open>Events\<close>

record web_event =
  we_orderId :: string
  we_eventType :: string
  we_cancelReason :: "string option"

definition statusFromEventType :: "string \<Rightarrow> order_status option" where
  "statusFromEventType t =
     (if t = event_type_name OrderPlaced then Some PLACED
      else if t = event_type_name OrderAccepted then Some ACCEPTED
      else if t = event_type_name OrderCancelled then Some CANCELLED
      else None)"

definition parseStreamData :: "json option \<Rightarrow> web_event option" where
  "parseStreamData parsed =
     (case parsed of
        None \<Rightarrow> None
      | Some j \<Rightarrow>
          (case (jstr (jget ''orderId'' j), jstr (jget ''eventType'' j)) of
             (Some oid, Some t) \<Rightarrow> Some \<lparr>we_orderId = oid, we_eventType = t, we_cancelReason = None\<rparr>
           | _ \<Rightarrow> None))"

text \<open>
  \<open>updatedAt\<close> strings of ISO times compare as their times do. The comparator never answers zero, so the
  order of rows with equal times is the engine's; nothing below depends on it.
\<close>

definition newest_first :: "order_view \<Rightarrow> order_view \<Rightarrow> int" where
  "newest_first a b = (if time_key (ov_updatedAt b) < time_key (ov_updatedAt a) then 1 else -1)"

definition upsertOrder :: "order_view list \<Rightarrow> order_view \<Rightarrow> order_view list" where
  "upsertOrder rows order =
     js_sort newest_first (order # filter (\<lambda>r. ov_orderId r \<noteq> ov_orderId order) rows)"

text \<open>An empty reason is as good as none.\<close>

definition event_reason :: "web_event \<Rightarrow> string option \<Rightarrow> string option" where
  "event_reason e old = (case we_cancelReason e of
     None \<Rightarrow> old | Some r \<Rightarrow> if r = [] then old else Some r)"

definition applyOrderEvent :: "order_view list \<Rightarrow> web_event \<Rightarrow> order_view list" where
  "applyOrderEvent rows e =
     (case statusFromEventType (we_eventType e) of
        None \<Rightarrow> rows
      | Some s \<Rightarrow>
          if \<not> list_ex (\<lambda>r. ov_orderId r = Some (we_orderId e)) rows then rows
          else map (\<lambda>r. if ov_orderId r = Some (we_orderId e)
                 then r\<lparr>ov_status := s, ov_cancelReason := event_reason e (ov_cancelReason r)\<rparr> else r) rows)"

section \<open>Labels\<close>

definition CANCEL_REASON_LABELS :: "(string \<times> string) list" where
  "CANCEL_REASON_LABELS =
     [(SLA_BREACH, ''SLA breach''), (DECLINED, ''Declined by merchant''), (PAYMENT_FAILED, ''Payment failed''),
      (PAYMENT_TIMEOUT, ''Payment not confirmed'')]"

definition cancelReasonLabel :: "string option \<Rightarrow> string" where
  "cancelReasonLabel reason = (case reason of
     None \<Rightarrow> []
   | Some r \<Rightarrow> if r = [] then [] else (case map_of CANCEL_REASON_LABELS r of Some l \<Rightarrow> l | None \<Rightarrow> r))"

definition PAYMENT_STATUS_LABELS :: "(string \<times> string) list" where
  "PAYMENT_STATUS_LABELS =
     [(''AUTHORIZED'', ''Authorized''), (''CAPTURED'', ''Paid''), (''VOIDED'', ''Voided''), (''DECLINED'', ''Declined'')]"

definition paymentStatusLabel :: "string option \<Rightarrow> string" where
  "paymentStatusLabel status = (case status of
     None \<Rightarrow> []
   | Some s \<Rightarrow> (case map_of PAYMENT_STATUS_LABELS s of Some l \<Rightarrow> l | None \<Rightarrow> []))"

section \<open>The stream hook\<close>

text \<open>
  What happens to a subscription: an attempt to connect is answered with a status (after a 401, whether
  the refresh succeeded); a message arrives; the connection drops; the component unmounts. The hook
  resyncs when it opens and hands on every message it can parse; after a 401 the refreshed token makes it
  connect anew, and a failed refresh logs out, which takes the subscription down.
\<close>

datatype link = Off | Connecting | Live

datatype stream_io = Answered nat bool | Message "json option" | Dropped | Unmounted

datatype stream_out = Resync | Event web_event | LogOut

definition order_stream_step :: "stream_io \<Rightarrow> link \<Rightarrow> link \<times> stream_out list" where
  "order_stream_step io l =
     (case (l, io) of
        (Connecting, Answered status refreshed) \<Rightarrow>
          if status = 401 then (if refreshed then (Connecting, []) else (Off, [LogOut])) else (Live, [Resync])
      | (Live, Message d) \<Rightarrow> (case parseStreamData d of None \<Rightarrow> (Live, []) | Some e \<Rightarrow> (Live, [Event e]))
      | (Live, Dropped) \<Rightarrow> (Connecting, [])
      | (Connecting, Dropped) \<Rightarrow> (Connecting, [])
      | (_, Unmounted) \<Rightarrow> (Off, [])
      | _ \<Rightarrow> (l, []))"

fun useOrderStream :: "link \<Rightarrow> stream_io list \<Rightarrow> stream_out list" where
  "useOrderStream l [] = []"
| "useOrderStream l (io # ios) = (case order_stream_step io l of (l', outs) \<Rightarrow> outs @ useOrderStream l' ios)"

text \<open>Without a token there is no subscription.\<close>

definition start_stream :: "string option \<Rightarrow> link" where
  "start_stream token = (case token of None \<Rightarrow> Off | Some t \<Rightarrow> if t = [] then Off else Connecting)"

section \<open>The dashboards\<close>

text \<open>
  A placed order that is not on the board is fetched, up to ten times while the read model answers that
  it does not know it; a failed fetch gives up. The result, with the number of fetches made.
\<close>

fun fetch_row :: "nat \<Rightarrow> (client_error, order_view option) result list \<Rightarrow> order_view option \<times> nat" where
  "fetch_row tries [] = (None, tries)"
| "fetch_row tries (Inl e # as) = (None, tries + 1)"
| "fetch_row tries (Inr (Some row) # as) = (Some row, tries + 1)"
| "fetch_row tries (Inr None # as) = (if tries + 1 < 10 then fetch_row (tries + 1) as else (None, tries + 1))"

record board =
  bd_orders :: "order_view list"
  bd_loadError :: bool
  bd_loading :: bool

definition blank_board :: board where
  "blank_board = \<lparr>bd_orders = [], bd_loadError = False, bd_loading = True\<rparr>"

definition merchant_resync :: "(client_error, order_view list) result \<Rightarrow> board \<Rightarrow> board" where
  "merchant_resync answer b =
     (case answer of
        Inr rows \<Rightarrow> b\<lparr>bd_orders := rows, bd_loadError := False, bd_loading := False\<rparr>
      | Inl _ \<Rightarrow> b\<lparr>bd_loadError := True, bd_loading := False\<rparr>)"

text \<open>
  \<open>onEvent\<close>: a known order is updated in place, a placed one is fetched; when the fetches end, the row
  found is put in (\<open>merchant_fetched\<close>). Other events of unknown orders are dropped.
\<close>

definition wants_fetch :: "order_view list \<Rightarrow> web_event \<Rightarrow> bool" where
  "wants_fetch rows e \<longleftrightarrow> \<not> list_ex (\<lambda>r. ov_orderId r = Some (we_orderId e)) rows
     \<and> statusFromEventType (we_eventType e) = Some PLACED"

definition onEvent :: "web_event \<Rightarrow> board \<Rightarrow> board" where
  "onEvent e b =
     (if list_ex (\<lambda>r. ov_orderId r = Some (we_orderId e)) (bd_orders b)
      then b\<lparr>bd_orders := applyOrderEvent (bd_orders b) e\<rparr> else b)"

definition merchant_fetched :: "(client_error, order_view option) result list \<Rightarrow> board \<Rightarrow> board" where
  "merchant_fetched answers b =
     (case fst (fetch_row 0 answers) of
        None \<Rightarrow> b
      | Some row \<Rightarrow> b\<lparr>bd_orders := upsertOrder (bd_orders b) row\<rparr>)"

text \<open>What the dashboard lists under a status filter, and the order shown in the detail sheet.\<close>

definition visible_orders :: "order_status option \<Rightarrow> order_view list \<Rightarrow> order_view list" where
  "visible_orders flt rows = (case flt of None \<Rightarrow> rows | Some s \<Rightarrow> filter (\<lambda>r. ov_status r = s) rows)"

definition current_order :: "order_view option \<Rightarrow> order_view list \<Rightarrow> order_view option" where
  "current_order selected rows = (case selected of
     None \<Rightarrow> None
   | Some sel \<Rightarrow> (case find (\<lambda>r. ov_orderId r = ov_orderId sel) rows of Some r \<Rightarrow> Some r | None \<Rightarrow> Some sel))"

text \<open>The operator's data: errors are noted once, drivers are grouped by their tenant.\<close>

record admin_data =
  ad_orders :: "order_view list"
  ad_drivers :: "(string \<times> nearby_driver list) list"
  ad_errors :: "string list"
  ad_loading :: bool
  ad_mounted :: bool

definition noteError :: "string \<Rightarrow> admin_data \<Rightarrow> admin_data" where
  "noteError msg a = (if \<not> ad_mounted a \<or> msg \<in> set (ad_errors a) then a else a\<lparr>ad_errors := ad_errors a @ [msg]\<rparr>)"

definition admin_resync :: "(client_error, order_view list) result \<Rightarrow> admin_data \<Rightarrow> admin_data" where
  "admin_resync answer a =
     (let a1 = (case answer of
          Inr rows \<Rightarrow> if ad_mounted a then a\<lparr>ad_orders := rows\<rparr> else a
        | Inl _ \<Rightarrow> noteError ''orders: admin'' a)
      in if ad_mounted a1 then a1\<lparr>ad_loading := False\<rparr> else a1)"

fun push_driver :: "string \<Rightarrow> nearby_driver \<Rightarrow> (string \<times> nearby_driver list) list \<Rightarrow> (string \<times> nearby_driver list) list" where
  "push_driver t d [] = [(t, [d])]"
| "push_driver t d ((u, ds) # gs) = (if u = t then (u, ds @ [d]) # gs else (u, ds) # push_driver t d gs)"

definition group_drivers :: "(string \<times> nearby_driver) list \<Rightarrow> (string \<times> nearby_driver list) list" where
  "group_drivers ds = foldl (\<lambda>gs (t, d). push_driver t d gs) [] ds"

definition poll_drivers :: "(client_error, (string \<times> nearby_driver) list) result \<Rightarrow> admin_data \<Rightarrow> admin_data" where
  "poll_drivers answer a =
     (if \<not> ad_mounted a then a
      else (case answer of
         Inr ds \<Rightarrow> a\<lparr>ad_drivers := group_drivers ds\<rparr>
       | Inl _ \<Rightarrow> noteError ''drivers: admin'' a))"

definition handleEvent :: "web_event \<Rightarrow> admin_data \<Rightarrow> admin_data" where
  "handleEvent e a =
     (if list_ex (\<lambda>r. ov_orderId r = Some (we_orderId e)) (ad_orders a)
      then a\<lparr>ad_orders := applyOrderEvent (ad_orders a) e\<rparr> else a)"

definition admin_fetched :: "(client_error, order_view option) result list \<Rightarrow> admin_data \<Rightarrow> admin_data" where
  "admin_fetched answers a =
     (case fst (fetch_row 0 answers) of
        None \<Rightarrow> a
      | Some row \<Rightarrow> if ad_mounted a then a\<lparr>ad_orders := upsertOrder (ad_orders a) row\<rparr> else a)"

section \<open>The board stays ordered\<close>

lemma distinct_map_same:
  assumes "set ys = set xs" and "length ys = length xs"
  shows "distinct (map f ys) \<longleftrightarrow> distinct (map f xs)"
proof -
  have "card (set (map f ys)) = card (set (map f xs))" "length (map f ys) = length (map f xs)"
    using assms by simp_all
  then show ?thesis by (metis distinct_card card_distinct)
qed

lemma js_sort_distinct: "distinct (map f (js_sort cmp xs)) \<longleftrightarrow> distinct (map f xs)"
  by (rule distinct_map_same) simp_all

definition board_ok :: "order_view list \<Rightarrow> bool" where
  "board_ok rows \<longleftrightarrow> distinct (map ov_orderId rows)
     \<and> sorted_wrt (\<lambda>a b. time_key (ov_updatedAt a) \<le> time_key (ov_updatedAt b)) rows"

lemma upsert_board_ok:
  assumes "board_ok rows"
  shows "board_ok (upsertOrder rows order)"
proof -
  have "distinct (map ov_orderId (order # filter (\<lambda>r. ov_orderId r \<noteq> ov_orderId order) rows))"
    using assms by (auto simp: board_ok_def distinct_map_filter)
  moreover have "sorted_wrt (\<lambda>a b. time_key (ov_updatedAt a) \<le> time_key (ov_updatedAt b)) (upsertOrder rows order)"
    unfolding upsertOrder_def by (rule sorted_js_sort) (auto simp: newest_first_def split: if_splits)
  ultimately show ?thesis unfolding board_ok_def upsertOrder_def js_sort_distinct by blast
qed

lemma apply_event_keys:
  "map (\<lambda>r. (ov_orderId r, ov_updatedAt r)) (applyOrderEvent rows e) = map (\<lambda>r. (ov_orderId r, ov_updatedAt r)) rows"
  by (auto simp: applyOrderEvent_def split: option.splits)

lemma board_ok_keys: "board_ok rows \<longleftrightarrow> distinct (map fst (map (\<lambda>r. (ov_orderId r, ov_updatedAt r)) rows))
    \<and> sorted_wrt (\<lambda>a b. time_key (snd a) \<le> time_key (snd b)) (map (\<lambda>r. (ov_orderId r, ov_updatedAt r)) rows)"
  by (simp add: board_ok_def sorted_wrt_map comp_def)

lemma apply_event_board_ok: "board_ok rows \<Longrightarrow> board_ok (applyOrderEvent rows e)"
  unfolding board_ok_keys apply_event_keys .

text \<open>What the service answers to the resync of a tenant's merchant.\<close>

lemma recent_orders_board_ok:
  assumes "distinct (map ov_orderId (filter (\<lambda>v. tenantFilter c (ov_tenantId v)) docs))"
  shows "board_ok (listRecentOrders c docs)"
proof -
  let ?ds = "filter (\<lambda>v. tenantFilter c (ov_tenantId v)) docs"
  let ?s = "sort_key (\<lambda>v. time_key (ov_updatedAt v)) ?ds"
  have "distinct (map ov_orderId ?s)"
    using assms distinct_map_same [of ?s ?ds ov_orderId] by simp
  moreover have "sorted_wrt (\<lambda>a b. time_key (ov_updatedAt a) \<le> time_key (ov_updatedAt b)) ?s"
    using sorted_sort_key [of "\<lambda>v. time_key (ov_updatedAt v)" ?ds] by (simp add: sorted_wrt_map)
  ultimately show ?thesis
    by (auto simp: board_ok_def listRecentOrders_def recent_def take_map [symmetric] sorted_wrt_take)
qed

datatype board_io =
    Resynced "(client_error, order_view list) result"
  | Arrived web_event
  | Fetched "(client_error, order_view option) result list"

fun board_step :: "board_io \<Rightarrow> board \<Rightarrow> board" where
  "board_step (Resynced answer) b = merchant_resync answer b"
| "board_step (Arrived e) b = onEvent e b"
| "board_step (Fetched answers) b = merchant_fetched answers b"

definition run_board :: "board_io list \<Rightarrow> board" where
  "run_board ios = foldl (\<lambda>b io. board_step io b) blank_board ios"

text \<open>Snapshots come from the merchant's list of a collection in which a tenant's order has one document.\<close>

definition honest_io :: "auth_context \<Rightarrow> board_io \<Rightarrow> bool" where
  "honest_io c io = (case io of
     Resynced (Inr rows) \<Rightarrow> (\<exists>docs. rows = listRecentOrders c docs
       \<and> distinct (map ov_orderId (filter (\<lambda>v. tenantFilter c (ov_tenantId v)) docs)))
   | _ \<Rightarrow> True)"

lemma fetch_row_bound: "t \<le> 10 \<Longrightarrow> snd (fetch_row t as) \<le> 10 \<or> t = 10"
proof (induction t "as" rule: fetch_row.induct)
  case (4 tries "as")
  then show ?case by (cases "tries + 1 < 10") auto
qed auto

lemma board_step_ok:
  "honest_io c io \<Longrightarrow> board_ok (bd_orders b) \<Longrightarrow> board_ok (bd_orders (board_step io b))"
  by (cases io) (auto simp: honest_io_def merchant_resync_def onEvent_def merchant_fetched_def
      upsert_board_ok apply_event_board_ok recent_orders_board_ok split: sum.splits option.splits)

text \<open>
  The merchant's board lists every order once, the newest first. This holds after any
  interleaving of resyncs, live events and late fetches, in whatever order their answers arrive; and no
  event makes the board fetch an order more than ten times.
\<close>

theorem board_stays_ordered:
  assumes "list_all (honest_io c) ios"
  shows "distinct (map ov_orderId (bd_orders (run_board ios)))
    \<and> sorted_wrt (\<lambda>a b. time_key (ov_updatedAt a) \<le> time_key (ov_updatedAt b)) (bd_orders (run_board ios))
    \<and> snd (fetch_row 0 answers) \<le> 10"
proof -
  have "board_ok (bd_orders (run_board ios))"
    using assms
  proof (induction ios rule: rev_induct)
    case Nil
    then show ?case by (simp add: run_board_def blank_board_def board_ok_def)
  next
    case (snoc io ios)
    then show ?case using board_step_ok [of c io "run_board ios"] by (simp add: run_board_def)
  qed
  then show ?thesis using fetch_row_bound [of 0 answers] by (simp add: board_ok_def)
qed

definition late_order :: order_view where
  "late_order = sample_order_view\<lparr>ov_orderId := Some ''o2'', ov_updatedAt := ISO 9\<rparr>"

theorem board_stays_ordered_witness:
  "map ov_orderId (bd_orders (run_board
     [Resynced (Inr (listRecentOrders sample_reader [sample_order_view])),
      Fetched [Inr None, Inr (Some late_order)],
      Arrived \<lparr>we_orderId = ''o1'', we_eventType = ''OrderAccepted'', we_cancelReason = None\<rparr>]))
     = [Some ''o2'', Some ''o1'']
   \<and> distinct (map ov_orderId (bd_orders (run_board
     [Resynced (Inr (listRecentOrders sample_reader [sample_order_view])),
      Fetched [Inr None, Inr (Some late_order)],
      Arrived \<lparr>we_orderId = ''o1'', we_eventType = ''OrderAccepted'', we_cancelReason = None\<rparr>])))"
proof -
  let ?ios = "[Resynced (Inr (listRecentOrders sample_reader [sample_order_view])),
      Fetched [Inr None, Inr (Some late_order)],
      Arrived \<lparr>we_orderId = ''o1'', we_eventType = ''OrderAccepted'', we_cancelReason = None\<rparr>]"
  have "distinct (map ov_orderId (filter (\<lambda>v. tenantFilter sample_reader (ov_tenantId v)) [sample_order_view]))" by simp
  then have "list_all (honest_io sample_reader) ?ios" by (fastforce simp: honest_io_def)
  from board_stays_ordered [OF this] have "distinct (map ov_orderId (bd_orders (run_board ?ios)))" by blast
  moreover have "map ov_orderId (bd_orders (run_board ?ios)) = [Some ''o2'', Some ''o1'']" by code_simp
  ultimately show ?thesis by blast
qed

section \<open>The board follows the aggregate\<close>

text \<open>What the service writes into the stream for an event (\<open>data: event\<close>, serialised).\<close>

definition stream_json :: "stream_event \<Rightarrow> json" where
  "stream_json e = JObj ([(''orderId'', JStr (se_orderId e)), (''eventType'', JStr (event_type_name (se_eventType e))),
      (''status'', JStr (order_status_name (Some (se_status e))))]
     @ (case se_cancelReason e of None \<Rightarrow> [] | Some r \<Rightarrow> [(''cancelReason'', JStr r)]))"

definition feed_board :: "envelope list \<Rightarrow> order_view list \<Rightarrow> order_view list" where
  "feed_board envs rows = foldl (\<lambda>rows env.
     case parseStreamData (Some (stream_json (toStreamEvent env))) of
       None \<Rightarrow> rows | Some e \<Rightarrow> applyOrderEvent rows e) rows envs"

definition env_event :: "envelope \<Rightarrow> fold_event" where
  "env_event env = \<lparr>fe_eventType = e_eventType env, fe_payload = e_payload env, fe_version = e_version env\<rparr>"

definition concerns_row :: "order_view \<Rightarrow> envelope \<Rightarrow> bool" where
  "concerns_row r env \<longleftrightarrow> ov_orderId r = Some (nullish (pl_orderId (e_payload env)) [])"

text \<open>The status the aggregate has after the events of the row's order, from the one the row shows.\<close>

definition board_status :: "envelope list \<Rightarrow> order_view \<Rightarrow> order_status" where
  "board_status envs r =
     (case os_status (foldl foldOrder (INITIAL_ORDER_STATE\<lparr>os_status := Some (ov_status r)\<rparr>)
             (map env_event (filter (concerns_row r) envs))) of
        Some s \<Rightarrow> s | None \<Rightarrow> ov_status r)"

lemma parse_stream_event:
  "parseStreamData (Some (stream_json (toStreamEvent env))) =
     Some \<lparr>we_orderId = nullish (pl_orderId (e_payload env)) [], we_eventType = event_type_name (e_eventType env),
           we_cancelReason = None\<rparr>"
  by (auto simp: parseStreamData_def stream_json_def toStreamEvent_def jget_def jstr_def split: option.splits)

lemma fold_status_step:
  assumes "proper_event_type (fe_eventType e)"
  shows "os_status (foldOrder st e) =
    (case statusFromEventType (event_type_name (fe_eventType e)) of Some s \<Rightarrow> Some s | None \<Rightarrow> os_status st)"
proof (cases "fe_eventType e")
  case (UnknownEvent s)
  with assms have "s \<noteq> ''OrderPlaced'' \<and> s \<noteq> ''OrderAccepted'' \<and> s \<noteq> ''OrderCancelled''"
    by (auto simp: proper_event_type_def event_type_of_def known_event_types_def)
  then show ?thesis using UnknownEvent by (simp add: foldOrder_def statusFromEventType_def)
qed (simp_all add: foldOrder_def statusFromEventType_def)

lemma fold_status_only:
  "os_status st = os_status st' \<Longrightarrow> os_status (foldl foldOrder st es) = os_status (foldl foldOrder st' es)"
proof (induction es arbitrary: st st')
  case (Cons e es)
  have "os_status (foldOrder st e) = os_status (foldOrder st' e)"
    using Cons.prems by (simp add: foldOrder_def split: event_type.splits)
  from Cons.IH [OF this] show ?case by simp
qed simp

lemma apply_event_map:
  assumes "proper_event_type (e_eventType env)"
  shows "feed_board [env] rows = map (\<lambda>r. r\<lparr>ov_status := board_status [env] r\<rparr>) rows"
proof -
  let ?s = "statusFromEventType (event_type_name (e_eventType env))"
  let ?i = "nullish (pl_orderId (e_payload env)) []"
  have step: "board_status [env] r = (if ov_orderId r = Some ?i then (case ?s of Some s \<Rightarrow> s | None \<Rightarrow> ov_status r) else ov_status r)" for r
    using assms fold_status_step [of "env_event env" "INITIAL_ORDER_STATE\<lparr>os_status := Some (ov_status r)\<rparr>"]
    by (auto simp: board_status_def concerns_row_def env_event_def split: option.splits)
  have same: "r\<lparr>ov_status := ov_status r\<rparr> = r" for r :: order_view by simp
  have fed: "feed_board [env] rows = applyOrderEvent rows
      \<lparr>we_orderId = ?i, we_eventType = event_type_name (e_eventType env), we_cancelReason = None\<rparr>"
    by (simp add: feed_board_def parse_stream_event)
  show ?thesis
  proof (cases ?s)
    case None
    then have "board_status [env] r = ov_status r" for r using step by simp
    then show ?thesis using None by (simp add: fed applyOrderEvent_def same)
  next
    case (Some s)
    have upd: "r\<lparr>ov_status := s, ov_cancelReason := ov_cancelReason r\<rparr> = r\<lparr>ov_status := s\<rparr>" for r :: order_view by simp
    have whole: "map (\<lambda>r. r\<lparr>ov_status := board_status [env] r\<rparr>) rows
        = map (\<lambda>r. if ov_orderId r = Some ?i then r\<lparr>ov_status := s\<rparr> else r) rows"
      using Some by (simp add: step if_distrib [of "\<lambda>x. _\<lparr>ov_status := x\<rparr>"] same cong: if_cong)
    have unknown: "\<not> list_ex (\<lambda>r. ov_orderId r = Some ?i) rows \<Longrightarrow>
        map (\<lambda>r. if ov_orderId r = Some ?i then r\<lparr>ov_status := s\<rparr> else r) rows = rows"
      by (rule map_idI) (auto simp: list_ex_iff)
    show ?thesis
      unfolding whole using Some unknown
      by (cases "list_ex (\<lambda>r. ov_orderId r = Some ?i) rows")
         (simp_all add: fed applyOrderEvent_def event_reason_def upd)
  qed
qed

lemma board_status_Cons:
  "board_status es (r\<lparr>ov_status := board_status [e] r\<rparr>) = board_status (e # es) r"
proof -
  let ?st = "\<lambda>x. INITIAL_ORDER_STATE\<lparr>os_status := Some x\<rparr>"
  have rows: "concerns_row (r\<lparr>ov_status := x\<rparr>) = concerns_row r" for x by (simp add: concerns_row_def fun_eq_iff)
  show ?thesis
  proof (cases "concerns_row r e")
    case False
    then show ?thesis by (simp add: board_status_def rows)
  next
    case True
    have "os_status (foldOrder (?st (ov_status r)) (env_event e)) \<noteq> None"
      by (simp add: foldOrder_def split: event_type.splits)
    then have now: "os_status (foldOrder (?st (ov_status r)) (env_event e)) = Some (board_status [e] r)"
      using True by (auto simp: board_status_def)
    let ?fs = "map env_event (filter (concerns_row r) es)"
    have same: "os_status (foldl foldOrder (foldOrder (?st (ov_status r)) (env_event e)) ?fs)
        = os_status (foldl foldOrder (?st (board_status [e] r)) ?fs)"
      by (rule fold_status_only) (simp add: now)
    have some: "os_status (foldl foldOrder (?st x) fs) \<noteq> None" for x fs
    proof (induction fs rule: rev_induct)
      case (snoc f fs)
      then show ?case by (simp add: foldOrder_def split: event_type.splits)
    qed simp
    obtain y where "os_status (foldl foldOrder (?st (board_status [e] r)) ?fs) = Some y"
      using some by blast
    then show ?thesis using True same
      by (simp add: board_status_def [of "e # es"] board_status_def [of es] rows)
  qed
qed

text \<open>
  C36: The board follows the orders. Feeding it the live events of a stream, as the service serialises them
  and the hook parses them, gives every order on it the status that the order aggregate has after that
  order's events, and changes nothing else: not another order, and - although the events of a
  cancellation carry it - not the reason either, which \<open>parseStreamData\<close> drops.
\<close>

theorem board_follows_orders:
  assumes "list_all (\<lambda>env. proper_event_type (e_eventType env)) envs"
  shows "feed_board envs rows = map (\<lambda>r. r\<lparr>ov_status := board_status envs r\<rparr>) rows"
  using assms
proof (induction envs arbitrary: rows)
  case Nil
  show ?case by (simp add: feed_board_def board_status_def)
next
  case (Cons e es)
  have "feed_board (e # es) rows = feed_board es (feed_board [e] rows)" by (simp add: feed_board_def)
  also have "\<dots> = map (\<lambda>r. r\<lparr>ov_status := board_status es r\<rparr>)
      (map (\<lambda>r. r\<lparr>ov_status := board_status [e] r\<rparr>) rows)"
    using Cons by (simp add: apply_event_map)
  finally show ?case by (simp add: board_status_Cons comp_def)
qed

definition cancel_envelope :: envelope where
  "cancel_envelope = \<lparr>e_tenantId = ''berlin'', e_eventId = ''e2'', e_eventType = OrderCancelled, e_version = 2,
     e_occurredAt = ISO 9, e_correlationId = ''k'', e_payload = reason_payload ''o1'' ''SLA_BREACH''\<rparr>"

theorem board_follows_orders_witness:
  "feed_board [cancel_envelope] [sample_order_view, late_order]
     = [sample_order_view\<lparr>ov_status := CANCELLED\<rparr>, late_order]
   \<and> cancelReasonLabel (ov_cancelReason (hd (feed_board [cancel_envelope] [sample_order_view]))) = []"
proof -
  have "list_all (\<lambda>env. proper_event_type (e_eventType env)) [cancel_envelope]" by code_simp
  note fed = board_follows_orders [OF this]
  have "board_status [cancel_envelope] sample_order_view = CANCELLED" by code_simp
  moreover have "board_status [cancel_envelope] late_order = PLACED" by code_simp
  moreover have "late_order\<lparr>ov_status := PLACED\<rparr> = late_order" by (simp add: late_order_def sample_order_view_def)
  moreover have "cancelReasonLabel (ov_cancelReason sample_order_view) = []"
    by (simp add: cancelReasonLabel_def sample_order_view_def)
  ultimately show ?thesis by (simp add: fed)
qed

section \<open>The operator's console\<close>

text \<open>How the operator's page reads the answers of \<open>GET /orders/:orderId\<close>.\<close>

definition order_answer :: "(http_error, order_view) result \<Rightarrow> (client_error, order_view option) result" where
  "order_answer r = (case r of
     Inr v \<Rightarrow> Inr (Some v)
   | Inl e \<Rightarrow> if http_status e = 404 then Inr None else Inl (Failed ''getOrder failed''))"

text \<open>A query of the operator: the time, the read model and the queries made before it.\<close>

definition no_platform_orders :: "mongo \<Rightarrow> bool" where
  "no_platform_orders db \<longleftrightarrow> filed db \<and> (\<forall>k v. mg_orders db k = Some v \<longrightarrow> ov_tenantId v \<noteq> ''platform'')"

definition platform_query :: "int \<times> mongo \<times> order_get list \<Rightarrow> bool" where
  "platform_query q \<longleftrightarrow> (case q of (now, db, hist) \<Rightarrow> no_platform_orders db
     \<and> list_all (\<lambda>g. CHR ''}'' \<notin> set (ac_tenantId (og_ctx g)) \<and> no_platform_orders (og_db g)) hist)"

definition operator_answers ::
    "auth_context \<Rightarrow> string \<Rightarrow> (int \<times> mongo \<times> order_get list) list \<Rightarrow> (client_error, order_view option) result list" where
  "operator_answers c oid qs = map (\<lambda>(now, db, hist). order_answer (fst (get_order c now oid db (run_gets hist empty_redis)))) qs"

lemma no_platform_doc: "no_platform_orders db \<Longrightarrow> mg_orders db (colon_key ''platform'' oid) = None"
proof (rule ccontr)
  assume no: "no_platform_orders db" and "mg_orders db (colon_key ''platform'' oid) \<noteq> None"
  then obtain v where v: "mg_orders db (colon_key ''platform'' oid) = Some v" by blast
  with no obtain i where "CHR '':'' \<notin> set (ov_tenantId v)" "colon_key ''platform'' oid = colon_key (ov_tenantId v) i"
    unfolding no_platform_orders_def filed_def by blast
  then have "ov_tenantId v = ''platform''" by (subst (asm) colon_key_inject) auto
  with no v show False unfolding no_platform_orders_def by blast
qed

lemma platform_404:
  assumes "platform_query (now, db, hist)" and "ac_tenantId c = ''platform''"
  shows "order_answer (fst (get_order c now oid db (run_gets hist empty_redis))) = Inr None"
proof -
  have inv: "cache_inv hist (run_gets hist empty_redis)"
    using assms(1) by (intro run_gets_inv) (auto simp: platform_query_def list_all_iff)
  have "redis_get now (order_key ''platform'' oid) (run_gets hist empty_redis) = None"
  proof (cases "rd_views (run_gets hist empty_redis) (order_key ''platform'' oid)")
    case None
    then show ?thesis by (simp add: redis_get_def)
  next
    case (Some x)
    obtain v t where x: "x = (v, t)" by (rule prod.exhaust)
    have "CHR ''}'' \<notin> set ''platform''" by simp
    then obtain g where "g \<in> set hist" "mg_orders (og_db g) (colon_key ''platform'' oid) = Some v"
      using inv Some x unfolding cache_inv_def by blast
    then show ?thesis using assms(1) no_platform_doc by (auto simp: platform_query_def list_all_iff)
  qed
  then show ?thesis using assms no_platform_doc
    by (simp add: get_order_def getOrder_key order_answer_def platform_query_def)
qed

lemma fetch_row_none: "list_all (\<lambda>a. a = Inr None) as \<Longrightarrow> fst (fetch_row t as) = None"
  by (induction t "as" rule: fetch_row.induct) auto

text \<open>
  The operator's console never shows a new order live. The operator's token belongs to the tenant
  \<open>platform\<close>, and the console fetches the row of a newly placed order through the tenant-scoped query:
  whatever the order, whenever and over whatever read model of the real tenants it asks, and whatever
  was queried before, each answer is a 404, so the order is not added; it appears only with the next
  full resync.
\<close>

theorem operator_console_misses_new_orders:
  assumes "ac_tenantId c = ''platform''" and "list_all platform_query qs"
  shows "admin_fetched (operator_answers c oid qs) a = a"
proof -
  have "list_all (\<lambda>x. x = Inr None) (operator_answers c oid qs)"
    using assms platform_404 by (auto simp: operator_answers_def list_all_iff)
  then show ?thesis by (simp add: admin_fetched_def fetch_row_none)
qed

definition operator_context :: auth_context where
  "operator_context = \<lparr>ac_tenantId = ''platform'', ac_role = ROLE_OPERATOR, ac_sub = ''op''\<rparr>"

definition blank_admin :: admin_data where
  "blank_admin = \<lparr>ad_orders = [], ad_drivers = [], ad_errors = [], ad_loading = False, ad_mounted = True\<rparr>"

theorem operator_console_misses_new_orders_witness:
  "admin_fetched (operator_answers operator_context ''o1'' [(0, sample_read_db, [])]) blank_admin = blank_admin
   \<and> mg_orders sample_read_db ''berlin:o1'' = Some sample_order_view
   \<and> fst (get_order sample_reader 0 ''o1'' sample_read_db empty_redis) = Inr sample_order_view"
proof -
  have "list_all platform_query [(0, sample_read_db, [])]"
    by (auto simp: platform_query_def no_platform_orders_def filed_def sample_read_db_def sample_order_view_def
        colon_key_def)
  moreover have "ac_tenantId operator_context = ''platform''" by (simp add: operator_context_def)
  ultimately show ?thesis
    using operator_console_misses_new_orders by (auto simp: get_order_def getOrder_key redis_get_def empty_redis_def
        sample_read_db_def sample_reader_def colon_key_def)
qed

end
