(* ===== verification/Web_Dispatch.thy ===== *)
theory Web_Dispatch
  imports Web_Orders
begin

text \<open>
  The dispatch views of the frontends: labels, the two stream hooks with their reducers
  (\<open>packages/web-shared/src/dispatch\<close>), the driver's page with its offer card, job card, online toggle and
  nearby watcher (\<open>apps/web-driver\<close>), and the merchant's detail sheet
  (\<open>apps/web-merchant/components/order-detail-sheet.tsx\<close>). Characters beyond Latin-1 are written as their
  UTF-8 bytes.
\<close>

section \<open>Labels\<close>

definition EM_DASH :: string where "EM_DASH = map char_of [226, 128, 148 :: nat]"
definition ELLIPSIS :: string where "ELLIPSIS = map char_of [226, 128, 166 :: nat]"

definition DISPATCH_OFFER_TIMEOUT_SECONDS :: int where "DISPATCH_OFFER_TIMEOUT_SECONDS = 30"

definition LABELS :: "(string \<times> string) list" where
  "LABELS =
     [(dispatch_status_name OFFERED, ''New offer''),
      (dispatch_status_name DISPATCHED, ''Accepted '' @ EM_DASH @ '' head to pickup''),
      (dispatch_status_name PICKED_UP, ''Picked up '' @ EM_DASH @ '' deliver''),
      (dispatch_status_name DELIVERED, ''Delivered''),
      (dispatch_status_name FAILED, ''No longer available'')]"

definition dispatchStatusLabel :: "string \<Rightarrow> string" where
  "dispatchStatusLabel s = (case map_of LABELS s of Some l \<Rightarrow> l | None \<Rightarrow> s)"

definition DELIVERY_LABELS :: "(string \<times> string) list" where
  "DELIVERY_LABELS =
     [(dispatch_status_name OFFERED, ''Finding a driver''),
      (dispatch_status_name DISPATCHED, ''Driver assigned''),
      (dispatch_status_name PICKED_UP, ''Out for delivery''),
      (dispatch_status_name DELIVERED, ''Delivered''),
      (dispatch_status_name FAILED, ''Delivery unavailable'')]"

definition deliveryStatusLabel :: "string \<Rightarrow> string" where
  "deliveryStatusLabel s = (case map_of DELIVERY_LABELS s of Some l \<Rightarrow> l | None \<Rightarrow> s)"

section \<open>The reducers\<close>

text \<open>A parsed message is taken as a view as it is; \<open>view\<close> reads the members of the object.\<close>

definition parseDispatchData :: "(json \<Rightarrow> dispatch_view) \<Rightarrow> json option \<Rightarrow> dispatch_view option" where
  "parseDispatchData view parsed =
     (case parsed of
        None \<Rightarrow> None
      | Some j \<Rightarrow>
          (case (jstr (jget ''orderId'' j), jstr (jget ''status'' j)) of
             (Some _, Some _) \<Rightarrow> Some (view j) | _ \<Rightarrow> None))"

definition reduceDispatch :: "dispatch_view option \<Rightarrow> dispatch_view \<Rightarrow> dispatch_view" where
  "reduceDispatch prev new =
     (case prev of
        None \<Rightarrow> new
      | Some p \<Rightarrow>
          if dv_orderId p \<noteq> dv_orderId new then new
          else if dv_version p \<le> dv_version new then new else p)"

type_synonym dispatch_map = "string option \<rightharpoonup> dispatch_view"

definition reduceDispatchMap :: "dispatch_map \<Rightarrow> dispatch_view \<Rightarrow> dispatch_map" where
  "reduceDispatchMap prev new = prev(dv_orderId new \<mapsto> reduceDispatch (prev (dv_orderId new)) new)"

section \<open>The hooks\<close>

text \<open>The state of a connection and whether the page shows it as connected.\<close>

definition conn_step :: "stream_io \<Rightarrow> link \<times> bool \<Rightarrow> (link \<times> bool) \<times> stream_out list" where
  "conn_step io c =
     (case (fst c, io) of
        (Connecting, Answered status refreshed) \<Rightarrow>
          if status = 401 then (if refreshed then ((Connecting, False), []) else ((Off, False), [LogOut]))
          else ((Live, True), [])
      | (Live, Dropped) \<Rightarrow> ((Connecting, False), [])
      | (Connecting, Dropped) \<Rightarrow> ((Connecting, False), [])
      | (_, Unmounted) \<Rightarrow> ((Off, False), [])
      | _ \<Rightarrow> (c, []))"

record dispatch_hook =
  dh_conn :: "link \<times> bool"
  dh_dispatch :: "dispatch_view option"

definition dispatch_stream_step :: "(json \<Rightarrow> dispatch_view) \<Rightarrow> stream_io \<Rightarrow> dispatch_hook \<Rightarrow> dispatch_hook" where
  "dispatch_stream_step view io h =
     (let h1 = h\<lparr>dh_conn := fst (conn_step io (dh_conn h))\<rparr> in
      case io of
        Message d \<Rightarrow>
          (if fst (dh_conn h) \<noteq> Live then h1
           else (case parseDispatchData view d of
              None \<Rightarrow> h1
            | Some v \<Rightarrow> h1\<lparr>dh_dispatch := Some (reduceDispatch (dh_dispatch h1) v)\<rparr>))
      | _ \<Rightarrow> h1)"

text \<open>Neither a token nor the driver's id may be missing.\<close>

definition useDispatchStream ::
    "(json \<Rightarrow> dispatch_view) \<Rightarrow> string option \<Rightarrow> string option \<Rightarrow> stream_io list \<Rightarrow> dispatch_hook" where
  "useDispatchStream view token driverId ios =
     foldl (\<lambda>h io. dispatch_stream_step view io h)
       \<lparr>dh_conn = (if start_stream driverId = Off then Off else start_stream token, False), dh_dispatch = None\<rparr> ios"

text \<open>The tenant's hook is also seeded with the snapshot, whenever it arrives, unless it has unmounted.\<close>

datatype tenant_io = Io stream_io | Seeded "(client_error, dispatch_view list) result"

record tenant_hook =
  th_conn :: "link \<times> bool"
  th_dispatches :: dispatch_map

definition tenant_stream_step :: "(json \<Rightarrow> dispatch_view) \<Rightarrow> tenant_io \<Rightarrow> tenant_hook \<Rightarrow> tenant_hook" where
  "tenant_stream_step view tio h =
     (case tio of
        Seeded (Inr vs) \<Rightarrow>
          (if fst (th_conn h) = Off then h else h\<lparr>th_dispatches := foldl reduceDispatchMap (th_dispatches h) vs\<rparr>)
      | Seeded (Inl _) \<Rightarrow> h
      | Io io \<Rightarrow>
          (let h1 = h\<lparr>th_conn := fst (conn_step io (th_conn h))\<rparr> in
           case io of
             Message d \<Rightarrow>
               (if fst (th_conn h) \<noteq> Live then h1
                else (case parseDispatchData view d of
                   None \<Rightarrow> h1
                 | Some v \<Rightarrow> h1\<lparr>th_dispatches := reduceDispatchMap (th_dispatches h1) v\<rparr>))
           | _ \<Rightarrow> h1))"

definition useTenantDispatchStream ::
    "(json \<Rightarrow> dispatch_view) \<Rightarrow> string option \<Rightarrow> tenant_io list \<Rightarrow> tenant_hook" where
  "useTenantDispatchStream view token ios =
     foldl (\<lambda>h io. tenant_stream_step view io h)
       \<lparr>th_conn = (start_stream token, False), th_dispatches = Map.empty\<rparr> ios"

section \<open>The newest view wins\<close>

text \<open>What a reducer promises: of two views of the same thing it keeps the newer one.\<close>

locale newest_wins =
  fixes key :: "'v \<Rightarrow> 'k" and ver :: "'v \<Rightarrow> nat" and merge :: "'v option \<Rightarrow> 'v \<Rightarrow> 'v"
  assumes merge_first: "merge None v = v"
    and merge_next: "key u = key v \<Longrightarrow> merge (Some u) v = (if ver u \<le> ver v then v else u)"
begin

definition merge_all :: "'v list \<Rightarrow> 'v option" where
  "merge_all vs = foldl (\<lambda>s v. Some (merge s v)) None vs"

lemma merge_all_newest:
  "vs \<noteq> [] \<Longrightarrow> \<forall>v \<in> set vs. key v = k \<Longrightarrow>
     \<exists>w \<in> set vs. merge_all vs = Some w \<and> (\<forall>v \<in> set vs. ver v \<le> ver w)"
proof (induction vs rule: rev_induct)
  case (snoc v vs)
  show ?case
  proof (cases "vs = []")
    case True
    then show ?thesis by (simp add: merge_all_def merge_first)
  next
    case False
    with snoc obtain w where w: "w \<in> set vs" "merge_all vs = Some w" "\<forall>u \<in> set vs. ver u \<le> ver w" by auto
    then have "merge_all (vs @ [v]) = Some (if ver w \<le> ver v then v else w)"
      using snoc.prems by (simp add: merge_all_def merge_next)
    then show ?thesis using w by auto
  qed
qed simp

text \<open>So it does not matter in which order, or how often, the views arrive.\<close>

lemma merge_all_converges:
  assumes "set vs = set ws" and "\<forall>v \<in> set vs. key v = k" and "\<forall>u \<in> set vs. \<forall>v \<in> set vs. ver u = ver v \<longrightarrow> u = v"
  shows "merge_all vs = merge_all ws"
proof (cases "vs = []")
  case False
  then have "ws \<noteq> []" using assms(1) by auto
  obtain v where v: "v \<in> set vs" "merge_all vs = Some v" "\<forall>u \<in> set vs. ver u \<le> ver v"
    using merge_all_newest [OF False assms(2)] by blast
  obtain w where w: "w \<in> set vs" "merge_all ws = Some w" "\<forall>u \<in> set vs. ver u \<le> ver w"
    using merge_all_newest [OF \<open>ws \<noteq> []\<close>, of k] assms(1,2) by auto
  have "ver v = ver w" using v(1,3) w(1,3) by (metis le_antisym)
  then show ?thesis using assms(3) v w by metis
qed (use assms(1) in simp)

end

interpretation dr: newest_wins dv_orderId dv_version reduceDispatch
  by unfold_locales (auto simp: reduceDispatch_def)

lemma reduce_map_key:
  "foldl reduceDispatchMap Map.empty vs k = dr.merge_all (filter (\<lambda>v. dv_orderId v = k) vs)"
  by (induction vs rule: rev_induct) (auto simp: reduceDispatchMap_def dr.merge_all_def)

text \<open>
  C35: The merchant's delivery map converges. Whatever the interleaving, duplication and repetition of
  snapshot and live views, the map is a function of the set of views received: two consoles that have
  received the same views show the same, and every order shows the newest of its views - provided the
  version of an order's view determines the view.
\<close>

theorem dispatch_map_converges:
  assumes "set vs = set ws"
    and "\<forall>u \<in> set vs. \<forall>v \<in> set vs. dv_orderId u = dv_orderId v \<and> dv_version u = dv_version v \<longrightarrow> u = v"
  shows "foldl reduceDispatchMap Map.empty vs = foldl reduceDispatchMap Map.empty ws
    \<and> (\<forall>v \<in> set vs. \<exists>w \<in> set vs. foldl reduceDispatchMap Map.empty vs (dv_orderId v) = Some w
         \<and> dv_orderId w = dv_orderId v \<and> dv_version v \<le> dv_version w)"
proof
  have "dr.merge_all (filter (\<lambda>v. dv_orderId v = k) vs) = dr.merge_all (filter (\<lambda>v. dv_orderId v = k) ws)" for k
    using assms by (intro dr.merge_all_converges [where k = k]) auto
  then show "foldl reduceDispatchMap Map.empty vs = foldl reduceDispatchMap Map.empty ws"
    by (simp add: fun_eq_iff reduce_map_key)
  show "\<forall>v \<in> set vs. \<exists>w \<in> set vs. foldl reduceDispatchMap Map.empty vs (dv_orderId v) = Some w
         \<and> dv_orderId w = dv_orderId v \<and> dv_version v \<le> dv_version w"
  proof
    fix v assume "v \<in> set vs"
    then have "filter (\<lambda>u. dv_orderId u = dv_orderId v) vs \<noteq> []" by (auto simp: filter_empty_conv)
    from dr.merge_all_newest [OF this, of "dv_orderId v"] \<open>v \<in> set vs\<close>
    show "\<exists>w \<in> set vs. foldl reduceDispatchMap Map.empty vs (dv_orderId v) = Some w
         \<and> dv_orderId w = dv_orderId v \<and> dv_version v \<le> dv_version w"
      by (auto simp: reduce_map_key)
  qed
qed

definition sample_dview :: "string \<Rightarrow> dispatch_status \<Rightarrow> nat \<Rightarrow> dispatch_view" where
  "sample_dview oid s n = \<lparr>dv_tenantId = ''berlin'', dv_orderId = Some oid, dv_status = s, dv_driverId = None,
     dv_offeredDriverId = None, dv_reason = None, dv_version = n, dv_updatedAt = ISO 0, dv_offerExpiresAt = None\<rparr>"

theorem dispatch_map_converges_witness:
  "foldl reduceDispatchMap Map.empty
     [sample_dview ''o1'' PICKED_UP 3, sample_dview ''o2'' OFFERED 1, sample_dview ''o1'' DISPATCHED 2]
   = foldl reduceDispatchMap Map.empty
     [sample_dview ''o1'' DISPATCHED 2, sample_dview ''o1'' PICKED_UP 3, sample_dview ''o1'' DISPATCHED 2,
      sample_dview ''o2'' OFFERED 1]"
  by (rule dispatch_map_converges [THEN conjunct1]) (auto simp: sample_dview_def)

section \<open>The driver's page\<close>

text \<open>\<open>Date.now() < Date.parse(d)\<close>: a comparison with NaN is false.\<close>

definition before_date :: "int \<Rightarrow> datestr \<Rightarrow> bool" where
  "before_date now d = (case date_parse d of Some t \<Rightarrow> now < t | None \<Rightarrow> False)"

record driver_page =
  dp_online :: bool
  dp_dismissed :: "string option"
  dp_toasts :: "string list"

definition blank_driver_page :: driver_page where
  "blank_driver_page = \<lparr>dp_online = False, dp_dismissed = None, dp_toasts = []\<rparr>"

definition shown_offer :: "int \<Rightarrow> string \<Rightarrow> driver_page \<Rightarrow> dispatch_view option \<Rightarrow> dispatch_view option" where
  "shown_offer now driverId p dispatch =
     (case dispatch of
        None \<Rightarrow> None
      | Some v \<Rightarrow>
          if dp_online p \<and> dv_status v = OFFERED \<and> dv_offeredDriverId v = Some driverId
             \<and> (dv_orderId v = None \<or> dv_orderId v \<noteq> dp_dismissed p)
             \<and> (case dv_offerExpiresAt v of None \<Rightarrow> True | Some d \<Rightarrow> before_date now d)
          then Some v else None)"

definition shown_job :: "string \<Rightarrow> dispatch_view option \<Rightarrow> dispatch_view option" where
  "shown_job driverId dispatch =
     (case dispatch of
        None \<Rightarrow> None
      | Some v \<Rightarrow>
          if (dv_status v = DISPATCHED \<or> dv_status v = PICKED_UP) \<and> dv_driverId v = Some driverId
          then Some v else None)"

text \<open>\<open>Math.ceil(ms / 1000)\<close> of a number of milliseconds, and the seconds shown on the card.\<close>

definition ceil_seconds :: "int \<Rightarrow> int" where
  "ceil_seconds ms = - ((- ms) div 1000)"

definition secondsLeft :: "int \<Rightarrow> dispatch_view \<Rightarrow> int option" where
  "secondsLeft now ofr =
     (case dv_offerExpiresAt ofr of
        Some d \<Rightarrow> map_option (\<lambda>t. max 0 (ceil_seconds (t - now))) (date_parse d)
      | None \<Rightarrow> map_option (\<lambda>t. max 0 (ceil_seconds (DISPATCH_OFFER_TIMEOUT_SECONDS * 1000 - (now - t))))
                  (date_parse (dv_updatedAt ofr)))"

text \<open>
  The card's interval: at each tick the seconds left; at zero it stops and reports the expiry. The
  number of ticks made, and whether the expiry was reported, for the clock of the ticks.
\<close>

fun offer_ticks :: "dispatch_view \<Rightarrow> int list \<Rightarrow> nat \<times> bool" where
  "offer_ticks ofr [] = (0, False)"
| "offer_ticks ofr (now # ts) =
     (if (case secondsLeft now ofr of Some s \<Rightarrow> s \<le> 0 | None \<Rightarrow> False) then (1, True)
      else (case offer_ticks ofr ts of (n, b) \<Rightarrow> (n + 1, b)))"

definition onExpire :: "dispatch_view option \<Rightarrow> driver_page \<Rightarrow> driver_page" where
  "onExpire ofr p = (case ofr of None \<Rightarrow> p | Some v \<Rightarrow> p\<lparr>dp_dismissed := dv_orderId v\<rparr>)"

definition toast :: "string \<Rightarrow> string \<Rightarrow> (client_error, 'a) result \<Rightarrow> driver_page \<Rightarrow> driver_page" where
  "toast good bad r p = p\<lparr>dp_toasts := dp_toasts p @ [case r of Inr _ \<Rightarrow> good | Inl _ \<Rightarrow> bad]\<rparr>"

text \<open>The id a view is passed on with; the template writes an undefined id as text.\<close>

definition view_id :: "dispatch_view \<Rightarrow> string" where
  "view_id v = nullish (dv_orderId v) ''undefined''"

definition onAccept ::
    "web_config \<Rightarrow> 'w server \<Rightarrow> string \<Rightarrow> dispatch_view \<Rightarrow> driver_page \<Rightarrow> 'w browser \<Rightarrow> driver_page \<times> 'w browser" where
  "onAccept cfg srv driverId ofr p b =
     (case acceptDispatch cfg srv (view_id ofr) driverId b of
        (r, b') \<Rightarrow> (toast ''Offer accepted'' ''Couldn't update the offer.'' r p, b'))"

definition onReject ::
    "web_config \<Rightarrow> 'w server \<Rightarrow> string \<Rightarrow> dispatch_view \<Rightarrow> driver_page \<Rightarrow> 'w browser \<Rightarrow> driver_page \<times> 'w browser" where
  "onReject cfg srv driverId ofr p b =
     (case rejectDispatch cfg srv (view_id ofr) driverId b of
        (r, b') \<Rightarrow> (toast ''Offer declined'' ''Couldn't update the offer.'' r (p\<lparr>dp_dismissed := dv_orderId ofr\<rparr>), b'))"

definition onPickup ::
    "web_config \<Rightarrow> 'w server \<Rightarrow> string \<Rightarrow> dispatch_view \<Rightarrow> driver_page \<Rightarrow> 'w browser \<Rightarrow> driver_page \<times> 'w browser" where
  "onPickup cfg srv driverId job p b =
     (case pickupOrder cfg srv (view_id job) driverId b of
        (r, b') \<Rightarrow> (toast ''Marked picked up'' ''Couldn't update the job.'' r p, b'))"

definition onDeliver ::
    "web_config \<Rightarrow> 'w server \<Rightarrow> string \<Rightarrow> dispatch_view \<Rightarrow> driver_page \<Rightarrow> 'w browser \<Rightarrow> driver_page \<times> 'w browser" where
  "onDeliver cfg srv driverId job p b =
     (case deliverOrder cfg srv (view_id job) driverId b of
        (r, b') \<Rightarrow> (toast ''Marked delivered'' ''Couldn't update the job.'' r p, b'))"

text \<open>The buttons of the job card.\<close>

datatype job_button = PickupButton | DeliverButton

definition job_card :: "dispatch_view \<Rightarrow> string \<times> job_button list" where
  "job_card job = (dispatchStatusLabel (dispatch_status_name (dv_status job)),
     (if dv_status job = DISPATCHED then [PickupButton] else [])
     @ (if dv_status job = PICKED_UP then [DeliverButton] else []))"

text \<open>The toggle: the driver's page follows only when the service has answered.\<close>

definition toggle_online ::
    "web_config \<Rightarrow> 'w server \<Rightarrow> string \<Rightarrow> driver_page \<Rightarrow> 'w browser \<Rightarrow> driver_page \<times> 'w browser" where
  "toggle_online cfg srv driverId p b =
     (let new = \<not> dp_online p in
      case (if new then goOnline_call cfg srv driverId b else goOffline_call cfg srv driverId b) of
        (Inr _, b') \<Rightarrow> (p\<lparr>dp_online := new,
           dp_toasts := dp_toasts p @ [if new then ''You're online'' else ''You're offline'']\<rparr>, b')
      | (Inl _, b') \<Rightarrow> (p\<lparr>dp_toasts := dp_toasts p @ [''Couldn't update your status.'']\<rparr>, b'))"

text \<open>Drivers nearby, without the driver's own ping.\<close>

definition toNearbyRows :: "nearby_driver list \<Rightarrow> string \<Rightarrow> nearby_driver list" where
  "toNearbyRows ds self = filter (\<lambda>d. nd_driverId d \<noteq> self) ds"

record nearby_state =
  ns_nearby :: "nearby_driver list"
  ns_reconnecting :: bool
  ns_loading :: bool

definition IDLE :: nearby_state where
  "IDLE = \<lparr>ns_nearby = [], ns_reconnecting = False, ns_loading = False\<rparr>"

definition enter_watch :: "bool \<Rightarrow> nearby_state \<Rightarrow> nearby_state" where
  "enter_watch watching s = (if \<not> watching then IDLE else s\<lparr>ns_loading := (ns_nearby s = [])\<rparr>)"

definition watch_tick :: "bool \<Rightarrow> (client_error, nearby_driver list) result \<Rightarrow> nearby_state \<Rightarrow> nearby_state" where
  "watch_tick active answer s =
     (if \<not> active then s
      else (case answer of
         Inr ds \<Rightarrow> \<lparr>ns_nearby = ds, ns_reconnecting = False, ns_loading = False\<rparr>
       | Inl _ \<Rightarrow> \<lparr>ns_nearby = ns_nearby s, ns_reconnecting = True, ns_loading = False\<rparr>))"

text \<open>
  What the page shows: an offer, a job, a notice when there is neither, and the map with the others
  nearby, centred on the driver's own ping or on the city, whose place comes from the catalog.
\<close>

datatype driver_widget =
    OfferWidget dispatch_view
  | JobWidget dispatch_view
  | WaitingNotice bool
  | LocatingNotice
  | NearbyWidget "real \<times> real" "nearby_driver option" "nearby_driver list"

definition driver_page_view ::
    "int \<Rightarrow> auth_claims option \<Rightarrow> tenant_view list \<Rightarrow> nearby_state \<Rightarrow> driver_page \<Rightarrow> dispatch_view option
     \<Rightarrow> driver_widget list" where
  "driver_page_view now claims tenants ns p dispatch =
     (let tenantId = (case claims of Some c \<Rightarrow> cl_tenantId c | None \<Rightarrow> ''berlin'');
          driverId = (case claims of Some c \<Rightarrow> cl_sub c | None \<Rightarrow> []);
          ofr = shown_offer now driverId p dispatch;
          job = shown_job driverId dispatch;
          center = map_option (\<lambda>t. (tv_lng t, tv_lat t)) (find (\<lambda>t. tv_slug t = tenantId) tenants);
          self = find (\<lambda>d. nd_driverId d = driverId) (ns_nearby ns);
          others = toNearbyRows (ns_nearby ns) driverId
      in (case ofr of Some v \<Rightarrow> [OfferWidget v] | None \<Rightarrow> [])
         @ (case job of Some v \<Rightarrow> [JobWidget v] | None \<Rightarrow> [])
         @ (if ofr = None \<and> job = None then [WaitingNotice (dp_online p)] else [])
         @ (if \<not> dp_online p then []
            else (case center of
               None \<Rightarrow> [LocatingNotice]
             | Some c \<Rightarrow> [NearbyWidget (case self of Some d \<Rightarrow> (nd_lng d, nd_lat d) | None \<Rightarrow> c) self others])))"

lemma ceil_seconds_pos: "0 < ceil_seconds ms \<longleftrightarrow> 0 < ms"
  by (simp add: ceil_seconds_def pos_imp_zdiv_neg_iff)

lemma offer_ticks_stop:
  assumes "dv_offerExpiresAt ofr = Some (ISO t)"
  shows "snd (offer_ticks ofr clock) \<longleftrightarrow> list_ex (\<lambda>now. t \<le> now) clock"
proof (induction clock)
  case (Cons now clock)
  have "secondsLeft now ofr = Some (max 0 (ceil_seconds (t - now)))"
    using assms by (simp add: secondsLeft_def)
  moreover have "max 0 (ceil_seconds (t - now)) \<le> 0 \<longleftrightarrow> t \<le> now"
    using ceil_seconds_pos [of "t - now"] by linarith
  ultimately show ?case using Cons by (auto split: prod.splits)
qed simp

text \<open>
  A driver sees an offer exactly while it can be taken. The page shows an offer only while the driver
  is online, to the driver it was made to, before the expiry the server stamped on it - for which the
  card counts down at least one second, and whose end it reports at the first tick from then on - and never
  beside a job; once it was declined or has expired it is not shown again, whatever the time, until
  another order's view replaces it.
\<close>

theorem driver_offer_window:
  "(case shown_offer now driverId p dispatch of
      None \<Rightarrow> True
    | Some v \<Rightarrow> dispatch = Some v \<and> dp_online p \<and> dv_status v = OFFERED \<and> dv_offeredDriverId v = Some driverId
        \<and> shown_job driverId dispatch = None
        \<and> (case dv_offerExpiresAt v of
             Some (ISO t) \<Rightarrow> now < t \<and> (\<exists>s. secondsLeft now v = Some s \<and> 1 \<le> s)
               \<and> (snd (offer_ticks v clock) \<longleftrightarrow> list_ex (\<lambda>x. t \<le> x) clock)
           | Some (NotDate _) \<Rightarrow> False
           | None \<Rightarrow> True)
        \<and> (dv_orderId v = None \<or>
            shown_offer later driverId (onExpire (Some v) p) dispatch = None
            \<and> shown_offer later driverId (fst (onReject cfg srv driverId v p b)) dispatch = None))"
proof (cases "shown_offer now driverId p dispatch")
  case (Some v)
  then have v: "dispatch = Some v" "dp_online p" "dv_status v = OFFERED" "dv_offeredDriverId v = Some driverId"
    "case dv_offerExpiresAt v of None \<Rightarrow> True | Some d \<Rightarrow> before_date now d"
    by (auto simp: shown_offer_def split: option.splits if_splits)
  have "case dv_offerExpiresAt v of
             Some (ISO t) \<Rightarrow> now < t \<and> (\<exists>s. secondsLeft now v = Some s \<and> 1 \<le> s)
               \<and> (snd (offer_ticks v clock) \<longleftrightarrow> list_ex (\<lambda>x. t \<le> x) clock)
           | Some (NotDate _) \<Rightarrow> False
           | None \<Rightarrow> True"
  proof (cases "dv_offerExpiresAt v")
    case (Some d)
    show ?thesis
    proof (cases d)
      case (ISO t)
      then have "now < t" using v(5) Some by (simp add: before_date_def)
      then have "0 < ceil_seconds (t - now)" by (simp add: ceil_seconds_pos)
      then show ?thesis using Some ISO \<open>now < t\<close> offer_ticks_stop [of v t clock]
        by (simp add: secondsLeft_def)
    next
      case (NotDate s)
      then show ?thesis using v(5) Some by (simp add: before_date_def)
    qed
  qed simp
  moreover have "dv_orderId v = None \<or>
      shown_offer later driverId (onExpire (Some v) p) dispatch = None
      \<and> shown_offer later driverId (fst (onReject cfg srv driverId v p b)) dispatch = None"
    using v by (auto simp: shown_offer_def onExpire_def onReject_def toast_def split: prod.splits)
  ultimately show ?thesis using Some v by (simp add: shown_job_def)
qed simp

section \<open>The merchant's detail sheet\<close>

record order_sheet =
  sh_busy :: bool
  sh_payment :: "string option"
  sh_fallback :: "dispatch_view option"
  sh_open :: bool
  sh_toasts :: "string list"

definition open_sheet ::
    "(client_error, string option) result \<Rightarrow> (client_error, dispatch_view option) result \<Rightarrow> order_sheet" where
  "open_sheet payment dispatch = \<lparr>sh_busy = False,
     sh_payment = (case payment of Inr p \<Rightarrow> p | Inl _ \<Rightarrow> None),
     sh_fallback = (case dispatch of Inr d \<Rightarrow> d | Inl _ \<Rightarrow> None), sh_open = True, sh_toasts = []\<rparr>"

text \<open>What the sheet shows of an order, and which of the two actions it offers.\<close>

datatype sheet_action = NoAction | AwaitingPayment | Decide bool

record sheet_view =
  sv_status :: order_status
  sv_reason :: "string option"
  sv_customer :: "string option"
  sv_items :: "(string \<times> int \<times> int) list"
  sv_total :: "int option"
  sv_delivery :: "string option"
  sv_action :: sheet_action

definition sheet_of :: "order_view \<Rightarrow> dispatch_view option \<Rightarrow> order_sheet \<Rightarrow> sheet_view" where
  "sheet_of v dispatch s =
     \<lparr>sv_status = ov_status v,
      sv_reason = (if ov_status v = CANCELLED \<and> cancelReasonLabel (ov_cancelReason v) \<noteq> []
                   then Some (cancelReasonLabel (ov_cancelReason v)) else None),
      sv_customer = ov_customerId v,
      sv_items = map (\<lambda>i. (sku i, qty i, price i * qty i)) (case ov_items v of Some its \<Rightarrow> its | None \<Rightarrow> []),
      sv_total = ov_totalAmount v,
      sv_delivery = (if ov_status v = ACCEPTED
         then Some (case (case dispatch of Some d \<Rightarrow> Some d | None \<Rightarrow> sh_fallback s) of
                      Some d \<Rightarrow> deliveryStatusLabel (dispatch_status_name (dv_status d))
                    | None \<Rightarrow> ''Preparing'' @ ELLIPSIS)
         else None),
      sv_action = (if ov_status v \<noteq> PLACED then NoAction
         else if sh_payment s = Some ''AUTHORIZED'' then Decide (\<not> sh_busy s) else AwaitingPayment)\<rparr>"

definition sheet_act ::
    "(string \<Rightarrow> 'w browser \<Rightarrow> (client_error, unit) result \<times> 'w browser) \<Rightarrow> string \<Rightarrow> order_view option
     \<Rightarrow> order_sheet \<Rightarrow> 'w browser \<Rightarrow> order_sheet \<times> 'w browser" where
  "sheet_act fn successMsg order s b =
     (case order of
        None \<Rightarrow> (s, b)
      | Some v \<Rightarrow>
          (case fn (nullish (ov_orderId v) ''undefined'') b of
             (Inr _, b') \<Rightarrow> (s\<lparr>sh_busy := False, sh_open := False, sh_toasts := sh_toasts s @ [successMsg]\<rparr>, b')
           | (Inl _, b') \<Rightarrow> (s\<lparr>sh_busy := False, sh_toasts := sh_toasts s @ [''Couldn't update the order.'']\<rparr>, b')))"

end
