(* ===== verification/Web_Shell.thy ===== *)
theory Web_Shell
  imports Web_Api
begin

text \<open>
  What every frontend is wrapped in (\<open>packages/web-shared/src/components\<close> and \<open>tenants\<close>): the gate that
  shows a page only to a session of the right role, the login form, the shared tenant catalog, the
  tenant's brand colour, the failure block with its actions and the status pill.
\<close>

section \<open>The gate\<close>

datatype 'p gate_view =
    GateLoading
  | GateLogin
  | GateWrongRole string "string option"
  | GatePage "string option" "string option" 'p

text \<open>An empty token is none, and an empty required role is none.\<close>

definition AuthGate :: "string option \<Rightarrow> 'p \<Rightarrow> 'w browser \<Rightarrow> 'p gate_view" where
  "AuthGate requiredRole page b =
     (if br_booting b then GateLoading
      else if br_token b = None \<or> br_token b = Some [] then GateLogin
      else (case requiredRole of
          Some r \<Rightarrow>
            if r \<noteq> [] \<and> map_option cl_role (br_claims b) \<noteq> Some r
            then GateWrongRole r (map_option cl_role (br_claims b))
            else GatePage (map_option cl_role (br_claims b)) (map_option cl_tenantId (br_claims b)) page
        | None \<Rightarrow> GatePage (map_option cl_role (br_claims b)) (map_option cl_tenantId (br_claims b)) page))"

text \<open>\<open>signOut\<close> of the error pages: the session is dropped before the hard navigation home.\<close>

definition sign_out :: "web_config \<Rightarrow> 'w server \<Rightarrow> 'w browser \<Rightarrow> 'w browser \<times> string" where
  "sign_out cfg srv b = (web_logout cfg srv b, ''/'')"

section \<open>The login form\<close>

definition DEMO_PASSWORD :: string where "DEMO_PASSWORD = ''devpassword''"

record login_form =
  lf_email :: string
  lf_password :: string
  lf_error :: "string option"
  lf_busy :: bool

definition blank_form :: login_form where
  "blank_form = \<lparr>lf_email = [], lf_password = [], lf_error = None, lf_busy = False\<rparr>"

definition pick_demo :: "string \<Rightarrow> login_form \<Rightarrow> login_form" where
  "pick_demo email f = f\<lparr>lf_email := email, lf_password := DEMO_PASSWORD\<rparr>"

text \<open>Whatever the failure was, the form says that the address or the password is wrong.\<close>

definition submit_login :: "web_config \<Rightarrow> 'w server \<Rightarrow> login_form \<Rightarrow> 'w browser \<Rightarrow> login_form \<times> 'w browser" where
  "submit_login cfg srv f b =
     (case web_login cfg srv (lf_email f) (lf_password f) b of
        (Inr _, b') \<Rightarrow> (f\<lparr>lf_error := None, lf_busy := False\<rparr>, b')
      | (Inl _, b') \<Rightarrow> (f\<lparr>lf_error := Some ''Invalid email or password'', lf_busy := False\<rparr>, b'))"

section \<open>The shared catalog\<close>

text \<open>
  The module's cache and whether a fetch is shared by its callers; a call of \<open>load\<close> tells whether it makes a
  request, and the answer settles the fetch: kept on success, forgotten on failure.
\<close>

record tenants_cache =
  tn_cache :: "tenant_view list option"
  tn_inflight :: bool

definition load_tenants :: "tenants_cache \<Rightarrow> tenants_cache \<times> bool" where
  "load_tenants c =
     (if tn_cache c \<noteq> None then (c, False)
      else if tn_inflight c then (c, False)
      else (c\<lparr>tn_inflight := True\<rparr>, True))"

definition settle_tenants :: "(client_error, tenant_view list) result \<Rightarrow> tenants_cache \<Rightarrow> tenants_cache" where
  "settle_tenants answer c =
     (case answer of Inr ts \<Rightarrow> c\<lparr>tn_cache := Some ts\<rparr> | Inl _ \<Rightarrow> c\<lparr>tn_inflight := False\<rparr>)"

record tenants_hook =
  tk_tenants :: "tenant_view list"
  tk_loading :: bool

definition mount_tenants :: "tenants_cache \<Rightarrow> tenants_hook" where
  "mount_tenants c = (case tn_cache c of
     Some ts \<Rightarrow> \<lparr>tk_tenants = ts, tk_loading = False\<rparr> | None \<Rightarrow> \<lparr>tk_tenants = [], tk_loading = True\<rparr>)"

definition tenants_answer :: "bool \<Rightarrow> (client_error, tenant_view list) result \<Rightarrow> tenants_hook \<Rightarrow> tenants_hook" where
  "tenants_answer active answer h =
     (if \<not> active then h
      else (case answer of
         Inr ts \<Rightarrow> \<lparr>tk_tenants = ts, tk_loading = False\<rparr> | Inl _ \<Rightarrow> h\<lparr>tk_loading := False\<rparr>))"

section \<open>Branding, failures and pills\<close>

definition DEFAULT_BRAND :: string where "DEFAULT_BRAND = ''#06c167''"

text \<open>The colour set on the root element, or nothing when the overrides are removed.\<close>

definition brand_color :: "string option \<Rightarrow> tenant_view list \<Rightarrow> string option" where
  "brand_color tenantId tenants =
     (case tenantId of
        None \<Rightarrow> None
      | Some t \<Rightarrow>
          if t = [] then None
          else Some (case find (\<lambda>v. tv_slug v = t) tenants of
             Some v \<Rightarrow> (case tv_brandColor v of Some c \<Rightarrow> c | None \<Rightarrow> DEFAULT_BRAND)
           | None \<Rightarrow> DEFAULT_BRAND))"

text \<open>An action with a non-empty address is a link, any other a button.\<close>

record error_action =
  ea_label :: string
  ea_href :: "string option"

datatype action_element = ActionLink string string | ActionButton string

definition renderAction :: "error_action option \<Rightarrow> action_element option" where
  "renderAction a =
     (case a of
        None \<Rightarrow> None
      | Some x \<Rightarrow> (case ea_href x of
           Some h \<Rightarrow> if h = [] then Some (ActionButton (ea_label x)) else Some (ActionLink h (ea_label x))
         | None \<Rightarrow> Some (ActionButton (ea_label x))))"

text \<open>The block and the banner: title, description unless it is empty, and the actions when there are any.\<close>

definition ErrorState ::
    "string option \<Rightarrow> string option \<Rightarrow> error_action option \<Rightarrow> error_action option
     \<Rightarrow> string \<times> string option \<times> action_element list" where
  "ErrorState title description action secondaryAction =
     (nullish title ''Something went wrong'',
      (case description of Some d \<Rightarrow> if d = [] then None else Some d | None \<Rightarrow> None),
      (case renderAction action of Some e \<Rightarrow> [e] | None \<Rightarrow> [])
      @ (case renderAction secondaryAction of Some e \<Rightarrow> [e] | None \<Rightarrow> []))"

definition VARIANTS :: "(string \<times> string) list" where
  "VARIANTS =
     [(''PLACED'', ''text-status-placed bg-status-placed-bg''),
      (''ACCEPTED'', ''text-status-accepted bg-status-accepted-bg''),
      (''CANCELLED'', ''text-status-cancelled bg-status-cancelled-bg'')]"

definition pill_class :: "string \<Rightarrow> string" where
  "pill_class status = (case map_of VARIANTS status of Some c \<Rightarrow> c | None \<Rightarrow> ''bg-muted text-muted-foreground'')"

section \<open>The catalog is fetched once\<close>

datatype tenants_io = Mounted | Settled "(client_error, tenant_view list) result"

text \<open>The requests made, for mounts and answers; an answer comes only to a fetch under way.\<close>

fun tenants_run :: "tenants_io list \<Rightarrow> tenants_cache \<Rightarrow> tenants_cache \<times> nat" where
  "tenants_run [] c = (c, 0)"
| "tenants_run (Mounted # ios) c =
     (case load_tenants c of (c', sent) \<Rightarrow>
        (case tenants_run ios c' of (c'', n) \<Rightarrow> (c'', n + (if sent then 1 else 0))))"
| "tenants_run (Settled r # ios) c = tenants_run ios (if tn_inflight c \<and> tn_cache c = None then settle_tenants r c else c)"

definition failures :: "tenants_io list \<Rightarrow> nat" where
  "failures ios = length (filter (\<lambda>io. case io of Settled (Inl _) \<Rightarrow> True | _ \<Rightarrow> False) ios)"

text \<open>
  However many components mount, the catalog is requested at most once more than its fetch fails, and not
  at all once it is there.
\<close>

theorem tenants_fetched_once:
  "case tenants_run ios c of (c', n) \<Rightarrow>
     n \<le> failures ios + (if tn_inflight c \<or> tn_cache c \<noteq> None then 0 else 1)
     \<and> (tn_cache c = None \<or> n = 0 \<and> tn_cache c' = tn_cache c)"
proof (induction ios arbitrary: c)
  case (Cons io ios)
  show ?case
  proof (cases io)
    case Mounted
  obtain c1 sent where l: "load_tenants c = (c1, sent)" by (rule prod.exhaust)
    show ?thesis using Cons [of c1] l Mounted
      by (auto simp: load_tenants_def failures_def split: prod.splits if_splits)
  next
    case (Settled r)
    show ?thesis
      using Cons [of c] Cons [of "settle_tenants r c"] Settled
      by (cases r) (auto simp: settle_tenants_def failures_def split: prod.splits if_splits)
  qed
qed (simp add: failures_def)

text \<open>A page behind the gate is shown only to a settled session with a token and the role asked for.\<close>

theorem gate_admits_role:
  "case AuthGate (Some r) page b of
     GatePage role tenant p \<Rightarrow> p = page \<and> \<not> br_booting b \<and> br_token b \<noteq> None \<and> (r = [] \<or> role = Some r)
   | GateWrongRole r' role \<Rightarrow> r' = r \<and> role \<noteq> Some r
   | GateLogin \<Rightarrow> br_token b \<in> {None, Some []}
   | GateLoading \<Rightarrow> br_booting b"
  by (auto simp: AuthGate_def)

end
