(* ===== verification/Web_Tables.thy ===== *)
theory Web_Tables
  imports Web_Dispatch Web_Shell "HOL-Library.Multiset"
begin

text \<open>
  The tables of the consoles: the generic table (\<open>packages/web-shared/src/components/data-table.tsx\<close>) and
  its three uses, the merchant's orders, the operator's orders and the drivers nearby. Sorting, filtering and
  paging are TanStack Table's, a parameter with its documented behaviour as a hypothesis. Characters
  beyond Latin-1 are written as their UTF-8 bytes.
\<close>

section \<open>What a cell shows\<close>

definition EURO_SIGN :: string where "EURO_SIGN = map char_of [226, 130, 172 :: nat]"

definition TIMES_SIGN :: string where "TIMES_SIGN = [char_of (215 :: nat)]"

text \<open>\<open>(cents / 100).toFixed(2)\<close> on a whole number of cents.\<close>

definition fixed2 :: "int \<Rightarrow> string" where
  "fixed2 cents =
     (let n = nat \<bar>cents\<bar> in
      (if cents < 0 then ''-'' else []) @ show_nat (n div 100) @ ''.'' @ show_nat (n mod 100 div 10) @ show_nat (n mod 10))"

definition euro :: "int \<Rightarrow> string" where
  "euro cents = EURO_SIGN @ fixed2 cents"

definition shortId :: "string \<Rightarrow> string" where
  "shortId i = ''#'' @ take 8 i"

definition show_signed :: "int \<Rightarrow> string" where
  "show_signed n = (if n < 0 then ''-'' else []) @ show_nat (nat \<bar>n\<bar>)"

definition itemsSummary :: "order_view \<Rightarrow> string" where
  "itemsSummary o' = join '', '' (map (\<lambda>i. sku i @ '' '' @ TIMES_SIGN @ show_signed (qty i))
     (nullish (ov_items o') []))"

text \<open>Dates and distances are printed by the platform: a cell holds what is printed.\<close>

datatype cell =
    Clock datestr | Text string | StatusPill string string | PillWithReason string string string | Km real

text \<open>What a column sorts and filters by.\<close>

datatype sort_value = ByText string | ByNumber real | ByTime datestr | ByNothing

record 'a column =
  cl_id :: string
  cl_header :: string
  cl_accessor :: "('a \<Rightarrow> sort_value) option"
  cl_cell :: "'a \<Rightarrow> cell"

section \<open>The generic table\<close>

record table_state =
  ts_sorting :: "(string \<times> bool) list"
  ts_filter :: string
  ts_pageIndex :: nat
  ts_pageSize :: nat

text \<open>
  TanStack Table: the rows of the page shown and their number of pages, whether a column is sorted and which
  way (\<open>Some True\<close> is descending), and what its handlers make of the state.
\<close>

record 'a table_lib =
  tl_rows :: "'a column list \<Rightarrow> 'a list \<Rightarrow> table_state \<Rightarrow> 'a list"
  tl_pageCount :: "'a column list \<Rightarrow> 'a list \<Rightarrow> table_state \<Rightarrow> nat"
  tl_canPrevious :: "'a column list \<Rightarrow> 'a list \<Rightarrow> table_state \<Rightarrow> bool"
  tl_canNext :: "'a column list \<Rightarrow> 'a list \<Rightarrow> table_state \<Rightarrow> bool"
  tl_previous :: "'a column list \<Rightarrow> 'a list \<Rightarrow> table_state \<Rightarrow> table_state"
  tl_next :: "'a column list \<Rightarrow> 'a list \<Rightarrow> table_state \<Rightarrow> table_state"
  tl_canSort :: "'a column \<Rightarrow> bool"
  tl_isSorted :: "'a column \<Rightarrow> table_state \<Rightarrow> bool option"

record 'a table_props =
  tp_columns :: "'a column list"
  tp_data :: "'a list"
  tp_initialSorting :: "(string \<times> bool) list"
  tp_globalFilter :: string
  tp_pageSize :: nat
  tp_emptyMessage :: string
  tp_loading :: bool

definition table_defaults :: "'a column list \<Rightarrow> 'a list \<Rightarrow> 'a table_props" where
  "table_defaults cols rows = \<lparr>tp_columns = cols, tp_data = rows, tp_initialSorting = [], tp_globalFilter = [],
     tp_pageSize = 10, tp_emptyMessage = ''No orders yet.'', tp_loading = False\<rparr>"

definition open_table :: "'a table_props \<Rightarrow> table_state" where
  "open_table p = \<lparr>ts_sorting = tp_initialSorting p, ts_filter = tp_globalFilter p, ts_pageIndex = 0,
     ts_pageSize = tp_pageSize p\<rparr>"

text \<open>Each row goes with the record its click hands on.\<close>

datatype 'a table_body = Skeletons nat nat | EmptyRow string nat | Rows "('a \<times> cell list) list"

record 'a table_view =
  tw_head :: "(string \<times> bool \<times> string) list"
  tw_body :: "'a table_body"
  tw_page :: "nat \<times> nat"
  tw_previous :: bool
  tw_next :: bool

definition ARROW_UP :: string where "ARROW_UP = '' '' @ map char_of [226, 134, 145 :: nat]"
definition ARROW_DOWN :: string where "ARROW_DOWN = '' '' @ map char_of [226, 134, 147 :: nat]"

definition head_cell :: "'a table_lib \<Rightarrow> table_state \<Rightarrow> 'a column \<Rightarrow> string \<times> bool \<times> string" where
  "head_cell lib st c = (cl_header c, tl_canSort lib c,
     (case tl_isSorted lib c st of None \<Rightarrow> [] | Some desc \<Rightarrow> if desc then ARROW_DOWN else ARROW_UP))"

definition DataTable :: "'a table_lib \<Rightarrow> 'a table_props \<Rightarrow> table_state \<Rightarrow> 'a table_view" where
  "DataTable lib p st0 =
     (let st = st0\<lparr>ts_filter := tp_globalFilter p\<rparr>; cols = tp_columns p; rows = tl_rows lib cols (tp_data p) st in
      \<lparr>tw_head = map (head_cell lib st) cols,
       tw_body = (if tp_loading p then Skeletons 5 (length cols)
                  else if rows = [] then EmptyRow (tp_emptyMessage p) (length cols)
                  else Rows (map (\<lambda>r. (r, map (\<lambda>c. cl_cell c r) cols)) rows)),
       tw_page = (ts_pageIndex st + 1, max (tl_pageCount lib cols (tp_data p) st) 1),
       tw_previous = tl_canPrevious lib cols (tp_data p) st,
       tw_next = tl_canNext lib cols (tp_data p) st\<rparr>)"

text \<open>The buttons: a disabled one does nothing.\<close>

definition click_next :: "'a table_lib \<Rightarrow> 'a table_props \<Rightarrow> table_state \<Rightarrow> table_state" where
  "click_next lib p st =
     (if tw_next (DataTable lib p st) then tl_next lib (tp_columns p) (tp_data p) st else st)"

definition click_previous :: "'a table_lib \<Rightarrow> 'a table_props \<Rightarrow> table_state \<Rightarrow> table_state" where
  "click_previous lib p st =
     (if tw_previous (DataTable lib p st) then tl_previous lib (tp_columns p) (tp_data p) st else st)"

section \<open>The three tables\<close>

definition order_text :: "string option \<Rightarrow> sort_value" where
  "order_text x = (case x of Some s \<Rightarrow> ByText s | None \<Rightarrow> ByNothing)"

definition order_number :: "int option \<Rightarrow> sort_value" where
  "order_number x = (case x of Some n \<Rightarrow> ByNumber (of_int n) | None \<Rightarrow> ByNothing)"

definition status_text :: "order_view \<Rightarrow> string" where
  "status_text v = order_status_name (Some (ov_status v))"

text \<open>A stored order has an id and a total.\<close>

definition id_cell :: "order_view \<Rightarrow> cell" where
  "id_cell v = Text (shortId (nullish (ov_orderId v) []))"

definition total_cell :: "order_view \<Rightarrow> cell" where
  "total_cell v = Text (euro (nullish (ov_totalAmount v) 0))"

definition buildColumns :: "dispatch_map \<Rightarrow> order_view column list" where
  "buildColumns dispatches =
     [\<lparr>cl_id = ''time'', cl_header = ''Time'', cl_accessor = Some (\<lambda>v. ByTime (ov_updatedAt v)),
       cl_cell = (\<lambda>v. Clock (ov_updatedAt v))\<rparr>,
      \<lparr>cl_id = ''order'', cl_header = ''Order'', cl_accessor = Some (\<lambda>v. order_text (ov_orderId v)), cl_cell = id_cell\<rparr>,
      \<lparr>cl_id = ''customer'', cl_header = ''Customer'', cl_accessor = Some (\<lambda>v. order_text (ov_customerId v)),
       cl_cell = (\<lambda>v. Text (nullish (ov_customerId v) []))\<rparr>,
      \<lparr>cl_id = ''items'', cl_header = ''Items'', cl_accessor = None, cl_cell = (\<lambda>v. Text (itemsSummary v))\<rparr>,
      \<lparr>cl_id = ''total'', cl_header = ''Total'', cl_accessor = Some (\<lambda>v. order_number (ov_totalAmount v)), cl_cell = total_cell\<rparr>,
      \<lparr>cl_id = ''status'', cl_header = ''Status'', cl_accessor = Some (\<lambda>v. ByText (status_text v)),
       cl_cell = (\<lambda>v. StatusPill (status_text v) (pill_class (status_text v)))\<rparr>,
      \<lparr>cl_id = ''delivery'', cl_header = ''Delivery'', cl_accessor = None,
       cl_cell = (\<lambda>v. Text (case dispatches (ov_orderId v) of
          Some d \<Rightarrow> deliveryStatusLabel (dispatch_status_name (dv_status d)) | None \<Rightarrow> EM_DASH))\<rparr>]"

definition OrdersTable :: "order_view list \<Rightarrow> string \<Rightarrow> dispatch_map \<Rightarrow> bool \<Rightarrow> order_view table_props" where
  "OrdersTable rows flt dispatches loading = (table_defaults (buildColumns dispatches) rows)
     \<lparr>tp_initialSorting := [(''time'', True)], tp_globalFilter := flt, tp_loading := loading\<rparr>"

definition admin_columns :: "order_view column list" where
  "admin_columns =
     [\<lparr>cl_id = ''time'', cl_header = ''Time'', cl_accessor = Some (\<lambda>v. ByTime (ov_updatedAt v)),
       cl_cell = (\<lambda>v. Clock (ov_updatedAt v))\<rparr>,
      \<lparr>cl_id = ''tenant'', cl_header = ''Tenant'', cl_accessor = Some (\<lambda>v. ByText (ov_tenantId v)),
       cl_cell = (\<lambda>v. Text (ov_tenantId v))\<rparr>,
      \<lparr>cl_id = ''order'', cl_header = ''Order'', cl_accessor = Some (\<lambda>v. order_text (ov_orderId v)), cl_cell = id_cell\<rparr>,
      \<lparr>cl_id = ''customer'', cl_header = ''Customer'', cl_accessor = Some (\<lambda>v. order_text (ov_customerId v)),
       cl_cell = (\<lambda>v. Text (nullish (ov_customerId v) []))\<rparr>,
      \<lparr>cl_id = ''total'', cl_header = ''Total'', cl_accessor = Some (\<lambda>v. order_number (ov_totalAmount v)), cl_cell = total_cell\<rparr>,
      \<lparr>cl_id = ''status'', cl_header = ''Status'', cl_accessor = Some (\<lambda>v. ByText (status_text v)),
       cl_cell = (\<lambda>v. if cancelReasonLabel (ov_cancelReason v) = [] then StatusPill (status_text v) (pill_class (status_text v))
          else PillWithReason (status_text v) (pill_class (status_text v)) (cancelReasonLabel (ov_cancelReason v)))\<rparr>]"

definition AdminOrdersTable :: "order_view list \<Rightarrow> string \<Rightarrow> bool \<Rightarrow> order_view table_props" where
  "AdminOrdersTable rows flt loading = (table_defaults admin_columns rows)
     \<lparr>tp_initialSorting := [(''time'', True)], tp_globalFilter := flt, tp_loading := loading,
      tp_emptyMessage := ''No orders yet.''\<rparr>"

definition nearby_columns :: "nearby_driver column list" where
  "nearby_columns =
     [\<lparr>cl_id = ''driver'', cl_header = ''Driver'', cl_accessor = Some (\<lambda>d. ByText (nd_driverId d)),
       cl_cell = (\<lambda>d. Text (nd_driverId d))\<rparr>,
      \<lparr>cl_id = ''distance'', cl_header = ''Distance'', cl_accessor = Some (\<lambda>d. ByNumber (nd_distanceKm d)),
       cl_cell = (\<lambda>d. Km (nd_distanceKm d))\<rparr>]"

definition NearbyTable :: "nearby_driver list \<Rightarrow> bool \<Rightarrow> nearby_driver table_props" where
  "NearbyTable rows loading = (table_defaults nearby_columns rows)
     \<lparr>tp_initialSorting := [(''distance'', False)], tp_loading := loading, tp_emptyMessage := ''No nearby drivers.''\<rparr>"

section \<open>Paging shows every match once\<close>

text \<open>
  TanStack Table as documented: \<open>matching\<close> is the data filtered and sorted, a page is a slice of it, and
  the buttons move between the pages there are.
\<close>

definition paginates ::
    "('a column list \<Rightarrow> 'a list \<Rightarrow> (string \<times> bool) list \<Rightarrow> string \<Rightarrow> 'a list) \<Rightarrow> 'a table_lib \<Rightarrow> bool" where
  "paginates matching lib \<longleftrightarrow> (\<forall>cols rows st. 0 < ts_pageSize st \<longrightarrow>
     (let m = matching cols rows (ts_sorting st) (ts_filter st); size = ts_pageSize st; i = ts_pageIndex st in
      mset m \<subseteq># mset rows
      \<and> tl_rows lib cols rows st = take size (drop (i * size) m)
      \<and> tl_pageCount lib cols rows st = (length m + size - 1) div size
      \<and> tl_canPrevious lib cols rows st = (0 < i)
      \<and> tl_canNext lib cols rows st = (i + 1 < (length m + size - 1) div size)
      \<and> tl_previous lib cols rows st = st\<lparr>ts_pageIndex := i - 1\<rparr>
      \<and> tl_next lib cols rows st = st\<lparr>ts_pageIndex := i + 1\<rparr>))"

definition page_after :: "'a table_lib \<Rightarrow> 'a table_props \<Rightarrow> nat \<Rightarrow> 'a table_view" where
  "page_after lib p n = DataTable lib p ((click_next lib p ^^ n) (open_table p))"

fun body_rows :: "'a table_body \<Rightarrow> 'a list" where
  "body_rows (Rows rs) = map fst rs"
| "body_rows _ = []"

lemma concat_slices: "concat (map (\<lambda>i. take s (drop (i * s) xs)) [0..<k]) = take (k * s) xs"
proof (induction k)
  case (Suc k)
  have "take (s + k * s) xs = take (k * s) xs @ take s (drop (k * s) xs)"
    by (metis add.commute take_add)
  with Suc show ?case by simp
qed simp

definition page_at :: "'a table_props \<Rightarrow> nat \<Rightarrow> table_state" where
  "page_at p n = \<lparr>ts_sorting = tp_initialSorting p, ts_filter = tp_globalFilter p, ts_pageIndex = n,
     ts_pageSize = tp_pageSize p\<rparr>"

definition matches ::
    "('a column list \<Rightarrow> 'a list \<Rightarrow> (string \<times> bool) list \<Rightarrow> string \<Rightarrow> 'a list) \<Rightarrow> 'a table_props \<Rightarrow> 'a list" where
  "matches matching p = matching (tp_columns p) (tp_data p) (tp_initialSorting p) (tp_globalFilter p)"

definition page_total :: "'a list \<Rightarrow> 'a table_props \<Rightarrow> nat" where
  "page_total m p = (length m + tp_pageSize p - 1) div tp_pageSize p"

lemma table_page:
  assumes "paginates matching lib" and "0 < tp_pageSize p" and "m = matches matching p"
  shows "tw_page (DataTable lib p (page_at p n)) = (n + 1, max (page_total m p) 1)"
    and "tw_next (DataTable lib p (page_at p n)) \<longleftrightarrow> n + 1 < page_total m p"
    and "\<not> tp_loading p \<Longrightarrow>
      body_rows (tw_body (DataTable lib p (page_at p n))) = take (tp_pageSize p) (drop (n * tp_pageSize p) m)"
    and "click_next lib p (page_at p n) = page_at p (if n + 1 < page_total m p then n + 1 else n)"
proof -
  have st: "(page_at p n)\<lparr>ts_filter := tp_globalFilter p\<rparr> = page_at p n" by (simp add: page_at_def)
  have "0 < ts_pageSize (page_at p n)" using assms(2) by (simp add: page_at_def)
  note lib = assms(1) [unfolded paginates_def, rule_format, OF this, of "tp_columns p" "tp_data p"]
  have laws: "tl_rows lib (tp_columns p) (tp_data p) (page_at p n) = take (tp_pageSize p) (drop (n * tp_pageSize p) m)"
    "tl_pageCount lib (tp_columns p) (tp_data p) (page_at p n) = page_total m p"
    "tl_canNext lib (tp_columns p) (tp_data p) (page_at p n) \<longleftrightarrow> n + 1 < page_total m p"
    "tl_next lib (tp_columns p) (tp_data p) (page_at p n) = page_at p (n + 1)"
    using lib by (simp_all add: assms(3) Let_def page_at_def matches_def page_total_def)
  show "tw_page (DataTable lib p (page_at p n)) = (n + 1, max (page_total m p) 1)"
    by (simp add: DataTable_def Let_def st laws) (simp add: page_at_def)
  show nx: "tw_next (DataTable lib p (page_at p n)) \<longleftrightarrow> n + 1 < page_total m p"
    by (simp add: DataTable_def Let_def st laws)
  show "click_next lib p (page_at p n) = page_at p (if n + 1 < page_total m p then n + 1 else n)"
    using nx laws(4) by (simp add: click_next_def)
  show "body_rows (tw_body (DataTable lib p (page_at p n))) = take (tp_pageSize p) (drop (n * tp_pageSize p) m)"
    if "\<not> tp_loading p"
    using that by (simp add: DataTable_def Let_def st laws comp_def)
qed

lemma next_clicks:
  assumes "paginates matching lib" and "0 < tp_pageSize p"
  shows "(click_next lib p ^^ n) (open_table p) = page_at p (min n (page_total (matches matching p) p - 1))"
proof (induction n)
  case 0
  then show ?case by (simp add: open_table_def page_at_def)
next
  case (Suc n)
  then show ?case using table_page(4) [OF assms refl] by simp
qed

text \<open>
  Clicking through a table from its first page shows, page by page, every row that matches the search once
  and in order; the last page is announced as such and its button leads no further.
\<close>

theorem paging_shows_every_match:
  assumes "paginates matching lib" and "0 < tp_pageSize p" and "\<not> tp_loading p"
    and "m = matches matching p" and "k = max (page_total m p) 1"
  shows "concat (map (\<lambda>n. body_rows (tw_body (page_after lib p n))) [0..<k]) = m
    \<and> tw_page (page_after lib p (k - 1)) = (k, k) \<and> \<not> tw_next (page_after lib p (k - 1))"
proof -
  let ?s = "tp_pageSize p"
  note pg = table_page [OF assms(1,2,4)]
  have pages: "page_after lib p n = DataTable lib p (page_at p n)" if "n < k" for n
    using next_clicks [OF assms(1,2), of n] that assms(4,5) by (simp add: page_after_def min_def max_def split: if_splits)
  have "concat (map (\<lambda>n. body_rows (tw_body (page_after lib p n))) [0..<k]) = take (k * ?s) m"
    unfolding concat_slices [symmetric] using pages assms(3)
    by (intro arg_cong [where f = concat] map_cong) (simp_all add: pg)
  moreover have "length m + ?s - 1 < (page_total m p + 1) * ?s"
    using assms(2) dividend_less_div_times [of ?s "length m + ?s - 1"] by (simp add: page_total_def)
  then have "length m \<le> page_total m p * ?s" using assms(2) by (simp add: algebra_simps)
  then have "length m \<le> k * ?s" using mult_le_mono1 [of "page_total m p" k ?s] assms(5) by linarith
  ultimately show ?thesis using pages [of "k - 1"] pg(1,2) [of "k - 1"] assms(5) by auto
qed

end
