(* ===== verification/Web_Analytics.thy ===== *)
theory Web_Analytics
  imports Web_Orders
begin

text \<open>
  The operator's figures (\<open>packages/web-shared/src/orders/analytics.ts\<close>) and the cards that show them
  (\<open>apps/web-admin/components/stat-cards.tsx\<close>). A stored order has a total; one without it counts as zero
  here, where the code would show \<open>NaN\<close>.
\<close>

section \<open>Aggregations\<close>

text \<open>\<open>[...new Set(xs)]\<close>: the first occurrences, in order.\<close>

fun uniq :: "'a list \<Rightarrow> 'a list" where
  "uniq [] = []"
| "uniq (x # xs) = x # filter (\<lambda>y. y \<noteq> x) (uniq xs)"

definition live :: "order_view \<Rightarrow> bool" where
  "live v \<longleftrightarrow> ov_status v \<noteq> CANCELLED"

definition tenantsOf :: "order_view list \<Rightarrow> string list" where
  "tenantsOf orders = uniq (map ov_tenantId orders)"

definition amount :: "order_view \<Rightarrow> int" where
  "amount v = (case ov_totalAmount v of Some n \<Rightarrow> n | None \<Rightarrow> 0)"

definition sum_amounts :: "order_view list \<Rightarrow> int" where
  "sum_amounts orders = foldl (\<lambda>s v. s + amount v) 0 orders"

definition aggregateGmv :: "order_view list \<Rightarrow> int" where
  "aggregateGmv orders = sum_amounts (filter live orders)"

record tenant_gmv =
  tg_tenant :: string
  tg_gmv :: int

definition gmvByTenant :: "order_view list \<Rightarrow> tenant_gmv list" where
  "gmvByTenant orders = map (\<lambda>t. \<lparr>tg_tenant = t,
     tg_gmv = sum_amounts (filter (\<lambda>v. ov_tenantId v = t \<and> live v) orders)\<rparr>) (tenantsOf orders)"

record tenant_status_counts =
  tc_tenant :: string
  tc_placed :: nat
  tc_accepted :: nat
  tc_cancelled :: nat

definition statusBreakdown :: "order_view list \<Rightarrow> tenant_status_counts list" where
  "statusBreakdown orders = map (\<lambda>t.
     let rows = filter (\<lambda>v. ov_tenantId v = t) orders in
     \<lparr>tc_tenant = t,
      tc_placed = length (filter (\<lambda>v. ov_status v = PLACED) rows),
      tc_accepted = length (filter (\<lambda>v. ov_status v = ACCEPTED) rows),
      tc_cancelled = length (filter (\<lambda>v. ov_status v = CANCELLED) rows)\<rparr>) (tenantsOf orders)"

text \<open>\<open>totals.set(k, (totals.get(k) ?? 0) + n)\<close> on a \<open>Map\<close>, which keeps the order of insertion.\<close>

fun bump :: "'k \<Rightarrow> int \<Rightarrow> ('k \<times> int) list \<Rightarrow> ('k \<times> int) list" where
  "bump k n [] = [(k, n)]"
| "bump k n ((j, m) # r) = (if j = k then (j, m + n) # r else (j, m) # bump k n r)"

definition order_items :: "order_view \<Rightarrow> order_item list" where
  "order_items v = (case ov_items v of Some its \<Rightarrow> its | None \<Rightarrow> [])"

definition sku_totals :: "order_view list \<Rightarrow> (string \<times> int) list" where
  "sku_totals orders =
     foldl (\<lambda>m v. foldl (\<lambda>m it. bump (sku it) (qty it) m) m (order_items v)) [] (filter live orders)"

text \<open>\<open>localeCompare\<close> is an argument.\<close>

definition topSkus :: "(string \<Rightarrow> string \<Rightarrow> int) \<Rightarrow> order_view list \<Rightarrow> nat \<Rightarrow> (string \<times> int) list" where
  "topSkus localeCompare orders limit =
     take limit (js_sort (\<lambda>a b. if snd b - snd a \<noteq> 0 then snd b - snd a else localeCompare (fst a) (fst b))
       (sku_totals orders))"

text \<open>
  The first thirteen characters of an ISO time name its hour and sort as it does: a bucket is the number
  of the hour.
\<close>

definition hour_bucket :: "datestr \<Rightarrow> int" where
  "hour_bucket d = (case d of ISO t \<Rightarrow> t div 3600000 | NotDate _ \<Rightarrow> 0)"

definition gmvOverTime :: "order_view list \<Rightarrow> (int \<times> int) list" where
  "gmvOverTime orders =
     js_sort (\<lambda>a b. if fst a < fst b then -1 else 1)
       (foldl (\<lambda>m v. bump (hour_bucket (ov_updatedAt v)) (amount v) m) [] (filter live orders))"

record order_counts =
  oc_total :: nat
  oc_cancelled :: nat
  oc_cancelRate :: real

definition orderCounts :: "order_view list \<Rightarrow> order_counts" where
  "orderCounts orders =
     (let total = length orders; cancelled = length (filter (\<lambda>v. ov_status v = CANCELLED) orders) in
      \<lparr>oc_total = total, oc_cancelled = cancelled,
       oc_cancelRate = (if total = 0 then 0 else real cancelled / real total)\<rparr>)"

definition replaceTenantOrders :: "order_view list \<Rightarrow> string \<Rightarrow> order_view list \<Rightarrow> order_view list" where
  "replaceTenantOrders al tenant incoming = filter (\<lambda>v. ov_tenantId v \<noteq> tenant) al @ incoming"

text \<open>The cards: GMV, orders, cancellations with their rate, and the active drivers with those per tenant.\<close>

record stat_cards =
  sc_gmv :: int
  sc_orders :: nat
  sc_cancelled :: nat
  sc_cancelRate :: real
  sc_activeDrivers :: nat
  sc_driverHint :: "(string \<times> nat) list"

definition statCards :: "order_view list \<Rightarrow> (string \<times> nearby_driver list) list \<Rightarrow> stat_cards" where
  "statCards orders driversByTenant =
     (let c = orderCounts orders in
      \<lparr>sc_gmv = aggregateGmv orders, sc_orders = oc_total c, sc_cancelled = oc_cancelled c,
       sc_cancelRate = oc_cancelRate c,
       sc_activeDrivers = foldl (\<lambda>s (t, ds). s + length ds) 0 driversByTenant,
       sc_driverHint = map (\<lambda>(t, ds). (t, length ds)) driversByTenant\<rparr>)"

section \<open>The figures agree\<close>

lemma set_uniq [simp]: "set (uniq xs) = set xs"
  by (induction xs) auto

lemma distinct_uniq [simp]: "distinct (uniq xs)"
  by (induction xs) auto

lemma sum_uniq: "sum_list (map f (uniq xs)) = sum f (set xs)"
  by (simp add: sum_list_distinct_conv_sum_set)

lemma sum_amounts_eq: "sum_amounts vs = sum_list (map amount vs)"
proof -
  have "foldl (\<lambda>s v. s + amount v) a vs = a + sum_list (map amount vs)" for a
    by (induction vs arbitrary: a) auto
  then show ?thesis by (simp add: sum_amounts_def)
qed

text \<open>Summing by group is summing.\<close>

lemma sum_groups:
  fixes w :: "'a \<Rightarrow> 'b :: comm_monoid_add"
  assumes "finite T" and "g ` set xs \<subseteq> T"
  shows "sum (\<lambda>t. sum_list (map w (filter (\<lambda>x. g x = t) xs))) T = sum_list (map w xs)"
  using assms(2)
proof (induction xs)
  case (Cons x xs)
  have "sum (\<lambda>t. sum_list (map w (filter (\<lambda>x. g x = t) (x # xs)))) T =
      sum (\<lambda>t. (if g x = t then w x else 0) + sum_list (map w (filter (\<lambda>x. g x = t) xs))) T"
    by (intro sum.cong) auto
  also have "\<dots> = w x + sum_list (map w xs)"
    using Cons assms(1) by (simp add: sum.distrib)
  finally show ?case by simp
qed simp

lemma map_of_bump: "map_of (bump k n m) j =
    (if j = k then Some ((case map_of m k of Some x \<Rightarrow> x | None \<Rightarrow> 0) + n) else map_of m j)"
  by (induction k n m rule: bump.induct) auto

lemma keys_bump: "set (map fst (bump k n m)) = insert k (set (map fst m))"
  by (induction k n m rule: bump.induct) auto

lemma distinct_bump: "distinct (map fst m) \<Longrightarrow> distinct (map fst (bump k n m))"
proof (induction k n m rule: bump.induct)
  case (2 k n j m r)
  then show ?case using keys_bump [of k n r] by auto
qed simp

lemma sum_bump: "sum_list (map snd (bump k n m)) = n + sum_list (map snd m)"
  by (induction k n m rule: bump.induct) auto

definition totals :: "('k \<times> int) list \<Rightarrow> ('k \<times> int) list" where
  "totals kns = foldl (\<lambda>m (k, n). bump k n m) [] kns"

lemma totals_snoc: "totals (kns @ [(k, n)]) = bump k n (totals kns)"
  by (simp add: totals_def)

lemma totals_facts:
  shows "distinct (map fst (totals kns))" and "sum_list (map snd (totals kns)) = sum_list (map snd kns)"
    and "map_of (totals kns) k =
      (if k \<in> fst ` set kns then Some (sum_list (map snd (filter (\<lambda>x. fst x = k) kns))) else None)"
proof -
  have "distinct (map fst (totals kns)) \<and> sum_list (map snd (totals kns)) = sum_list (map snd kns)
    \<and> (\<forall>k. map_of (totals kns) k =
      (if k \<in> fst ` set kns then Some (sum_list (map snd (filter (\<lambda>x. fst x = k) kns))) else None))"
  proof (induction kns rule: rev_induct)
    case Nil
    then show ?case by (simp add: totals_def)
  next
    case (snoc x kns)
    obtain k n where "x = (k, n)" by (rule prod.exhaust)
    moreover have "sum_list (map snd (filter (\<lambda>x. fst x = j) kns)) = 0" if "j \<notin> fst ` set kns" for j
      using that by (induction kns) auto
    ultimately show ?case using snoc
      by (auto simp: totals_snoc distinct_bump sum_bump map_of_bump)
  qed
  then show "distinct (map fst (totals kns))" "sum_list (map snd (totals kns)) = sum_list (map snd kns)"
    "map_of (totals kns) k =
      (if k \<in> fst ` set kns then Some (sum_list (map snd (filter (\<lambda>x. fst x = k) kns))) else None)" by auto
qed

definition sku_entries :: "order_view list \<Rightarrow> (string \<times> int) list" where
  "sku_entries orders = concat (map (\<lambda>v. map (\<lambda>it. (sku it, qty it)) (order_items v)) (filter live orders))"

lemma sku_totals_eq: "sku_totals orders = totals (sku_entries orders)"
proof -
  have inner: "foldl (\<lambda>m it. bump (sku it) (qty it) m) m its
      = foldl (\<lambda>m (k, n). bump k n m) m (map (\<lambda>it. (sku it, qty it)) its)" for m its
    by (induction its arbitrary: m) auto
  have "foldl (\<lambda>m v. foldl (\<lambda>m it. bump (sku it) (qty it) m) m (order_items v)) m vs
      = foldl (\<lambda>m (k, n). bump k n m) m (concat (map (\<lambda>v. map (\<lambda>it. (sku it, qty it)) (order_items v)) vs))" for m vs
    by (induction vs arbitrary: m) (auto simp: inner)
  then show ?thesis by (simp add: sku_totals_def totals_def sku_entries_def)
qed

lemma gmv_buckets_eq:
  "foldl (\<lambda>m v. bump (hour_bucket (ov_updatedAt v)) (amount v) m) [] vs
     = totals (map (\<lambda>v. (hour_bucket (ov_updatedAt v), amount v)) vs)"
proof -
  have "foldl (\<lambda>m v. bump (hour_bucket (ov_updatedAt v)) (amount v) m) m vs
      = foldl (\<lambda>m (k, n). bump k n m) m (map (\<lambda>v. (hour_bucket (ov_updatedAt v), amount v)) vs)" for m
    by (induction vs arbitrary: m) auto
  then show ?thesis by (simp add: totals_def)
qed

lemma gmv_by_tenant_sum: "sum_list (map tg_gmv (gmvByTenant orders)) = aggregateGmv orders"
proof -
  have "sum_list (map tg_gmv (gmvByTenant orders))
      = sum (\<lambda>t. sum_list (map amount (filter (\<lambda>v. ov_tenantId v = t) (filter live orders)))) (ov_tenantId ` set orders)"
    by (simp add: gmvByTenant_def tenantsOf_def sum_uniq comp_def sum_amounts_eq conj_commute)
  also have "\<dots> = sum_list (map amount (filter live orders))"
    by (rule sum_groups) auto
  finally show ?thesis by (simp add: aggregateGmv_def sum_amounts_eq)
qed

lemma length_groups:
  assumes "finite T" and "g ` set xs \<subseteq> T"
  shows "sum (\<lambda>t. length (filter (\<lambda>x. g x = t) xs)) T = length xs"
  using sum_groups [OF assms, of "\<lambda>_. 1 :: nat"] by (simp add: sum_list_triv)

lemma status_counts_sum:
  "sum_list (map (\<lambda>c. tc_placed c + tc_accepted c + tc_cancelled c) (statusBreakdown orders)) = length orders"
  "sum_list (map tc_cancelled (statusBreakdown orders)) = oc_cancelled (orderCounts orders)"
proof -
  let ?n = "\<lambda>s t. length (filter (\<lambda>v. ov_tenantId v = t \<and> ov_status v = s) orders)"
  have split: "?n PLACED t + ?n ACCEPTED t + ?n CANCELLED t = length (filter (\<lambda>v. ov_tenantId v = t) orders)" for t
  proof (induction orders)
    case (Cons v vs)
    then show ?case by (cases "ov_status v") auto
  qed simp
  have "sum_list (map (\<lambda>c. tc_placed c + tc_accepted c + tc_cancelled c) (statusBreakdown orders))
      = sum (\<lambda>t. ?n PLACED t + ?n ACCEPTED t + ?n CANCELLED t) (ov_tenantId ` set orders)"
    by (simp add: statusBreakdown_def tenantsOf_def Let_def comp_def sum_uniq)
  also have "\<dots> = length orders"
    unfolding split by (rule length_groups) auto
  finally show "sum_list (map (\<lambda>c. tc_placed c + tc_accepted c + tc_cancelled c) (statusBreakdown orders)) = length orders" .
  have "sum_list (map tc_cancelled (statusBreakdown orders))
      = sum (\<lambda>t. length (filter (\<lambda>v. ov_tenantId v = t) (filter (\<lambda>v. ov_status v = CANCELLED) orders)))
          (ov_tenantId ` set orders)"
    by (simp add: statusBreakdown_def tenantsOf_def Let_def comp_def sum_uniq conj_commute)
  also have "\<dots> = length (filter (\<lambda>v. ov_status v = CANCELLED) orders)" by (rule length_groups) auto
  finally show "sum_list (map tc_cancelled (statusBreakdown orders)) = oc_cancelled (orderCounts orders)"
    by (simp add: orderCounts_def Let_def)
qed

lemma gmv_over_time_facts:
  "sum_list (map snd (gmvOverTime orders)) = aggregateGmv orders"
  "sorted_wrt (<) (map fst (gmvOverTime orders))"
proof -
  let ?cmp = "\<lambda>a b :: int \<times> int. if fst a < fst b then -1 else 1 :: int"
  let ?kns = "map (\<lambda>v. (hour_bucket (ov_updatedAt v), amount v)) (filter live orders)"
  have g: "gmvOverTime orders = js_sort ?cmp (totals ?kns)"
    by (simp add: gmvOverTime_def gmv_buckets_eq)
  show "sum_list (map snd (gmvOverTime orders)) = aggregateGmv orders"
    by (simp add: g sum_js_sort totals_facts(2) aggregateGmv_def sum_amounts_eq comp_def)
  have "sorted_wrt (\<lambda>a b. fst a \<le> fst b) (gmvOverTime orders)"
    unfolding g by (rule sorted_js_sort) (auto split: if_splits)
  moreover have "distinct (map fst (gmvOverTime orders))"
    unfolding g by (simp add: js_sort_distinct totals_facts(1))
  ultimately show "sorted_wrt (<) (map fst (gmvOverTime orders))"
    by (simp add: strict_sorted_iff sorted_map)
qed

lemma top_skus_facts:
  "sorted_wrt (\<lambda>a b. snd b \<le> snd a) (topSkus loc orders limit)"
  "distinct (map fst (topSkus loc orders limit))"
  "x \<in> set (topSkus loc orders limit) \<Longrightarrow>
     snd x = sum_list (map snd (filter (\<lambda>e. fst e = fst x) (sku_entries orders)))"
proof -
  let ?cmp = "\<lambda>a b. if snd b - snd a \<noteq> 0 then snd b - snd a else loc (fst a) (fst b)"
  let ?all = "js_sort ?cmp (sku_totals orders)"
  have "sorted_wrt (\<lambda>a b. snd b \<le> snd a) ?all"
    by (rule sorted_js_sort) (auto split: if_splits)
  then show "sorted_wrt (\<lambda>a b. snd b \<le> snd a) (topSkus loc orders limit)"
    by (simp add: topSkus_def sorted_wrt_take)
  have d: "distinct (map fst ?all)"
    by (simp add: js_sort_distinct sku_totals_eq totals_facts(1))
  then show "distinct (map fst (topSkus loc orders limit))"
    by (simp add: topSkus_def take_map [symmetric])
  assume "x \<in> set (topSkus loc orders limit)"
  then have "x \<in> set (sku_totals orders)" by (auto simp: topSkus_def dest: in_set_takeD)
  then have "map_of (totals (sku_entries orders)) (fst x) = Some (snd x)"
    by (intro map_of_is_SomeI) (auto simp: sku_totals_eq totals_facts(1))
  then show "snd x = sum_list (map snd (filter (\<lambda>e. fst e = fst x) (sku_entries orders)))"
    by (auto simp: totals_facts(3) split: if_splits)
qed

text \<open>
  The operator's figures add up. The GMV per tenant and the GMV per hour each sum to the total GMV,
  the hours strictly ascending; the orders placed, accepted and cancelled per tenant sum to all orders,
  and the cancelled ones to the number on the card, whose rate is between zero and one; and each
  of the top items is listed once with its whole quantity over the live orders, the largest first.
\<close>

theorem analytics_add_up:
  "sum_list (map tg_gmv (gmvByTenant orders)) = aggregateGmv orders
   \<and> sum_list (map snd (gmvOverTime orders)) = aggregateGmv orders
   \<and> sorted_wrt (<) (map fst (gmvOverTime orders))
   \<and> sum_list (map (\<lambda>c. tc_placed c + tc_accepted c + tc_cancelled c) (statusBreakdown orders)) = length orders
   \<and> sum_list (map tc_cancelled (statusBreakdown orders)) = sc_cancelled (statCards orders ds)
   \<and> 0 \<le> sc_cancelRate (statCards orders ds) \<and> sc_cancelRate (statCards orders ds) \<le> 1
   \<and> sorted_wrt (\<lambda>a b. snd b \<le> snd a) (topSkus loc orders limit)
   \<and> distinct (map fst (topSkus loc orders limit))
   \<and> list_all (\<lambda>x. snd x = sum_list (map snd (filter (\<lambda>e. fst e = fst x) (sku_entries orders)))) (topSkus loc orders limit)"
proof -
  have "0 \<le> oc_cancelRate (orderCounts orders) \<and> oc_cancelRate (orderCounts orders) \<le> 1"
    by (simp add: orderCounts_def Let_def)
  then show ?thesis
    using gmv_by_tenant_sum gmv_over_time_facts status_counts_sum top_skus_facts
    by (simp add: statCards_def Let_def list_all_iff)
qed

end
