(* ===== verification/Web_Tracking.thy ===== *)
theory Web_Tracking
  imports Web_Dispatch
begin

text \<open>
  The customer's order page (\<open>apps/web-customer/app/orders/[orderId]/page.tsx\<close>): the poll that follows an
  order until it is settled or given up, the confirmation of the payment and what the page shows.
\<close>

section \<open>The poll\<close>

definition TERMINAL_ORDER :: "order_status list" where "TERMINAL_ORDER = [ACCEPTED, CANCELLED]"

definition MAX_ATTEMPTS :: nat where "MAX_ATTEMPTS = 170"

record tracking =
  tr_order :: "order_view option"
  tr_waiting :: bool
  tr_stopped :: bool
  tr_payment :: "string option"
  tr_dispatch :: "dispatch_view option"
  tr_confirming :: bool
  tr_location :: "(real \<times> real) option"
  tr_toasts :: "string list"

definition blank_tracking :: tracking where
  "blank_tracking = \<lparr>tr_order = None, tr_waiting = True, tr_stopped = False, tr_payment = None, tr_dispatch = None,
     tr_confirming = False, tr_location = None, tr_toasts = []\<rparr>"

text \<open>
  What the calls of one tick answer: whether the tab is hidden; the order, or nothing when it is unknown
  or the call fails; the payment and the location, \<open>None\<close> when the call fails and \<open>Some None\<close> for null;
  the dispatch, nothing when the call fails or its status is null.
\<close>

record tick_answer =
  ta_hidden :: bool
  ta_order :: "order_view option"
  ta_payment :: "string option option"
  ta_dispatch :: "dispatch_view option"
  ta_location :: "(real \<times> real) option option"

definition en_route :: "dispatch_view option \<Rightarrow> bool" where
  "en_route d = (case d of Some v \<Rightarrow> dv_status v \<in> {DISPATCHED, PICKED_UP} | None \<Rightarrow> False)"

definition delivery_over :: "dispatch_view option \<Rightarrow> bool" where
  "delivery_over d = (case d of Some v \<Rightarrow> dv_status v \<in> {DELIVERED, FAILED} | None \<Rightarrow> False)"

text \<open>
  The dispatch a tick goes by: the one just fetched, or else the one the effect captured when it started -
  not the one shown since.
\<close>

definition next_dispatch :: "dispatch_view option \<Rightarrow> order_view \<Rightarrow> tick_answer \<Rightarrow> dispatch_view option" where
  "next_dispatch captured v a =
     (if ov_status v = ACCEPTED then (case ta_dispatch a of Some d \<Rightarrow> Some d | None \<Rightarrow> captured) else captured)"

definition show_order :: "dispatch_view option \<Rightarrow> order_view \<Rightarrow> tick_answer \<Rightarrow> tracking \<Rightarrow> tracking" where
  "show_order captured v a s =
     (let d = next_dispatch captured v a in
      s\<lparr>tr_order := Some v, tr_waiting := False,
        tr_payment := (case ta_payment a of Some p \<Rightarrow> p | None \<Rightarrow> tr_payment s),
        tr_dispatch := (if ov_status v = ACCEPTED
          then (case ta_dispatch a of Some d \<Rightarrow> Some d | None \<Rightarrow> tr_dispatch s) else tr_dispatch s),
        tr_location := (if en_route d
          then (case ta_location a of Some l \<Rightarrow> l | None \<Rightarrow> tr_location s) else None)\<rparr>)"

definition settled :: "dispatch_view option \<Rightarrow> order_view \<Rightarrow> tick_answer \<Rightarrow> bool" where
  "settled captured v a \<longleftrightarrow> ov_status v = CANCELLED
     \<or> ov_status v = ACCEPTED \<and> delivery_over (next_dispatch captured v a)"

text \<open>
  A round of the poll over the answers of its ticks: the page, the number of attempts made and whether
  the poll has ended. A tick in a hidden tab is no attempt.
\<close>

fun track :: "dispatch_view option \<Rightarrow> tick_answer list \<Rightarrow> nat \<Rightarrow> nat \<Rightarrow> tracking \<Rightarrow> tracking \<times> nat \<times> bool" where
  "track captured [] tries misses s = (s, tries, False)"
| "track captured (a # as) tries misses s =
     (if ta_hidden a then track captured as tries misses s
      else (case ta_order a of
         Some v \<Rightarrow>
           (let s' = show_order captured v a s in
            if settled captured v a then (s', tries, True)
            else if tries + 1 \<ge> MAX_ATTEMPTS then (s'\<lparr>tr_stopped := True\<rparr>, tries + 1, True)
            else track captured as (tries + 1) misses s')
       | None \<Rightarrow>
           (let s' = (if misses + 1 > 5 then s\<lparr>tr_waiting := False\<rparr> else s) in
            if tries + 1 \<ge> MAX_ATTEMPTS then (s'\<lparr>tr_stopped := True\<rparr>, tries + 1, True)
            else track captured as (tries + 1) (misses + 1) s')))"

definition start_round :: "tick_answer list \<Rightarrow> tracking \<Rightarrow> tracking \<times> nat \<times> bool" where
  "start_round answers s = track (tr_dispatch s) answers 0 0 (s\<lparr>tr_stopped := False\<rparr>)"

section \<open>The page\<close>

definition awaiting_confirm :: "tracking \<Rightarrow> bool" where
  "awaiting_confirm s \<longleftrightarrow> (case tr_order s of Some v \<Rightarrow> ov_status v = PLACED | None \<Rightarrow> False) \<and> tr_payment s = None"

definition is_terminal :: "tracking \<Rightarrow> bool" where
  "is_terminal s \<longleftrightarrow> (case tr_order s of Some v \<Rightarrow> ov_status v \<in> set TERMINAL_ORDER | None \<Rightarrow> False)"

text \<open>After a success the button stays disabled until the poll shows the payment.\<close>

definition onConfirm :: "web_config \<Rightarrow> 'w server \<Rightarrow> tracking \<Rightarrow> 'w browser \<Rightarrow> tracking \<times> 'w browser" where
  "onConfirm cfg srv s b =
     (case tr_order s of
        None \<Rightarrow> (s, b)
      | Some v \<Rightarrow>
          (case confirmPayment cfg srv (nullish (ov_orderId v) ''undefined'') b of
             (Inr _, b') \<Rightarrow> (s\<lparr>tr_confirming := True, tr_toasts := tr_toasts s @ [''Payment confirmed'']\<rparr>, b')
           | (Inl _, b') \<Rightarrow> (s\<lparr>tr_confirming := False,
               tr_toasts := tr_toasts s @ [''Couldn't confirm payment. Please try again.'']\<rparr>, b')))"

datatype tracking_widget =
    LoadingSkeleton
  | StillProcessing
  | StatusRow order_status
  | ConfirmButton bool "int option"
  | PaymentRow string
  | DeliveryRow string
  | DriverMap "(real \<times> real) option" "(real \<times> real) option"
  | CancelReason string
  | WaitingForMerchant
  | PausedCheckAgain

definition tracking_view :: "auth_claims option \<Rightarrow> tenant_view list \<Rightarrow> tracking \<Rightarrow> tracking_widget list" where
  "tracking_view claims tenants s =
     (let tenantId = (case claims of Some c \<Rightarrow> cl_tenantId c | None \<Rightarrow> ''berlin'');
          center = map_option (\<lambda>t. (tv_lng t, tv_lat t)) (find (\<lambda>t. tv_slug t = tenantId) tenants)
      in (case tr_order s of
            None \<Rightarrow> if tr_waiting s then [LoadingSkeleton] else [StillProcessing]
          | Some v \<Rightarrow>
              [StatusRow (ov_status v)]
              @ (if awaiting_confirm s then [ConfirmButton (\<not> tr_confirming s) (ov_totalAmount v)] else [])
              @ (if paymentStatusLabel (tr_payment s) \<noteq> [] then [PaymentRow (paymentStatusLabel (tr_payment s))] else [])
              @ (if ov_status v = ACCEPTED
                 then [DeliveryRow (case tr_dispatch s of
                    Some d \<Rightarrow> deliveryStatusLabel (dispatch_status_name (dv_status d))
                  | None \<Rightarrow> ''Preparing'' @ ELLIPSIS)]
                 else [])
              @ (if en_route (tr_dispatch s) then [DriverMap center (tr_location s)] else [])
              @ (if ov_status v = CANCELLED \<and> cancelReasonLabel (ov_cancelReason v) \<noteq> []
                 then [CancelReason (cancelReasonLabel (ov_cancelReason v))] else [])
              @ (if \<not> is_terminal s \<and> \<not> tr_stopped s \<and> \<not> awaiting_confirm s then [WaitingForMerchant] else []))
         @ (if tr_stopped s \<and> \<not> is_terminal s then [PausedCheckAgain] else []))"

section \<open>The poll ends\<close>

lemma show_order_fields:
  "tr_order (show_order c v a s) = Some v" "tr_stopped (show_order c v a s) = tr_stopped s"
  by (simp_all add: show_order_def Let_def)

lemma track_ends:
  assumes "MAX_ATTEMPTS \<le> tries + length (filter (\<lambda>a. \<not> ta_hidden a) answers)" and "tries < MAX_ATTEMPTS"
  shows "case track captured answers tries misses s of (s', n, over) \<Rightarrow> over \<and> n \<le> MAX_ATTEMPTS"
  using assms
proof (induction captured answers tries misses s rule: track.induct)
  case (2 captured a "as" tries misses s)
  show ?case
  proof (cases "ta_hidden a")
    case True
    then show ?thesis using 2 by simp
  next
    case False
    show ?thesis
    proof (cases "ta_order a")
      case None
      then show ?thesis using 2(2)[OF False None refl] "2.prems" False by (auto simp: Let_def)
    next
      case (Some v)
      then show ?thesis using 2(3)[OF False Some refl] "2.prems" False by (auto simp: Let_def)
    qed
  qed
qed simp

lemma track_outcome:
  assumes "tries < MAX_ATTEMPTS" and "\<not> tr_stopped s" and "track captured answers tries misses s = (s', n, True)"
  shows "if tr_stopped s' then n = MAX_ATTEMPTS
    else \<exists>v a. a \<in> set answers \<and> tr_order s' = Some v \<and> ta_order a = Some v \<and> settled captured v a"
  using assms
proof (induction captured answers tries misses s rule: track.induct)
  case (2 captured a "as" tries misses s)
  show ?case
  proof (cases "ta_hidden a")
    case True
    then show ?thesis using 2 by (auto split: if_splits)
  next
    case False
    show ?thesis
    proof (cases "ta_order a")
      case None
      then show ?thesis using 2(2)[OF False None refl] "2.prems" False
        by (fastforce simp: Let_def split: if_splits)
    next
      case (Some v)
      then show ?thesis using 2(3)[OF False Some refl] "2.prems" False
        by (fastforce simp: Let_def show_order_fields split: if_splits)
    qed
  qed
qed simp

text \<open>
  C37: Following an order ends. However the calls answer, a round of the poll is over after at most 170
  attempts once the tab has been visible for that many ticks; and it ends in one of two ways: after
  exactly 170 attempts it is paused, or it shows an order that an answer reported as settled - cancelled,
  or accepted with its delivery over - and stopped there.
\<close>

theorem tracking_poll_terminates:
  assumes "MAX_ATTEMPTS \<le> length (filter (\<lambda>a. \<not> ta_hidden a) answers)"
  shows "case start_round answers s of (s', n, over) \<Rightarrow> over \<and> n \<le> MAX_ATTEMPTS
    \<and> (if tr_stopped s' then n = MAX_ATTEMPTS
       else \<exists>v a. a \<in> set answers \<and> tr_order s' = Some v \<and> ta_order a = Some v \<and> settled (tr_dispatch s) v a)"
proof -
  obtain s' n over where run: "track (tr_dispatch s) answers 0 0 (s\<lparr>tr_stopped := False\<rparr>) = (s', n, over)"
    by (rule prod_cases3)
  have ends: "over" "n \<le> MAX_ATTEMPTS"
    using track_ends [of 0 answers "tr_dispatch s" 0 "s\<lparr>tr_stopped := False\<rparr>"] assms run
    by (simp_all add: MAX_ATTEMPTS_def)
  then show ?thesis
    using track_outcome [of 0 "s\<lparr>tr_stopped := False\<rparr>" "tr_dispatch s" answers 0 s' n] run
    by (simp add: start_round_def MAX_ATTEMPTS_def)
qed

definition sample_tick :: "order_status \<Rightarrow> dispatch_view option \<Rightarrow> tick_answer" where
  "sample_tick st d = \<lparr>ta_hidden = False, ta_order = Some (sample_order_view\<lparr>ov_status := st\<rparr>),
     ta_payment = Some (Some ''AUTHORIZED''), ta_dispatch = d, ta_location = Some (Some (13, 52))\<rparr>"

theorem tracking_poll_terminates_witness:
  "case start_round (replicate 170 (sample_tick PLACED None)) blank_tracking of (s', n, over) \<Rightarrow> over \<and> n \<le> 170"
proof -
  have "MAX_ATTEMPTS \<le> length (filter (\<lambda>a. \<not> ta_hidden a) (replicate 170 (sample_tick PLACED None)))"
    by (simp add: MAX_ATTEMPTS_def sample_tick_def filter_replicate)
  from tracking_poll_terminates [OF this, of blank_tracking] show ?thesis
    by (auto simp: MAX_ATTEMPTS_def)
qed

definition under_way :: "tick_answer \<Rightarrow> bool" where
  "under_way a \<longleftrightarrow> ta_hidden a \<or>
     (case (ta_order a, ta_dispatch a) of
        (Some v, Some d) \<Rightarrow> ov_status v = ACCEPTED \<and> en_route (Some d) | _ \<Rightarrow> False)"

lemma track_under_way:
  assumes "list_all under_way answers" and "track captured answers tries misses s = (s', n, True)"
  shows "tr_stopped s' \<and> (\<exists>v. tr_order s' = Some v \<and> ov_status v = ACCEPTED) \<and> en_route (tr_dispatch s')"
  using assms
proof (induction captured answers tries misses s rule: track.induct)
  case (2 captured a "as" tries misses s)
  show ?case
  proof (cases "ta_hidden a")
    case True
    then show ?thesis using 2 by simp
  next
    case False
    then obtain v d where a: "ta_order a = Some v" "ta_dispatch a = Some d" "ov_status v = ACCEPTED" "en_route (Some d)"
      using "2.prems"(1) by (auto simp: under_way_def split: option.splits)
    then have "\<not> settled captured v a"
      by (auto simp: settled_def next_dispatch_def delivery_over_def en_route_def)
    moreover have "tr_dispatch (show_order captured v a s) = Some d" "tr_order (show_order captured v a s) = Some v"
      using a by (simp_all add: show_order_def Let_def)
    ultimately show ?thesis
      using 2(3)[OF False a(1) refl] "2.prems" False a by (auto simp: Let_def split: if_splits)
  qed
qed simp

text \<open>
  C38: A delivery that takes longer than the poll freezes on the customer's page. If the order is accepted
  and its driver is on the way in each of the 170 answers, the poll pauses with the driver still on the way, and
  because an accepted order counts as final for the page, the notice with the button to check again is
  not shown: the page stays as it is until it is reloaded.
\<close>

theorem tracking_freezes_in_delivery:
  assumes "list_all under_way answers" and "MAX_ATTEMPTS \<le> length (filter (\<lambda>a. \<not> ta_hidden a) answers)"
  shows "case start_round answers s of (s', n, over) \<Rightarrow> over \<and> tr_stopped s' \<and> en_route (tr_dispatch s')
    \<and> PausedCheckAgain \<notin> set (tracking_view claims tenants s')"
proof -
  obtain s' n over where run: "track (tr_dispatch s) answers 0 0 (s\<lparr>tr_stopped := False\<rparr>) = (s', n, over)"
    by (rule prod_cases3)
  have "over"
    using track_ends [of 0 answers "tr_dispatch s" 0 "s\<lparr>tr_stopped := False\<rparr>"] assms(2) run
    by (simp add: MAX_ATTEMPTS_def)
  then have now: "tr_stopped s'" "\<exists>v. tr_order s' = Some v \<and> ov_status v = ACCEPTED" "en_route (tr_dispatch s')"
    using track_under_way [OF assms(1)] run by auto
  then have "is_terminal s'" by (auto simp: is_terminal_def TERMINAL_ORDER_def)
  with now have "PausedCheckAgain \<notin> set (tracking_view claims tenants s')"
    by (auto simp: tracking_view_def Let_def split: if_splits)
  then show ?thesis using run now \<open>over\<close> by (simp add: start_round_def)
qed

theorem tracking_freezes_in_delivery_witness:
  "case start_round (replicate 170 (sample_tick ACCEPTED (Some (sample_dview ''o1'' PICKED_UP 3)))) blank_tracking of
     (s', n, over) \<Rightarrow> tr_stopped s' \<and> PausedCheckAgain \<notin> set (tracking_view None [] s')"
proof -
  let ?as = "replicate 170 (sample_tick ACCEPTED (Some (sample_dview ''o1'' PICKED_UP 3)))"
  have "list_all under_way ?as"
    by (auto simp: list_all_iff under_way_def sample_tick_def en_route_def sample_dview_def)
  moreover have "MAX_ATTEMPTS \<le> length (filter (\<lambda>a. \<not> ta_hidden a) ?as)"
    by (simp add: MAX_ATTEMPTS_def sample_tick_def filter_replicate)
  ultimately show ?thesis
    using tracking_freezes_in_delivery [where answers = ?as and s = blank_tracking and claims = None and tenants = "[]"] by (auto split: prod.splits)
qed

text \<open>
  A failed fetch of the dispatch makes the page forget the driver's place: the tick goes by the dispatch the
  effect captured when it started, although the one fetched before is still shown.
\<close>

theorem failed_fetch_clears_location:
  "(let d = Some (sample_dview ''o1'' PICKED_UP 3);
        (s1, _) = start_round [sample_tick ACCEPTED d] blank_tracking;
        (s2, _) = start_round [sample_tick ACCEPTED d, sample_tick ACCEPTED None] blank_tracking
    in tr_location s1 = Some (13, 52) \<and> tr_location s2 = None \<and> tr_dispatch s2 = d)"
  by (simp add: start_round_def blank_tracking_def sample_tick_def sample_dview_def show_order_def settled_def
      next_dispatch_def en_route_def delivery_over_def MAX_ATTEMPTS_def Let_def sample_order_view_def)

end
