(* ===== verification/Web_Console.thy ===== *)
theory Web_Console
  imports Web_Tables Web_Analytics Web_Tracking Web_Cart
begin

text \<open>
  The pages of the consoles put together: the operator's dashboard with its charts and maps
  (\<open>apps/web-admin\<close>), the merchant's dashboard (\<open>apps/web-merchant\<close>), the maps of the driver and of the
  customer, the route handlers that pass the live streams through, and the carousel of the storefront.
  Recharts, Mapbox and Embla draw; what they are given is modelled. Mapbox needs a token: without one a
  notice takes the map's place.
\<close>

section \<open>Charts\<close>

datatype chart =
    Bars string "(string \<times> int) list"
  | StackedBars string "(string \<times> nat \<times> nat \<times> nat) list"
  | Ranking string "(string \<times> int) list"
  | Area string "(int \<times> int) list"

definition GmvByTenantChart :: "order_view list \<Rightarrow> chart" where
  "GmvByTenantChart orders = Bars ''GMV by tenant'' (map (\<lambda>g. (tg_tenant g, tg_gmv g)) (gmvByTenant orders))"

definition StatusBreakdownChart :: "order_view list \<Rightarrow> chart" where
  "StatusBreakdownChart orders = StackedBars ''Order status breakdown''
     (map (\<lambda>c. (tc_tenant c, tc_placed c, tc_accepted c, tc_cancelled c)) (statusBreakdown orders))"

definition TopSkusChart :: "(string \<Rightarrow> string \<Rightarrow> int) \<Rightarrow> order_view list \<Rightarrow> chart" where
  "TopSkusChart localeCompare orders = Ranking ''Top SKUs'' (topSkus localeCompare orders 5)"

definition GmvOverTimeChart :: "order_view list \<Rightarrow> chart" where
  "GmvOverTimeChart orders = Area ''GMV over time (hourly)'' (gmvOverTime orders)"

section \<open>Maps\<close>

text \<open>A map's centre and markers; the notice, when there is no token, is \<open>None\<close>.\<close>

record tenant_map =
  tm_tenant :: string
  tm_count :: nat
  tm_center :: "real \<times> real"
  tm_markers :: "(string \<times> real \<times> real) list option"

definition driver_mark :: "nearby_driver \<Rightarrow> string \<times> real \<times> real" where
  "driver_mark d = (nd_driverId d, nd_lng d, nd_lat d)"

definition TenantMap :: "string option \<Rightarrow> string \<Rightarrow> real \<times> real \<Rightarrow> nearby_driver list \<Rightarrow> tenant_map" where
  "TenantMap mapToken tenant center drivers = \<lparr>tm_tenant = tenant, tm_count = length drivers, tm_center = center,
     tm_markers = (if mapToken = None \<or> mapToken = Some [] then None else Some (map driver_mark drivers))\<rparr>"

text \<open>The customer's map follows the driver, or shows the city while the driver is being located.\<close>

record position_map =
  pm_anchor :: "real \<times> real"
  pm_marker :: "(real \<times> real) option"
  pm_locating :: bool

definition position_map_view :: "string option \<Rightarrow> real \<times> real \<Rightarrow> (real \<times> real) option \<Rightarrow> position_map option" where
  "position_map_view mapToken center driver =
     (if mapToken = None \<or> mapToken = Some [] then None
      else Some \<lparr>pm_anchor = nullish driver center, pm_marker = driver, pm_locating = (driver = None)\<rparr>)"

text \<open>The driver's map: oneself and the others, and a popup for the point the pointer or the focus is on.\<close>

record map_point =
  mp_driver :: nearby_driver
  mp_isSelf :: bool

definition map_points :: "nearby_driver option \<Rightarrow> nearby_driver list \<Rightarrow> map_point list" where
  "map_points self others =
     (case self of Some d \<Rightarrow> [\<lparr>mp_driver = d, mp_isSelf = True\<rparr>] | None \<Rightarrow> [])
     @ map (\<lambda>d. \<lparr>mp_driver = d, mp_isSelf = False\<rparr>) others"

datatype hover_io = PointerEnters map_point | PointerLeaves map_point | Focused map_point | Blurred

fun hover_step :: "hover_io \<Rightarrow> map_point option \<Rightarrow> map_point option" where
  "hover_step (PointerEnters p) h = Some p"
| "hover_step (PointerLeaves p) h = (case h of
     None \<Rightarrow> None | Some q \<Rightarrow> if nd_driverId (mp_driver q) = nd_driverId (mp_driver p) then None else Some q)"
| "hover_step (Focused p) h = Some p"
| "hover_step Blurred h = None"

record nearby_map =
  nm_center :: "real \<times> real"
  nm_markers :: "map_point list"
  nm_popup :: "(string \<times> real option \<times> real \<times> real) option"

text \<open>The popup: the name, the distance unless it is oneself, and the place.\<close>

definition popup_of :: "map_point \<Rightarrow> string \<times> real option \<times> real \<times> real" where
  "popup_of p = (let d = mp_driver p in
     (if mp_isSelf p then ''you ('' @ nd_driverId d @ '')'' else nd_driverId d,
      (if mp_isSelf p then None else Some (nd_distanceKm d)), nd_lng d, nd_lat d))"

definition NearbyMap ::
    "string option \<Rightarrow> real \<times> real \<Rightarrow> nearby_driver option \<Rightarrow> nearby_driver list \<Rightarrow> map_point option \<Rightarrow> nearby_map option" where
  "NearbyMap mapToken center self others hovered =
     (if mapToken = None \<or> mapToken = Some [] then None
      else Some \<lparr>nm_center = center, nm_markers = map_points self others, nm_popup = map_option popup_of hovered\<rparr>)"

section \<open>The operator's dashboard\<close>

datatype map_section = MapSkeletons nat | TenantMaps "tenant_map list"

record dashboard =
  db_live :: "string list"
  db_error :: "(string \<times> string option \<times> action_element list) option"
  db_cards :: stat_cards
  db_charts :: "chart list"
  db_maps :: map_section
  db_recent :: nat
  db_table :: "order_view table_props"

definition admin_dashboard ::
    "string option \<Rightarrow> (string \<Rightarrow> string \<Rightarrow> int) \<Rightarrow> admin_data \<Rightarrow> tenants_hook \<Rightarrow> string \<Rightarrow> dashboard" where
  "admin_dashboard mapToken localeCompare a h flt =
     (let orders = ad_orders a; tenants = tk_tenants h in
      \<lparr>db_live = map tv_displayName tenants,
       db_error = (if ad_errors a = [] then None
         else Some (ErrorState (Some ''Couldn't load'') (Some (join '', '' (ad_errors a)))
                (Some \<lparr>ea_label = ''Retry'', ea_href = None\<rparr>) None)),
       db_cards = statCards orders (ad_drivers a),
       db_charts = [GmvByTenantChart orders, StatusBreakdownChart orders, TopSkusChart localeCompare orders,
                    GmvOverTimeChart orders],
       db_maps = (if tk_loading h \<and> tenants = [] then MapSkeletons 2
         else TenantMaps (map (\<lambda>t. TenantMap mapToken (tv_slug t) (tv_lng t, tv_lat t)
                (nullish (map_of (ad_drivers a) (tv_slug t)) [])) tenants)),
       db_recent = length orders,
       db_table = AdminOrdersTable orders flt (ad_loading a)\<rparr>)"

definition AdminPage :: "dashboard \<Rightarrow> 'w browser \<Rightarrow> dashboard gate_view" where
  "AdminPage d b = AuthGate (Some ''operator'') d b"

section \<open>The merchant's dashboard\<close>

datatype merchant_main = LoadFailed "string \<times> string option \<times> action_element list" | OrderList "order_view table_props"

record merchant_view =
  mv_tenant :: "string option"
  mv_statuses :: "(string \<times> string) list"
  mv_main :: merchant_main
  mv_sheet :: "(order_view \<times> dispatch_view option) option"

definition STATUS_CHOICES :: "(string \<times> string) list" where
  "STATUS_CHOICES = [(''ALL'', ''All statuses''), (order_status_name (Some PLACED), ''Placed''),
     (order_status_name (Some ACCEPTED), ''Accepted''), (order_status_name (Some CANCELLED), ''Cancelled'')]"

definition merchant_dashboard ::
    "auth_claims option \<Rightarrow> board \<Rightarrow> dispatch_map \<Rightarrow> string \<Rightarrow> order_status option \<Rightarrow> order_view option \<Rightarrow> merchant_view" where
  "merchant_dashboard claims b dispatches flt status selected =
     (let current = current_order selected (bd_orders b) in
      \<lparr>mv_tenant = map_option cl_tenantId claims, mv_statuses = STATUS_CHOICES,
       mv_main = (if bd_loadError b
         then LoadFailed (ErrorState (Some ''Couldn't load orders'') (Some ''We couldn't reach the order service.'')
                (Some \<lparr>ea_label = ''Retry'', ea_href = None\<rparr>) None)
         else OrderList (OrdersTable (visible_orders status (bd_orders b)) flt dispatches (bd_loading b))),
       mv_sheet = map_option (\<lambda>v. (v, dispatches (ov_orderId v))) current\<rparr>)"

definition merchant_page :: "merchant_view \<Rightarrow> 'w browser \<Rightarrow> merchant_view gate_view" where
  "merchant_page v b = AuthGate (Some ''merchant'') v b"

section \<open>Pages for errors\<close>

definition route_error :: "string \<times> string option \<times> action_element list" where
  "route_error = ErrorState (Some ''Something went wrong'') (Some ''An unexpected error occurred. Please try again.'')
     (Some \<lparr>ea_label = ''Try again'', ea_href = None\<rparr>) (Some \<lparr>ea_label = ''Sign out'', ea_href = None\<rparr>)"

definition not_found_page :: "string \<times> string option \<times> action_element list" where
  "not_found_page = ErrorState (Some ''Page not found'') (Some ''The page you're looking for doesn't exist.'')
     (Some \<lparr>ea_label = ''Back to home'', ea_href = Some ''/''\<rparr>) None"

definition EmptyState :: "string \<Rightarrow> string option \<Rightarrow> error_action option \<Rightarrow> string \<times> string option \<times> action_element option" where
  "EmptyState title description action =
     (title, (case description of Some d \<Rightarrow> if d = [] then None else Some d | None \<Rightarrow> None), renderAction action)"

section \<open>The stream routes\<close>

text \<open>
  The Next.js handlers that pass a live stream through, since the rewrites would buffer it. \<open>fetch\<close> is the
  upstream's answer to a URL with headers: a status and a stream.
\<close>

definition stream_headers :: "string option \<Rightarrow> (string \<times> string) list" where
  "stream_headers auth =
     (case auth of Some a \<Rightarrow> if a = [] then [] else [(''Authorization'', a)] | None \<Rightarrow> [])
     @ [(''Accept'', ''text/event-stream'')]"

definition SSE_HEADERS :: "(string \<times> string) list" where
  "SSE_HEADERS = [(''Content-Type'', ''text/event-stream''), (''Cache-Control'', ''no-cache, no-transform''),
     (''Connection'', ''keep-alive'')]"

definition merchant_orders_route ::
    "string \<Rightarrow> (string \<Rightarrow> (string \<times> string) list \<Rightarrow> nat \<times> 's) \<Rightarrow> string option \<Rightarrow> nat \<times> (string \<times> string) list \<times> 's" where
  "merchant_orders_route origin fetch auth =
     (case fetch (origin @ ''/merchant/orders/stream'') (stream_headers auth) of
        (status, body) \<Rightarrow> (status, SSE_HEADERS, body))"

definition merchant_dispatch_route ::
    "string \<Rightarrow> (string \<Rightarrow> (string \<times> string) list \<Rightarrow> nat \<times> 's) \<Rightarrow> string option \<Rightarrow> nat \<times> (string \<times> string) list \<times> 's" where
  "merchant_dispatch_route origin fetch auth =
     (case fetch (origin @ ''/merchant/dispatch/stream'') (stream_headers auth) of
        (status, body) \<Rightarrow> (status, SSE_HEADERS, body))"

definition admin_orders_route ::
    "string \<Rightarrow> (string \<Rightarrow> (string \<times> string) list \<Rightarrow> nat \<times> 's) \<Rightarrow> string option \<Rightarrow> nat \<times> (string \<times> string) list \<times> 's" where
  "admin_orders_route origin fetch auth =
     (case fetch (origin @ ''/admin/orders/stream'') (stream_headers auth) of
        (status, body) \<Rightarrow> (status, SSE_HEADERS, body))"

section \<open>The carousel\<close>

text \<open>
  Embla's instance is a state with its own moves; the component keeps two flags for its buttons, set when
  the instance appears and whenever it reports a selection or a new start. \<open>None\<close> is before it appears.
\<close>

record 's embla =
  em_canPrev :: "'s \<Rightarrow> bool"
  em_canNext :: "'s \<Rightarrow> bool"
  em_prev :: "'s \<Rightarrow> 's"
  em_next :: "'s \<Rightarrow> 's"

record 's carousel =
  cr_api :: "'s option"
  cr_canPrev :: bool
  cr_canNext :: bool

definition useCarousel :: "'s carousel option \<Rightarrow> (string, 's carousel) result" where
  "useCarousel context = (case context of
     None \<Rightarrow> Inl ''useCarousel must be used within a <Carousel />'' | Some c \<Rightarrow> Inr c)"

definition onSelect :: "'s embla \<Rightarrow> 's carousel \<Rightarrow> 's carousel" where
  "onSelect E c = (case cr_api c of
     None \<Rightarrow> c | Some s \<Rightarrow> c\<lparr>cr_canPrev := em_canPrev E s, cr_canNext := em_canNext E s\<rparr>)"

text \<open>A move of the instance is followed by its report, which runs \<open>onSelect\<close>.\<close>

definition scrollPrev :: "'s embla \<Rightarrow> 's carousel \<Rightarrow> 's carousel" where
  "scrollPrev E c = onSelect E (c\<lparr>cr_api := map_option (em_prev E) (cr_api c)\<rparr>)"

definition scrollNext :: "'s embla \<Rightarrow> 's carousel \<Rightarrow> 's carousel" where
  "scrollNext E c = onSelect E (c\<lparr>cr_api := map_option (em_next E) (cr_api c)\<rparr>)"

text \<open>The keys: whether the browser's own reaction is prevented, and the move.\<close>

definition handleKeyDown :: "'s embla \<Rightarrow> string \<Rightarrow> 's carousel \<Rightarrow> bool \<times> 's carousel" where
  "handleKeyDown E key c =
     (if key = ''ArrowLeft'' then (True, scrollPrev E c)
      else if key = ''ArrowRight'' then (True, scrollNext E c)
      else (False, c))"

definition carousel_mount :: "'s embla \<Rightarrow> 's option \<Rightarrow> 's carousel \<Rightarrow> 's carousel" where
  "carousel_mount E api c = onSelect E (c\<lparr>cr_api := api\<rparr>)"

definition CarouselPrevious :: "'s embla \<Rightarrow> 's carousel \<Rightarrow> 's carousel" where
  "CarouselPrevious E c = (if \<not> cr_canPrev c then c else scrollPrev E c)"

definition CarouselNext :: "'s embla \<Rightarrow> 's carousel \<Rightarrow> 's carousel" where
  "CarouselNext E c = (if \<not> cr_canNext c then c else scrollNext E c)"

datatype carousel_io = ClickPrevious | ClickNext | KeyDown string

fun carousel_step :: "'s embla \<Rightarrow> carousel_io \<Rightarrow> 's carousel \<Rightarrow> 's carousel" where
  "carousel_step E ClickPrevious c = CarouselPrevious E c"
| "carousel_step E ClickNext c = CarouselNext E c"
| "carousel_step E (KeyDown k) c = snd (handleKeyDown E k c)"

text \<open>The buttons are enabled exactly when the instance can move that way, whatever was clicked or pressed.\<close>

definition flags_agree :: "'s embla \<Rightarrow> 's carousel \<Rightarrow> bool" where
  "flags_agree E c \<longleftrightarrow> (case cr_api c of
     None \<Rightarrow> \<not> cr_canPrev c \<and> \<not> cr_canNext c
   | Some s \<Rightarrow> cr_canPrev c = em_canPrev E s \<and> cr_canNext c = em_canNext E s)"

theorem carousel_flags_agree:
  "flags_agree E (foldl (\<lambda>c io. carousel_step E io c)
     (carousel_mount E api \<lparr>cr_api = None, cr_canPrev = False, cr_canNext = False\<rparr>) ios)"
proof (induction ios rule: rev_induct)
  case Nil
  then show ?case by (auto simp: carousel_mount_def onSelect_def flags_agree_def split: option.splits)
next
  case (snoc io ios)
  then show ?case
    by (cases io) (auto simp: CarouselPrevious_def CarouselNext_def handleKeyDown_def scrollPrev_def scrollNext_def
        onSelect_def flags_agree_def split: option.splits)
qed

section \<open>The streams pass through unchanged\<close>

text \<open>
  Each route asks its own service path with the caller's token, and no other, and answers with the very
  status and stream it got; so a 401 of the service reaches the hook that refreshes the session.
\<close>

theorem stream_routes_transparent:
  "(case merchant_orders_route origin fetch auth of (status, hs, body) \<Rightarrow>
      (status, body) = fetch (origin @ ''/merchant/orders/stream'') (stream_headers auth))
   \<and> (case merchant_dispatch_route origin fetch auth of (status, hs, body) \<Rightarrow>
      (status, body) = fetch (origin @ ''/merchant/dispatch/stream'') (stream_headers auth))
   \<and> (case admin_orders_route origin fetch auth of (status, hs, body) \<Rightarrow>
      (status, body) = fetch (origin @ ''/admin/orders/stream'') (stream_headers auth))
   \<and> map_of (stream_headers auth) ''Authorization'' = (if auth = Some [] then None else auth)"
  by (auto simp: merchant_orders_route_def merchant_dispatch_route_def admin_orders_route_def stream_headers_def
      split: prod.splits option.splits)

section \<open>The popup keeps what it was given\<close>

text \<open>
  The popup shows the point as it was when the pointer came to it. While no pointer or focus event
  comes, later polls move the markers, or take them away, and the popup still shows the old distance
  and place.
\<close>

theorem popup_outlives_marker:
  assumes "mapToken \<noteq> None" and "mapToken \<noteq> Some []"
    and "\<And>d. d \<in> set others' \<Longrightarrow> nd_driverId d \<noteq> nd_driverId (mp_driver p)"
  shows "\<exists>m. NearbyMap mapToken center None others' (hover_step (PointerEnters p) h) = Some m
    \<and> nm_popup m = Some (popup_of p) \<and> (\<forall>q \<in> set (nm_markers m). nd_driverId (mp_driver q) \<noteq> nd_driverId (mp_driver p))"
  using assms by (auto simp: NearbyMap_def map_points_def)

section \<open>The dashboard accounts for everything\<close>

lemma push_driver_keys: "fst ` set (push_driver t d gs) = insert t (fst ` set gs)"
  by (induction t d gs rule: push_driver.induct) auto

lemma push_driver_distinct: "distinct (map fst gs) \<Longrightarrow> distinct (map fst (push_driver t d gs))"
  by (induction t d gs rule: push_driver.induct) (auto simp: push_driver_keys)

lemma push_driver_at: "map_of (push_driver t d gs) u = (if u = t then Some (nullish (map_of gs t) [] @ [d]) else map_of gs u)"
  by (induction t d gs rule: push_driver.induct) auto

lemma push_driver_count: "sum_list (map (length \<circ> snd) (push_driver t d gs)) = Suc (sum_list (map (length \<circ> snd) gs))"
  by (induction t d gs rule: push_driver.induct) auto

lemma group_drivers_snoc: "group_drivers (ds @ [(u, d)]) = push_driver u d (group_drivers ds)"
  by (simp add: group_drivers_def)

lemma group_drivers_at:
  "map_of (group_drivers ds) t = (if t \<in> fst ` set ds then Some (map snd (filter (\<lambda>x. fst x = t) ds)) else None)"
proof (induction ds arbitrary: t rule: rev_induct)
  case Nil
  then show ?case by (simp add: group_drivers_def)
next
  case (snoc x ds)
  obtain u d where x: "x = (u, d)" by (rule prod.exhaust)
  have none: "t \<notin> fst ` set ds \<Longrightarrow> filter (\<lambda>x. fst x = t) ds = []" for t by (force simp: filter_empty_conv)
  show ?case unfolding x group_drivers_snoc push_driver_at using snoc [of u] snoc [of t] none by auto
qed

lemma group_drivers_count: "sum_list (map (length \<circ> snd) (group_drivers ds)) = length ds"
proof (induction ds rule: rev_induct)
  case Nil
  then show ?case by (simp add: group_drivers_def)
next
  case (snoc x ds)
  then show ?case by (cases x) (simp only: group_drivers_snoc push_driver_count length_append_singleton)
qed

lemma drivers_at_tenants:
  assumes "distinct ts" and "fst ` set ds \<subseteq> set ts"
  shows "sum_list (map (\<lambda>t. length (nullish (map_of (group_drivers ds) t) [])) ts) = length ds"
proof -
  have at: "length (nullish (map_of (group_drivers ds) t) []) = length (filter (\<lambda>x. fst x = t) ds)" for t
    by (auto simp: group_drivers_at filter_empty_conv image_iff split: prod.splits)
  have "sum_list (map (\<lambda>t. length (filter (\<lambda>x. fst x = t) ds)) ts) = sum (\<lambda>t. length (filter (\<lambda>x. fst x = t) ds)) (set ts)"
    using assms(1) by (simp add: sum_list_distinct_conv_sum_set)
  also have "\<dots> = length ds"
    using sum_groups [of "set ts" fst ds "\<lambda>_. 1 :: nat"] assms(2) by (simp add: sum_list_triv)
  finally show ?thesis by (simp add: at)
qed

lemma active_drivers: "sc_activeDrivers (statCards orders gs) = sum_list (map (length \<circ> snd) gs)"
proof -
  have "foldl (\<lambda>s (t, ds). s + length ds) a gs = a + sum_list (map (length \<circ> snd) gs)" for a
    by (induction gs arbitrary: a) auto
  then show ?thesis by (simp add: statCards_def Let_def)
qed

definition chart_total :: "chart \<Rightarrow> int" where
  "chart_total c = (case c of Bars _ xs \<Rightarrow> sum_list (map snd xs) | Area _ xs \<Rightarrow> sum_list (map snd xs)
     | StackedBars _ xs \<Rightarrow> int (sum_list (map (\<lambda>(t, p, a, x). p + a + x) xs)) | Ranking _ xs \<Rightarrow> sum_list (map snd xs))"

text \<open>
  The operator's dashboard adds up, for whatever orders are on it and whatever drivers the last poll
  brought: the GMV card is the sum of either GMV chart, the orders counted are those of the status chart
  and of the table, the active drivers are those the poll brought, and - when the catalog has all their
  tenants - each of them has one marker on the maps.
\<close>

theorem dashboard_adds_up:
  assumes "admin_dashboard mapToken loc (poll_drivers (Inr ds) a) h flt = d" and "ad_mounted a"
  shows "(\<exists>c1 c2 c3 c4. db_charts d = [c1, c2, c3, c4] \<and> chart_total c1 = sc_gmv (db_cards d)
        \<and> chart_total c4 = sc_gmv (db_cards d) \<and> chart_total c2 = int (sc_orders (db_cards d)))
    \<and> sc_orders (db_cards d) = db_recent d \<and> tp_data (db_table d) = ad_orders a
    \<and> sc_activeDrivers (db_cards d) = length ds
    \<and> (\<forall>ms. db_maps d = TenantMaps ms \<longrightarrow> distinct (map tv_slug (tk_tenants h)) \<longrightarrow>
         fst ` set ds \<subseteq> set (map tv_slug (tk_tenants h)) \<longrightarrow> sum_list (map tm_count ms) = length ds)"
proof -
  let ?o = "ad_orders a"
  have p: "ad_orders (poll_drivers (Inr ds) a) = ?o" "ad_drivers (poll_drivers (Inr ds) a) = group_drivers ds"
    using assms(2) by (simp_all add: poll_drivers_def)
  note up = analytics_add_up [of ?o "group_drivers ds" loc 5]
  have "chart_total (GmvByTenantChart ?o) = aggregateGmv ?o" "chart_total (GmvOverTimeChart ?o) = aggregateGmv ?o"
    "chart_total (StatusBreakdownChart ?o) = int (length ?o)"
    using up by (simp_all add: chart_total_def GmvByTenantChart_def GmvOverTimeChart_def StatusBreakdownChart_def comp_def)
  moreover have "sum_list (map tm_count (map (\<lambda>t. TenantMap mapToken (tv_slug t) (tv_lng t, tv_lat t)
      (nullish (map_of (group_drivers ds) (tv_slug t)) [])) (tk_tenants h))) = length ds"
    if "distinct (map tv_slug (tk_tenants h))" "fst ` set ds \<subseteq> set (map tv_slug (tk_tenants h))"
    using drivers_at_tenants [OF that] by (simp add: TenantMap_def comp_def)
  ultimately show ?thesis
    using active_drivers [of ?o "group_drivers ds"] group_drivers_count [of ds]
    by (auto simp: assms(1) [symmetric] admin_dashboard_def Let_def p statCards_def orderCounts_def AdminOrdersTable_def
        table_defaults_def)
qed

end
