(* ===== verification/Gateway.thy ===== *)
theory Gateway
  imports Identity Web_Api Read_Api
begin

text \<open>
  The HTTP services as their modules wire them (\<open>app.module.ts\<close> and the decorators of the controllers):
  middleware, global guards, the guards and roles of every controller and route, and the way of a request
  through them. The write service runs the roles guard and then the tenant guard for every route; the
  read service runs the tenant guard for every route and the roles guard only where a controller uses
  it. Shown here: both fail closed on every route, whatever the guards' order; a login's token is admitted
  to exactly the routes of its account's role; each frontend's calls are open to the role its gate asks
  for; and which reads are open to roles they are not meant for. Paths are compared as they are
  declared; Express also takes them in other letter case and with a trailing slash.
\<close>

section \<open>Controllers and modules\<close>

datatype guard = RolesGuard | TenantGuard

text \<open>A route with the roles its own decorator names; a controller with its class's guards and roles.\<close>

record controller =
  co_guards :: "guard list"
  co_roles :: "string list option"
  co_routes :: "(route \<times> string list option) list"

record endpoint =
  en_route :: route
  en_guards :: "guard list"
  en_required :: "string list option"

text \<open>\<open>reflector.getAllAndOverride(ROLES_KEY, [handler, class])\<close>: the first that is set.\<close>

definition getAllAndOverride :: "'a option \<Rightarrow> 'a option \<Rightarrow> 'a option" where
  "getAllAndOverride handler cls = (case handler of Some x \<Rightarrow> Some x | None \<Rightarrow> cls)"

definition endpoints_of :: "controller \<Rightarrow> endpoint list" where
  "endpoints_of c = map (\<lambda>(r, roles). \<lparr>en_route = r, en_guards = co_guards c,
     en_required = getAllAndOverride roles (co_roles c)\<rparr>) (co_routes c)"

definition HealthController :: controller where
  "HealthController = \<lparr>co_guards = [], co_roles = None, co_routes = [(route_of ''GET'' [Lit ''health''] ''check'', None)]\<rparr>"

definition OrdersController :: controller where
  "OrdersController = \<lparr>co_guards = [], co_roles = None, co_routes = map (\<lambda>r. (r, Some [ROLE_CUSTOMER])) orders_routes\<rparr>"

definition ConfirmPaymentController :: controller where
  "ConfirmPaymentController =
     \<lparr>co_guards = [], co_roles = None, co_routes = map (\<lambda>r. (r, Some [ROLE_CUSTOMER])) confirm_routes\<rparr>"

definition AcceptController :: controller where
  "AcceptController = \<lparr>co_guards = [], co_roles = None, co_routes = map (\<lambda>r. (r, Some [ROLE_MERCHANT])) accept_routes\<rparr>"

definition SignalController :: controller where
  "SignalController = \<lparr>co_guards = [], co_roles = None, co_routes = map (\<lambda>r. (r, Some [ROLE_DRIVER])) signal_routes\<rparr>"

definition OrdersQueryController :: controller where
  "OrdersQueryController = \<lparr>co_guards = [], co_roles = None, co_routes = map (\<lambda>r. (r, None)) order_query_routes\<rparr>"

definition MerchantOrdersController :: controller where
  "MerchantOrdersController = \<lparr>co_guards = [], co_roles = None,
     co_routes = [(route_of ''GET'' [Lit ''merchant'', Lit ''orders''] ''list'', None)]\<rparr>"

definition MerchantSseController :: controller where
  "MerchantSseController = \<lparr>co_guards = [], co_roles = None,
     co_routes = [(route_of ''GET'' [Lit ''merchant'', Lit ''orders'', Lit ''stream''] ''ordersStream'', None)]\<rparr>"

definition DriverSseController :: controller where
  "DriverSseController = \<lparr>co_guards = [RolesGuard], co_roles = None,
     co_routes = [(route_of ''GET'' [Lit ''driver'', Lit ''dispatch'', Lit ''stream''] ''driverStream'', Some [ROLE_DRIVER])]\<rparr>"

definition MerchantDispatchSseController :: controller where
  "MerchantDispatchSseController = \<lparr>co_guards = [RolesGuard], co_roles = None,
     co_routes = [(route_of ''GET'' [Lit ''merchant'', Lit ''dispatch''] ''snapshot'', Some [ROLE_MERCHANT]),
       (route_of ''GET'' [Lit ''merchant'', Lit ''dispatch'', Lit ''stream''] ''dispatchStream'', Some [ROLE_MERCHANT])]\<rparr>"

definition DriversController :: controller where
  "DriversController = \<lparr>co_guards = [RolesGuard], co_roles = None,
     co_routes = zip drivers_routes [None, None, Some [ROLE_DRIVER], Some [ROLE_DRIVER], Some [ROLE_DRIVER]]\<rparr>"

definition AdminController :: controller where
  "AdminController = \<lparr>co_guards = [RolesGuard], co_roles = Some [ROLE_OPERATOR],
     co_routes = map (\<lambda>r. (r, None))
       (admin_routes @ [route_of ''GET'' [Lit ''admin'', Lit ''orders'', Lit ''stream''] ''adminOrdersStream''])\<rparr>"

definition DispatchController :: controller where
  "DispatchController = \<lparr>co_guards = [RolesGuard], co_roles = None,
     co_routes = zip dispatch_query_routes [None, Some [ROLE_DRIVER], None]\<rparr>"

definition TenantsController :: controller where
  "TenantsController = \<lparr>co_guards = [], co_roles = None, co_routes = map (\<lambda>r. (r, None)) tenants_routes\<rparr>"

definition JwksController :: controller where
  "JwksController = \<lparr>co_guards = [], co_roles = None,
     co_routes = [(route_of ''GET'' [Lit ''.well-known'', Lit ''jwks.json''] ''jwks'', None)]\<rparr>"

definition AuthController :: controller where
  "AuthController = \<lparr>co_guards = [], co_roles = None, co_routes = map (\<lambda>r. (r, None)) auth_routes\<rparr>"

definition PaymentsController :: controller where
  "PaymentsController = \<lparr>co_guards = [], co_roles = None,
     co_routes = [(route_of ''POST'' [Lit ''payments'', Lit ''authorize''] ''authorize'', None),
       (route_of ''POST'' [Lit ''payments'', Lit ''capture''] ''capture'', None),
       (route_of ''POST'' [Lit ''payments'', Lit ''void''] ''void'', None),
       (route_of ''GET'' [Lit ''payments'', Param ''tenantId'', Param ''orderId''] ''getPayment'', None)]\<rparr>"

text \<open>A module: whether it applies \<open>AuthMiddleware\<close>, the paths it excludes from it, its global guards in order.\<close>

record app_module =
  am_auth :: bool
  am_excluded :: "string list list"
  am_guards :: "guard list"
  am_controllers :: "controller list"

definition write_api :: app_module where
  "write_api = \<lparr>am_auth = True, am_excluded = [[''health'']], am_guards = [RolesGuard, TenantGuard],
     am_controllers = [OrdersController, AcceptController, ConfirmPaymentController, SignalController, HealthController]\<rparr>"

definition read_api :: app_module where
  "read_api = \<lparr>am_auth = True, am_excluded = [[''health'']], am_guards = [TenantGuard],
     am_controllers = [OrdersQueryController, MerchantOrdersController, MerchantSseController, DriverSseController,
       MerchantDispatchSseController, DriversController, AdminController, DispatchController, TenantsController,
       HealthController]\<rparr>"

definition identity_api :: app_module where
  "identity_api = \<lparr>am_auth = False, am_excluded = [], am_guards = [],
     am_controllers = [JwksController, AuthController, HealthController]\<rparr>"

definition payments_api :: app_module where
  "payments_api = \<lparr>am_auth = False, am_excluded = [], am_guards = [], am_controllers = [PaymentsController, HealthController]\<rparr>"

definition endpoints :: "app_module \<Rightarrow> endpoint list" where
  "endpoints am = concat (map endpoints_of (am_controllers am))"

section \<open>The way of a request\<close>

fun find_endpoint :: "string \<Rightarrow> string list \<Rightarrow> endpoint list \<Rightarrow> (endpoint \<times> (string \<times> string) list) option" where
  "find_endpoint m ps [] = None"
| "find_endpoint m ps (e # es) =
     (case (if ro_method (en_route e) = m then match_segments (ro_segments (en_route e)) ps else None) of
        Some kvs \<Rightarrow> Some (e, kvs)
      | None \<Rightarrow> find_endpoint m ps es)"

fun run_guard ::
    "guard \<Rightarrow> int \<Rightarrow> string list option \<Rightarrow> auth_context option \<Rightarrow> catalog_io \<Rightarrow> catalog
     \<Rightarrow> (http_error, bool) result \<times> catalog" where
  "run_guard RolesGuard ttlMs required scope io cat = (roles_guard required scope, cat)"
| "run_guard TenantGuard ttlMs required scope io cat = tenant_guard ttlMs scope io cat"

fun run_guards ::
    "guard list \<Rightarrow> int \<Rightarrow> string list option \<Rightarrow> auth_context option \<Rightarrow> catalog_io \<Rightarrow> catalog
     \<Rightarrow> (http_error, bool) result \<times> catalog" where
  "run_guards [] ttlMs required scope io cat = (Inr True, cat)"
| "run_guards (g # gs) ttlMs required scope io cat =
     (case run_guard g ttlMs required scope io cat of
        (Inl e, cat') \<Rightarrow> (Inl e, cat')
      | (Inr _, cat') \<Rightarrow> run_guards gs ttlMs required scope io cat')"

text \<open>\<open>CorrelationMiddleware\<close> and, on all but the excluded paths, \<open>AuthMiddleware\<close>; both run before routing.\<close>

definition middleware ::
    "app_module \<Rightarrow> (string \<Rightarrow> (string, auth_context) result) \<Rightarrow> string list \<Rightarrow> request \<Rightarrow> string
     \<Rightarrow> (http_error, auth_context option \<times> obs_context option) result" where
  "middleware am verifier path rq fresh =
     (let obs = Some (fst (correlation_use (rq_correlation rq) fresh)) in
      if am_auth am \<and> path \<notin> set (am_excluded am)
      then (case auth_use verifier (rq_authorization rq) obs of
              Inl e \<Rightarrow> Inl e | Inr (ctx, obs') \<Rightarrow> Inr (Some ctx, obs'))
      else Inr (None, obs))"

text \<open>Global guards come before those of the controller's class; the handler is named by its route.\<close>

definition serve ::
    "app_module \<Rightarrow> (string \<Rightarrow> (string, auth_context) result) \<Rightarrow> int \<Rightarrow> string \<Rightarrow> string list \<Rightarrow> request \<Rightarrow> string
     \<Rightarrow> catalog_io \<Rightarrow> catalog
     \<Rightarrow> (route \<Rightarrow> (string \<times> string) list \<Rightarrow> auth_context option \<Rightarrow> obs_context option \<Rightarrow> 'w \<Rightarrow> (http_error, 'a) result \<times> 'w)
     \<Rightarrow> 'w \<Rightarrow> (http_error, 'a) result \<times> catalog \<times> 'w" where
  "serve am verifier ttlMs m path rq fresh io cat handler w =
     (case middleware am verifier path rq fresh of
        Inl e \<Rightarrow> (Inl e, cat, w)
      | Inr (scope, obs) \<Rightarrow>
         (case find_endpoint m path (endpoints am) of
            None \<Rightarrow> (Inl (NotFound ''Cannot find the route''), cat, w)
          | Some (ep, params) \<Rightarrow>
             (case run_guards (am_guards am @ en_guards ep) ttlMs (en_required ep) scope io cat of
                (Inl e, cat') \<Rightarrow> (Inl e, cat', w)
              | (Inr _, cat') \<Rightarrow> (case handler (en_route ep) params scope obs w of (r, w') \<Rightarrow> (r, cat', w')))))"

section \<open>Both services fail closed\<close>

lemmas controller_defs = HealthController_def OrdersController_def ConfirmPaymentController_def AcceptController_def
  SignalController_def OrdersQueryController_def MerchantOrdersController_def MerchantSseController_def
  DriverSseController_def MerchantDispatchSseController_def DriversController_def AdminController_def
  DispatchController_def TenantsController_def JwksController_def AuthController_def PaymentsController_def
  endpoints_of_def getAllAndOverride_def

text \<open>What every route of the two services has: the tenant guard, and the roles guard wherever roles are named.\<close>

definition guarded :: "app_module \<Rightarrow> endpoint \<Rightarrow> bool" where
  "guarded am ep \<longleftrightarrow>
     am_guards am @ en_guards ep \<in> {[RolesGuard, TenantGuard], [TenantGuard, RolesGuard]}
     \<or> am_guards am @ en_guards ep = [TenantGuard] \<and> en_required ep = None"

lemma all_guarded: "list_all (guarded write_api) (endpoints write_api)" "list_all (guarded read_api) (endpoints read_api)"
  by (simp_all add: endpoints_def write_api_def read_api_def controller_defs routes_defs guarded_def)

lemma find_endpoint_mem: "find_endpoint m ps es = Some (ep, params) \<Longrightarrow> ep \<in> set es"
  by (induction es) (auto split: option.splits)

text \<open>No path matches two routes of a service, so the order in which the modules are scanned plays no part.\<close>

fun overlap :: "segment list \<Rightarrow> segment list \<Rightarrow> bool" where
  "overlap [] [] \<longleftrightarrow> True"
| "overlap (Lit a # s) (Lit b # t) \<longleftrightarrow> a = b \<and> overlap s t"
| "overlap (_ # s) (_ # t) \<longleftrightarrow> overlap s t"
| "overlap _ _ \<longleftrightarrow> False"

lemma match_Nil: "match_segments s [] = Some k \<Longrightarrow> s = []"
  by (cases s; cases "hd s") auto

lemma match_Cons: "match_segments s (p # ps) = Some k \<Longrightarrow>
    \<exists>x t l. s = x # t \<and> match_segments t ps = Some l \<and> (\<forall>a. x = Lit a \<longrightarrow> a = p)"
  by (cases s; cases "hd s") (auto split: if_splits option.splits)

lemma overlap_step: "overlap s t \<Longrightarrow> (\<And>a b. x = Lit a \<Longrightarrow> y = Lit b \<Longrightarrow> a = b) \<Longrightarrow> overlap (x # s) (y # t)"
  by (cases x; cases y) simp_all

lemma match_overlap:
  "match_segments s ps = Some k \<Longrightarrow> match_segments t ps = Some l \<Longrightarrow> overlap s t"
proof (induction ps arbitrary: s t k l)
  case Nil
  then have "s = [] \<and> t = []" using match_Nil by blast
  then show ?case by simp
next
  case (Cons p ps)
  from match_Cons [OF Cons.prems(1)] match_Cons [OF Cons.prems(2)] Cons.IH show ?case
    by (auto intro: overlap_step)
qed

definition unambiguous :: "app_module \<Rightarrow> bool" where
  "unambiguous am \<longleftrightarrow> sorted_wrt (\<lambda>a b. ro_method (en_route a) = ro_method (en_route b) \<longrightarrow>
     \<not> overlap (ro_segments (en_route a)) (ro_segments (en_route b))) (endpoints am)"

lemma services_unambiguous:
  "unambiguous write_api" "unambiguous read_api" "unambiguous identity_api" "unambiguous payments_api"
  by (simp_all add: unambiguous_def endpoints_def write_api_def read_api_def identity_api_def payments_api_def
      controller_defs routes_defs)

lemma find_endpoint_the:
  assumes "sorted_wrt (\<lambda>a b. ro_method (en_route a) = ro_method (en_route b) \<longrightarrow>
      \<not> overlap (ro_segments (en_route a)) (ro_segments (en_route b))) es"
    and "ep \<in> set es" and "ro_method (en_route ep) = m" and "match_segments (ro_segments (en_route ep)) ps = Some params"
  shows "find_endpoint m ps es = Some (ep, params)"
  using assms by (induction es) (auto split: option.splits dest: match_overlap)

lemma find_endpoint_iff:
  assumes "unambiguous am"
  shows "find_endpoint m ps (endpoints am) = Some (ep, params) \<longleftrightarrow>
    ep \<in> set (endpoints am) \<and> ro_method (en_route ep) = m \<and> match_segments (ro_segments (en_route ep)) ps = Some params"
proof -
  have "find_endpoint m ps es = Some (ep, params) \<Longrightarrow> ep \<in> set es \<and> ro_method (en_route ep) = m
      \<and> match_segments (ro_segments (en_route ep)) ps = Some params" for es
    by (induction es) (auto split: option.splits if_splits)
  with find_endpoint_the [OF assms [unfolded unambiguous_def]] show ?thesis by blast
qed

text \<open>Whether the guards let a caller pass does not depend on their order; which refusal it is does.\<close>

lemma run_guards_guarded:
  assumes "guarded am ep"
  shows "is_ok (fst (run_guards (am_guards am @ en_guards ep) ttlMs (en_required ep) (Some ctx) io cat)) \<longleftrightarrow>
      role_admitted (en_required ep) (ac_role ctx) \<and> (ac_role ctx = ROLE_OPERATOR
        \<or> (\<exists>ts c'. ensureFresh ttlMs io cat = (Inr ts, c') \<and> tenant_active ts (ac_tenantId ctx)))"
    and "run_guards (am_guards am @ en_guards ep) ttlMs (en_required ep) (Some ctx) io cat = (Inl e, cat') \<Longrightarrow>
      http_status e \<in> {403, 503}"
proof -
  have none: "role_admitted None r" for r by (simp add: role_admitted_def)
  obtain ts c where fresh: "ensureFresh ttlMs io cat = (ts, c)" by fastforce
  note sem = roles_guard_eq tenant_guard_eq fresh none
  show "is_ok (fst (run_guards (am_guards am @ en_guards ep) ttlMs (en_required ep) (Some ctx) io cat)) \<longleftrightarrow>
      role_admitted (en_required ep) (ac_role ctx) \<and> (ac_role ctx = ROLE_OPERATOR
        \<or> (\<exists>ts c'. ensureFresh ttlMs io cat = (Inr ts, c') \<and> tenant_active ts (ac_tenantId ctx)))"
    using assms unfolding guarded_def by (cases ts) (elim disjE insertE emptyE conjE; auto simp: sem)+
  show "http_status e \<in> {403, 503}"
    if "run_guards (am_guards am @ en_guards ep) ttlMs (en_required ep) (Some ctx) io cat = (Inl e, cat')"
    using assms that unfolding guarded_def
    by (cases ts) (elim disjE insertE emptyE conjE; auto simp: sem split: if_splits)+
qed

lemma serve_admitted:
  assumes "list_all (guarded am) (endpoints am)" and "am_auth am" and "path \<notin> set (am_excluded am)"
    and "find_endpoint m path (endpoints am) = Some (ep, params)"
    and "admitted verifier ttlMs (en_required ep) rq io cat ctx"
  shows "\<exists>cat'. serve am verifier ttlMs m path rq fresh io cat handler w =
    (let hw = handler (en_route ep) params (Some ctx)
       (Some ((fst (correlation_use (rq_correlation rq) fresh))\<lparr>oc_tenantId := Some (ac_tenantId ctx)\<rparr>)) w
     in (fst hw, cat', snd hw))"
proof -
  have g: "guarded am ep" using assms(1) find_endpoint_mem [OF assms(4)] by (simp add: list_all_iff)
  from assms(5) have "is_ok (fst (run_guards (am_guards am @ en_guards ep) ttlMs (en_required ep) (Some ctx) io cat))"
    unfolding run_guards_guarded(1) [OF g] by (simp add: admitted_def)
  then obtain b cat' where "run_guards (am_guards am @ en_guards ep) ttlMs (en_required ep) (Some ctx) io cat = (Inr b, cat')"
    by (cases "run_guards (am_guards am @ en_guards ep) ttlMs (en_required ep) (Some ctx) io cat";
        cases "fst (run_guards (am_guards am @ en_guards ep) ttlMs (en_required ep) (Some ctx) io cat)") auto
  moreover have "auth_use verifier (rq_authorization rq) (Some (fst (correlation_use (rq_correlation rq) fresh)))
      = Inr (ctx, Some ((fst (correlation_use (rq_correlation rq) fresh))\<lparr>oc_tenantId := Some (ac_tenantId ctx)\<rparr>))"
    using assms(5) by (simp add: auth_use_ok admitted_def)
  then have "middleware am verifier path rq fresh = Inr (Some ctx,
      Some ((fst (correlation_use (rq_correlation rq) fresh))\<lparr>oc_tenantId := Some (ac_tenantId ctx)\<rparr>))"
    using assms(2,3) by (simp add: middleware_def)
  ultimately show ?thesis using assms(4) by (simp add: serve_def Let_def split: prod.splits)
qed

lemma serve_denied:
  assumes "list_all (guarded am) (endpoints am)" and "am_auth am" and "path \<notin> set (am_excluded am)"
    and "\<nexists>ep params ctx. find_endpoint m path (endpoints am) = Some (ep, params)
      \<and> admitted verifier ttlMs (en_required ep) rq io cat ctx"
  shows "\<exists>e cat'. serve am verifier ttlMs m path rq fresh io cat handler w = (Inl e, cat', w)
    \<and> http_status e \<in> {401, 403, 404, 503}"
proof (cases "auth_use verifier (rq_authorization rq) (Some (fst (correlation_use (rq_correlation rq) fresh)))")
  case (Inl e)
  with assms(2,3) auth_use_error [OF Inl] show ?thesis by (simp add: serve_def middleware_def)
next
  case (Inr p)
  obtain ctx obs where p: "p = (ctx, obs)" by (cases p)
  have mid: "middleware am verifier path rq fresh = Inr (Some ctx, obs)" using assms(2,3) Inr p by (simp add: middleware_def)
  show ?thesis
  proof (cases "find_endpoint m path (endpoints am)")
    case None
    with mid show ?thesis by (simp add: serve_def)
  next
    case (Some q)
    obtain ep params where q: "q = (ep, params)" by (cases q)
    have g: "guarded am ep" using assms(1) find_endpoint_mem [OF Some [unfolded q]] by (simp add: list_all_iff)
    have "\<not> admitted verifier ttlMs (en_required ep) rq io cat ctx" using assms(4) Some q by blast
    then have "\<not> is_ok (fst (run_guards (am_guards am @ en_guards ep) ttlMs (en_required ep) (Some ctx) io cat))"
      unfolding run_guards_guarded(1) [OF g] using Inr p by (auto simp: admitted_def auth_use_ok)
    then obtain e cat' where run: "run_guards (am_guards am @ en_guards ep) ttlMs (en_required ep) (Some ctx) io cat = (Inl e, cat')"
      by (cases "run_guards (am_guards am @ en_guards ep) ttlMs (en_required ep) (Some ctx) io cat";
          cases "fst (run_guards (am_guards am @ en_guards ep) ttlMs (en_required ep) (Some ctx) io cat)") auto
    with mid Some q run_guards_guarded(2) [OF g run] show ?thesis by (auto simp: serve_def)
  qed
qed

definition public_services :: "app_module list" where "public_services = [write_api, read_api]"

lemma public_service:
  assumes "am \<in> set public_services"
  shows "list_all (guarded am) (endpoints am)" "am_auth am" "am_excluded am = [[''health'']]"
  using assms all_guarded by (auto simp: public_services_def write_api_def read_api_def)

text \<open>
  C11: Fail-closed access control, as the services wire it. On every path of the write and the read
  service but the health check, a request either carries a bearer token the verifier accepts, of a
  role its route names, and is the operator's or of an active tenant - and then the route's handler
  runs in the verified context -, or it ends in a 401, 403, 404 or 503 and the handler's state is
  untouched. Whether a controller has the roles guard of its own or the global one, and which guard
  comes first, makes no difference to that.
\<close>

theorem services_fail_closed:
  assumes "am \<in> set public_services" and "path \<noteq> [''health'']"
  shows "(\<exists>ep params ctx obs cat'. find_endpoint m path (endpoints am) = Some (ep, params)
      \<and> admitted verifier ttlMs (en_required ep) rq io cat ctx
      \<and> serve am verifier ttlMs m path rq fresh io cat handler w
        = (fst (handler (en_route ep) params (Some ctx) obs w), cat', snd (handler (en_route ep) params (Some ctx) obs w)))
    \<or> (\<exists>e cat'. serve am verifier ttlMs m path rq fresh io cat handler w = (Inl e, cat', w)
      \<and> http_status e \<in> {401, 403, 404, 503}
      \<and> (\<nexists>ep params ctx. find_endpoint m path (endpoints am) = Some (ep, params)
           \<and> admitted verifier ttlMs (en_required ep) rq io cat ctx))"
proof (cases "\<exists>ep params ctx. find_endpoint m path (endpoints am) = Some (ep, params)
      \<and> admitted verifier ttlMs (en_required ep) rq io cat ctx")
  case True
  then obtain ep params ctx where e: "find_endpoint m path (endpoints am) = Some (ep, params)"
    "admitted verifier ttlMs (en_required ep) rq io cat ctx" by blast
  have "path \<notin> set (am_excluded am)" using public_service(3) [OF assms(1)] assms(2) by simp
  from serve_admitted [OF public_service(1,2) [OF assms(1)] this e, of fresh handler w] e show ?thesis
    unfolding Let_def by blast
next
  case False
  have "path \<notin> set (am_excluded am)" using public_service(3) [OF assms(1)] assms(2) by simp
  from serve_denied [OF public_service(1,2) [OF assms(1)] this False, of fresh handler w] False show ?thesis by blast
qed

theorem services_fail_closed_witness:
  "\<exists>e cat'. serve read_api (\<lambda>_. Inl ''bad token'') 0 ''GET'' [''admin'', ''orders'']
      \<lparr>rq_correlation = NoHeader, rq_authorization = None\<rparr> ''c1'' \<lparr>ci_now = 0, ci_rows = None, ci_after = 0\<rparr> empty_catalog
      (\<lambda>r params scope obs w. (Inr (ro_handler r), w + 1)) (0::nat) = (Inl e, cat', 0) \<and> http_status e \<in> {401, 403, 404, 503}"
proof -
  have none: "\<not> admitted v ttl roles \<lparr>rq_correlation = NoHeader, rq_authorization = None\<rparr> io cat ctx" for v ttl roles io cat ctx
    by (simp add: admitted_def)
  have "read_api \<in> set public_services" "[''admin'', ''orders''] \<noteq> [''health'']" by (simp_all add: public_services_def)
  from services_fail_closed [OF this, of "''GET''" "\<lambda>_. Inl ''bad token''" 0
      "\<lparr>rq_correlation = NoHeader, rq_authorization = None\<rparr>" "\<lparr>ci_now = 0, ci_rows = None, ci_after = 0\<rparr>" empty_catalog
      "''c1''" "\<lambda>r params scope obs w. (Inr (ro_handler r), w + 1)" "0::nat"]
  show ?thesis by (simp add: none)
qed

text \<open>On the write service's routes the way is the one of \<open>pipeline\<close>, refusals included.\<close>

lemma write_api_pipeline:
  assumes "path \<noteq> [''health'']" and "find_endpoint m path (endpoints write_api) = Some (ep, params)"
  shows "serve write_api verifier ttlMs m path rq fresh io cat handler w =
    pipeline verifier ttlMs (en_required ep) rq fresh io cat (\<lambda>ctx. handler (en_route ep) params (Some ctx)) w"
proof -
  have "list_all (\<lambda>ep. en_guards ep = []) (endpoints write_api)"
    by (simp add: endpoints_def write_api_def controller_defs routes_defs)
  with find_endpoint_mem [OF assms(2)] have "en_guards ep = []" by (simp add: list_all_iff)
  then show ?thesis using assms
    by (auto simp: serve_def pipeline_def middleware_def write_api_def split: prod.splits sum.splits)
qed

section \<open>Who may call what\<close>

definition module_of :: "string \<Rightarrow> app_module option" where
  "module_of svc = (if svc = ''write'' then Some write_api else if svc = ''read'' then Some read_api
     else if svc = ''identity'' then Some identity_api else None)"

text \<open>The routes that the client's calls were shown to reach are declared by these controllers.\<close>

lemma client_routes_declared:
  "set (service_routes ''write'') \<subseteq> en_route ` set (endpoints write_api)"
  "set (service_routes ''read'') \<subseteq> en_route ` set (endpoints read_api)"
  "set (service_routes ''identity'') \<subseteq> en_route ` set (endpoints identity_api)"
  by (simp_all add: endpoints_def write_api_def read_api_def identity_api_def controller_defs routes_defs)

text \<open>Every route of that name admits the role; the name is a route's.\<close>

definition open_to :: "string \<Rightarrow> string \<Rightarrow> string \<Rightarrow> bool" where
  "open_to role svc h = (case module_of svc of
       None \<Rightarrow> False
     | Some am \<Rightarrow> list_ex (\<lambda>ep. ro_handler (en_route ep) = h) (endpoints am)
         \<and> list_all (\<lambda>ep. ro_handler (en_route ep) = h \<longrightarrow> role_admitted (en_required ep) role) (endpoints am))"

definition may_call :: "string \<Rightarrow> (string \<times> string \<times> (string \<times> string) list) option \<Rightarrow> bool" where
  "may_call role tgt = (case tgt of Some (svc, h, params) \<Rightarrow> open_to role svc h | None \<Rightarrow> False)"

lemmas endpoints_defs = endpoints_def write_api_def read_api_def identity_api_def controller_defs routes_defs

lemma open_write:
  "open_to r ''write'' ''place'' \<longleftrightarrow> r = ROLE_CUSTOMER" "open_to r ''write'' ''confirm'' \<longleftrightarrow> r = ROLE_CUSTOMER"
  "open_to r ''write'' ''accept'' \<longleftrightarrow> r = ROLE_MERCHANT" "open_to r ''write'' ''decline'' \<longleftrightarrow> r = ROLE_MERCHANT"
  "open_to r ''write'' ''signal'' \<longleftrightarrow> r = ROLE_DRIVER"
  by (simp_all add: open_to_def module_of_def endpoints_defs role_admitted_def)

lemma open_read:
  "open_to r ''read'' ''isOnline'' \<longleftrightarrow> r = ROLE_DRIVER" "open_to r ''read'' ''goOnline'' \<longleftrightarrow> r = ROLE_DRIVER"
  "open_to r ''read'' ''goOffline'' \<longleftrightarrow> r = ROLE_DRIVER" "open_to r ''read'' ''forDriver'' \<longleftrightarrow> r = ROLE_DRIVER"
  "open_to r ''read'' ''driverStream'' \<longleftrightarrow> r = ROLE_DRIVER" "open_to r ''read'' ''snapshot'' \<longleftrightarrow> r = ROLE_MERCHANT"
  "open_to r ''read'' ''dispatchStream'' \<longleftrightarrow> r = ROLE_MERCHANT" "open_to r ''read'' ''listOrders'' \<longleftrightarrow> r = ROLE_OPERATOR"
  "open_to r ''read'' ''listDrivers'' \<longleftrightarrow> r = ROLE_OPERATOR" "open_to r ''read'' ''adminOrdersStream'' \<longleftrightarrow> r = ROLE_OPERATOR"
  by (simp_all add: open_to_def module_of_def endpoints_defs role_admitted_def)

lemma open_read_all:
  "open_to r ''read'' ''getOrder''" "open_to r ''read'' ''getPayment''" "open_to r ''read'' ''list''"
  "open_to r ''read'' ''ordersStream''" "open_to r ''read'' ''byOrder''" "open_to r ''read'' ''driverLocation''"
  "open_to r ''read'' ''reportLocation''" "open_to r ''read'' ''nearby''"
  by (simp_all add: open_to_def module_of_def endpoints_defs role_admitted_def)

lemmas reached = order_calls driver_calls job_calls list_calls



text \<open>The member's view of the board: the merchant's list of orders, served to whoever is of the tenant.\<close>

definition list_handler ::
    "route \<Rightarrow> (string \<times> string) list \<Rightarrow> auth_context option \<Rightarrow> obs_context option \<Rightarrow> order_view list
     \<Rightarrow> (http_error, order_view list) result \<times> order_view list" where
  "list_handler r params scope obs docs = (case scope of
     Some ctx \<Rightarrow> (Inr (listRecentOrders ctx docs), docs) | None \<Rightarrow> (Inl (InternalError ''No auth context in scope''), docs))"

lemma find_board:
  "\<exists>ep. find_endpoint ''GET'' [''merchant'', ''orders''] (endpoints read_api) = Some (ep, []) \<and> en_required ep = None"
  "\<exists>ep. find_endpoint ''GET'' [''merchant'', ''dispatch''] (endpoints read_api) = Some (ep, []) \<and> en_required ep = Some [ROLE_MERCHANT]"
  by (simp_all add: endpoints_defs)

theorem merchant_board_open_to_every_role:
  assumes "rq_authorization rq = Some (bearer_header token)" and "token \<noteq> []" and "verifier token = Inr ctx"
    and "ensureFresh ttlMs io cat = (Inr ts, c')" and "tenant_active ts (ac_tenantId ctx)"
  shows "fst (serve read_api verifier ttlMs ''GET'' [''merchant'', ''orders''] rq fresh io cat list_handler docs)
      = Inr (listRecentOrders ctx docs)"
    and "ac_role ctx \<noteq> ROLE_MERCHANT \<Longrightarrow>
      \<not> is_ok (fst (serve read_api verifier ttlMs ''GET'' [''merchant'', ''dispatch''] rq fresh io cat handler w))"
proof -
  have mod: "list_all (guarded read_api) (endpoints read_api)" "am_auth read_api" "[''merchant'', x] \<notin> set (am_excluded read_api)" for x
    using public_service [of read_api] by (simp_all add: public_services_def)
  from find_board(1) obtain ep where ep: "find_endpoint ''GET'' [''merchant'', ''orders''] (endpoints read_api) = Some (ep, [])"
    "en_required ep = None" by blast
  then have "admitted verifier ttlMs (en_required ep) rq io cat ctx"
    using assms by (auto simp: admitted_def role_admitted_def)
  from serve_admitted [OF mod ep(1) this, of fresh list_handler docs]
  show "fst (serve read_api verifier ttlMs ''GET'' [''merchant'', ''orders''] rq fresh io cat list_handler docs)
      = Inr (listRecentOrders ctx docs)" by (auto simp: list_handler_def)
  assume role: "ac_role ctx \<noteq> ROLE_MERCHANT"
  from find_board(2) obtain ep' where ep': "find_endpoint ''GET'' [''merchant'', ''dispatch''] (endpoints read_api) = Some (ep', [])"
    "en_required ep' = Some [ROLE_MERCHANT]" by blast
  have "\<not> admitted verifier ttlMs (en_required ep') rq io cat c" for c
    using assms(1,3) role ep'(2) by (auto simp: admitted_def role_admitted_def bearer_header_def)
  with ep'(1) have "\<nexists>ep params c. find_endpoint ''GET'' [''merchant'', ''dispatch''] (endpoints read_api) = Some (ep, params)
      \<and> admitted verifier ttlMs (en_required ep) rq io cat c" by auto
  from serve_denied [OF mod this, of fresh handler w]
  show "\<not> is_ok (fst (serve read_api verifier ttlMs ''GET'' [''merchant'', ''dispatch''] rq fresh io cat handler w))" by auto
qed

section \<open>From login to the handler\<close>

text \<open>
  C31: A login's token opens what its account's role is for. If identity has loaded its keys and the services
  verify against the key set it publishes, with its issuer and audience, then the token a login answers
  with - for an account whose password Argon2 verified - is admitted, until it expires, to every route
  of the write and the read service that names the account's role or none, provided the account is the
  operator or of an active tenant; and the handler then runs as that very account.
\<close>

theorem login_token_is_admitted:
  assumes "post_login isEmail cfg e lrq st = ((Inr acc, cookie), st')"
    and "\<And>c. ie_sign e c = sign_token jwtSign tk (Some svc) now c"
    and "keys_inv db0" and "load_keys C imp ks ke db0 = (Inr svc, db)"
    and "\<forall>pub. (ks_currentKid svc, pub) \<in> set (ks_publicJwks svc) \<longrightarrow> pair pub (ks_currentKey svc)"
    and "\<forall>u \<in> set (id_users st). accepts_token jv jwtSign pair tk now (principal u) t"
    and "t < now div 1000 + tk_accessTtl tk" and "lr_accessToken acc \<noteq> []"
    and "rq_authorization rq = Some (bearer_header (lr_accessToken acc))"
    and "am \<in> set public_services" and "path \<noteq> [''health'']" and "find_endpoint m path (endpoints am) = Some (ep, params)"
  shows "\<exists>email password u obs. login_dto isEmail (ar_body lrq) = Some (email, password) \<and> u \<in> set (id_users st)
    \<and> us_email u = email \<and> ie_argon2 e (us_passwordHash u) password = Some True
    \<and> (role_admitted (en_required ep) (us_role u) \<and> (us_role u = ROLE_OPERATOR
          \<or> (\<exists>ts c'. ensureFresh ttlMs io cat = (Inr ts, c') \<and> tenant_active ts (us_tenantId u))) \<longrightarrow>
        (\<exists>cat'. serve am (verify (jv (ks_publicJwks svc)) (tk_issuer tk) (tk_audience tk)) ttlMs m path rq fresh io cat handler w
          = (fst (handler (en_route ep) params (Some (principal u)) obs w), cat',
             snd (handler (en_route ep) params (Some (principal u)) obs w))))"
proof -
  from login_effect [OF assms(1)] obtain email password u where dto: "login_dto isEmail (ar_body lrq) = Some (email, password)"
    and u: "find_email email (id_users st) = Some u" "ie_argon2 e (us_passwordHash u) password = Some True"
    and tok: "ie_sign e (principal u) = Inr (lr_accessToken acc)" by auto
  from u(1) have mem: "u \<in> set (id_users st)" "us_email u = email" by (auto simp: find_email_def find_Some_iff)
  from load_keys_Inr [OF assms(3,4)] obtain pub where pub: "(ks_currentKid svc, pub) \<in> set (ks_publicJwks svc)"
    and dist: "distinct (map fst (ks_publicJwks svc))" by auto
  have ver: "verify (jv (ks_publicJwks svc)) (tk_issuer tk) (tk_audience tk) (lr_accessToken acc) = Inr (principal u)"
  proof -
    have "jwtSign (ks_currentKey svc) ''RS256'' (ks_currentKid svc) (access_payload tk now (principal u)) = lr_accessToken acc"
      using tok by (simp add: assms(2) sign_token_def)
    moreover have "pair pub (ks_currentKey svc)" using assms(5) pub by blast
    moreover have "accepts_token jv jwtSign pair tk now (principal u) t" using assms(6) mem(1) by blast
    ultimately show ?thesis using verify_accepted [OF _ pub dist _ assms(7)] by metis
  qed
  have notex: "path \<notin> set (am_excluded am)" using public_service(3) [OF assms(10)] assms(11) by simp
  have run: "\<exists>cat'. serve am (verify (jv (ks_publicJwks svc)) (tk_issuer tk) (tk_audience tk)) ttlMs m path rq fresh io cat handler w =
      (let hw = handler (en_route ep) params (Some (principal u))
         (Some ((fst (correlation_use (rq_correlation rq) fresh))\<lparr>oc_tenantId := Some (us_tenantId u)\<rparr>)) w
       in (fst hw, cat', snd hw))"
    if "role_admitted (en_required ep) (us_role u)" "us_role u = ROLE_OPERATOR
          \<or> (\<exists>ts c'. ensureFresh ttlMs io cat = (Inr ts, c') \<and> tenant_active ts (us_tenantId u))"
  proof -
    have "admitted (verify (jv (ks_publicJwks svc)) (tk_issuer tk) (tk_audience tk)) ttlMs (en_required ep) rq io cat (principal u)"
      using that assms(8,9) ver by (auto simp: admitted_def principal_def)
    from serve_admitted [OF public_service(1,2) [OF assms(10)] notex assms(12) this, of fresh handler w]
    show ?thesis by (simp add: principal_def)
  qed
  show ?thesis
    by (rule exI [of _ email], rule exI [of _ password], rule exI [of _ u],
        rule exI [of _ "Some ((fst (correlation_use (rq_correlation rq) fresh))\<lparr>oc_tenantId := Some (us_tenantId u)\<rparr>)"])
      (use dto mem u(2) run in \<open>simp add: Let_def\<close>)
qed

text \<open>A merchant's account, the key set of a first start, and a login against them.\<close>

definition sample_svc :: "string key_service" where
  "sample_svc = \<lparr>ks_currentKid = ''a'', ks_currentKey = ''a'', ks_publicJwks = [(''a'', ''pub-a'')]\<rparr>"

definition sample_accounts :: identity where
  "sample_accounts = \<lparr>id_users = [\<lparr>us_id = ''u1'', us_tenantId = ''berlin'', us_email = ''m@b'', us_passwordHash = ''h'',
     us_role = ROLE_MERCHANT\<rparr>], id_tokens = []\<rparr>"

definition sample_id_env :: id_env where
  "sample_id_env = \<lparr>ie_hash = id, ie_argon2 = (\<lambda>h p. Some (h = ''h'' \<and> p = ''pw'')),
     ie_sign = sign_token sample_sign sample_token_config (Some sample_svc) 0, ie_ttl = 900,
     ie_rt = sample_rt_env ''1'' 0, ie_rtConfig = sample_rt_config\<rparr>"

definition sample_login :: "login_result auth_reply \<times> identity" where
  "sample_login = post_login (\<lambda>_. True) \<lparr>cc_name = ''rt'', cc_path = ''/'', cc_secure = False, cc_refreshTtl = 3600\<rparr> sample_id_env
     \<lparr>ar_app = NoHeader, ar_cookie = None, ar_body = JObj [(''email'', JStr ''m@b''), (''password'', JStr ''pw'')]\<rparr> sample_accounts"

lemma sample_load_keys:
  "\<exists>db. load_keys toy_cipher Some dev_keys (sample_key_env ''a'') [] = (Inr sample_svc, db)"
  by (rule exI [of _ "[\<lparr>sk_kid = ''a'', sk_publicJwk = ''pub-a'', sk_privateJwk = ''a'', sk_status = KeyCurrent, sk_createdAt = 1\<rparr>]"])
    code_simp

lemma sample_login_eq:
  "\<exists>cookie st'. sample_login = ((Inr \<lparr>lr_accessToken = ''a'', lr_expiresIn = 900\<rparr>, cookie), st')"
  by (simp add: sample_login_def post_login_def login_dto_def jget_def jstr_def login_def find_email_def sample_accounts_def
      password_ok_def sample_id_env_def access_def sign_token_def sample_svc_def sample_sign_def rt_sample_defs
      create_row_def)

theorem login_token_is_admitted_witness:
  "fst (serve write_api (verify (sample_jv (ks_publicJwks sample_svc)) (tk_issuer sample_token_config) (tk_audience sample_token_config))
      1000 ''POST'' [''orders'', ''o1'', ''accept'']
      \<lparr>rq_correlation = NoHeader, rq_authorization = Some (bearer_header ''a'')\<rparr> ''c1''
      \<lparr>ci_now = 0, ci_rows = Some SEED_TENANTS, ci_after = 0\<rparr> empty_catalog
      (\<lambda>r params scope obs w. (Inr (ro_handler r, params, scope), w)) ()) = Inr (''accept'', [(''orderId'', ''o1'')], Some sample_user)"
proof -
  from sample_login_eq obtain cookie st' where
    lg: "sample_login = ((Inr \<lparr>lr_accessToken = ''a'', lr_expiresIn = 900\<rparr>, cookie), st')" by blast
  from sample_load_keys obtain db where ld: "load_keys toy_cipher Some dev_keys (sample_key_env ''a'') [] = (Inr sample_svc, db)" by blast
  have sign: "ie_sign sample_id_env c = sign_token sample_sign sample_token_config (Some sample_svc) 0 c" for c
    by (simp add: sample_id_env_def)
  have acc: "\<forall>u \<in> set (id_users sample_accounts).
      accepts_token sample_jv sample_sign (\<lambda>pub key. pub = ''pub-'' @ key) sample_token_config 0 (principal u) 0"
    by (auto simp: sample_accounts_def principal_def accepts_token_def sample_jv_def sample_sign_def sample_token_config_def
        sample_user_def image_iff intro: rev_bexI)
  have pair: "\<forall>pub. (ks_currentKid sample_svc, pub) \<in> set (ks_publicJwks sample_svc) \<longrightarrow> pub = ''pub-'' @ ks_currentKey sample_svc"
    by (simp add: sample_svc_def)
  have route: "\<exists>ep. find_endpoint ''POST'' [''orders'', ''o1'', ''accept''] (endpoints write_api) = Some (ep, [(''orderId'', ''o1'')])
      \<and> en_required ep = Some [ROLE_MERCHANT] \<and> ro_handler (en_route ep) = ''accept''"
    by (simp add: endpoints_defs)
  then obtain ep where ep: "find_endpoint ''POST'' [''orders'', ''o1'', ''accept''] (endpoints write_api) = Some (ep, [(''orderId'', ''o1'')])"
    "en_required ep = Some [ROLE_MERCHANT]" "ro_handler (en_route ep) = ''accept''" by blast
  have "keys_inv []" "0 < 0 div (1000::int) + tk_accessTtl sample_token_config" "write_api \<in> set public_services"
    "[''orders'', ''o1'', ''accept''] \<noteq> [''health'']"
    by (simp_all add: keys_inv_def sample_token_config_def public_services_def)
  note lt = login_token_is_admitted [OF lg [unfolded sample_login_def] sign this(1) ld pair acc this(2) _ _ this(3,4) ep(1),
      where rq = "\<lparr>rq_correlation = NoHeader, rq_authorization = Some (bearer_header ''a'')\<rparr>" and ttlMs = 1000
        and io = "\<lparr>ci_now = 0, ci_rows = Some SEED_TENANTS, ci_after = 0\<rparr>" and cat = empty_catalog and fresh = "''c1''"
        and handler = "\<lambda>r params scope obs w. (Inr (ro_handler r, params, scope), w)" and w = "()"]
  have act: "tenant_active SEED_TENANTS ''berlin''" by (simp add: tenant_active_def SEED_TENANTS_def)
  have fresh: "ensureFresh 1000 \<lparr>ci_now = 0, ci_rows = Some SEED_TENANTS, ci_after = 0\<rparr> empty_catalog
      = (Inr SEED_TENANTS, \<lparr>tc_cache = Some SEED_TENANTS, tc_loadedAt = 0\<rparr>)" by (simp add: ensureFresh_def empty_catalog_def)
  from lt show ?thesis
    by (auto simp: sample_accounts_def ep(2,3) role_admitted_def fresh act principal_def sample_user_def)
qed

end
