(* ===== verification/Wiring.thy ===== *)
theory Wiring
  imports Gateway Config
begin

text \<open>
  The modules of the HTTP services as containers of instances (\<open>*.module.ts\<close> and the constructors of
  the classes they name): which instance a constructor parameter gets, after NestJS's documented lookup -
  the module's own providers, then what its imports export, then what global modules export. Shown here:
  every service can be constructed; the order service writes under the restricted database role whenever the
  write service starts; every live stream reads the instance that the feeder publishes to; and the read
  service keeps three tenant catalogs, whose answers can differ.
\<close>

section \<open>Classes and modules\<close>

text \<open>
  A provider or controller: its token, the tokens of its constructor's parameters (those marked
  \<open>@Optional\<close> that nothing provides are left out) or of its factory, and the connection string it is given.
\<close>

record provider =
  pr_token :: string
  pr_inject :: "string list"
  pr_url :: "(app_config \<Rightarrow> string) option"

definition injectable :: "string \<Rightarrow> string list \<Rightarrow> provider" where
  "injectable c params = \<lparr>pr_token = c, pr_inject = params, pr_url = None\<rparr>"

record nest_module =
  nm_name :: string
  nm_global :: bool
  nm_imports :: "string list"
  nm_controllers :: "provider list"
  nm_providers :: "provider list"
  nm_middleware :: "provider list"
  nm_exports :: "string list"

text \<open>\<open>@Module({ imports, controllers, providers, exports })\<close>.\<close>

definition nest :: "string \<Rightarrow> string list \<Rightarrow> provider list \<Rightarrow> provider list \<Rightarrow> string list \<Rightarrow> nest_module" where
  "nest name imports controllers providers exports =
     \<lparr>nm_name = name, nm_global = False, nm_imports = imports, nm_controllers = controllers, nm_providers = providers,
      nm_middleware = [], nm_exports = exports\<rparr>"

subsection \<open>Shared classes\<close>

definition PrismaService :: provider where "PrismaService = injectable ''PrismaService'' []"
definition MongoService :: provider where "MongoService = injectable ''MongoService'' []"
definition RedisService :: provider where "RedisService = injectable ''RedisService'' []"
definition Reflector :: provider where "Reflector = injectable ''Reflector'' []"
definition TokenVerifier :: provider where "TokenVerifier = injectable ''TokenVerifier'' []"
definition RolesGuard_class :: provider where "RolesGuard_class = injectable ''RolesGuard'' [''Reflector'']"
definition AuthMiddleware :: provider where "AuthMiddleware = injectable ''AuthMiddleware'' [''TokenVerifier'']"
definition CorrelationMiddleware :: provider where
  "CorrelationMiddleware = injectable ''CorrelationMiddleware'' [''APP_LOGGER'']"

definition HealthController_class :: provider where "HealthController_class = injectable ''HealthController'' []"

text \<open>
  \<open>{ provide: TenantCatalogService, useFactory: (p) => new TenantCatalogService(p), inject: [PrismaService] }\<close>, and
  the global guards: \<open>{ provide: APP_GUARD, useFactory: (d) => new G(d), inject: [d] }\<close>.
\<close>

definition catalog_factory :: provider where
  "catalog_factory = injectable ''TenantCatalogService'' [''PrismaService'']"

definition app_guard :: "string \<Rightarrow> provider" where
  "app_guard dep = injectable ''APP_GUARD'' [dep]"

definition LoggerModule :: nest_module where
  "LoggerModule = \<lparr>nm_name = ''LoggerModule'', nm_global = True, nm_imports = [], nm_controllers = [],
     nm_providers = [injectable ''APP_LOGGER'' []], nm_middleware = [], nm_exports = [''APP_LOGGER'']\<rparr>"

text \<open>The module of a service itself: its health check, its providers, and the middleware it applies.\<close>

definition app_root :: "string list \<Rightarrow> provider list \<Rightarrow> provider list \<Rightarrow> nest_module" where
  "app_root imports providers mw =
     (nest ''AppModule'' (''LoggerModule'' # imports) [HealthController_class] providers [])\<lparr>nm_middleware := mw\<rparr>"

subsection \<open>The write service\<close>

definition OrdersController_class :: provider where
  "OrdersController_class = injectable ''OrdersController'' [''OrdersService'']"
definition AcceptController_class :: provider where
  "AcceptController_class = injectable ''AcceptController'' [''TemporalService'', ''PaymentsClient'']"
definition ConfirmPaymentController_class :: provider where
  "ConfirmPaymentController_class = injectable ''ConfirmPaymentController'' [''TemporalService'']"
definition SignalController_class :: provider where
  "SignalController_class = injectable ''DispatchController'' [''TemporalService'']"
definition OrdersService :: provider where
  "OrdersService = injectable ''OrdersService'' [''PrismaService'']"
definition TemporalService :: provider where "TemporalService = injectable ''TemporalService'' []"
definition PaymentsClient :: provider where "PaymentsClient = injectable ''PaymentsClient'' []"

definition restricted_prisma :: provider where
  "restricted_prisma = \<lparr>pr_token = ''PrismaService'', pr_inject = [], pr_url = Some appDatabaseUrl\<rparr>"

definition write_OrdersModule :: nest_module where
  "write_OrdersModule = nest ''OrdersModule'' []
     [OrdersController_class, AcceptController_class, ConfirmPaymentController_class, SignalController_class]
     [OrdersService, restricted_prisma, TemporalService, PaymentsClient] []"

definition write_modules :: "nest_module list" where
  "write_modules =
     [app_root [''OrdersModule'']
        [TokenVerifier, Reflector, app_guard ''Reflector'', PrismaService, catalog_factory,
         app_guard ''TenantCatalogService'', CorrelationMiddleware]
        [CorrelationMiddleware, AuthMiddleware],
      LoggerModule, write_OrdersModule]"

subsection \<open>The read service\<close>

definition OrdersQueryController_class :: provider where
  "OrdersQueryController_class = injectable ''OrdersQueryController'' [''OrdersQueryService'', ''PaymentsClient'']"
definition MerchantOrdersController_class :: provider where
  "MerchantOrdersController_class = injectable ''MerchantOrdersController'' [''OrdersQueryService'']"
definition OrdersQueryService :: provider where
  "OrdersQueryService = injectable ''OrdersQueryService'' [''MongoService'', ''RedisService'']"

definition read_OrdersModule :: nest_module where
  "read_OrdersModule = nest ''OrdersModule'' [] [OrdersQueryController_class, MerchantOrdersController_class]
     [OrdersQueryService, MongoService, RedisService, PaymentsClient] []"

definition MerchantSseController_class :: provider where
  "MerchantSseController_class = injectable ''MerchantSseController'' [''OrderStreamService'']"
definition DriverSseController_class :: provider where
  "DriverSseController_class = injectable ''DriverSseController'' [''DispatchQueryService'', ''DispatchStreamService'']"
definition MerchantDispatchSseController_class :: provider where
  "MerchantDispatchSseController_class =
     injectable ''MerchantDispatchSseController'' [''DispatchStreamService'', ''DispatchQueryService'']"
definition OrderStreamService :: provider where "OrderStreamService = injectable ''OrderStreamService'' []"
definition DispatchStreamService :: provider where "DispatchStreamService = injectable ''DispatchStreamService'' []"
definition SseFeederService :: provider where
  "SseFeederService = injectable ''SseFeederService'' [''OrderStreamService'', ''DispatchStreamService'', ''APP_LOGGER'']"
definition DispatchQueryService :: provider where
  "DispatchQueryService = injectable ''DispatchQueryService'' [''MongoService'']"

definition SseModule :: nest_module where
  "SseModule = nest ''SseModule'' []
     [MerchantSseController_class, DriverSseController_class, MerchantDispatchSseController_class]
     [OrderStreamService, DispatchStreamService, SseFeederService, DispatchQueryService, MongoService, RolesGuard_class, Reflector]
     [''OrderStreamService'', ''DispatchStreamService'']"

definition DriversController_class :: provider where
  "DriversController_class = injectable ''DriversController'' [''TelemetryProducerService'', ''RedisService'']"
definition TelemetryProducerService :: provider where
  "TelemetryProducerService = injectable ''TelemetryProducerService'' []"

definition DriversModule :: nest_module where
  "DriversModule = nest ''DriversModule'' [] [DriversController_class]
     [TelemetryProducerService, RedisService, RolesGuard_class, Reflector] []"

definition AdminController_class :: provider where
  "AdminController_class = injectable ''AdminController'' [''AdminService'', ''OrderStreamService'', ''TenantCatalogService'']"
definition AdminService :: provider where
  "AdminService = injectable ''AdminService'' [''MongoService'', ''RedisService'', ''TenantCatalogService'']"

definition AdminModule :: nest_module where
  "AdminModule = nest ''AdminModule'' [''SseModule''] [AdminController_class]
     [AdminService, MongoService, RedisService, RolesGuard_class, Reflector, PrismaService, catalog_factory] []"

definition DispatchController_class :: provider where
  "DispatchController_class = injectable ''DispatchController'' [''DispatchQueryService'', ''RedisService'']"

definition DispatchModule :: nest_module where
  "DispatchModule = nest ''DispatchModule'' [] [DispatchController_class]
     [DispatchQueryService, MongoService, RedisService, RolesGuard_class, Reflector] []"

definition TenantsController_class :: provider where
  "TenantsController_class = injectable ''TenantsController'' [''TenantCatalogService'']"

definition TenantsModule :: nest_module where
  "TenantsModule = nest ''TenantsModule'' [] [TenantsController_class] [PrismaService, catalog_factory] []"

definition read_modules :: "nest_module list" where
  "read_modules =
     [app_root [''OrdersModule'', ''SseModule'', ''DriversModule'', ''AdminModule'', ''DispatchModule'', ''TenantsModule'']
        [TokenVerifier, PrismaService, catalog_factory, app_guard ''TenantCatalogService'', CorrelationMiddleware]
        [CorrelationMiddleware, AuthMiddleware],
      LoggerModule, read_OrdersModule, SseModule, DriversModule, AdminModule, DispatchModule, TenantsModule]"

subsection \<open>Identity and payments\<close>

definition KeyService :: provider where "KeyService = injectable ''KeyService'' [''PrismaService'']"
definition TokenService :: provider where "TokenService = injectable ''TokenService'' [''KeyService'']"
definition RefreshTokenService :: provider where
  "RefreshTokenService = injectable ''RefreshTokenService'' [''PrismaService'']"
definition AuthService :: provider where
  "AuthService = injectable ''AuthService'' [''PrismaService'', ''TokenService'', ''RefreshTokenService'']"
definition JwksController_class :: provider where "JwksController_class = injectable ''JwksController'' [''KeyService'']"
definition AuthController_class :: provider where "AuthController_class = injectable ''AuthController'' [''AuthService'']"

definition AuthModule :: nest_module where
  "AuthModule = nest ''AuthModule'' [] [JwksController_class, AuthController_class]
     [KeyService, TokenService, RefreshTokenService, AuthService, PrismaService] [''KeyService'']"

definition identity_modules :: "nest_module list" where
  "identity_modules = [app_root [''AuthModule''] [CorrelationMiddleware] [CorrelationMiddleware], LoggerModule, AuthModule]"

definition PaymentsPrismaService :: provider where "PaymentsPrismaService = injectable ''PaymentsPrismaService'' []"
definition PaymentsService :: provider where
  "PaymentsService = injectable ''PaymentsService'' [''PaymentsPrismaService'', ''APP_LOGGER'']"
definition PaymentsController_class :: provider where
  "PaymentsController_class = injectable ''PaymentsController'' [''PaymentsService'']"

definition PaymentsModule :: nest_module where
  "PaymentsModule = nest ''PaymentsModule'' [] [PaymentsController_class] [PaymentsPrismaService, PaymentsService] []"

definition payments_modules :: "nest_module list" where
  "payments_modules =
     [app_root [''PaymentsModule''] [CorrelationMiddleware] [CorrelationMiddleware], LoggerModule, PaymentsModule]"

lemmas class_defs = injectable_def nest_def app_root_def app_guard_def catalog_factory_def PrismaService_def MongoService_def
  RedisService_def Reflector_def TokenVerifier_def RolesGuard_class_def AuthMiddleware_def CorrelationMiddleware_def
  HealthController_class_def LoggerModule_def
  OrdersController_class_def AcceptController_class_def ConfirmPaymentController_class_def SignalController_class_def
  OrdersService_def TemporalService_def PaymentsClient_def restricted_prisma_def write_OrdersModule_def
  OrdersQueryController_class_def MerchantOrdersController_class_def OrdersQueryService_def read_OrdersModule_def
  MerchantSseController_class_def DriverSseController_class_def MerchantDispatchSseController_class_def OrderStreamService_def
  DispatchStreamService_def SseFeederService_def DispatchQueryService_def SseModule_def DriversController_class_def
  TelemetryProducerService_def DriversModule_def AdminController_class_def AdminService_def AdminModule_def
  DispatchController_class_def DispatchModule_def TenantsController_class_def TenantsModule_def
  KeyService_def TokenService_def RefreshTokenService_def AuthService_def JwksController_class_def AuthController_class_def
  AuthModule_def PaymentsPrismaService_def PaymentsService_def PaymentsController_class_def PaymentsModule_def

section \<open>Which instance a parameter gets\<close>

definition provides :: "nest_module \<Rightarrow> string \<Rightarrow> bool" where
  "provides m tok \<longleftrightarrow> list_ex (\<lambda>p. pr_token p = tok) (nm_providers m)"

text \<open>
  NestJS's lookup of a token for a class of module \<open>m\<close>: the module's own provider, else that of an
  imported module that exports it, else that of a global module that does.
\<close>

definition lookup_token :: "nest_module list \<Rightarrow> nest_module \<Rightarrow> string \<Rightarrow> nest_module option" where
  "lookup_token ms m tok =
     (if provides m tok then Some m
      else case find (\<lambda>x. nm_name x \<in> set (nm_imports m) \<and> tok \<in> set (nm_exports x) \<and> provides x tok) ms of
        Some x \<Rightarrow> Some x
      | None \<Rightarrow> find (\<lambda>x. nm_global x \<and> tok \<in> set (nm_exports x) \<and> provides x tok) ms)"

text \<open>An instance is named by the module that owns it and its token: NestJS makes one per provider entry.\<close>

type_synonym instance_id = "string \<times> string"

definition instance_of :: "nest_module list \<Rightarrow> nest_module \<Rightarrow> string \<Rightarrow> instance_id option" where
  "instance_of ms m tok = map_option (\<lambda>x. (nm_name x, tok)) (lookup_token ms m tok)"

definition provider_of :: "nest_module \<Rightarrow> string \<Rightarrow> provider option" where
  "provider_of m tok = find (\<lambda>p. pr_token p = tok) (nm_providers m)"

section \<open>Every service can be constructed\<close>

text \<open>The parameters of a class can be constructed, by a chain of at most \<open>n\<close> constructors.\<close>

fun buildable :: "nat \<Rightarrow> nest_module list \<Rightarrow> nest_module \<Rightarrow> provider \<Rightarrow> bool" where
  "buildable 0 ms m p \<longleftrightarrow> False"
| "buildable (Suc n) ms m p \<longleftrightarrow> list_all (\<lambda>tok. case lookup_token ms m tok of
       None \<Rightarrow> False
     | Some x \<Rightarrow> (case provider_of x tok of None \<Rightarrow> False | Some q \<Rightarrow> buildable n ms x q)) (pr_inject p)"

definition boots :: "nat \<Rightarrow> nest_module list \<Rightarrow> bool" where
  "boots n ms \<longleftrightarrow> distinct (map nm_name ms)
     \<and> list_all (\<lambda>m. set (nm_imports m) \<subseteq> set (map nm_name ms)
         \<and> list_all (buildable n ms m) (nm_controllers m @ nm_providers m @ nm_middleware m)) ms"

text \<open>\<open>needs\<close>: what must be constructed first. A buildable class has no cycle below it.\<close>

inductive needs :: "nest_module list \<Rightarrow> nest_module \<times> provider \<Rightarrow> nest_module \<times> provider \<Rightarrow> bool" for ms where
  needs_param: "tok \<in> set (pr_inject p) \<Longrightarrow> lookup_token ms m tok = Some x \<Longrightarrow> provider_of x tok = Some q
    \<Longrightarrow> needs ms (x, q) (m, p)"

inductive_cases needsE: "needs ms a (m, p)"

lemma buildable_acyclic: "buildable n ms m p \<Longrightarrow> Wellfounded.accp (needs ms) (m, p)"
proof (induction n arbitrary: m p)
  case (Suc n)
  show ?case
  proof (rule accp.intros)
    fix a assume "needs ms a (m, p)"
    then show "Wellfounded.accp (needs ms) a"
      using Suc by (auto simp: list_all_iff elim!: needsE split: option.splits)
  qed
qed simp

lemmas lookup_defs = lookup_token_def provides_def instance_of_def provider_of_def

lemma write_boots: "boots 4 write_modules" by code_simp
lemma read_boots: "boots 4 read_modules" by code_simp
lemma identity_boots: "boots 5 identity_modules" by code_simp
lemma payments_boots: "boots 3 payments_modules" by code_simp

theorem services_boot:
  "boots 4 write_modules \<and> boots 4 read_modules \<and> boots 5 identity_modules \<and> boots 3 payments_modules"
  using write_boots read_boots identity_boots payments_boots by blast

section \<open>The order service writes under the restricted role\<close>

text \<open>
  \<open>super(url ? { datasourceUrl: url } : undefined)\<close>: the connection string a Prisma instance uses, the
  generated client's own being \<open>DATABASE_URL\<close>.
\<close>

definition prisma_url :: "app_config \<Rightarrow> nest_module list \<Rightarrow> nest_module \<Rightarrow> string option" where
  "prisma_url cfg ms m = (case lookup_token ms m ''PrismaService'' of
     None \<Rightarrow> None
   | Some x \<Rightarrow> map_option (\<lambda>p. case pr_url p of
        None \<Rightarrow> databaseUrl cfg
      | Some url \<Rightarrow> if url cfg = [] then databaseUrl cfg else url cfg) (provider_of x ''PrismaService''))"

theorem orders_written_as_restricted_role:
  assumes "requireAppDatabaseUrl env = Inr url" and "loadConfig env = Inr cfg"
  shows "prisma_url cfg write_modules write_OrdersModule = Some url"
    and "prisma_url cfg write_modules (hd write_modules) = Some (databaseUrl cfg)"
proof -
  from assms have "appDatabaseUrl cfg = url" "url \<noteq> []"
    by (auto simp: requireAppDatabaseUrl_ok loadConfig_def env_or_def split: if_splits)
  then show "prisma_url cfg write_modules write_OrdersModule = Some url"
    and "prisma_url cfg write_modules (hd write_modules) = Some (databaseUrl cfg)"
    by (simp_all add: prisma_url_def write_modules_def class_defs lookup_defs)
qed

section \<open>The streams read what the feeder publishes\<close>

text \<open>Each instance of a stream service has subjects of its own: what was published to it, with the tenant.\<close>

type_synonym 'e hub = "instance_id \<Rightarrow> (string \<times> 'e) list"

definition publish_through ::
    "nest_module list \<Rightarrow> nest_module \<Rightarrow> string \<Rightarrow> string \<Rightarrow> 'e \<Rightarrow> 'e hub \<Rightarrow> 'e hub" where
  "publish_through ms m tok tenantId e hub = (case instance_of ms m tok of
     None \<Rightarrow> hub | Some i \<Rightarrow> hub(i := hub i @ [(tenantId, e)]))"

definition subscribe_through :: "nest_module list \<Rightarrow> nest_module \<Rightarrow> string \<Rightarrow> string \<Rightarrow> 'e hub \<Rightarrow> 'e list" where
  "subscribe_through ms m tok tenantId hub = (case instance_of ms m tok of
     None \<Rightarrow> [] | Some i \<Rightarrow> map snd (filter (\<lambda>(t, _). t = tenantId) (hub i)))"

fun feed_hubs :: "feed list \<Rightarrow> stream_event hub \<times> dispatch_view hub \<Rightarrow> stream_event hub \<times> dispatch_view hub" where
  "feed_hubs [] hubs = hubs"
| "feed_hubs (OrderFeed t e # fs) (oh, dh) =
     feed_hubs fs (publish_through read_modules SseModule ''OrderStreamService'' t e oh, dh)"
| "feed_hubs (DispatchFeed t v # fs) (oh, dh) =
     feed_hubs fs (oh, publish_through read_modules SseModule ''DispatchStreamService'' t v dh)"

lemma read_instances:
  "instance_of read_modules SseModule ''OrderStreamService'' = Some (''SseModule'', ''OrderStreamService'')"
  "instance_of read_modules SseModule ''DispatchStreamService'' = Some (''SseModule'', ''DispatchStreamService'')"
  "instance_of read_modules AdminModule ''OrderStreamService'' = Some (''SseModule'', ''OrderStreamService'')"
  by (simp_all add: read_modules_def class_defs lookup_defs)

lemma feed_hubs_shared:
  "subscribe_through read_modules SseModule ''OrderStreamService'' t (fst (feed_hubs fs hubs))
     = subscribe_through read_modules SseModule ''OrderStreamService'' t (fst hubs) @ order_stream t fs"
  "subscribe_through read_modules SseModule ''DispatchStreamService'' t (snd (feed_hubs fs hubs))
     = subscribe_through read_modules SseModule ''DispatchStreamService'' t (snd hubs) @ dispatch_stream t fs"
  by (induction fs hubs rule: feed_hubs.induct)
    (auto simp: subscribe_through_def publish_through_def read_instances)

text \<open>
  From an empty start, the merchant's, the driver's and the operator's controllers are served exactly
  the streams of \<open>Read_Api\<close>, although the operator's lives in another module.
\<close>

theorem streams_share_the_feed:
  fixes fs :: "feed list"
  defines "hubs \<equiv> feed_hubs fs (\<lambda>_. [], \<lambda>_. [])"
  shows "subscribe_through read_modules SseModule ''OrderStreamService'' t (fst hubs) = order_stream t fs"
    and "subscribe_through read_modules AdminModule ''OrderStreamService'' t (fst hubs) = order_stream t fs"
    and "subscribe_through read_modules SseModule ''DispatchStreamService'' t (snd hubs) = dispatch_stream t fs"
proof -
  show so: "subscribe_through read_modules SseModule ''OrderStreamService'' t (fst hubs) = order_stream t fs"
    and "subscribe_through read_modules SseModule ''DispatchStreamService'' t (snd hubs) = dispatch_stream t fs"
    unfolding hubs_def feed_hubs_shared by (simp_all add: subscribe_through_def read_instances)
  show "subscribe_through read_modules AdminModule ''OrderStreamService'' t (fst hubs) = order_stream t fs"
    using so by (simp add: subscribe_through_def read_instances)
qed

section \<open>Three catalogs in one process\<close>

text \<open>
  The guard, the operator's lists and \<open>GET /tenants\<close> each have a catalog instance of their own in the read
  service, with its own cache and its own age; the write service has one.
\<close>

theorem read_api_keeps_three_catalogs:
  "map (\<lambda>m. instance_of read_modules m ''TenantCatalogService'') [hd read_modules, AdminModule, TenantsModule]
     = [Some (''AppModule'', ''TenantCatalogService''), Some (''AdminModule'', ''TenantCatalogService''),
        Some (''TenantsModule'', ''TenantCatalogService'')]"
  "length (filter (\<lambda>m. provides m ''TenantCatalogService'') write_modules) = 1"
  by (simp_all add: read_modules_def write_modules_def class_defs lookup_defs)

text \<open>
  So within the time to live they can disagree: after a suspension the list of tenants no longer has the
  tenant, while the guard goes on admitting its members.
\<close>

theorem list_and_guard_disagree:
  assumes "ac_role ctx \<noteq> ROLE_OPERATOR" and "tenant_active rows (ac_tenantId ctx)"
    and "\<not> tenant_active rows' (ac_tenantId ctx)" and "distinct (map tv_slug rows')" and "0 \<le> d" and "d < ttlMs"
  shows "let g = snd (tenant_guard ttlMs (Some ctx) \<lparr>ci_now = t, ci_rows = Some rows, ci_after = t\<rparr> empty_catalog);
      io = \<lparr>ci_now = t + d, ci_rows = Some rows', ci_after = t + d\<rparr>
    in fst (tenant_guard ttlMs (Some ctx) io g) = Inr True
      \<and> (case fst (catalog_list ttlMs True io empty_catalog) of
           Inr ts \<Rightarrow> ac_tenantId ctx \<notin> tv_slug ` set ts | Inl _ \<Rightarrow> False)"
proof -
  have out: "ac_tenantId ctx \<notin> tv_slug ` set (filter (\<lambda>t. tv_status t = ''active'') rows')"
  proof
    assume "ac_tenantId ctx \<in> tv_slug ` set (filter (\<lambda>t. tv_status t = ''active'') rows')"
    then obtain v where v: "v \<in> set rows'" "tv_slug v = ac_tenantId ctx" "tv_status v = ''active''" by auto
    have "\<exists>w. find (\<lambda>t. tv_slug t = ac_tenantId ctx) rows' = Some w \<and> w = v"
      using v assms(4) by (induction rows') (auto simp: image_iff)
    with assms(3) v(3) show False by (simp add: tenant_active_def)
  qed
  have e: "ensureFresh ttlMs \<lparr>ci_now = n, ci_rows = Some rs, ci_after = n\<rparr> empty_catalog
      = (Inr rs, \<lparr>tc_cache = Some rs, tc_loadedAt = n\<rparr>)" for n rs by (simp add: ensureFresh_def empty_catalog_def)
  have h: "ensureFresh ttlMs \<lparr>ci_now = t + d, ci_rows = Some rows', ci_after = t + d\<rparr> \<lparr>tc_cache = Some rows, tc_loadedAt = t\<rparr>
      = (Inr rows, \<lparr>tc_cache = Some rows, tc_loadedAt = t\<rparr>)" using assms(6) by (simp add: ensureFresh_def)
  show ?thesis using assms(1,2) out by (simp add: tenant_guard_eq e h Let_def catalog_list_def)
qed

end
