(* ===== verification/Sign_In.thy ===== *)
theory Sign_In
  imports Web_Shell Wiring
begin

text \<open>
  The first sign-in, from the seeds to the page: the accounts that the four frontends offer on their
  login form (the demo lists of their pages), the form, the store and the gate, the identity service
  behind the rewrite, and the accounts the seed scripts create. Shown here: each account offered signs in
  and passes the gate of the page that offers it.
\<close>

section \<open>The accounts a page offers\<close>

definition CUSTOMER_DEMOS :: "(string \<times> string) list" where
  "CUSTOMER_DEMOS = [(''Berlin customer'', ''customer@berlin.test''), (''Tokyo customer'', ''customer@tokyo.test'')]"

definition MERCHANT_DEMOS :: "(string \<times> string) list" where
  "MERCHANT_DEMOS = [(''Berlin merchant'', ''merchant@berlin.test''), (''Tokyo merchant'', ''merchant@tokyo.test'')]"

definition DRIVER_DEMOS :: "(string \<times> string) list" where
  "DRIVER_DEMOS = [(''Berlin drv-1'', ''drv-1@berlin.test''), (''Berlin drv-2'', ''drv-2@berlin.test''),
     (''Tokyo drv-1'', ''drv-1@tokyo.test'')]"

definition OPERATOR_DEMOS :: "(string \<times> string) list" where
  "OPERATOR_DEMOS = [(''Operator'', ''operator@flashbite.test'')]"

text \<open>The pages' gates: \<open><AuthGate demoUsers={...} requiredRole="...">\<close>.\<close>

record page_gate =
  pg_demoUsers :: "(string \<times> string) list"
  pg_requiredRole :: string

definition customer_gate :: page_gate where
  "customer_gate = \<lparr>pg_demoUsers = CUSTOMER_DEMOS, pg_requiredRole = ''customer''\<rparr>"

definition merchant_gate :: page_gate where
  "merchant_gate = \<lparr>pg_demoUsers = MERCHANT_DEMOS, pg_requiredRole = ''merchant''\<rparr>"

definition driver_gate :: page_gate where
  "driver_gate = \<lparr>pg_demoUsers = DRIVER_DEMOS, pg_requiredRole = ''driver''\<rparr>"

definition operator_gate :: page_gate where
  "operator_gate = \<lparr>pg_demoUsers = OPERATOR_DEMOS, pg_requiredRole = ''operator''\<rparr>"

definition page_gates :: "page_gate list" where
  "page_gates = [customer_gate, merchant_gate, driver_gate, operator_gate]"

section \<open>The identity service behind the rewrite\<close>

definition login_json :: "login_result \<Rightarrow> json" where
  "login_json r = JObj [(''accessToken'', JStr (lr_accessToken r)), (''tokenType'', JStr ''Bearer''),
     (''expiresIn'', JInt (lr_expiresIn r))]"

text \<open>A \<open>POST\<close> is answered with 201 and the result as JSON; an exception with its status.\<close>

definition login_server :: "(string \<Rightarrow> bool) \<Rightarrow> cookie_config \<Rightarrow> id_env \<Rightarrow> identity server" where
  "login_server isEmail ccfg e rq st =
     (if hq_method rq = ''POST'' \<and> hq_url rq = ''/api/identity/auth/login''
      then (case post_login isEmail ccfg e
          \<lparr>ar_app = (case map_of (hq_headers rq) ''X-FB-App'' of None \<Rightarrow> NoHeader | Some a \<Rightarrow> OneValue a),
           ar_cookie = None, ar_body = nullish (hq_body rq) (JObj [])\<rparr> st of
            ((Inr acc, _), st') \<Rightarrow> (Some \<lparr>hs_status = 201, hs_body = Some (login_json acc)\<rparr>, st')
          | ((Inl err, _), st') \<Rightarrow> (Some \<lparr>hs_status = http_status err, hs_body = None\<rparr>, st'))
      else (Some \<lparr>hs_status = 404, hs_body = None\<rparr>, st))"

section \<open>What the seeds leave\<close>

definition seeded_as :: "user \<Rightarrow> user \<Rightarrow> bool" where
  "seeded_as r u \<longleftrightarrow> us_tenantId u = us_tenantId r \<and> us_role u = us_role r \<and> us_passwordHash u = us_passwordHash r"

lemma find_email_map_other:
  "us_email x \<noteq> m \<Longrightarrow> find_email m (map (\<lambda>y. if us_email y = us_email x
     then y\<lparr>us_tenantId := t, us_role := r, us_passwordHash := h\<rparr> else y) us) = find_email m us"
  by (induction us) (auto simp: find_email_def)

lemma find_email_map_self:
  "us_email x \<in> us_email ` set us \<Longrightarrow> \<exists>u. find_email (us_email x) (map (\<lambda>y. if us_email y = us_email x
     then y\<lparr>us_tenantId := us_tenantId x, us_role := us_role x, us_passwordHash := us_passwordHash x\<rparr> else y) us) = Some u
     \<and> seeded_as x u"
  by (induction us) (auto simp: find_email_def seeded_as_def)

lemma find_email_append:
  "find_email m (us @ vs) = (case find_email m us of Some u \<Rightarrow> Some u | None \<Rightarrow> find_email m vs)"
  by (induction us) (auto simp: find_email_def)

lemma find_email_None: "m \<notin> us_email ` set us \<Longrightarrow> find_email m us = None"
  by (induction us) (auto simp: find_email_def)

lemma upsert_user_other:
  assumes "upsert_user x us = Some us'" and "us_email x \<noteq> m"
  shows "find_email m us' = find_email m us"
proof -
  have "find_email m [x] = None" using assms(2) by (simp add: find_email_def)
  then show ?thesis using assms find_email_map_other [OF assms(2)]
    by (auto simp: upsert_user_def find_email_append split: if_splits option.splits)
qed

lemma upsert_user_self:
  assumes "upsert_user x us = Some us'"
  shows "\<exists>u. find_email (us_email x) us' = Some u \<and> seeded_as x u"
proof (cases "us_email x \<in> us_email ` set us")
  case True
  then have "us' = map (\<lambda>y. if us_email y = us_email x
     then y\<lparr>us_tenantId := us_tenantId x, us_role := us_role x, us_passwordHash := us_passwordHash x\<rparr> else y) us"
    using assms by (auto simp: upsert_user_def image_iff split: if_splits)
  with find_email_map_self [OF True] show ?thesis by simp
next
  case False
  then have "us' = us @ [x]" using assms by (auto simp: upsert_user_def image_iff split: if_splits)
  with find_email_None [OF False] show ?thesis by (simp add: find_email_append) (simp add: find_email_def seeded_as_def)
qed

lemma upsert_all_other:
  "upsert_all rows us = Some us' \<Longrightarrow> m \<notin> us_email ` set rows \<Longrightarrow> find_email m us' = find_email m us"
  by (induction rows arbitrary: us) (auto simp: upsert_user_other split: option.splits)

lemma upsert_all_find:
  assumes "upsert_all rows us = Some us'" and "distinct (map us_email rows)" and "r \<in> set rows"
  shows "\<exists>u. find_email (us_email r) us' = Some u \<and> seeded_as r u"
  using assms
proof (induction rows arbitrary: us)
  case (Cons x rows)
  then obtain us1 where us1: "upsert_user x us = Some us1" "upsert_all rows us1 = Some us'"
    by (auto split: option.splits)
  show ?case
  proof (cases "r = x")
    case True
    with upsert_user_self [OF us1(1)] upsert_all_other [OF us1(2), of "us_email x"] Cons.prems(2) show ?thesis by simp
  next
    case False
    with Cons.IH [OF us1(2)] Cons.prems show ?thesis by simp
  qed
qed simp

lemmas seed_defs = account_rows_def driver_rows_def operator_row_def tenantSlugs_def seed_tenants_def SEED_TENANTS_def
  upsert_tenant_def SEED_ROLES_def DRIVER_IDS_def driverUserId_def

lemma fresh_slugs: "tenantSlugs (seed_tenants []) = [''berlin'', ''tokyo'']"
  by (simp add: tenantSlugs_def seed_tenants_def SEED_TENANTS_def upsert_tenant_def)

definition seed_rows :: "(string \<Rightarrow> string) \<Rightarrow> string \<Rightarrow> user list" where
  "seed_rows newId h = account_rows newId h [''berlin'', ''tokyo''] @ driver_rows h [''berlin'', ''tokyo''] @ [operator_row newId h]"

lemma seed_rows_distinct: "distinct (map us_email (seed_rows newId h))"
  by (simp add: seed_rows_def account_rows_def driver_rows_def operator_row_def SEED_ROLES_def DRIVER_IDS_def role_defs)

lemma offered_found:
  "list_all (\<lambda>g. pg_requiredRole g \<noteq> [] \<and> list_all (\<lambda>(label, email).
     case find (\<lambda>r. us_email r = email) (seed_rows newId h) of
       None \<Rightarrow> False
     | Some r \<Rightarrow> us_role r = pg_requiredRole g \<and> us_passwordHash r = h
         \<and> us_tenantId r \<in> {''berlin'', ''tokyo'', ''platform''}) (pg_demoUsers g)) page_gates"
  by (simp add: page_gates_def customer_gate_def merchant_gate_def driver_gate_def operator_gate_def CUSTOMER_DEMOS_def
      MERCHANT_DEMOS_def DRIVER_DEMOS_def OPERATOR_DEMOS_def seed_rows_def account_rows_def driver_rows_def operator_row_def
      SEED_ROLES_def DRIVER_IDS_def role_defs)

lemma offered_rows:
  assumes "g \<in> set page_gates" and "(label, email) \<in> set (pg_demoUsers g)"
  shows "\<exists>r \<in> set (seed_rows newId h). us_email r = email \<and> us_role r = pg_requiredRole g \<and> us_passwordHash r = h
    \<and> us_tenantId r \<in> {''berlin'', ''tokyo'', ''platform''} \<and> pg_requiredRole g \<noteq> []"
proof -
  have "case find (\<lambda>r. us_email r = email) (seed_rows newId h) of
       None \<Rightarrow> False
     | Some r \<Rightarrow> us_role r = pg_requiredRole g \<and> us_passwordHash r = h \<and> us_tenantId r \<in> {''berlin'', ''tokyo'', ''platform''}"
    and ne: "pg_requiredRole g \<noteq> []"
    using offered_found [of h newId, unfolded list_all_iff] assms by (blast, blast)
  then obtain r where f: "find (\<lambda>r. us_email r = email) (seed_rows newId h) = Some r" and r: "us_role r = pg_requiredRole g"
    "us_passwordHash r = h" "us_tenantId r \<in> {''berlin'', ''tokyo'', ''platform''}"
    by (auto split: option.splits simp del: insert_iff)
  from f have "r \<in> set (seed_rows newId h)" "us_email r = email" by (auto simp: find_Some_iff)
  with r ne show ?thesis by blast
qed

section \<open>Signing in\<close>

text \<open>The claims of the principal, as the browser's decoding of a token shows them.\<close>

definition claims_of :: "auth_context \<Rightarrow> auth_claims" where
  "claims_of c = \<lparr>cl_sub = ac_sub c, cl_tenantId = ac_tenantId c, cl_role = ac_role c\<rparr>"

lemma login_succeeds:
  assumes "find_email email (id_users st) = Some u" and "ie_argon2 e (us_passwordHash u) password = Some True"
    and "ie_sign e (principal u) = Inr t"
    and "re_rowId (ie_rt e) \<notin> rt_id ` set (id_tokens st)" and "ie_hash e (re_raw (ie_rt e)) \<notin> rt_hash ` set (id_tokens st)"
  shows "login e email password st = (Inr (\<lparr>lr_accessToken = t, lr_expiresIn = ie_ttl e\<rparr>, re_raw (ie_rt e)),
    st\<lparr>id_tokens := id_tokens st @
      [new_row (ie_hash e) (ie_rtConfig e) (ie_rt e) (re_familyId (ie_rt e)) (us_id u) (us_tenantId u)]\<rparr>)"
  using assms by (simp add: login_def password_ok_def access_def issue_def create_row_def new_row_def)

lemma web_login_succeeds:
  assumes "isEmail email" and "password \<noteq> []" and "find_email email (id_users (br_net b)) = Some u"
    and "ie_argon2 e (us_passwordHash u) password = Some True" and "ie_sign e (principal u) = Inr t"
    and "re_rowId (ie_rt e) \<notin> rt_id ` set (id_tokens (br_net b))"
    and "ie_hash e (re_raw (ie_rt e)) \<notin> rt_hash ` set (id_tokens (br_net b))"
  shows "\<exists>st'. web_login wcfg (login_server isEmail ccfg e) email password b
      = (Inr (), b\<lparr>br_token := Some t, br_claims := Some (decodeClaims wcfg t), br_net := st'\<rparr>)
    \<and> length (id_tokens st') = Suc (length (id_tokens (br_net b))) \<and> id_users st' = id_users (br_net b)"
  using assms(1,2) login_succeeds [OF assms(3-7)]
  by (intro exI [of _ "(br_net b)\<lparr>id_tokens := id_tokens (br_net b) @
      [new_row (ie_hash e) (ie_rtConfig e) (ie_rt e) (re_familyId (ie_rt e)) (us_id u) (us_tenantId u)]\<rparr>"])
    (simp add: web_login_def login_server_def login_request_def auth_post_def post_login_def login_dto_def jget_def jstr_def
      hs_ok_def store_token_def login_json_def setToken_def)


text \<open>The driver of the first demo button of the driver's page, on a first start.\<close>

definition sample_driver :: auth_context where
  "sample_driver = \<lparr>ac_tenantId = ''berlin'', ac_role = ROLE_DRIVER, ac_sub = ''drv-1''\<rparr>"

definition sample_web :: web_config where
  "sample_web = \<lparr>wc_fbApp = Some ''driver'',
     wc_parse64 = (\<lambda>_. Some (JObj [(''sub'', JStr ''drv-1''), (''tenantId'', JStr ''berlin''), (''role'', JStr ROLE_DRIVER)])),
     wc_num = (\<lambda>_. [])\<rparr>"

definition seeded_users :: "user list" where
  "seeded_users = the (seed_users id ''h'' (seed_tenants []) [])"

lemma seeded_users: "seed_users id ''h'' (seed_tenants []) [] = Some seeded_users"
  "find_email ''drv-1@berlin.test'' seeded_users = Some \<lparr>us_id = ''drv-1'', us_tenantId = ''berlin'',
     us_email = ''drv-1@berlin.test'', us_passwordHash = ''h'', us_role = ROLE_DRIVER\<rparr>"
  by code_simp+


end
