(* ===== verification/Spec2Isabelle.thy ===== *)
theory Spec2Isabelle
  imports Order_Journey Schemas First_Start Web_Console Sign_In
begin

text \<open>
  FlashBite is a multi-tenant food-delivery platform: an event-sourced write side in Postgres, read
  models in MongoDB and Redis kept by Kafka consumers, two Temporal workflows per order, a service that
  issues the tokens, and four Next.js frontends. This development models the program under
  \<open>apps\<close> and \<open>packages\<close> as HOL functions over explicit states and proves what makes its parts correct.

  \<^bold>\<open>How the parts interact.\<close> A customer's checkout posts an order to the write service
  (\<open>Write_Api\<close>), which appends \<open>OrderPlaced\<close> to the event store and, in the same transaction, a row
  to the outbox (\<open>Event_Store\<close>). The outbox poller (\<open>Outbox_Poller\<close>) publishes the rows as
  Avro messages (\<open>Messaging\<close>); the projection worker (\<open>Inbox\<close>, \<open>Projection\<close>) keeps the documents
  that the read service (\<open>Read_Api\<close>) answers from, and the read service's feeders turn the same
  messages into live streams. The order-placed message also starts the order-lifecycle workflow
  (\<open>Order_Saga\<close>), which waits for the customer's confirmation, has the payment service
  (\<open>Payments\<close>) authorize, waits for the merchant's decision or the SLA, captures or voids, records
  the decision through the order aggregate (\<open>Order_Aggregate\<close>) and runs the driver-dispatch workflow
  (\<open>Dispatch_Saga\<close>) as a child, which offers the job to the nearest drivers in turn and records
  everything through the dispatch aggregate (\<open>Dispatch_Aggregate\<close>). Every request passes the
  middleware and guards of \<open>Tenant_Context\<close> in the order that \<open>Gateway\<close> has, with the tokens that \<open>Identity\<close>, \<open>Signing_Keys\<close>,
  \<open>Refresh_Tokens\<close> and \<open>Cookies\<close> issue and refresh. The frontends are the \<open>Web_*\<close> theories.

  \<^bold>\<open>Theories and code.\<close>
  \<^item> \<open>Prelude\<close>: results, strings, generic lemmas on lists and maps, the rule collections.
    \<open>Contracts\<close>: \<open>packages/contracts\<close>. \<open>Config\<close>: \<open>packages/shared/src/config.ts\<close>.
  \<^item> \<open>Event_Store\<close>: \<open>aggregate-store.ts\<close>, \<open>tenant-transaction.ts\<close>, the tables with their unique indexes and
    row-level-security policies as a state record \<open>pg_state\<close>; a transaction that fails leaves it as it was.
    \<open>Writers\<close>: command handlers that load, decide and append, interleaved (\<open>writers_reach\<close>); the
    locale \<open>aggregate_machine\<close> has what an aggregate must promise for its streams to stay legal, and is
    interpreted for the order (\<open>om\<close>) and the dispatch aggregate (\<open>dm\<close>).
  \<^item> \<open>Payments\<close>: \<open>apps/payments\<close>, each operation split into the read it plans from and its write, so
    that requests interleave (\<open>pay_reach\<close>).
  \<^item> \<open>Workflow_Runtime\<close>, \<open>Order_Saga\<close>, \<open>Dispatch_Saga\<close>, \<open>Saga_World\<close>, \<open>Saga_Properties\<close>:
    \<open>apps/saga-worker\<close>. A workflow is a function of its activities, given as a record; the locales
    \<open>order_saga_env\<close>, \<open>dispatch_env\<close>, \<open>order_frame\<close> and \<open>dispatch_frame\<close> say what it relies on, and
    \<open>Saga_World\<close> and \<open>Order_Journey\<close> interpret them on the worker's own activities over Postgres,
    payments and Redis. \<open>Order_Journey\<close> also follows an order from the cart through the write service
    and the event store to the charge.
  \<^item> \<open>Messaging\<close>: \<open>packages/messaging\<close>. \<open>Outbox_Poller\<close>: \<open>apps/outbox-poller\<close>.
    \<open>Inbox\<close>, \<open>Projection\<close>: \<open>apps/projection-worker\<close>; the locale \<open>inbox_consumer\<close> is interpreted for
    both projections (\<open>op\<close>, \<open>dp\<close>). \<open>Delivery\<close>, \<open>Delivery_Properties\<close>: event store, poller, one Kafka log
    and the two consumers composed (\<open>pipeline_reach\<close>), with appends, polls that fail half way, crashes and
    rewinds in any order. \<open>Schemas\<close>: \<open>packages/contracts/avro\<close>, with the writers' events typed against it.
    \<open>Services\<close>: the \<open>main.ts\<close> of the workers as sequences of acts on connections, the ports; \<open>First_Start\<close>: which
    messages a consumer group is served, with the pipeline going on.
  \<^item> \<open>Tenant_Context\<close>: \<open>packages/tenant-context\<close> and the tenant catalog. \<open>Write_Api\<close>:
    \<open>apps/write-api\<close>. \<open>Read_Api\<close>: \<open>apps/read-api\<close> and the telemetry worker. \<open>Gateway\<close>: the four HTTP
    services as their \<open>app.module.ts\<close> and the controllers' decorators wire them - routes, guards, roles.
    \<open>Wiring\<close>: their modules and constructors, and which instance each class is given.
  \<^item> \<open>Refresh_Tokens\<close>, \<open>Signing_Keys\<close>, \<open>Cookies\<close>, \<open>Identity\<close>: \<open>apps/identity\<close>.
  \<^item> \<open>Web_Session\<close> (\<open>auth-store.ts\<close>, \<open>authedFetch\<close>), \<open>Web_Api\<close> (the calls of \<open>client.ts\<close>, with the
    rewrites and the routes of the controllers), \<open>Web_Shell\<close> (gate, login form, catalog, branding),
    \<open>Web_Cart\<close> (menu, cart, checkout), \<open>Web_Orders\<close> (the merchant's and the operator's consoles),
    \<open>Web_Analytics\<close>, \<open>Web_Dispatch\<close> (driver's page and dispatch streams; the locale
    \<open>newest_wins\<close>), \<open>Web_Tracking\<close> (the customer's order page), \<open>Web_Tables\<close> (the data
    table and the three tables built on it), \<open>Web_Console\<close> (charts, maps with their popups, the two
    dashboards, error pages, the stream routes, the carousel): \<open>packages/web-shared\<close> and \<open>apps/web-*\<close>.
    \<open>Sign_In\<close>: from the seeded accounts through the login form to a page's gate.

  \<^bold>\<open>What is shown.\<close> Streams of events stay contiguous and legal under every interleaving, and a race has one
  winner; the workflows end in exactly the states they promise, whatever is signalled and lost; payments
  settle once; a customer is charged exactly the total of the cart, and a workflow touches no order but
  its own; every event that is appended fits the schema it is encoded with, unless a quantity exceeds
  32 bits; tenants see only their own data, the services fail closed on every route and a login opens exactly the routes of
  its account's role, each account that a page offers signs in; the outbox delivers at least once
  and the read models refine the aggregates, whatever is duplicated, crashed or rebuilt; refresh
  tokens rotate with one active per family and reuse is detected, the browser's single flight never
  runs into that detection; the cart checks out as shown, every call of the frontends reaches its
  handler, boards and maps converge, and polling ends. Where the code does less than it means to, a theorem
  says so (a capture whose replies are all lost, a driver left busy, rotations that fork a family,
  a console that misses new orders, a tracking page that freezes during the delivery, an oversized
  order that halts the outbox for every tenant, orders lost to a consumer group that starts after them, a
  merchant's list that is open to every role).

  \<^bold>\<open>Conventions.\<close> Times are integers in milliseconds or seconds as in the code; a date string is an ISO
  time or some other string. Amounts are integers; JavaScript's numbers are exact for the values that occur.
  Strings are HOL strings, so characters above U+00FF are outside the model. Randomness, clocks, generated ids
  and the outcome of each attempt (\<open>Deliver\<close>, \<open>LoseRequest\<close>, \<open>LoseReply\<close>) are arguments. Third-party code is
  a parameter: the Avro codec, Kafka, GEOSEARCH, argon2, AES-GCM, the JWT library, the Temporal client,
  base64, \<open>JSON.parse\<close> in the browser, \<open>localeCompare\<close>, TanStack Table, Embla; Recharts and Mapbox draw what
  the definitions give them. React's effects, timers and stream callbacks
  are events of explicit states.

  \<^bold>\<open>Bounds.\<close> No definition needs fuel that the code does not have: the five attempts of an activity, the
  at most \<open>maxOffers\<close> offers, the hundred rows of a poll, the ten fetches of a new order's row and the
  170 attempts of the tracking page are the code's own limits. Endless loops (the poller's, the
  consumers') are step relations.

  \<^bold>\<open>Not modelled.\<close> What the health checks answer, the connecting and closing of the clients of
  Prisma, MongoDB, Redis and Temporal, the logger; styling, fonts and layouts; the UI primitives under
  \<open>components/ui\<close> other than the carousel, which pass properties to third-party components and set
  class names;
  spikes, scripts, tests and infrastructure. Temporal's own durability (replay, timers) is taken as
  documented: a workflow runs once, an activity is attempted until it answers, at most five times.
\<close>

end
